(* ===== verification/Prelude.thy ===== *)
theory Prelude
  imports
    Main
    "HOL-Library.Word"
    "HOL-Library.Char_ord"
    "HOL-Library.List_Lexorder"
    "HOL-Library.Product_Lexorder"
    "HOL-Library.Option_ord"
begin

text \<open>
  Shared vocabulary of the development: fixed-width integers, Rust results, byte views of
  strings, and the slice and vector operations of the Rust standard library that several
  components use (\<open>sort\<close> followed by \<open>dedup\<close>, \<open>dedup_by_key\<close>, \<open>windows(2)\<close>, \<open>checked_add\<close>,
  \<open>saturating_add\<close>). A Rust \<open>str\<close> is modelled by its UTF-8 bytes, one \<open>char\<close> per byte, so
  \<open>length\<close> is Rust's \<open>len()\<close> and the lexicographic order on \<open>string\<close> is Rust's \<open>Ord for str\<close>.
\<close>

unbundle bit_operations_syntax

section \<open>Types\<close>

type_synonym u8 = "8 word"
type_synonym u16 = "16 word"
type_synonym u32 = "32 word"
type_synonym u64 = "64 word"

datatype ('a, 'e) result = Ok 'a | Err 'e

datatype ('a, 'e) outcome = Return "('a, 'e) result" | Panic

named_theorems guard_defs \<open>definitions of validation guards, unfolded to read off what a check implies\<close>

section \<open>Results\<close>

fun rbind :: "('a, 'e) result \<Rightarrow> ('a \<Rightarrow> ('b, 'e) result) \<Rightarrow> ('b, 'e) result" where
  "rbind (Ok a) f = f a"
| "rbind (Err e) f = Err e"

definition ensure :: "bool \<Rightarrow> 'e \<Rightarrow> (unit, 'e) result" where
  "ensure b e = (if b then Ok () else Err e)"

fun is_ok :: "('a, 'e) result \<Rightarrow> bool" where
  "is_ok (Ok a) = True"
| "is_ok (Err e) = False"

fun map_err :: "('e \<Rightarrow> 'f) \<Rightarrow> ('a, 'e) result \<Rightarrow> ('a, 'f) result" where
  "map_err f (Ok a) = Ok a"
| "map_err f (Err e) = Err (f e)"

fun ok_or :: "'e \<Rightarrow> 'a option \<Rightarrow> ('a, 'e) result" where
  "ok_or e (Some a) = Ok a"
| "ok_or e None = Err e"

text \<open>Collecting an iterator of results stops at the first error, as \<open>collect::<Result<_, _>>\<close> does.\<close>

fun collect_results :: "('a \<Rightarrow> ('b, 'e) result) \<Rightarrow> 'a list \<Rightarrow> ('b list, 'e) result" where
  "collect_results f [] = Ok []"
| "collect_results f (x # xs) = rbind (f x) (\<lambda>y. rbind (collect_results f xs) (\<lambda>ys. Ok (y # ys)))"

lemma rbind_Ok_iff [simp]: "rbind r f = Ok b \<longleftrightarrow> (\<exists>a. r = Ok a \<and> f a = Ok b)"
  by (cases r) auto

lemma ensure_Ok_iff [simp]: "ensure b e = Ok u \<longleftrightarrow> b"
  by (simp add: ensure_def)

lemma ensure_True [simp]: "ensure True e = Ok ()"
  by (simp add: ensure_def)

lemma ok_or_Ok_iff [simp]: "ok_or e x = Ok a \<longleftrightarrow> x = Some a"
  by (cases x) auto

lemma map_err_Ok_iff [simp]: "map_err f r = Ok a \<longleftrightarrow> r = Ok a"
  by (cases r) auto

text \<open>A guard that returns early: what remains when the function succeeds.\<close>

lemma guard_Ok_iff: "(if c then Err e else r) = Ok a \<longleftrightarrow> \<not> c \<and> r = Ok a"
  by simp

lemma is_ok_iff: "is_ok r \<longleftrightarrow> (\<exists>a. r = Ok a)"
  by (cases r) auto

lemma collect_results_Ok_iff:
  "collect_results f xs = Ok ys \<longleftrightarrow> list_all2 (\<lambda>x y. f x = Ok y) xs ys"
proof (induction xs arbitrary: ys)
  case Nil
  then show ?case by (auto simp: eq_commute)
next
  case (Cons x xs)
  then show ?case by (auto simp: list_all2_Cons1)
qed

lemma collect_results_Ok_map:
  assumes "collect_results f xs = Ok ys" and "\<And>x y. f x = Ok y \<Longrightarrow> y = g x"
  shows "ys = map g xs"
  using assms(1) unfolding collect_results_Ok_iff
  by (induction rule: list_all2_induct) (auto dest: assms(2))

lemma collect_results_set:
  "collect_results f xs = Ok ys \<Longrightarrow> y \<in> set ys \<Longrightarrow> \<exists>x \<in> set xs. f x = Ok y"
  unfolding collect_results_Ok_iff by (auto simp: in_set_conv_nth list_all2_conv_all_nth Bex_def)

section \<open>Bytes and integers\<close>

definition as_bytes :: "string \<Rightarrow> u8 list" where
  "as_bytes s = map of_char s"

text \<open>\<open>to_le_bytes\<close> of an unsigned integer of \<open>k\<close> bytes.\<close>

fun le_bytes :: "nat \<Rightarrow> nat \<Rightarrow> u8 list" where
  "le_bytes 0 n = []"
| "le_bytes (Suc k) n = word_of_nat (n mod 256) # le_bytes k (n div 256)"

definition u64_le :: "u64 \<Rightarrow> u8 list" where
  "u64_le n = le_bytes 8 (unat n)"

definition u32_le :: "u32 \<Rightarrow> u8 list" where
  "u32_le n = le_bytes 4 (unat n)"

definition u16_le :: "u16 \<Rightarrow> u8 list" where
  "u16_le n = le_bytes 2 (unat n)"

definition checked_add :: "'a::len word \<Rightarrow> 'a word \<Rightarrow> 'a word option" where
  "checked_add a b = (if unat a + unat b < 2 ^ LENGTH('a) then Some (a + b) else None)"

definition saturating_add :: "'a::len word \<Rightarrow> 'a word \<Rightarrow> 'a word" where
  "saturating_add a b = (if unat a + unat b < 2 ^ LENGTH('a) then a + b else - 1)"

lemma unat_add_lt: "unat a + unat b < 2 ^ LENGTH('a) \<Longrightarrow> unat (a + b) = unat a + unat b"
  for a b :: "'a::len word"
  by (simp add: unat_word_ariths)

lemma checked_add_Some: "checked_add a b = Some c \<Longrightarrow> unat c = unat a + unat b"
  by (auto simp: checked_add_def unat_add_lt split: if_splits)

lemma unat_saturating_add:
  "unat (saturating_add a b) = min (unat a + unat b) (2 ^ LENGTH('a) - 1)"
  for a b :: "'a::len word"
  by (auto simp: saturating_add_def unat_add_lt unsigned_minus_1_eq_mask mask_eq_exp_minus_1 min_def)

lemma saturating_add_self_le: "a \<le> saturating_add a b"
  for a b :: "'a::len word"
proof -
  have "unat a < 2 ^ LENGTH('a)" by (rule unsigned_less)
  then have "unat a \<le> 2 ^ LENGTH('a) - 1" by linarith
  then show ?thesis by (simp add: word_le_nat_alt unat_saturating_add)
qed

lemma unat_of_char [simp]: "unat (of_char c :: u8) = of_char c"
proof -
  have "of_char c < (256 :: nat)"
    using of_char_mod_256 [of c, where 'a = nat] by (metis mod_less_divisor zero_less_numeral)
  then have "unat (word_of_nat (of_char c) :: u8) = of_char c"
    by (simp add: unat_of_nat)
  then show ?thesis by (simp only: of_nat_of_char)
qed

lemma of_char_u8_eq_iff [simp]: "(of_char c :: u8) = of_char d \<longleftrightarrow> c = d"
  by (metis of_char_eq_iff unat_of_char)

lemma as_bytes_inj [simp]: "as_bytes s = as_bytes t \<longleftrightarrow> s = t"
  unfolding as_bytes_def by (rule inj_map_eq_map) (simp add: inj_def)

lemma length_as_bytes [simp]: "length (as_bytes s) = length s"
  by (simp add: as_bytes_def)

lemma length_le_bytes [simp]: "length (le_bytes k n) = k"
  by (induction k arbitrary: n) auto

lemma le_bytes_eq_Nil [simp]: "le_bytes k n = [] \<longleftrightarrow> k = 0"
  by (cases k) auto

lemma le_bytes_inj: "n < 256 ^ k \<Longrightarrow> m < 256 ^ k \<Longrightarrow> le_bytes k n = le_bytes k m \<Longrightarrow> n = m"
proof (induction k arbitrary: n m)
  case 0
  then show ?case by simp
next
  case (Suc k)
  from Suc.prems have rest: "le_bytes k (n div 256) = le_bytes k (m div 256)"
    and low: "(word_of_nat (n mod 256) :: u8) = word_of_nat (m mod 256)" by auto
  from low have "unat (word_of_nat (n mod 256) :: u8) = unat (word_of_nat (m mod 256) :: u8)" by simp
  then have m1: "n mod 256 = m mod 256" by (simp add: unat_of_nat)
  have "n div 256 < 256 ^ k" "m div 256 < 256 ^ k"
    using Suc.prems by (auto simp: less_mult_imp_div_less mult.commute)
  with Suc.IH rest have "n div 256 = m div 256" by blast
  with m1 show ?case by (metis div_mult_mod_eq)
qed

lemma le_bytes_word_inj:
  "u64_le a = u64_le b \<Longrightarrow> a = b" "u32_le x = u32_le y \<Longrightarrow> x = y"
proof -
  show "a = b" if "u64_le a = u64_le b"
    using le_bytes_inj [of "unat a" 8 "unat b"] that unsigned_less [of a, where 'a = nat] unsigned_less [of b, where 'a = nat]
    by (simp add: u64_le_def word_unat_eq_iff)
  show "x = y" if "u32_le x = u32_le y"
    using le_bytes_inj [of "unat x" 4 "unat y"] that unsigned_less [of x, where 'a = nat] unsigned_less [of y, where 'a = nat]
    by (simp add: u32_le_def word_unat_eq_iff)
qed

text \<open>ASCII classes of a byte (\<open>u8::is_ascii_lowercase\<close> and so on).\<close>

definition char_code :: "char \<Rightarrow> nat" where
  "char_code c = of_char c"

definition is_ascii_lowercase :: "char \<Rightarrow> bool" where
  "is_ascii_lowercase c \<longleftrightarrow> 97 \<le> char_code c \<and> char_code c \<le> 122"

definition is_ascii_uppercase :: "char \<Rightarrow> bool" where
  "is_ascii_uppercase c \<longleftrightarrow> 65 \<le> char_code c \<and> char_code c \<le> 90"

definition is_ascii_digit :: "char \<Rightarrow> bool" where
  "is_ascii_digit c \<longleftrightarrow> 48 \<le> char_code c \<and> char_code c \<le> 57"

definition is_ascii_alphanumeric :: "char \<Rightarrow> bool" where
  "is_ascii_alphanumeric c \<longleftrightarrow> is_ascii_lowercase c \<or> is_ascii_uppercase c \<or> is_ascii_digit c"

lemmas ascii_defs = char_code_def is_ascii_lowercase_def is_ascii_uppercase_def is_ascii_digit_def
  is_ascii_alphanumeric_def

text \<open>\<open>str::starts_with\<close>, \<open>str::contains\<close> and \<open>str::ends_with\<close> on a string pattern.\<close>

fun starts_with :: "string \<Rightarrow> string \<Rightarrow> bool" where
  "starts_with [] s = True"
| "starts_with (p # ps) [] = False"
| "starts_with (p # ps) (c # cs) = (p = c \<and> starts_with ps cs)"

fun str_contains :: "string \<Rightarrow> string \<Rightarrow> bool" where
  "str_contains pat [] = (pat = [])"
| "str_contains pat (c # cs) = (starts_with pat (c # cs) \<or> str_contains pat cs)"

definition ends_with :: "string \<Rightarrow> string \<Rightarrow> bool" where
  "ends_with pat s = starts_with (rev pat) (rev s)"

lemma starts_with_iff: "starts_with p s \<longleftrightarrow> (\<exists>t. s = p @ t)"
  by (induction p s rule: starts_with.induct) auto

lemma str_contains_iff: "str_contains p s \<longleftrightarrow> (\<exists>a b. s = a @ p @ b)"
proof (induction s)
  case (Cons c cs)
  have "(\<exists>a b. c # cs = a @ p @ b) \<longleftrightarrow> (\<exists>b. c # cs = p @ b) \<or> (\<exists>a b. cs = a @ p @ b)"
    by (metis append_Cons append_Nil list.exhaust_sel list.sel(3) append.simps(1) tl_append2)
  with Cons show ?case by (simp add: starts_with_iff)
qed auto

section \<open>Vectors and slices\<close>

text \<open>\<open>v.sort(); v.dedup()\<close>.\<close>

definition sort_dedup :: "'a::linorder list \<Rightarrow> 'a list" where
  "sort_dedup xs = remdups_adj (sort xs)"

text \<open>\<open>v.dedup_by_key(f)\<close> keeps the first element of every run of equal keys.\<close>

fun dedup_by_key :: "('a \<Rightarrow> 'k) \<Rightarrow> 'a list \<Rightarrow> 'a list" where
  "dedup_by_key f [] = []"
| "dedup_by_key f [x] = [x]"
| "dedup_by_key f (x # y # xs) =
     (if f x = f y then dedup_by_key f (x # xs) else x # dedup_by_key f (y # xs))"

lemma set_sort_dedup [simp]: "set (sort_dedup xs) = set xs"
  by (simp add: sort_dedup_def)

lemma sorted_distinct_adj_strict: "sorted xs \<Longrightarrow> distinct_adj xs \<Longrightarrow> sorted_wrt (<) xs"
  for xs :: "'a::linorder list"
  by (induction xs rule: remdups_adj.induct) (auto simp: order_less_le)

lemma strict_sort_dedup [simp]: "sorted_wrt (<) (sort_dedup xs)"
  unfolding sort_dedup_def by (rule sorted_distinct_adj_strict) (simp_all add: sorted_remdups_adj)

lemma sort_dedup_id: "sorted_wrt (<) xs \<Longrightarrow> sort_dedup xs = xs"
  by (simp add: sort_dedup_def strict_sorted_iff sorted_sort_id remdups_adj_distinct)

lemma sort_dedup_eq_iff: "sort_dedup xs = sort_dedup ys \<longleftrightarrow> set xs = set ys"
proof
  assume "set xs = set ys"
  then show "sort_dedup xs = sort_dedup ys"
    by (intro strict_sorted_equal) auto
next
  assume "sort_dedup xs = sort_dedup ys"
  then show "set xs = set ys" by (metis set_sort_dedup)
qed

lemma successively_less: "successively (<) xs \<longleftrightarrow> sorted_wrt (<) xs"
  for xs :: "'a::order list"
  by (rule successively_conv_sorted_wrt) (auto simp: transp_def)

lemma successively_less_key:
  "successively (\<lambda>x y. f x < f y) xs \<longleftrightarrow> sorted_wrt (<) (map f xs)"
  for f :: "'b \<Rightarrow> 'a::order"
  by (simp add: successively_less [symmetric] successively_map)

lemma set_dedup_by_key_subset: "set (dedup_by_key f xs) \<subseteq> set xs"
  by (induction f xs rule: dedup_by_key.induct) auto

lemma dedup_by_key_subset: "x \<in> set (dedup_by_key f xs) \<Longrightarrow> x \<in> set xs"
  using set_dedup_by_key_subset by fast

lemma dedup_by_key_keys: "f ` set (dedup_by_key f xs) = f ` set xs"
  by (induction f xs rule: dedup_by_key.induct) auto

lemma dedup_by_key_Nil [simp]: "dedup_by_key f xs = [] \<longleftrightarrow> xs = []"
  by (induction f xs rule: dedup_by_key.induct) auto

lemma length_dedup_by_key: "length (dedup_by_key f xs) \<le> length xs"
  by (induction f xs rule: dedup_by_key.induct) auto

text \<open>On a list ordered by a key that has \<open>f\<close> as its major part, the kept elements are strictly ordered.\<close>

lemma dedup_by_key_strict:
  fixes f :: "'a \<Rightarrow> 'k::linorder"
  assumes "sorted (map f xs)"
  shows "sorted_wrt (<) (map f (dedup_by_key f xs))"
  using assms
proof (induction f xs rule: dedup_by_key.induct)
  case (3 f x y xs)
  show ?case
  proof (cases "f x = f y")
    case True
    with 3 show ?thesis by simp
  next
    case False
    have "f x < f z" if "z \<in> set (y # xs)" for z
      using False 3(3) that by (force simp: order_less_le)
    then have "f x < f z" if "z \<in> set (dedup_by_key f (y # xs))" for z
      using that dedup_by_key_subset by fast
    with False 3 show ?thesis by auto
  qed
qed auto

section \<open>Standard-library helpers on strings\<close>

text \<open>\<open>str::split_ascii_whitespace\<close>: maximal runs of bytes other than space, tab, LF, FF and CR.\<close>

definition is_ascii_whitespace :: "char \<Rightarrow> bool" where
  "is_ascii_whitespace c \<longleftrightarrow> char_code c \<in> {32, 9, 10, 12, 13}"

fun split_ws_acc :: "string \<Rightarrow> string \<Rightarrow> string list" where
  "split_ws_acc acc [] = (if acc = [] then [] else [rev acc])"
| "split_ws_acc acc (c # cs) =
     (if is_ascii_whitespace c
      then (if acc = [] then split_ws_acc [] cs else rev acc # split_ws_acc [] cs)
      else split_ws_acc (c # acc) cs)"

definition split_ascii_whitespace :: "string \<Rightarrow> string list" where
  "split_ascii_whitespace s = split_ws_acc [] s"

text \<open>\<open>str::trim_matches\<close> with a predicate on ASCII characters.\<close>

definition trim_matches :: "(char \<Rightarrow> bool) \<Rightarrow> string \<Rightarrow> string" where
  "trim_matches P s = rev (dropWhile P (rev (dropWhile P s)))"

text \<open>\<open>[String]::join\<close>.\<close>

fun join :: "string \<Rightarrow> string list \<Rightarrow> string" where
  "join sep [] = []"
| "join sep [x] = x"
| "join sep (x # y # xs) = x @ sep @ join sep (y # xs)"

section \<open>Ordered maps\<close>

text \<open>
  \<open>BTreeMap\<close> as an association list in key order: \<open>get\<close> is \<open>map_of\<close>, iteration is list order.
\<close>

fun btree_insert :: "'k::linorder \<Rightarrow> 'v \<Rightarrow> ('k \<times> 'v) list \<Rightarrow> ('k \<times> 'v) list" where
  "btree_insert k v [] = [(k, v)]"
| "btree_insert k v ((l, w) # m) =
     (if k < l then (k, v) # (l, w) # m else if k = l then (k, v) # m else (l, w) # btree_insert k v m)"

abbreviation btree :: "('k::linorder \<times> 'v) list \<Rightarrow> bool" where
  "btree m \<equiv> sorted_wrt (<) (map fst m)"

lemma set_keys_btree_insert [simp]: "fst ` set (btree_insert k v m) = insert k (fst ` set m)"
  by (induction k v m rule: btree_insert.induct) auto

lemma map_of_btree_insert [simp]: "map_of (btree_insert k v m) = (map_of m)(k \<mapsto> v)"
  by (induction k v m rule: btree_insert.induct) (auto simp: fun_eq_iff)

lemma btree_btree_insert: "btree m \<Longrightarrow> btree (btree_insert k v m)"
proof (induction k v m rule: btree_insert.induct)
  case (2 k v l w m)
  have "\<forall>x \<in> fst ` set (btree_insert k v m). l < x" if "\<not> k < l" "k \<noteq> l"
    using 2 that by auto
  with 2 show ?case by (auto simp: less_trans)
qed simp

lemma btree_distinct: "btree m \<Longrightarrow> distinct (map fst m)"
  by (simp add: strict_sorted_iff)

text \<open>
  The interface the merge loops rely on: what a lookup returns after an insert, and that the
  iteration order stays strictly increasing.
\<close>

locale ordered_map =
  fixes get :: "'m \<Rightarrow> 'k::linorder \<Rightarrow> 'v option"
    and ins :: "'k \<Rightarrow> 'v \<Rightarrow> 'm \<Rightarrow> 'm"
    and entries :: "'m \<Rightarrow> ('k \<times> 'v) list"
    and invar :: "'m \<Rightarrow> bool"
  assumes get_ins: "get (ins k v m) = (get m)(k \<mapsto> v)"
    and invar_ins: "invar m \<Longrightarrow> invar (ins k v m)"
    and entries_sorted: "invar m \<Longrightarrow> sorted_wrt (<) (map fst (entries m))"
    and entries_get: "invar m \<Longrightarrow> (k, v) \<in> set (entries m) \<longleftrightarrow> get m k = Some v"
begin

lemma get_insert_all: "get (fold (\<lambda>(k, v). ins k v) kvs m) = get m ++ map_of (rev kvs)"
  by (induction kvs arbitrary: m) (auto simp: get_ins map_add_def fun_eq_iff split: option.splits)

lemma invar_insert_all: "invar m \<Longrightarrow> invar (fold (\<lambda>(k, v). ins k v) kvs m)"
  by (induction kvs arbitrary: m) (auto simp: invar_ins)

lemma entries_bounded: "invar m \<Longrightarrow> finite A \<Longrightarrow> (\<And>k v. get m k = Some v \<Longrightarrow> k \<in> A) \<Longrightarrow> length (entries m) \<le> card A"
proof -
  assume m: "invar m" and A: "finite A" "\<And>k v. get m k = Some v \<Longrightarrow> k \<in> A"
  have "set (map fst (entries m)) \<subseteq> A" using A(2) entries_get [OF m] by auto
  then have "card (set (map fst (entries m))) \<le> card A" by (rule card_mono [OF A(1)])
  moreover have "distinct (map fst (entries m))" using entries_sorted [OF m] by (simp add: strict_sorted_iff)
  then have "card (set (map fst (entries m))) = length (entries m)"
    using distinct_card by fastforce
  ultimately show ?thesis by simp
qed

end

interpretation btm: ordered_map map_of btree_insert "\<lambda>m. m" btree
  by unfold_locales (auto simp: btree_btree_insert btree_distinct intro: map_of_is_SomeI map_of_SomeD)

end
