(* ===== verification/Planner_DP.thy ===== *)
theory Planner_DP
  imports Prelude
begin

text \<open>
  The bit-mask dynamic program shared by the two loops of
  \<^verbatim>\<open>crates/needle-runtime/src/proof.rs\<close> (\<open>plan_validity\<close> and \<open>plan_economics\<close>), as a hierarchy of
  locales. \<open>mask_dp\<close> states what one iteration of the inner loop does and derives soundness: every
  table entry is the value of an increasing list of candidate indices that covers exactly its mask.
  \<open>mask_dp_mono\<close> adds that extending by a candidate is monotone. Two ways to completeness extend
  it: \<open>mask_dp_count\<close>, where the order puts the number of selected artifacts first, and
  \<open>mask_dp_drop\<close>, where leaving a candidate out always improves the value and the artifact limit is
  at least the number of obligations. The interpretations are in the theory of the planner.
\<close>

section \<open>Masks\<close>

definition fits :: "nat \<Rightarrow> u16 \<Rightarrow> bool" where
  "fits w m \<longleftrightarrow> (\<forall>b. bit m b \<longrightarrow> b < w)"

text \<open>\<open>(0..state_count).rev()\<close> with \<open>state_count = 1 << w\<close>, as 16-bit masks.\<close>

definition masks_desc :: "nat \<Rightarrow> u16 list" where
  "masks_desc w = rev (map word_of_nat [0..<2 ^ w])"

lemma fits_0 [simp]: "fits w 0"
  by (simp add: fits_def)

lemma fits_or [simp]: "fits w (m OR k) \<longleftrightarrow> fits w m \<and> fits w k"
  by (auto simp: fits_def bit_or_iff)

lemma fits_16 [simp]: "fits 16 m"
  by (auto simp: fits_def dest: bit_imp_le_length)

lemma fits_min [simp]: "fits (min v w) m \<longleftrightarrow> fits v m \<and> fits w m"
  by (auto simp: fits_def)

lemma fits_iff: "fits w m \<longleftrightarrow> unat m < 2 ^ w"
proof -
  have "fits w m \<longleftrightarrow> take_bit w m = m"
    unfolding fits_def bit_eq_iff bit_take_bit_iff by (meson bit_imp_possible_bit)
  also have "\<dots> \<longleftrightarrow> unat (take_bit w m) = unat m" by (rule word_unat_eq_iff)
  also have "\<dots> \<longleftrightarrow> take_bit w (unat m) = unat m" by (simp only: unsigned_take_bit_eq)
  finally show ?thesis by (simp only: take_bit_nat_eq_self_iff)
qed

lemma small_exp: "w \<le> 16 \<Longrightarrow> x < 2 ^ w \<Longrightarrow> x < (65536 :: nat)"
  using power_increasing [of w 16 "2 :: nat"] by simp

lemma unat_word_of_nat_u16 [simp]: "x < 65536 \<Longrightarrow> unat (word_of_nat x :: u16) = x"
  by (simp add: unat_of_nat)

lemma set_masks_desc: "w \<le> 16 \<Longrightarrow> set (masks_desc w) = {m. fits w m}"
proof (intro set_eqI iffI)
  fix m
  assume w: "w \<le> 16" and "m \<in> set (masks_desc w)"
  then obtain x where "x < 2 ^ w" "m = word_of_nat x" by (auto simp: masks_desc_def)
  with small_exp [OF w] show "m \<in> {m. fits w m}" by (simp add: fits_iff)
next
  fix m
  assume "m \<in> {m. fits w m}"
  then have "unat m \<in> {0..<2 ^ w}" "m = word_of_nat (unat m)" by (auto simp: fits_iff)
  then show "m \<in> set (masks_desc w)" unfolding masks_desc_def by (metis image_eqI set_map set_rev set_upt)
qed

lemma sorted_masks_desc: "w \<le> 16 \<Longrightarrow> sorted_wrt (\<lambda>x y. y < x) (masks_desc w)"
  unfolding masks_desc_def sorted_wrt_rev sorted_wrt_map
  by (rule sorted_wrt_mono_rel [of _ "(<)"]) (auto simp: word_less_nat_alt dest: small_exp)

section \<open>The table loop\<close>

locale mask_dp =
  fixes step :: "nat \<Rightarrow> u16 \<Rightarrow> (u16 \<rightharpoonup> 's) \<Rightarrow> (u16 \<rightharpoonup> 's)"
    and cov :: "nat \<Rightarrow> u16"
    and root :: 's
    and ext :: "nat \<Rightarrow> 's \<Rightarrow> 's"
    and cnt :: "'s \<Rightarrow> nat"
    and key :: "'s \<Rightarrow> 'k::linorder"
    and limit :: nat
    and width :: nat
  assumes step_eq: "step i m st =
      (case st m of
         None \<Rightarrow> st
       | Some e \<Rightarrow>
           if limit \<le> cnt e then st
           else case st (m OR cov i) of
             None \<Rightarrow> st(m OR cov i \<mapsto> ext i e)
           | Some c \<Rightarrow> if key (ext i e) < key c then st(m OR cov i \<mapsto> ext i e) else st)"
    and cnt_root: "cnt root = 0"
    and cnt_ext: "cnt e < limit \<Longrightarrow> cnt (ext i e) = Suc (cnt e)"
    and cov_fits: "fits width (cov i)"
    and width_le: "width \<le> 16"
begin

definition round :: "nat \<Rightarrow> (u16 \<rightharpoonup> 's) \<Rightarrow> (u16 \<rightharpoonup> 's)" where
  "round i st = (if cov i = 0 then st else fold (step i) (masks_desc width) st)"

definition stage :: "nat \<Rightarrow> (u16 \<rightharpoonup> 's)" where
  "stage k = fold round [0..<k] [0 \<mapsto> root]"

definition run :: "nat list \<Rightarrow> 's" where
  "run xs = fold ext xs root"

definition cover :: "nat list \<Rightarrow> u16" where
  "cover xs = fold (\<lambda>i m. m OR cov i) xs 0"

definition picks :: "nat \<Rightarrow> nat list \<Rightarrow> bool" where
  "picks k xs \<longleftrightarrow> sorted_wrt (<) xs \<and> (\<forall>x \<in> set xs. x < k \<and> cov x \<noteq> 0)"

lemma run_simps [simp]: "run [] = root" "run (xs @ [i]) = ext i (run xs)"
  by (simp_all add: run_def)

lemma cover_simps [simp]: "cover [] = 0" "cover (xs @ [i]) = cover xs OR cov i"
  by (simp_all add: cover_def)

lemma bit_cover: "bit (cover xs) b \<longleftrightarrow> (\<exists>x \<in> set xs. bit (cov x) b)"
  by (induction xs rule: rev_induct) (auto simp: bit_or_iff)

lemma cover_fits [simp]: "fits width (cover xs)"
  by (induction xs rule: rev_induct) (auto simp: cov_fits)

lemma stage_simps [simp]: "stage 0 = [0 \<mapsto> root]" "stage (Suc k) = round k (stage k)"
  by (simp_all add: stage_def)

text \<open>What holds between the table \<open>old\<close> before a round and the table \<open>st\<close> with \<open>rest\<close> still to visit.\<close>

definition progress :: "nat \<Rightarrow> (u16 \<rightharpoonup> 's) \<Rightarrow> u16 set \<Rightarrow> (u16 \<rightharpoonup> 's) \<Rightarrow> bool" where
  "progress i old rest st \<longleftrightarrow>
     (\<forall>m \<in> rest. st m = old m) \<and>
     (\<forall>m s. st m = Some s \<longrightarrow> old m = Some s \<or>
        (\<exists>m' e. fits width m' \<and> old m' = Some e \<and> cnt e < limit \<and> m = m' OR cov i \<and> s = ext i e)) \<and>
     (\<forall>m s. old m = Some s \<longrightarrow> (\<exists>s'. st m = Some s' \<and> key s' \<le> key s)) \<and>
     (\<forall>m e. fits width m \<and> m \<notin> rest \<and> old m = Some e \<and> cnt e < limit \<longrightarrow>
        (\<exists>s'. st (m OR cov i) = Some s' \<and> key s' \<le> key (ext i e)))"

lemma progress_start: "progress i old (Collect (fits width)) old"
  by (auto simp: progress_def)

lemma progress_skip:
  assumes "progress i old (insert m rest) st"
    and "\<And>e. old m = Some e \<Longrightarrow> cnt e < limit \<Longrightarrow>
      \<exists>s'. st (m OR cov i) = Some s' \<and> key s' \<le> key (ext i e)"
  shows "progress i old rest st"
  unfolding progress_def
proof (intro conjI allI impI)
  fix x e assume x: "fits width x \<and> x \<notin> rest \<and> old x = Some e \<and> cnt e < limit"
  show "\<exists>s'. st (x OR cov i) = Some s' \<and> key s' \<le> key (ext i e)"
  proof (cases "x = m")
    case True
    with assms(2) x show ?thesis by blast
  next
    case False
    with assms(1) x show ?thesis unfolding progress_def by blast
  qed
qed (use assms(1) in \<open>auto simp: progress_def\<close>)

lemma progress_step:
  assumes "progress i old (insert m rest) st" and "\<And>x. x \<in> rest \<Longrightarrow> x < m" and "fits width m"
  shows "progress i old rest (step i m st)"
proof (cases "st m")
  case None
  then have "step i m st = st" "old m = None" using assms(1) by (simp_all add: step_eq progress_def)
  with progress_skip [OF assms(1)] show ?thesis by simp
next
  case (Some e)
  with assms(1) have old: "old m = Some e" by (simp add: progress_def)
  have nr: "m OR cov i \<notin> rest" using assms(2) le_word_or2 [of m "cov i"] by (metis leD)
  show ?thesis
  proof (cases "limit \<le> cnt e")
    case True
    then have "step i m st = st" by (simp add: step_eq Some)
    with progress_skip [OF assms(1)] old True show ?thesis by simp
  next
    case lim: False
    show ?thesis
    proof (cases "\<exists>c. st (m OR cov i) = Some c \<and> \<not> key (ext i e) < key c")
      case True
      then have "step i m st = st" by (auto simp: step_eq Some)
      with progress_skip [OF assms(1)] old True show ?thesis by (auto simp: not_less)
    next
      case False
      then have upd: "step i m st = st(m OR cov i \<mapsto> ext i e)"
        using lim by (auto simp: step_eq Some split: option.splits)
      have better: "key (ext i e) \<le> key c" if "st (m OR cov i) = Some c" for c
        using False that by (auto simp: order_less_imp_le)
      have stay: "\<forall>x \<in> rest. (step i m st) x = old x"
        using assms(1) nr unfolding upd progress_def by auto
      have sound: "old x = Some s \<or> (\<exists>m' e. fits width m' \<and> old m' = Some e \<and> cnt e < limit \<and>
          x = m' OR cov i \<and> s = ext i e)" if "(step i m st) x = Some s" for x s
        using that assms(1,3) old lim unfolding upd progress_def
        by (cases "x = m OR cov i") (auto simp: not_le)
      have mono: "\<exists>s'. (step i m st) x = Some s' \<and> key s' \<le> k" if "st x = Some s" "key s \<le> k" for x s k
        using that better unfolding upd by (cases "x = m OR cov i") (auto intro: order_trans)
      show ?thesis
        unfolding progress_def
      proof (intro conjI allI impI)
        fix x s assume "old x = Some s"
        with assms(1) obtain s' where "st x = Some s'" "key s' \<le> key s" unfolding progress_def by blast
        then show "\<exists>s'. (step i m st) x = Some s' \<and> key s' \<le> key s" by (rule mono)
      next
        fix x d assume x: "fits width x \<and> x \<notin> rest \<and> old x = Some d \<and> cnt d < limit"
        show "\<exists>s'. (step i m st) (x OR cov i) = Some s' \<and> key s' \<le> key (ext i d)"
        proof (cases "x = m")
          case True
          with x old show ?thesis by (simp add: upd)
        next
          case False
          with x assms(1) obtain s' where "st (x OR cov i) = Some s'" "key s' \<le> key (ext i d)"
            unfolding progress_def by blast
          then show ?thesis by (rule mono)
        qed
      qed (use stay sound in blast)+
    qed
  qed
qed

lemma progress_fold:
  "sorted_wrt (\<lambda>x y. y < x) ms \<Longrightarrow> (\<forall>m \<in> set ms. fits width m) \<Longrightarrow> progress i old (set ms) st \<Longrightarrow>
     progress i old {} (fold (step i) ms st)"
proof (induction ms arbitrary: st)
  case (Cons m ms)
  have "progress i old (set ms) (step i m st)"
    by (rule progress_step) (use Cons.prems in auto)
  with Cons show ?case by simp
qed simp

lemma progress_round: "cov i \<noteq> 0 \<Longrightarrow> progress i old {} (round i old)"
  unfolding round_def
  using progress_fold [OF sorted_masks_desc [OF width_le], of i old old] progress_start [of i old]
  by (simp add: set_masks_desc width_le)

subsection \<open>Stale entries\<close>

text \<open>Entries beyond the cleared prefix of the table never influence the entries within it.\<close>

definition agrees :: "(u16 \<rightharpoonup> 's) \<Rightarrow> (u16 \<rightharpoonup> 's) \<Rightarrow> bool" where
  "agrees st st' \<longleftrightarrow> (\<forall>m. fits width m \<longrightarrow> st m = st' m)"

lemma agrees_step: "agrees st st' \<Longrightarrow> fits width m \<Longrightarrow> agrees (step i m st) (step i m st')"
  by (auto simp: agrees_def step_eq cov_fits split: option.splits)

lemma agrees_fold:
  "agrees st st' \<Longrightarrow> \<forall>m \<in> set ms. fits width m \<Longrightarrow> agrees (fold (step i) ms st) (fold (step i) ms st')"
  by (induction ms arbitrary: st st') (auto simp: agrees_step)

lemma agrees_round: "agrees st st' \<Longrightarrow> agrees (round i st) (round i st')"
  by (simp add: round_def agrees_fold set_masks_desc width_le)

lemma agrees_stage: "agrees st [0 \<mapsto> root] \<Longrightarrow> agrees (fold round [0..<k] st) (stage k)"
  by (induction k) (auto simp: agrees_round)

subsection \<open>Soundness\<close>

lemma picks_Suc: "picks k xs \<Longrightarrow> picks (Suc k) xs"
  by (auto simp: picks_def)

lemma picks_snoc: "picks k xs \<Longrightarrow> cov k \<noteq> 0 \<Longrightarrow> picks (Suc k) (xs @ [k])"
  by (auto simp: picks_def sorted_wrt_append)

theorem stage_sound:
  "stage k m = Some s \<Longrightarrow> \<exists>xs. picks k xs \<and> cover xs = m \<and> run xs = s \<and> cnt s = length xs \<and> length xs \<le> limit"
proof (induction k arbitrary: m s)
  case 0
  then have "m = 0" "s = root" by (auto split: if_splits)
  then have "picks 0 [] \<and> cover [] = m \<and> run [] = s \<and> cnt s = length ([] :: nat list)"
    by (simp add: picks_def cnt_root)
  then show ?case by (metis le0 list.size(3))
next
  case (Suc k)
  show ?case
  proof (cases "cov k = 0")
    case True
    with Suc show ?thesis using picks_Suc by (fastforce simp: round_def)
  next
    case False
    from progress_round [OF False, of "stage k"] Suc.prems
    consider "stage k m = Some s"
      | m' e where "stage k m' = Some e" "cnt e < limit" "m = m' OR cov k" "s = ext k e"
      unfolding progress_def stage_simps by blast
    then show ?thesis
    proof cases
      case 1
      with Suc.IH picks_Suc show ?thesis by blast
    next
      case 2
      from Suc.IH [OF 2(1)] obtain xs where "picks k xs" "cover xs = m'" "run xs = e" "cnt e = length xs" by blast
      with 2 False have "picks (Suc k) (xs @ [k]) \<and> cover (xs @ [k]) = m \<and> run (xs @ [k]) = s \<and>
          cnt s = length (xs @ [k]) \<and> length (xs @ [k]) \<le> limit"
        by (simp add: picks_snoc cnt_ext)
      then show ?thesis by blast
    qed
  qed
qed

lemma stage_keeps:
  assumes "stage k m = Some s"
  shows "\<exists>s'. stage (Suc k) m = Some s' \<and> key s' \<le> key s"
  using progress_round [of k "stage k"] assms
  by (cases "cov k = 0") (auto simp: progress_def round_def)

lemma stage_extends:
  assumes "stage k m = Some e" "fits width m" "cnt e < limit" "cov k \<noteq> 0"
  shows "\<exists>s'. stage (Suc k) (m OR cov k) = Some s' \<and> key s' \<le> key (ext k e)"
  using progress_round [OF assms(4), of "stage k"] assms by (simp add: progress_def)

lemma picks_SucE:
  assumes "picks (Suc k) xs"
  obtains "picks k xs" | ys where "xs = ys @ [k]" "picks k ys" "cov k \<noteq> 0"
proof (cases "k \<in> set xs")
  case False
  with assms have "picks k xs" by (force simp: picks_def less_Suc_eq)
  with that(1) show thesis .
next
  case True
  then obtain ys zs where xs: "xs = ys @ k # zs" by (meson split_list)
  with assms have "zs = []" by (cases zs) (auto simp: picks_def sorted_wrt_append)
  with assms xs have "xs = ys @ [k]" "picks k ys" "cov k \<noteq> 0" by (auto simp: picks_def sorted_wrt_append)
  with that(2) show thesis .
qed

end

section \<open>Completeness\<close>

locale mask_dp_mono = mask_dp +
  assumes ext_mono: "picks k xs \<Longrightarrow> picks k ys \<Longrightarrow> length xs < limit \<Longrightarrow> k < 64 \<Longrightarrow>
      key (run xs) \<le> key (run ys) \<Longrightarrow> key (ext k (run xs)) \<le> key (ext k (run ys))"

locale mask_dp_count = mask_dp_mono +
  assumes count_first: "picks k xs \<Longrightarrow> length xs \<le> limit \<Longrightarrow> k \<le> 64 \<Longrightarrow> picks k ys \<Longrightarrow> length ys \<le> limit \<Longrightarrow>
      key (run xs) \<le> key (run ys) \<Longrightarrow> length xs \<le> length ys"
begin

theorem stage_optimal:
  "k \<le> 64 \<Longrightarrow> picks k xs \<Longrightarrow> length xs \<le> limit \<Longrightarrow>
     \<exists>s. stage k (cover xs) = Some s \<and> key s \<le> key (run xs)"
proof (induction k arbitrary: xs)
  case 0
  then show ?case by (simp add: picks_def)
next
  case (Suc k)
  from Suc.prems(2) show ?case
  proof (cases rule: picks_SucE)
    case 1
    with Suc obtain s where "stage k (cover xs) = Some s" "key s \<le> key (run xs)" by auto
    with stage_keeps show ?thesis by (meson order_trans)
  next
    case (2 ys)
    with Suc.IH [of ys] Suc.prems obtain e where e: "stage k (cover ys) = Some e" "key e \<le> key (run ys)" by auto
    from stage_sound [OF e(1)] obtain zs
      where zs: "picks k zs" "run zs = e" "cnt e = length zs" "length zs \<le> limit" by blast
    have lt: "length zs < limit"
      using count_first [OF zs(1,4) _ 2(2)] Suc.prems zs(2) e(2) 2(1) by simp
    from stage_extends [OF e(1) cover_fits _ 2(3)] zs(3) lt obtain s where
      "stage (Suc k) (cover ys OR cov k) = Some s" "key s \<le> key (ext k e)" by auto
    moreover have "key (ext k e) \<le> key (ext k (run ys))"
      using ext_mono [OF zs(1) 2(2) lt] Suc.prems(1) zs(2) e(2) by simp
    ultimately show ?thesis unfolding 2(1) by (auto intro: order_trans)
  qed
qed

end

locale mask_dp_drop = mask_dp_mono +
  assumes drop_less: "picks k (xs @ x # ys) \<Longrightarrow> k \<le> 64 \<Longrightarrow> key (run (xs @ ys)) < key (run (xs @ x # ys))"
    and limit_wide: "width \<le> limit"
begin

lemma irredundant_length:
  assumes zs: "picks k zs" "k \<le> 64"
    and opt: "\<And>ys. picks k ys \<Longrightarrow> cover ys = cover zs \<Longrightarrow> key (run zs) \<le> key (run ys)"
  shows "length zs \<le> width \<and> (length zs = width \<longrightarrow> (\<forall>b < width. bit (cover zs) b))"
proof -
  have own: "\<exists>b. bit (cov x) b \<and> (\<forall>y \<in> set zs. bit (cov y) b \<longrightarrow> y = x)" if "x \<in> set zs" for x
  proof (rule ccontr)
    assume no: "\<not> ?thesis"
    from that obtain as bs where zs_eq: "zs = as @ x # bs" by (meson split_list)
    have "bit (cover (as @ bs)) b = bit (cover zs) b" for b
      using no unfolding bit_cover zs_eq by auto
    then have "cover (as @ bs) = cover zs" by (simp add: bit_eq_iff)
    moreover have "picks k (as @ bs)" using zs(1) by (auto simp: zs_eq picks_def sorted_wrt_append)
    ultimately have "key (run zs) \<le> key (run (as @ bs))" by (rule opt [rotated])
    with drop_less [of k as x bs] zs show False by (simp add: zs_eq)
  qed
  then obtain f where f: "\<And>x. x \<in> set zs \<Longrightarrow> bit (cov x) (f x) \<and> (\<forall>y \<in> set zs. bit (cov y) (f x) \<longrightarrow> y = x)"
    by metis
  have inj: "inj_on f (set zs)" using f by (metis inj_onI)
  have sub: "f ` set zs \<subseteq> {..<width}" using f cov_fits by (auto simp: fits_def)
  have "distinct zs" using zs(1) by (simp add: picks_def strict_sorted_iff)
  then have len: "length zs = card (f ` set zs)" using inj by (simp add: card_image distinct_card)
  have "bit (cover zs) b" if "length zs = width" "b < width" for b
  proof -
    have "f ` set zs = {..<width}" by (rule card_subset_eq) (use sub that(1) len in auto)
    with that(2) obtain x where "x \<in> set zs" "f x = b" by (metis imageE lessThan_iff)
    with f show ?thesis unfolding bit_cover by metis
  qed
  moreover have "length zs \<le> width" using card_mono [OF _ sub] len by simp
  ultimately show ?thesis by blast
qed

theorem stage_cheapest:
  "k \<le> 64 \<Longrightarrow> picks k xs \<Longrightarrow> \<exists>s. stage k (cover xs) = Some s \<and> key s \<le> key (run xs)"
proof (induction k arbitrary: xs)
  case 0
  then show ?case by (simp add: picks_def)
next
  case (Suc k)
  from Suc.prems(2) show ?case
  proof (cases rule: picks_SucE)
    case 1
    with Suc obtain s where "stage k (cover xs) = Some s" "key s \<le> key (run xs)" by auto
    with stage_keeps show ?thesis by (meson order_trans)
  next
    case (2 ys)
    with Suc obtain e where e: "stage k (cover ys) = Some e" "key e \<le> key (run ys)" by auto
    from stage_sound [OF e(1)] obtain zs
      where zs: "picks k zs" "cover zs = cover ys" "run zs = e" "cnt e = length zs" by blast
    show ?thesis
    proof (cases "length zs < limit")
      case True
      with stage_extends [OF e(1) cover_fits _ 2(3)] zs(4) obtain s where
        "stage (Suc k) (cover ys OR cov k) = Some s" "key s \<le> key (ext k e)" by auto
      moreover have "key (ext k e) \<le> key (ext k (run ys))"
        using ext_mono [OF zs(1) 2(2) True] Suc.prems(1) zs(3) e(2) by simp
      ultimately show ?thesis unfolding 2(1) by (auto intro: order_trans)
    next
      case False
      have "key (run zs) \<le> key (run us)" if "picks k us" "cover us = cover zs" for us
        using Suc.IH [OF _ that(1)] Suc.prems(1) that(2) zs(2,3) e(1) by auto
      from irredundant_length [OF zs(1) _ this] Suc.prems(1) False limit_wide
      have "\<forall>b < width. bit (cover ys) b" by (auto simp: zs(2))
      then have "cover ys OR cov k = cover ys"
        using cov_fits [of k] by (auto simp: bit_eq_iff bit_or_iff fits_def)
      moreover have "key (run ys) < key (run (ys @ [k]))"
        using drop_less [of "Suc k" ys k "[]"] Suc.prems 2(1) by simp
      ultimately show ?thesis
        using stage_keeps [OF e(1)] e(2) unfolding 2(1) cover_simps by (force intro: order_trans less_imp_le)
    qed
  qed
qed

end

end
