(* ===== verification/Digests.thy ===== *)
theory Digests
  imports Prelude
begin

text \<open>
  \<^verbatim>\<open>crates/needle-core/src/lib.rs\<close> and \<^verbatim>\<open>crates/needle-core/src/semantic.rs\<close>: content
  digests and their \<open>b3:\<close> spelling, the length-framed \<open>CanonicalHasher\<close>, line-ending
  normalisation and route keys. The \<open>blake3\<close> crate is a parameter: an argument \<open>blake3\<close> of
  type \<open>u8 list \<Rightarrow> digest\<close>. The incremental hasher is the list of bytes absorbed so far.
\<close>

section \<open>Digests\<close>

datatype digest = Digest (dg_bytes: "u8 list")

text \<open>\<open>[u8; 32]\<close>: every Rust digest has 32 bytes.\<close>

definition wf_digest :: "digest \<Rightarrow> bool" where
  "wf_digest d \<longleftrightarrow> length (dg_bytes d) = 32"

text \<open>\<open>#[derive(Ord)]\<close> on \<open>Digest\<close> compares the byte arrays lexicographically.\<close>

instantiation digest :: linorder
begin
definition less_eq_digest :: "digest \<Rightarrow> digest \<Rightarrow> bool" where
  "less_eq_digest d e \<longleftrightarrow> dg_bytes d \<le> dg_bytes e"
definition less_digest :: "digest \<Rightarrow> digest \<Rightarrow> bool" where
  "less_digest d e \<longleftrightarrow> dg_bytes d < dg_bytes e"
instance
  by standard (auto simp: less_eq_digest_def less_digest_def digest.expand)
end

datatype digest_error = DigestLength | DigestHex

text \<open>\<open>format!("{byte:02x}")\<close>.\<close>

definition hex_digit :: "nat \<Rightarrow> char" where
  "hex_digit n = (if n < 10 then char_of (48 + n) else char_of (87 + n))"

definition hex_byte :: "u8 \<Rightarrow> string" where
  "hex_byte b = [hex_digit (unat b div 16), hex_digit (unat b mod 16)]"

definition to_hex :: "digest \<Rightarrow> string" where
  "to_hex d = concat (map hex_byte (dg_bytes d))"

definition digest_to_string :: "digest \<Rightarrow> string" where
  "digest_to_string d = ''b3:'' @ to_hex d"

text \<open>\<open>char::to_digit(16)\<close> accepts both letter cases.\<close>

definition hex_value :: "char \<Rightarrow> nat option" where
  "hex_value c = (let n = of_char c in
     if 48 \<le> n \<and> n \<le> 57 then Some (n - 48)
     else if 97 \<le> n \<and> n \<le> 102 then Some (n - 87)
     else if 65 \<le> n \<and> n \<le> 70 then Some (n - 55)
     else None)"

text \<open>
  \<open>u8::from_str_radix(text, 16)\<close> on a two-byte text: the standard library strips one leading
  \<open>+\<close> before it reads digits.
\<close>

definition from_str_radix16 :: "char \<Rightarrow> char \<Rightarrow> nat option" where
  "from_str_radix16 c d =
     (if c = CHR ''+'' then hex_value d
      else case (hex_value c, hex_value d) of
        (Some x, Some y) \<Rightarrow> Some (16 * x + y)
      | _ \<Rightarrow> None)"

fun parse_hex_pairs :: "string \<Rightarrow> (u8 list, digest_error) result" where
  "parse_hex_pairs (c # d # rest) =
     rbind (ok_or DigestHex (from_str_radix16 c d)) (\<lambda>b.
     rbind (parse_hex_pairs rest) (\<lambda>bs. Ok (word_of_nat b # bs)))"
| "parse_hex_pairs _ = Ok []"

text \<open>\<open>str::strip_prefix\<close>.\<close>

fun strip_prefix :: "string \<Rightarrow> string \<Rightarrow> string option" where
  "strip_prefix [] s = Some s"
| "strip_prefix (p # ps) [] = None"
| "strip_prefix (p # ps) (c # cs) = (if p = c then strip_prefix ps cs else None)"

definition digest_parse :: "string \<Rightarrow> (digest, digest_error) result" where
  "digest_parse value =
     (let hex = (case strip_prefix ''b3:'' value of Some rest \<Rightarrow> rest | None \<Rightarrow> value) in
      if length hex \<noteq> 64 then Err DigestLength
      else rbind (parse_hex_pairs hex) (\<lambda>bytes. Ok (Digest bytes)))"

lemma hex_value_hex_digit [simp]: "n < 16 \<Longrightarrow> hex_value (hex_digit n) = Some n"
  by (auto simp: hex_value_def hex_digit_def Let_def)

lemma hex_digit_not_plus [simp]: "n < 16 \<Longrightarrow> hex_digit n \<noteq> CHR ''+''"
proof
  assume "n < 16" and "hex_digit n = CHR ''+''"
  then have "hex_value CHR ''+'' = Some n" using hex_value_hex_digit by metis
  then show False by (simp add: hex_value_def)
qed

lemma parse_hex_pairs_concat [simp]:
  "parse_hex_pairs (concat (map hex_byte bs)) = Ok bs"
proof (induction bs)
  case (Cons b bs)
  have "unat b < 256" using unsigned_less [of b] by simp
  then have "unat b div 16 < 16" by simp
  then have "from_str_radix16 (hex_digit (unat b div 16)) (hex_digit (unat b mod 16)) = Some (unat b)"
    by (simp add: from_str_radix16_def)
  with Cons show ?case by (simp add: hex_byte_def)
qed simp

lemma length_to_hex [simp]: "length (to_hex d) = 2 * length (dg_bytes d)"
proof -
  have "length (concat (map hex_byte bs)) = 2 * length bs" for bs
    by (induction bs) (auto simp: hex_byte_def)
  then show ?thesis by (simp add: to_hex_def)
qed

text \<open>
  Digest text round trip: parsing the \<open>b3:\<close> rendering of any 32-byte digest gives that
  digest back (\<open>Digest::parse(&digest.to_string()) == Ok(digest)\<close>).
\<close>

theorem digest_parse_to_string:
  assumes "wf_digest d"
  shows "digest_parse (digest_to_string d) = Ok d"
  using assms by (simp add: digest_parse_def digest_to_string_def wf_digest_def)
    (simp add: to_hex_def)

theorem digest_parse_to_string_witness:
  "wf_digest (Digest (replicate 32 171)) \<and>
   digest_parse (digest_to_string (Digest (replicate 32 171))) = Ok (Digest (replicate 32 171))"
  using digest_parse_to_string [of "Digest (replicate 32 171)"] by (simp add: wf_digest_def)

text \<open>
  What the parser accepts beyond hexadecimal text: because \<open>from_str_radix\<close> skips a leading
  \<open>+\<close>, a 64-byte text of \<open>+0\<close> pairs parses as the all-zero digest, although the error type
  promises that non-hexadecimal characters are refused.
\<close>

theorem digest_parse_accepts_plus:
  "digest_parse (concat (replicate 32 ''+0'')) = Ok (Digest (replicate 32 0)) \<and>
   concat (replicate 32 ''+0'') \<noteq> to_hex (Digest (replicate 32 0))"
proof
  have "parse_hex_pairs (concat (replicate n ''+0'')) = Ok (replicate n 0)" for n
    by (induction n) (auto simp: from_str_radix16_def hex_value_def)
  moreover have "length (concat (replicate n ''+0'')) = 2 * n" for n
    by (induction n) auto
  moreover have "strip_prefix ''b3:'' (concat (replicate (Suc n) ''+0'')) = None" for n
    by simp
  from this [of 31] have "strip_prefix ''b3:'' (concat (replicate 32 ''+0'')) = None" by simp
  ultimately show "digest_parse (concat (replicate 32 ''+0'')) = Ok (Digest (replicate 32 0))"
    by (simp add: digest_parse_def)
  show "concat (replicate 32 ''+0'') \<noteq> to_hex (Digest (replicate 32 0))"
  proof
    assume "concat (replicate 32 ''+0'') = to_hex (Digest (replicate 32 0))"
    then have "hd (concat (replicate 32 ''+0'')) = hd (to_hex (Digest (replicate 32 0)))"
      by simp
    moreover have "hd (concat (replicate (Suc n) ''+0'')) \<noteq> hd (to_hex (Digest (replicate (Suc n) 0)))"
      for n using hex_digit_not_plus [of 0, THEN not_sym] by (simp add: to_hex_def hex_byte_def del: hex_digit_not_plus)
    from this [of 31] have "hd (concat (replicate 32 ''+0'')) \<noteq> hd (to_hex (Digest (replicate 32 0)))"
      by simp
    ultimately show False by contradiction
  qed
qed

section \<open>The canonical hasher\<close>

type_synonym hasher = "u8 list"

definition hasher_new :: "string \<Rightarrow> hasher" where
  "hasher_new domain = as_bytes ''needle-canonical'' @ [0] @ le_bytes 8 (length domain) @ as_bytes domain"

definition field_bytes :: "u8 list \<Rightarrow> hasher \<Rightarrow> hasher" where
  "field_bytes value h = h @ le_bytes 8 (length value) @ value"

definition field_str :: "string \<Rightarrow> hasher \<Rightarrow> hasher" where
  "field_str value = field_bytes (as_bytes value)"

definition field_u8 :: "u8 \<Rightarrow> hasher \<Rightarrow> hasher" where
  "field_u8 value = field_bytes [value]"

definition field_u16 :: "u16 \<Rightarrow> hasher \<Rightarrow> hasher" where
  "field_u16 value = field_bytes (u16_le value)"

text \<open>\<open>len().try_into().unwrap_or(u16::MAX)\<close>.\<close>

definition len_u16 :: "nat \<Rightarrow> u16" where
  "len_u16 n = (if n < 65536 then word_of_nat n else 65535)"

definition field_u32 :: "u32 \<Rightarrow> hasher \<Rightarrow> hasher" where
  "field_u32 value = field_bytes (u32_le value)"

definition field_digest :: "digest \<Rightarrow> hasher \<Rightarrow> hasher" where
  "field_digest value = field_bytes (dg_bytes value)"

definition hasher_finish :: "(u8 list \<Rightarrow> digest) \<Rightarrow> hasher \<Rightarrow> digest" where
  "hasher_finish blake3 h = blake3 h"

text \<open>Two different preimages with one hash; the identity theorems hold up to such a pair.\<close>

definition collision :: "(u8 list \<Rightarrow> digest) \<Rightarrow> u8 list \<Rightarrow> u8 list \<Rightarrow> bool" where
  "collision blake3 x y \<longleftrightarrow> x \<noteq> y \<and> blake3 x = blake3 y"

text \<open>
  \<open>field_normalized_lines\<close>: the length prefix is the byte count less one per \<open>\r\n\<close> window, and the
  loop copies up to the next window, writes one \<open>\n\<close> and skips it.
\<close>

fun count_crlf :: "u8 list \<Rightarrow> nat" where
  "count_crlf (a # b # rest) = (if a = 13 \<and> b = 10 then 1 else 0) + count_crlf (b # rest)"
| "count_crlf _ = 0"

fun position_crlf :: "u8 list \<Rightarrow> nat option" where
  "position_crlf (a # b # rest) =
     (if a = 13 \<and> b = 10 then Some 0 else map_option Suc (position_crlf (b # rest)))"
| "position_crlf _ = None"

lemma position_crlf_bound: "position_crlf bytes = Some r \<Longrightarrow> r + 2 \<le> length bytes"
  by (induction bytes arbitrary: r rule: position_crlf.induct) (fastforce split: if_splits)+

function crlf_loop :: "u8 list \<Rightarrow> u8 list" where
  "crlf_loop bytes =
     (case position_crlf bytes of
        Some relative \<Rightarrow> take relative bytes @ [10] @ crlf_loop (drop (relative + 2) bytes)
      | None \<Rightarrow> bytes)"
  by pat_completeness auto

termination
  by (relation "measure length") (auto dest: position_crlf_bound)

declare crlf_loop.simps [simp del]

definition field_normalized_lines :: "string \<Rightarrow> hasher \<Rightarrow> hasher" where
  "field_normalized_lines value h =
     (let bytes = as_bytes value
      in h @ le_bytes 8 (length bytes - count_crlf bytes) @ crlf_loop bytes)"

text \<open>Reference: every \<open>\r\n\<close> becomes \<open>\n\<close>.\<close>

fun crlf_to_lf :: "u8 list \<Rightarrow> u8 list" where
  "crlf_to_lf (a # b # rest) =
     (if a = 13 \<and> b = 10 then 10 # crlf_to_lf rest else a # crlf_to_lf (b # rest))"
| "crlf_to_lf bytes = bytes"

lemma crlf_loop_eq: "crlf_loop bytes = crlf_to_lf bytes"
proof (induction bytes rule: crlf_to_lf.induct)
  case (1 a b rest)
  show ?case
  proof (cases "a = 13 \<and> b = 10")
    case True
    with 1 show ?thesis by (subst crlf_loop.simps) simp
  next
    case False
    with 1 have IH: "crlf_loop (b # rest) = crlf_to_lf (b # rest)" by blast
    from False have "crlf_loop (a # b # rest) = a # crlf_loop (b # rest)"
      by (subst crlf_loop.simps, subst (2) crlf_loop.simps) (auto split: option.split)
    with IH False show ?thesis by simp
  qed
qed (simp_all add: crlf_loop.simps)

lemma count_crlf_length: "length (crlf_to_lf bytes) + count_crlf bytes = length bytes"
proof (induction bytes rule: crlf_to_lf.induct)
  case (1 a b rest)
  have "count_crlf (10 # rest) = count_crlf rest" by (cases rest) auto
  with 1 show ?case by auto
qed auto

lemma field_normalized_lines_bytes:
  "field_normalized_lines value h = field_bytes (crlf_to_lf (as_bytes value)) h"
proof -
  have "length (as_bytes value) - count_crlf (as_bytes value) = length (crlf_to_lf (as_bytes value))"
    using count_crlf_length [of "as_bytes value"] by linarith
  then show ?thesis by (simp add: field_normalized_lines_def field_bytes_def crlf_loop_eq Let_def)
qed

text \<open>
  The allocation-free line-ending encoder agrees with its reference: absorbing a text with
  \<open>field_normalized_lines\<close> is absorbing, as one framed field, the text in which every \<open>\r\n\<close> is
  replaced by \<open>\n\<close>, with the length prefix of that replaced text.
\<close>

theorem field_normalized_lines_eq:
  "field_normalized_lines value h = field_bytes (crlf_to_lf (as_bytes value)) h"
  by (rule field_normalized_lines_bytes)

subsection \<open>Framing\<close>

definition frame :: "u8 list \<Rightarrow> u8 list" where
  "frame value = le_bytes 8 (length value) @ value"

lemma field_bytes_frame: "field_bytes value h = h @ frame value"
  by (simp add: field_bytes_def frame_def)

lemma fold_field_bytes: "fold field_bytes fields h = h @ concat (map frame fields)"
  by (induction fields arbitrary: h) (auto simp: field_bytes_frame)

lemma frame_neq_Nil [simp]: "frame v \<noteq> []"
  by (simp add: frame_def)

lemma frame_prefix_free:
  assumes "length v < 2 ^ 64" and "length w < 2 ^ 64" and "frame v @ xs = frame w @ ys"
  shows "v = w \<and> xs = ys"
proof -
  from assms(3) have "le_bytes 8 (length v) = le_bytes 8 (length w)" and rest: "v @ xs = w @ ys"
    by (auto simp: frame_def append_eq_append_conv)
  with assms(1,2) have "length v = length w" by (intro le_bytes_inj [of _ 8]) auto
  with rest show ?thesis by simp
qed

lemma concat_frame_inj:
  assumes "\<forall>v \<in> set fs. length v < 2 ^ 64" and "\<forall>w \<in> set gs. length w < 2 ^ 64"
    and "concat (map frame fs) = concat (map frame gs)"
  shows "fs = gs"
  using assms
proof (induction fs arbitrary: gs)
  case Nil
  then show ?case by (cases gs) auto
next
  case (Cons v fs)
  from Cons.prems(3) obtain w gs' where gs: "gs = w # gs'"
    by (cases gs) auto
  have bounds: "length v < 2 ^ 64" "length w < 2 ^ 64"
    using Cons.prems(1,2) unfolding gs by (meson list.set_intros(1))+
  have "frame v @ concat (map frame fs) = frame w @ concat (map frame gs')"
    using Cons.prems(3) unfolding gs by (simp only: list.map concat.simps)
  with bounds have "v = w \<and> concat (map frame fs) = concat (map frame gs')"
    by (rule frame_prefix_free)
  moreover have "\<forall>v \<in> set fs. length v < 2 ^ 64" "\<forall>w \<in> set gs'. length w < 2 ^ 64"
    using Cons.prems(1,2) unfolding gs by (meson list.set_intros(2))+
  ultimately show ?case using Cons.IH [of gs'] gs by blast
qed

lemma framing_injective:
  assumes "length d < 2 ^ 64" and "length e < 2 ^ 64"
    and "\<forall>v \<in> set fs. length v < 2 ^ 64" and "\<forall>w \<in> set gs. length w < 2 ^ 64"
    and "fold field_bytes fs (hasher_new d) = fold field_bytes gs (hasher_new e)"
  shows "d = e \<and> fs = gs"
proof -
  have new: "hasher_new x = as_bytes ''needle-canonical'' @ [0] @ frame (as_bytes x)" for x
    by (simp add: hasher_new_def frame_def)
  from assms(5) have
    "frame (as_bytes d) @ concat (map frame fs) = frame (as_bytes e) @ concat (map frame gs)"
    by (simp add: fold_field_bytes new)
  with assms(1,2) have "as_bytes d = as_bytes e" "concat (map frame fs) = concat (map frame gs)"
    using frame_prefix_free [of "as_bytes d" "as_bytes e"] by auto
  with assms(3,4) show ?thesis using concat_frame_inj by auto
qed

text \<open>
  Canonical framing is injective: two field sequences absorbed under two domains leave the
  hasher with the same bytes only when the domains and the sequences are equal, for fields that
  fit a 64-bit length. Distinct typed inputs therefore never share a preimage.
\<close>

theorem canonical_framing_injective:
  assumes "length d < 2 ^ 64" and "length e < 2 ^ 64"
    and "\<forall>v \<in> set fs. length v < 2 ^ 64" and "\<forall>w \<in> set gs. length w < 2 ^ 64"
    and "fold field_bytes fs (hasher_new d) = fold field_bytes gs (hasher_new e)"
  shows "d = e \<and> fs = gs"
  using assms by (rule framing_injective)

theorem canonical_framing_injective_witness:
  "fold field_bytes [[1], [2]] (hasher_new ''need'') \<noteq> fold field_bytes [[1, 2]] (hasher_new ''need'')"
  using canonical_framing_injective [of "''need''" "''need''" "[[1], [2]]" "[[1, 2]]"] by auto

end
