(* ===== verification/Semantic.thy ===== *)
theory Semantic
  imports Digests
begin

text \<open>
  \<^verbatim>\<open>crates/needle-core/src/semantic.rs\<close> (and \<open>NeedKey\<close> of \<^verbatim>\<open>lib.rs\<close>): the semantic need model.
  Route keys, subjects, facets, obligations, worlds, needs and fragments as records, the built-in
  predicate and route contracts, and \<open>compile_need\<close>, which turns a transport need into the need
  that the proof planner resolves. Every identifier (\<open>NeedId\<close>, \<open>ObligationId\<close>, ...) is a digest.
\<close>

section \<open>Route keys\<close>

datatype need_key_error = KeyLength | KeyCharacter nat

definition need_key_byte :: "char \<Rightarrow> bool" where
  "need_key_byte c \<longleftrightarrow> is_ascii_lowercase c \<or> is_ascii_digit c \<or> c \<in> set ''._-''"

fun find_index :: "('a \<Rightarrow> bool) \<Rightarrow> nat \<Rightarrow> 'a list \<Rightarrow> nat option" where
  "find_index P i [] = None"
| "find_index P i (x # xs) = (if P x then Some i else find_index P (Suc i) xs)"

definition need_key_new :: "string \<Rightarrow> (string, need_key_error) result" where
  "need_key_new value =
     (if value = [] \<or> 64 < length value then Err KeyLength
      else if \<not> is_ascii_lowercase (hd value) \<and> \<not> is_ascii_digit (hd value) then Err (KeyCharacter 0)
      else case find_index (\<lambda>c. \<not> need_key_byte c) 0 value of
        Some index \<Rightarrow> Err (KeyCharacter index)
      | None \<Rightarrow> Ok value)"

section \<open>Kinds\<close>

datatype subject_kind =
  Symbol | CliOption | ConfigurationKey | SubjectTest | SubjectFile | Module | Behavior

fun subject_kind_str :: "subject_kind \<Rightarrow> string" where
  "subject_kind_str Symbol = ''symbol''"
| "subject_kind_str CliOption = ''cli-option''"
| "subject_kind_str ConfigurationKey = ''configuration-key''"
| "subject_kind_str SubjectTest = ''test''"
| "subject_kind_str SubjectFile = ''file''"
| "subject_kind_str Module = ''module''"
| "subject_kind_str Behavior = ''behavior''"

definition subject_kind_parse :: "string \<Rightarrow> subject_kind option" where
  "subject_kind_parse value =
     (if value = ''symbol'' then Some Symbol
      else if value = ''cli-option'' then Some CliOption
      else if value = ''configuration-key'' \<or> value = ''config-key'' then Some ConfigurationKey
      else if value = ''test'' then Some SubjectTest
      else if value = ''file'' then Some SubjectFile
      else if value = ''module'' then Some Module
      else if value = ''behavior'' then Some Behavior
      else None)"

fun subject_kind_tag :: "subject_kind \<Rightarrow> u8" where
  "subject_kind_tag Symbol = 0"
| "subject_kind_tag CliOption = 1"
| "subject_kind_tag ConfigurationKey = 2"
| "subject_kind_tag SubjectTest = 3"
| "subject_kind_tag SubjectFile = 4"
| "subject_kind_tag Module = 5"
| "subject_kind_tag Behavior = 6"

datatype predicate_kind = ImplementationLocation | RuntimeFlow | FocusedTests

fun predicate_str :: "predicate_kind \<Rightarrow> string" where
  "predicate_str ImplementationLocation = ''implementation-location''"
| "predicate_str RuntimeFlow = ''runtime-flow''"
| "predicate_str FocusedTests = ''focused-tests''"

definition predicate_parse :: "string \<Rightarrow> predicate_kind option" where
  "predicate_parse value =
     (if value = ''implementation-location'' then Some ImplementationLocation
      else if value = ''runtime-flow'' then Some RuntimeFlow
      else if value = ''focused-tests'' then Some FocusedTests
      else None)"

fun predicate_tag :: "predicate_kind \<Rightarrow> u8" where
  "predicate_tag ImplementationLocation = 0"
| "predicate_tag RuntimeFlow = 1"
| "predicate_tag FocusedTests = 2"

text \<open>\<open>#[derive(Ord)]\<close> orders the variants in declaration order, which is the order of the tags.\<close>

instantiation predicate_kind :: linorder
begin
definition less_eq_predicate_kind :: "predicate_kind \<Rightarrow> predicate_kind \<Rightarrow> bool" where
  "less_eq_predicate_kind p q \<longleftrightarrow> predicate_tag p \<le> predicate_tag q"
definition less_predicate_kind :: "predicate_kind \<Rightarrow> predicate_kind \<Rightarrow> bool" where
  "less_predicate_kind p q \<longleftrightarrow> predicate_tag p < predicate_tag q"
instance
proof
  fix p q :: predicate_kind
  show "p \<le> q \<Longrightarrow> q \<le> p \<Longrightarrow> p = q"
    by (cases p; cases q) (auto simp: less_eq_predicate_kind_def word_le_nat_alt)
qed (auto simp: less_eq_predicate_kind_def less_predicate_kind_def)
end

lemma UNIV_predicate_kind: "UNIV = {ImplementationLocation, RuntimeFlow, FocusedTests}"
  using predicate_kind.exhaust by auto

lemma card_UNIV_predicate_kind: "card (UNIV :: predicate_kind set) = 3"
  by (simp add: UNIV_predicate_kind)

lemma finite_UNIV_predicate_kind: "finite (UNIV :: predicate_kind set)"
  by (simp add: UNIV_predicate_kind)

section \<open>Records\<close>

record facet =
  fc_key :: string
  fc_value :: string

text \<open>\<open>impl Ord for Facet\<close> compares \<open>(key, value)\<close>.\<close>

definition facet_ord :: "facet \<Rightarrow> string \<times> string" where
  "facet_ord f = (fc_key f, fc_value f)"

record subject_expression =
  se_kind :: subject_kind
  se_name :: string

record obligation_expression =
  oe_predicate :: predicate_kind
  oe_facets :: "facet list"

record need_ir =
  ir_route_hint :: "string option"
  ir_subjects :: "subject_expression list"
  ir_required :: "obligation_expression list"
  ir_preferred :: "obligation_expression list"
  ir_constraints :: "string list"
  ir_world :: "facet list"
  ir_inputs :: "string list"
  ir_projection :: "facet list"
  ir_body :: string
  ir_format_revision :: u16

record subject =
  sj_id :: digest
  sj_kind :: subject_kind
  sj_name :: string
  sj_lineage :: digest

record semantic_world =
  sw_lineage :: digest
  sw_source :: string
  sw_platform :: string
  sw_features :: string
  sw_configuration :: "digest option"
  sw_toolchain :: "digest option"

record obligation =
  ob_id :: digest
  ob_predicate :: predicate_kind
  ob_subject :: digest
  ob_facets :: "facet list"

text \<open>\<open>#[derive(Ord)]\<close> on \<open>Obligation\<close>: field by field.\<close>

definition obligation_ord ::
    "obligation \<Rightarrow> digest \<times> predicate_kind \<times> digest \<times> (string \<times> string) list" where
  "obligation_ord ob = (ob_id ob, ob_predicate ob, ob_subject ob, map facet_ord (ob_facets ob))"

datatype residual_reason =
  UndeclaredExactAnchor | UnsupportedPredicate | UnsupportedFacetReason | ConflictingReason
  | AmbiguousReason | UnparsedConstraint | LegacyFreeForm

record residual_intent =
  ri_raw :: digest
  ri_reason :: residual_reason
  ri_mandatory :: bool

record need =
  nd_id :: digest
  nd_subjects :: "subject list"
  nd_required :: "obligation list"
  nd_preferred :: "obligation list"
  nd_constraints :: "string list"
  nd_world :: semantic_world
  nd_inputs :: "digest list"
  nd_residual :: "residual_intent option"
  nd_body_digest :: digest
  nd_format_revision :: u16

record need_fragment =
  nf_id :: digest
  nf_subjects :: "digest list"
  nf_definitions :: "subject list"
  nf_obligations :: "obligation list"
  nf_world :: semantic_world
  nf_inputs :: "digest list"
  nf_root_need :: digest

record predicate_contract =
  pc_predicate :: predicate_kind
  pc_subject_kinds :: "subject_kind list"
  pc_facets :: "string list"
  pc_dimensions :: "string list"
  pc_definition :: digest

record proof_budget =
  pb_max_candidates :: u16
  pb_max_artifacts :: u8
  pb_max_derivation_depth :: u8
  pb_max_plan_nodes :: u8
  pb_max_validation_millis :: u32
  pb_max_projection_tokens :: u32
  pb_minimum_expected_net :: int

record route_contract =
  rc_route :: string
  rc_required :: "obligation_expression list"
  rc_preferred :: "obligation_expression list"
  rc_allowed :: "predicate_kind list"
  rc_budget :: proof_budget
  rc_definition :: digest

definition MAX_NEED_IR_BYTES :: nat where "MAX_NEED_IR_BYTES = 16 * 1024"
definition MAX_NEED_SUBJECTS :: nat where "MAX_NEED_SUBJECTS = 8"
definition MAX_REQUIRED_OBLIGATIONS :: nat where "MAX_REQUIRED_OBLIGATIONS = 16"
definition MAX_PREFERRED_OBLIGATIONS :: nat where "MAX_PREFERRED_OBLIGATIONS = 8"
definition MAX_SEMANTIC_CONSTRAINTS :: nat where "MAX_SEMANTIC_CONSTRAINTS = 8"
definition MAX_NEED_INPUTS :: nat where "MAX_NEED_INPUTS = 8"
definition MAX_OBLIGATION_FACETS :: nat where "MAX_OBLIGATION_FACETS = 8"
definition MAX_PROOF_ARTIFACTS :: nat where "MAX_PROOF_ARTIFACTS = 8"
definition MAX_PROOF_CANDIDATES :: nat where "MAX_PROOF_CANDIDATES = 64"
definition MAX_DERIVATION_DEPTH :: nat where "MAX_DERIVATION_DEPTH = 3"
definition NEED_IR_FORMAT_REVISION :: u16 where "NEED_IR_FORMAT_REVISION = 1"

lemmas semantic_bounds = MAX_NEED_IR_BYTES_def MAX_NEED_SUBJECTS_def MAX_REQUIRED_OBLIGATIONS_def
  MAX_PREFERRED_OBLIGATIONS_def MAX_SEMANTIC_CONSTRAINTS_def MAX_NEED_INPUTS_def
  MAX_OBLIGATION_FACETS_def MAX_PROOF_ARTIFACTS_def MAX_PROOF_CANDIDATES_def MAX_DERIVATION_DEPTH_def
  NEED_IR_FORMAT_REVISION_def

definition default_proof_budget :: proof_budget where
  "default_proof_budget =
     \<lparr>pb_max_candidates = 64, pb_max_artifacts = 8, pb_max_derivation_depth = 3,
      pb_max_plan_nodes = 16, pb_max_validation_millis = 100, pb_max_projection_tokens = 1200,
      pb_minimum_expected_net = 0\<rparr>"

section \<open>Identities\<close>

definition facet_fields :: "facet \<Rightarrow> hasher \<Rightarrow> hasher" where
  "facet_fields f h = field_str (fc_value f) (field_str (fc_key f) h)"

definition subject_hash :: "(u8 list \<Rightarrow> digest) \<Rightarrow> digest \<Rightarrow> subject_kind \<Rightarrow> string \<Rightarrow> digest" where
  "subject_hash blake3 lineage kind name =
     hasher_finish blake3 (field_str name (field_u8 (subject_kind_tag kind)
       (field_digest lineage (hasher_new ''subject''))))"

definition subject_exact :: "(u8 list \<Rightarrow> digest) \<Rightarrow> digest \<Rightarrow> subject_kind \<Rightarrow> string \<Rightarrow> subject" where
  "subject_exact blake3 lineage kind name =
     \<lparr>sj_id = subject_hash blake3 lineage kind name, sj_kind = kind, sj_name = name,
      sj_lineage = lineage\<rparr>"

definition subject_is_canonical :: "(u8 list \<Rightarrow> digest) \<Rightarrow> subject \<Rightarrow> bool" where
  "subject_is_canonical blake3 s \<longleftrightarrow> sj_id s = subject_hash blake3 (sj_lineage s) (sj_kind s) (sj_name s)"

definition field_option_digest :: "digest option \<Rightarrow> hasher \<Rightarrow> hasher" where
  "field_option_digest d h =
     (case d of Some value \<Rightarrow> field_digest value (field_u8 1 h) | None \<Rightarrow> field_u8 0 h)"

definition world_id :: "(u8 list \<Rightarrow> digest) \<Rightarrow> semantic_world \<Rightarrow> digest" where
  "world_id blake3 w =
     hasher_finish blake3 (field_option_digest (sw_toolchain w)
       (field_option_digest (sw_configuration w)
       (field_str (sw_features w) (field_str (sw_platform w) (field_str (sw_source w)
       (field_digest (sw_lineage w) (hasher_new ''semantic-world'')))))))"

definition sort_facets :: "facet list \<Rightarrow> facet list" where
  "sort_facets facets = remdups_adj (sort_key facet_ord facets)"

definition obligation_new ::
    "(u8 list \<Rightarrow> digest) \<Rightarrow> predicate_kind \<Rightarrow> digest \<Rightarrow> facet list \<Rightarrow> obligation" where
  "obligation_new blake3 predicate subj facets =
     (let fs = sort_facets facets in
      \<lparr>ob_id = hasher_finish blake3 (fold facet_fields fs
         (field_digest subj (field_u8 (predicate_tag predicate) (hasher_new ''obligation'')))),
       ob_predicate = predicate, ob_subject = subj, ob_facets = fs\<rparr>)"

text \<open>\<open>self.satisfies(requested)\<close>.\<close>

definition satisfies :: "obligation \<Rightarrow> obligation \<Rightarrow> bool" where
  "satisfies self requested \<longleftrightarrow>
     ob_predicate self = ob_predicate requested \<and>
     ob_subject self = ob_subject requested \<and>
     (\<forall>required \<in> set (ob_facets requested).
        \<exists>f \<in> set (ob_facets self). fc_key f = fc_key required \<and> fc_value f = fc_value required)"

definition compute_fragment_id ::
    "(u8 list \<Rightarrow> digest) \<Rightarrow> digest list \<Rightarrow> obligation list \<Rightarrow> semantic_world \<Rightarrow> digest list \<Rightarrow> digest" where
  "compute_fragment_id blake3 subjects obligations world inputs =
     hasher_finish blake3 (fold field_digest inputs (field_digest (world_id blake3 world)
       (fold (\<lambda>ob. field_digest (ob_id ob)) obligations
       (fold field_digest subjects (hasher_new ''need-fragment'')))))"

text \<open>
  \<open>NeedFragment::is_consistent\<close>. \<open>binary_search\<close> runs only after the list was found strictly
  ordered, where it succeeds exactly on the members.
\<close>

definition fragment_is_consistent :: "(u8 list \<Rightarrow> digest) \<Rightarrow> need_fragment \<Rightarrow> bool" where
  "fragment_is_consistent blake3 fr \<longleftrightarrow>
     nf_subjects fr \<noteq> [] \<and>
     length (nf_subjects fr) \<le> MAX_NEED_SUBJECTS \<and>
     length (nf_obligations fr) \<le> MAX_REQUIRED_OBLIGATIONS \<and>
     length (nf_inputs fr) \<le> MAX_NEED_INPUTS \<and>
     length (nf_subjects fr) = length (nf_definitions fr) \<and>
     successively (<) (nf_subjects fr) \<and>
     successively (\<lambda>a b. sj_id a < sj_id b) (nf_definitions fr) \<and>
     successively (\<lambda>a b. obligation_ord a < obligation_ord b) (nf_obligations fr) \<and>
     successively (<) (nf_inputs fr) \<and>
     (\<forall>s \<in> set (nf_definitions fr).
        subject_is_canonical blake3 s \<and> sj_lineage s = sw_lineage (nf_world fr) \<and>
        sj_id s \<in> set (nf_subjects fr)) \<and>
     (\<forall>ob \<in> set (nf_obligations fr). ob_subject ob \<in> set (nf_subjects fr)) \<and>
     nf_id fr = compute_fragment_id blake3 (nf_subjects fr) (nf_obligations fr) (nf_world fr) (nf_inputs fr)"

definition sort_obligations :: "obligation list \<Rightarrow> obligation list" where
  "sort_obligations obs = dedup_by_key ob_id (sort_key obligation_ord obs)"

definition need_fragment_of ::
    "(u8 list \<Rightarrow> digest) \<Rightarrow> need \<Rightarrow> obligation list \<Rightarrow> digest list \<Rightarrow> need_fragment" where
  "need_fragment_of blake3 n obligations semantic_inputs =
     (let obs = sort_obligations obligations;
          subjects = sort_dedup (map ob_subject obs);
          definitions = filter (\<lambda>s. sj_id s \<in> set subjects) (nd_subjects n);
          inputs = sort_dedup semantic_inputs
      in \<lparr>nf_id = compute_fragment_id blake3 subjects obs (nd_world n) inputs,
          nf_subjects = subjects, nf_definitions = definitions, nf_obligations = obs,
          nf_world = nd_world n, nf_inputs = inputs, nf_root_need = nd_id n\<rparr>)"

section \<open>Facts\<close>

lemma facet_ord_inj [simp]: "facet_ord f = facet_ord g \<longleftrightarrow> f = g"
  by (cases f; cases g) (simp add: facet_ord_def)

lemma map_facet_ord_inj [simp]: "map facet_ord fs = map facet_ord gs \<longleftrightarrow> fs = gs"
  by (rule inj_map_eq_map) (simp add: inj_def)

lemma obligation_ord_inj: "obligation_ord a = obligation_ord b \<longleftrightarrow> a = b"
  by (cases a; cases b) (auto simp: obligation_ord_def)

lemma set_sort_facets [simp]: "set (sort_facets fs) = set fs"
  by (simp add: sort_facets_def)

lemma facet_eq_iff: "f = g \<longleftrightarrow> fc_key f = fc_key g \<and> fc_value f = fc_value g" for f g :: facet
  by (cases f; cases g) simp

text \<open>Satisfaction is inclusion of facet sets on the same predicate and subject.\<close>

lemma satisfies_iff:
  "satisfies a b \<longleftrightarrow>
     ob_predicate a = ob_predicate b \<and> ob_subject a = ob_subject b \<and>
     set (ob_facets b) \<subseteq> set (ob_facets a)"
  by (auto simp: satisfies_def facet_eq_iff [symmetric] conj_commute)

lemma satisfies_refl [simp]: "satisfies a a"
  by (simp add: satisfies_iff)

lemma satisfies_trans: "satisfies a b \<Longrightarrow> satisfies b c \<Longrightarrow> satisfies a c"
  by (auto simp: satisfies_iff)

lemma obligation_new_sel [simp]:
  "ob_predicate (obligation_new blake3 p s fs) = p"
  "ob_subject (obligation_new blake3 p s fs) = s"
  "set (ob_facets (obligation_new blake3 p s fs)) = set fs"
  by (simp_all add: obligation_new_def Let_def)

lemma subject_exact_sel [simp]:
  "sj_kind (subject_exact blake3 l k n) = k" "sj_name (subject_exact blake3 l k n) = n"
  "sj_lineage (subject_exact blake3 l k n) = l"
  by (simp_all add: subject_exact_def)

lemma subject_exact_canonical [simp]: "subject_is_canonical blake3 (subject_exact blake3 l k n)"
  by (simp add: subject_exact_def subject_is_canonical_def)

lemma sort_obligations_subset: "set (sort_obligations obs) \<subseteq> set obs"
  using set_dedup_by_key_subset [of ob_id "sort_key obligation_ord obs"]
  by (simp add: sort_obligations_def)

lemma sort_obligations_ids: "ob_id ` set (sort_obligations obs) = ob_id ` set obs"
  by (simp add: sort_obligations_def dedup_by_key_keys)

lemma sorted_key_fst: "sorted (map (\<lambda>x. (f x, g x)) xs) \<Longrightarrow> sorted (map f xs)"
  for f :: "'a \<Rightarrow> 'b::linorder" and g :: "'a \<Rightarrow> 'c::linorder"
  by (induction xs) (auto simp: less_eq_prod_def order_less_imp_le)

lemma sort_obligations_strict_ids: "sorted_wrt (<) (map ob_id (sort_obligations obs))"
proof -
  have "sorted (map obligation_ord (sort_key obligation_ord obs))" by simp
  then have "sorted (map ob_id (sort_key obligation_ord obs))"
    unfolding obligation_ord_def by (rule sorted_key_fst)
  then show ?thesis unfolding sort_obligations_def by (rule dedup_by_key_strict)
qed

lemma sort_obligations_strict: "successively (\<lambda>a b. obligation_ord a < obligation_ord b) (sort_obligations obs)"
proof -
  have "successively (\<lambda>a b. ob_id a < ob_id b) (sort_obligations obs)"
    using sort_obligations_strict_ids by (simp add: successively_less_key)
  then show ?thesis
    by (rule successively_mono) (simp add: obligation_ord_def)
qed

lemma sort_obligations_Nil [simp]: "sort_obligations obs = [] \<longleftrightarrow> obs = []"
  by (simp add: sort_obligations_def) (metis length_0_conv length_sort)

lemma length_sort_obligations: "length (sort_obligations obs) \<le> length obs"
  using length_dedup_by_key [of ob_id "sort_key obligation_ord obs"] by (simp add: sort_obligations_def)

lemma sort_obligations_distinct: "distinct (map ob_id (sort_obligations obs))"
  using sort_obligations_strict_ids [of obs] by (simp add: strict_sorted_iff)

lemma find_index_None: "find_index P i xs = None \<longleftrightarrow> (\<forall>x \<in> set xs. \<not> P x)"
  by (induction xs arbitrary: i) auto

lemma find_index_Some: "find_index P i xs = Some j \<Longrightarrow> \<exists>x \<in> set xs. P x"
  by (induction xs arbitrary: i) (auto split: if_splits)

lemma need_key_new_Ok:
  "need_key_new v = Ok k \<longleftrightarrow>
     k = v \<and> v \<noteq> [] \<and> length v \<le> 64 \<and> (is_ascii_lowercase (hd v) \<or> is_ascii_digit (hd v)) \<and>
     (\<forall>c \<in> set v. need_key_byte c)"
  by (auto simp: need_key_new_def find_index_None split: option.splits dest: find_index_Some)

end
