(* ===== verification/Need_Compiler.thy ===== *)
theory Need_Compiler
  imports Semantic
begin

text \<open>
  \<^verbatim>\<open>crates/needle-core/src/semantic.rs\<close>, from \<open>compile_need\<close> to \<open>built_in_route_contracts\<close>: merging
  route and declared obligations, contract checks, world and anchor handling, and the need
  identity. The lemmas show what a compiled need promises to the planner and to the fragments
  sent to workers.
\<close>

section \<open>Contracts\<close>

definition predicate_contract_new ::
    "(u8 list \<Rightarrow> digest) \<Rightarrow> predicate_kind \<Rightarrow> subject_kind list \<Rightarrow> string list \<Rightarrow> string list \<Rightarrow> predicate_contract" where
  "predicate_contract_new blake3 predicate kinds facets dimensions =
     \<lparr>pc_predicate = predicate, pc_subject_kinds = kinds, pc_facets = facets,
      pc_dimensions = dimensions,
      pc_definition = hasher_finish blake3 (fold field_str dimensions (fold field_str facets
        (fold (\<lambda>k. field_u8 (subject_kind_tag k)) kinds
        (field_u8 (predicate_tag predicate) (hasher_new ''predicate-contract'')))))\<rparr>"

definition expression_fields :: "obligation_expression \<Rightarrow> hasher \<Rightarrow> hasher" where
  "expression_fields e h = fold facet_fields (oe_facets e) (field_u8 (predicate_tag (oe_predicate e)) h)"

definition route_contract_new ::
    "(u8 list \<Rightarrow> digest) \<Rightarrow> string \<Rightarrow> obligation_expression list \<Rightarrow> obligation_expression list \<Rightarrow>
     predicate_kind list \<Rightarrow> proof_budget \<Rightarrow> route_contract" where
  "route_contract_new blake3 route required preferred allowed budget =
     \<lparr>rc_route = route, rc_required = required, rc_preferred = preferred, rc_allowed = allowed,
      rc_budget = budget,
      rc_definition = hasher_finish blake3 (field_u16 (pb_max_candidates budget)
        (fold (\<lambda>p. field_u8 (predicate_tag p)) allowed
        (fold expression_fields (required @ preferred)
        (field_str route (hasher_new ''route-contract'')))))\<rparr>"

definition expression :: "predicate_kind \<Rightarrow> (string \<times> string) list \<Rightarrow> obligation_expression" where
  "expression predicate facets =
     \<lparr>oe_predicate = predicate, oe_facets = map (\<lambda>(k, v). \<lparr>fc_key = k, fc_value = v\<rparr>) facets\<rparr>"

definition all_subject_kinds :: "subject_kind list" where
  "all_subject_kinds =
     [Symbol, CliOption, ConfigurationKey, SubjectTest, SubjectFile, Module, Behavior]"

definition built_in_predicate_contracts :: "(u8 list \<Rightarrow> digest) \<Rightarrow> predicate_contract list" where
  "built_in_predicate_contracts blake3 =
     [predicate_contract_new blake3 ImplementationLocation all_subject_kinds
        [''granularity'', ''polarity'', ''selection''] [''repository'', ''source'', ''features''],
      predicate_contract_new blake3 RuntimeFlow all_subject_kinds
        [''completeness'', ''granularity'', ''scenario'']
        [''repository'', ''source'', ''platform'', ''features''],
      predicate_contract_new blake3 FocusedTests all_subject_kinds
        [''completeness'', ''polarity'', ''selection'']
        [''repository'', ''source'', ''platform'', ''features'']]"

definition built_in_route_contracts :: "(u8 list \<Rightarrow> digest) \<Rightarrow> route_contract list" where
  "built_in_route_contracts blake3 =
     [route_contract_new blake3 ''locate.implementation''
        [expression ImplementationLocation
           [(''granularity'', ''exact-location''), (''polarity'', ''positive''), (''selection'', ''primary'')]]
        [] [ImplementationLocation, FocusedTests] default_proof_budget,
      route_contract_new blake3 ''trace.state-flow''
        [expression ImplementationLocation [(''polarity'', ''positive''), (''selection'', ''primary'')],
         expression RuntimeFlow
           [(''completeness'', ''contract-complete''), (''granularity'', ''stepwise''), (''scenario'', ''default'')]]
        [expression FocusedTests [(''selection'', ''representative'')]]
        [ImplementationLocation, RuntimeFlow, FocusedTests] default_proof_budget,
      route_contract_new blake3 ''tests.relevant''
        [expression FocusedTests
           [(''completeness'', ''open-world''), (''polarity'', ''positive''), (''selection'', ''representative'')]]
        [] [FocusedTests] default_proof_budget]"

section \<open>Merging obligations\<close>

datatype need_compile_error =
  UnsupportedFormat | Bounds | RouteMismatch | MissingSubject | AmbiguousSubject
  | PredicateNotAllowed | UnsupportedFacet | ConflictingDeclaration | UnsupportedWorld | InvalidInput

fun merge_facets ::
    "facet list \<Rightarrow> (string \<times> string) list \<Rightarrow> ((string \<times> string) list, need_compile_error) result" where
  "merge_facets [] facets = Ok facets"
| "merge_facets (f # fs) facets =
     (case map_of facets (fc_key f) of
        Some existing \<Rightarrow>
          if existing \<noteq> fc_value f then Err ConflictingDeclaration
          else merge_facets fs (btree_insert (fc_key f) (fc_value f) facets)
      | None \<Rightarrow> merge_facets fs (btree_insert (fc_key f) (fc_value f) facets))"

fun merge_expressions ::
    "obligation_expression list \<Rightarrow> (predicate_kind \<times> (string \<times> string) list) list \<Rightarrow>
     ((predicate_kind \<times> (string \<times> string) list) list, need_compile_error) result" where
  "merge_expressions [] merged = Ok merged"
| "merge_expressions (e # es) merged =
     (let facets = (case map_of merged (oe_predicate e) of Some fs \<Rightarrow> fs | None \<Rightarrow> []) in
      rbind (merge_facets (oe_facets e) facets) (\<lambda>fs.
      merge_expressions es (btree_insert (oe_predicate e) fs merged)))"

definition merge_obligation_expressions ::
    "obligation_expression list \<Rightarrow> obligation_expression list \<Rightarrow>
     (obligation_expression list, need_compile_error) result" where
  "merge_obligation_expressions route declared =
     rbind (merge_expressions (route @ declared) [])
       (\<lambda>merged. Ok (map (\<lambda>(p, fs). expression p fs) merged))"

section \<open>Compilation\<close>

definition compile_obligation ::
    "(u8 list \<Rightarrow> digest) \<Rightarrow> subject \<Rightarrow> route_contract \<Rightarrow> obligation_expression \<Rightarrow>
     (obligation, need_compile_error) result" where
  "compile_obligation blake3 subj route e =
     (if oe_predicate e \<notin> set (rc_allowed route) then Err PredicateNotAllowed
      else rbind (ok_or PredicateNotAllowed
             (List.find (\<lambda>c. pc_predicate c = oe_predicate e) (built_in_predicate_contracts blake3)))
        (\<lambda>contract.
          if sj_kind subj \<notin> set (pc_subject_kinds contract)
             \<or> (\<exists>f \<in> set (oe_facets e). fc_key f \<notin> set (pc_facets contract))
          then Err UnsupportedFacet
          else Ok (obligation_new blake3 (oe_predicate e) (sj_id subj) (oe_facets e))))"

definition compile_obligations ::
    "(u8 list \<Rightarrow> digest) \<Rightarrow> obligation_expression list \<Rightarrow> subject \<Rightarrow> route_contract \<Rightarrow>
     (obligation list, need_compile_error) result" where
  "compile_obligations blake3 expressions subj route =
     collect_results (compile_obligation blake3 subj route) expressions"

definition facet_value :: "facet list \<Rightarrow> string \<Rightarrow> string option" where
  "facet_value facets key = map_option fc_value (List.find (\<lambda>f. fc_key f = key) facets)"

definition has_duplicate_facet_keys :: "facet list \<Rightarrow> bool" where
  "has_duplicate_facet_keys facets \<longleftrightarrow> \<not> distinct (map fc_key facets)"

definition anchor_punctuation :: "char \<Rightarrow> bool" where
  "anchor_punctuation c \<longleftrightarrow> c \<in> set '',.;:()[]`'' \<or> char_code c = 34"

definition is_exact_anchor :: "string \<Rightarrow> bool" where
  "is_exact_anchor s \<longleftrightarrow>
     starts_with ''--'' s \<or> str_contains ''::'' s \<or> ends_with ''.rs'' s \<or> ends_with ''.toml'' s"

definition undeclared_exact_anchor :: "string \<Rightarrow> subject list \<Rightarrow> string option" where
  "undeclared_exact_anchor body subjects =
     List.find (\<lambda>t. is_exact_anchor t \<and> \<not> (\<exists>s \<in> set subjects. sj_name s = t))
       (map (trim_matches anchor_punctuation) (split_ascii_whitespace body))"

definition parse_world_digest :: "facet list \<Rightarrow> string \<Rightarrow> (digest option, need_compile_error) result" where
  "parse_world_digest world key =
     (case facet_value world key of
        None \<Rightarrow> Ok None
      | Some text \<Rightarrow> rbind (map_err (\<lambda>_. UnsupportedWorld) (digest_parse text)) (\<lambda>d. Ok (Some d)))"

definition compile_world :: "facet list \<Rightarrow> digest \<Rightarrow> (semantic_world, need_compile_error) result" where
  "compile_world world lineage =
     (if (\<exists>f \<in> set world. fc_key f \<notin>
            {''source'', ''platform'', ''features'', ''configuration'', ''toolchain''})
         \<or> has_duplicate_facet_keys world
      then Err UnsupportedWorld
      else rbind (parse_world_digest world ''configuration'') (\<lambda>configuration.
           rbind (parse_world_digest world ''toolchain'') (\<lambda>toolchain.
           Ok \<lparr>sw_lineage = lineage,
               sw_source = (case facet_value world ''source'' of Some v \<Rightarrow> v | None \<Rightarrow> ''current''),
               sw_platform = (case facet_value world ''platform'' of Some v \<Rightarrow> v | None \<Rightarrow> ''current''),
               sw_features = (case facet_value world ''features'' of Some v \<Rightarrow> v | None \<Rightarrow> ''default''),
               sw_configuration = configuration, sw_toolchain = toolchain\<rparr>)))"

definition compile_residual ::
    "(u8 list \<Rightarrow> digest) \<Rightarrow> string list \<Rightarrow> string \<Rightarrow> subject list \<Rightarrow> residual_intent option" where
  "compile_residual blake3 constraints body subjects =
     (if constraints \<noteq> [] then
        Some \<lparr>ri_raw = blake3 (as_bytes (join [CHR 0x0A] constraints)), ri_reason = UnparsedConstraint,
              ri_mandatory = True\<rparr>
      else map_option (\<lambda>anchor. \<lparr>ri_raw = blake3 (as_bytes anchor),
              ri_reason = UndeclaredExactAnchor, ri_mandatory = True\<rparr>)
            (undeclared_exact_anchor body subjects))"

definition need_identity ::
    "(u8 list \<Rightarrow> digest) \<Rightarrow> subject list \<Rightarrow> obligation list \<Rightarrow> obligation list \<Rightarrow> string list \<Rightarrow>
     semantic_world \<Rightarrow> digest list \<Rightarrow> digest" where
  "need_identity blake3 subjects required preferred constraints world inputs =
     hasher_finish blake3 (fold field_digest inputs (field_digest (world_id blake3 world)
       (fold field_str constraints
       (fold (\<lambda>ob. field_digest (ob_id ob)) preferred
       (fold (\<lambda>ob. field_digest (ob_id ob)) required
       (fold (\<lambda>s. field_digest (sj_id s)) subjects (hasher_new ''need'')))))))"

definition ir_out_of_bounds :: "need_ir \<Rightarrow> bool" where
  "ir_out_of_bounds ir \<longleftrightarrow>
     MAX_NEED_IR_BYTES < length (ir_body ir) \<or>
     MAX_NEED_SUBJECTS < length (ir_subjects ir) \<or>
     MAX_REQUIRED_OBLIGATIONS < length (ir_required ir) \<or>
     MAX_PREFERRED_OBLIGATIONS < length (ir_preferred ir) \<or>
     MAX_SEMANTIC_CONSTRAINTS < length (ir_constraints ir) \<or>
     MAX_NEED_INPUTS < length (ir_inputs ir) \<or>
     MAX_OBLIGATION_FACETS < length (ir_world ir) \<or>
     MAX_OBLIGATION_FACETS < length (ir_projection ir) \<or>
     (\<exists>e \<in> set (ir_required ir @ ir_preferred ir). MAX_OBLIGATION_FACETS < length (oe_facets e))"

definition compile_need ::
    "(u8 list \<Rightarrow> digest) \<Rightarrow> need_ir \<Rightarrow> digest \<Rightarrow> route_contract \<Rightarrow> (need, need_compile_error) result" where
  "compile_need blake3 ir lineage route =
     (if ir_format_revision ir \<noteq> NEED_IR_FORMAT_REVISION then Err UnsupportedFormat
      else if ir_out_of_bounds ir then Err Bounds
      else if ir_route_hint ir \<noteq> Some (rc_route route) then Err RouteMismatch
      else if \<exists>s \<in> set (ir_subjects ir). se_name s = [] then Err MissingSubject
      else
        let subjects = dedup_by_key sj_id (sort_key sj_id
              (map (\<lambda>s. subject_exact blake3 lineage (se_kind s) (se_name s)) (ir_subjects ir)))
        in case subjects of
          [] \<Rightarrow> Err MissingSubject
        | [subj] \<Rightarrow>
            rbind (merge_obligation_expressions (rc_required route) (ir_required ir)) (\<lambda>required_exprs.
            rbind (merge_obligation_expressions (rc_preferred route) (ir_preferred ir)) (\<lambda>merged_preferred.
            let preferred_exprs = filter (\<lambda>p. \<not> (\<exists>r \<in> set required_exprs. oe_predicate r = oe_predicate p))
                  merged_preferred in
            rbind (compile_obligations blake3 required_exprs subj route) (\<lambda>required0.
            rbind (compile_obligations blake3 preferred_exprs subj route) (\<lambda>preferred0.
            let required = sort_obligations required0;
                preferred = sort_obligations preferred0 in
            rbind (compile_world (ir_world ir) lineage) (\<lambda>world.
            rbind (collect_results (\<lambda>v. map_err (\<lambda>_. InvalidInput) (digest_parse v)) (ir_inputs ir)) (\<lambda>inputs0.
            let inputs = sort_dedup inputs0;
                constraints = sort_dedup (ir_constraints ir) in
            Ok \<lparr>nd_id = need_identity blake3 subjects required preferred constraints world inputs,
                nd_subjects = subjects, nd_required = required, nd_preferred = preferred,
                nd_constraints = constraints, nd_world = world, nd_inputs = inputs,
                nd_residual = compile_residual blake3 constraints (ir_body ir) subjects,
                nd_body_digest = blake3 (as_bytes (ir_body ir)),
                nd_format_revision = NEED_IR_FORMAT_REVISION\<rparr>))))))
        | _ \<Rightarrow> Err AmbiguousSubject)"

section \<open>Merging: what is kept and when it conflicts\<close>

definition declared :: "obligation_expression list \<Rightarrow> (predicate_kind \<times> string \<times> string) set" where
  "declared es = {(oe_predicate e, fc_key f, fc_value f) | e f. e \<in> set es \<and> f \<in> set (oe_facets e)}"

definition merged_triples ::
    "(predicate_kind \<times> (string \<times> string) list) list \<Rightarrow> (predicate_kind \<times> string \<times> string) set" where
  "merged_triples m = {(p, k, v). \<exists>fs. map_of m p = Some fs \<and> map_of fs k = Some v}"

definition functional :: "(predicate_kind \<times> string \<times> string) set \<Rightarrow> bool" where
  "functional T \<longleftrightarrow> (\<forall>p k v w. (p, k, v) \<in> T \<longrightarrow> (p, k, w) \<in> T \<longrightarrow> v = w)"

definition btrees :: "(predicate_kind \<times> (string \<times> string) list) list \<Rightarrow> bool" where
  "btrees m \<longleftrightarrow> btree m \<and> (\<forall>p fs. map_of m p = Some fs \<longrightarrow> btree fs)"

definition facet_pairs :: "facet list \<Rightarrow> (string \<times> string) set" where
  "facet_pairs fs = (\<lambda>f. (fc_key f, fc_value f)) ` set fs"

lemma facet_pairs_Cons [simp]: "facet_pairs (f # fs) = insert (fc_key f, fc_value f) (facet_pairs fs)"
  by (simp add: facet_pairs_def)

lemma facet_pairs_Nil [simp]: "facet_pairs [] = {}"
  by (simp add: facet_pairs_def)

lemma merge_facets_Ok:
  "merge_facets fs m = Ok m' \<Longrightarrow> btree m \<Longrightarrow>
     btree m' \<and> Map.graph (map_of m') = Map.graph (map_of m) \<union> facet_pairs fs"
proof (induction fs arbitrary: m)
  case (Cons f fs)
  then have ok: "merge_facets fs (btree_insert (fc_key f) (fc_value f) m) = Ok m'"
    and compat: "map_of m (fc_key f) = None \<or> map_of m (fc_key f) = Some (fc_value f)"
    by (auto split: option.splits if_splits)
  have "Map.graph (map_of (btree_insert (fc_key f) (fc_value f) m)) =
      insert (fc_key f, fc_value f) (Map.graph (map_of m))"
    using compat by (auto simp: Map.graph_def split: if_splits)
  with Cons.IH [OF ok btree_btree_insert [OF Cons.prems(2)]] show ?case
    by (simp del: map_of_btree_insert)
qed simp

lemma merge_facets_Err:
  "merge_facets fs m = Err e \<Longrightarrow>
     e = ConflictingDeclaration \<and>
     (\<exists>k v w. v \<noteq> w \<and> (k, v) \<in> Map.graph (map_of m) \<union> facet_pairs fs \<and> (k, w) \<in> facet_pairs fs)"
proof (induction fs arbitrary: m)
  case (Cons f fs)
  let ?m = "btree_insert (fc_key f) (fc_value f) m"
  show ?case
  proof (cases "\<exists>x. map_of m (fc_key f) = Some x \<and> x \<noteq> fc_value f")
    case True
    then obtain x where x: "map_of m (fc_key f) = Some x" "x \<noteq> fc_value f" by blast
    with Cons.prems show ?thesis by (auto simp: Map.graph_def)
  next
    case False
    with Cons.prems have err: "merge_facets fs ?m = Err e" by (auto split: option.splits if_splits)
    from Cons.IH [OF err] show ?thesis
      by (auto simp: Map.graph_def split: if_splits)
  qed
qed simp

lemma merged_triples_insert:
  "merged_triples (btree_insert p fs m) =
     {t \<in> merged_triples m. fst t \<noteq> p} \<union> {(p, k, v) | k v. map_of fs k = Some v}"
  by (auto simp: merged_triples_def split: if_splits)

lemma functional_merged_triples: "functional (merged_triples m)"
  by (auto simp: functional_def merged_triples_def)

lemma merge_expressions_Ok:
  "merge_expressions es m = Ok m' \<Longrightarrow> btrees m \<Longrightarrow>
     btrees m' \<and> merged_triples m' = merged_triples m \<union> declared es
       \<and> fst ` set m' = fst ` set m \<union> oe_predicate ` set es"
proof (induction es arbitrary: m)
  case (Cons e es)
  let ?p = "oe_predicate e"
  let ?old = "case map_of m ?p of Some fs \<Rightarrow> fs | None \<Rightarrow> []"
  from Cons.prems obtain fs where fs: "merge_facets (oe_facets e) ?old = Ok fs"
    and ok: "merge_expressions es (btree_insert ?p fs m) = Ok m'" by (auto simp: Let_def)
  have old: "btree ?old" using Cons.prems(2) by (auto simp: btrees_def split: option.splits)
  from merge_facets_Ok [OF fs old] have bt: "btree fs"
    and gr: "Map.graph (map_of fs) = Map.graph (map_of ?old) \<union> facet_pairs (oe_facets e)" by auto
  have inv: "btrees (btree_insert ?p fs m)"
    using Cons.prems(2) bt by (auto simp: btrees_def btree_btree_insert)
  have "{(?p, k, v) | k v. map_of fs k = Some v} =
      {t \<in> merged_triples m. fst t = ?p} \<union> declared [e]"
  proof -
    have "map_of fs k = Some v \<longleftrightarrow> (k, v) \<in> Map.graph (map_of fs)" for k v
      by (simp add: Map.graph_def)
    then show ?thesis unfolding gr
      by (auto simp: Map.graph_def merged_triples_def declared_def facet_pairs_def split: option.splits)
  qed
  then have "merged_triples (btree_insert ?p fs m) = merged_triples m \<union> declared [e]"
    unfolding merged_triples_insert by auto
  moreover have "declared (e # es) = declared [e] \<union> declared es" by (auto simp: declared_def)
  ultimately show ?case using Cons.IH [OF ok inv] by auto
qed (simp add: declared_def)

lemma merge_expressions_Err:
  "merge_expressions es m = Err x \<Longrightarrow> btrees m \<Longrightarrow>
     x = ConflictingDeclaration \<and> \<not> functional (merged_triples m \<union> declared es)"
proof (induction es arbitrary: m)
  case (Cons e es)
  let ?p = "oe_predicate e"
  let ?old = "case map_of m ?p of Some fs \<Rightarrow> fs | None \<Rightarrow> []"
  show ?case
  proof (cases "merge_facets (oe_facets e) ?old")
    case (Err y)
    then have "x = y" using Cons.prems(1) by (simp add: Let_def)
    moreover obtain k v w where kvw: "v \<noteq> w" "(k, v) \<in> Map.graph (map_of ?old) \<union> facet_pairs (oe_facets e)"
        "(k, w) \<in> facet_pairs (oe_facets e)" and "y = ConflictingDeclaration"
      using merge_facets_Err [OF Err] by blast
    moreover have "(?p, k, v) \<in> merged_triples m \<union> declared (e # es)"
        "(?p, k, w) \<in> merged_triples m \<union> declared (e # es)"
      using kvw(2,3) by (auto simp: Map.graph_def merged_triples_def declared_def facet_pairs_def split: option.splits)
    ultimately show ?thesis using kvw(1) unfolding functional_def by blast
  next
    case (Ok fs)
    with Cons.prems(1) have err: "merge_expressions es (btree_insert ?p fs m) = Err x"
      by (simp add: Let_def)
    have "merge_expressions [e] m = Ok (btree_insert ?p fs m)" using Ok by (simp add: Let_def)
    from merge_expressions_Ok [OF this Cons.prems(2)]
    have "btrees (btree_insert ?p fs m)"
      and "merged_triples (btree_insert ?p fs m) = merged_triples m \<union> declared [e]" by auto
    moreover have "declared (e # es) = declared [e] \<union> declared es" by (auto simp: declared_def)
    ultimately show ?thesis using Cons.IH [OF err] by (simp add: Un_assoc)
  qed
qed simp

lemma btrees_Nil [simp]: "btrees []"
  by (simp add: btrees_def)

lemma merged_triples_Nil [simp]: "merged_triples [] = {}"
  by (simp add: merged_triples_def)

lemma declared_iff:
  "(p, k, v) \<in> declared es \<longleftrightarrow>
     (\<exists>e \<in> set es. \<exists>f \<in> set (oe_facets e). oe_predicate e = p \<and> fc_key f = k \<and> fc_value f = v)"
  by (auto simp: declared_def)

lemma not_functional_declared:
  "\<not> functional (declared es) \<longleftrightarrow>
     (\<exists>a \<in> set es. \<exists>b \<in> set es. oe_predicate a = oe_predicate b \<and>
        (\<exists>f \<in> set (oe_facets a). \<exists>g \<in> set (oe_facets b). fc_key f = fc_key g \<and> fc_value f \<noteq> fc_value g))"
  (is "_ \<longleftrightarrow> ?clash")
proof
  assume "\<not> functional (declared es)"
  then obtain p k v w where "(p, k, v) \<in> declared es" "(p, k, w) \<in> declared es" and ne: "v \<noteq> w"
    unfolding functional_def by blast
  then obtain a f b g where "a \<in> set es" "f \<in> set (oe_facets a)" "b \<in> set es" "g \<in> set (oe_facets b)"
    and "oe_predicate a = p" "oe_predicate b = p" "fc_key f = k" "fc_key g = k" "fc_value f = v" "fc_value g = w"
    unfolding declared_iff by blast
  with ne show ?clash by metis
next
  assume ?clash
  then obtain a b f g where "a \<in> set es" "b \<in> set es" "oe_predicate a = oe_predicate b"
    "f \<in> set (oe_facets a)" "g \<in> set (oe_facets b)" "fc_key f = fc_key g" "fc_value f \<noteq> fc_value g" by blast
  then have "(oe_predicate a, fc_key f, fc_value f) \<in> declared es"
    "(oe_predicate a, fc_key f, fc_value g) \<in> declared es" "fc_value f \<noteq> fc_value g"
    unfolding declared_iff by metis+
  then show "\<not> functional (declared es)" unfolding functional_def by blast
qed

text \<open>
  Conflict detection is exact: merging the route's obligations with the declared ones fails, and
  then only with \<open>ConflictingDeclaration\<close>, exactly when two declarations for one predicate give the
  same facet key two different values.
\<close>

theorem merge_conflict_iff:
  "merge_obligation_expressions route decl = Err x \<longleftrightarrow>
     x = ConflictingDeclaration \<and>
     (\<exists>a \<in> set (route @ decl). \<exists>b \<in> set (route @ decl). oe_predicate a = oe_predicate b \<and>
        (\<exists>f \<in> set (oe_facets a). \<exists>g \<in> set (oe_facets b). fc_key f = fc_key g \<and> fc_value f \<noteq> fc_value g))"
proof -
  have "merge_obligation_expressions route decl = Err x \<longleftrightarrow>
      x = ConflictingDeclaration \<and> \<not> functional (declared (route @ decl))"
  proof (cases "merge_expressions (route @ decl) []")
    case (Ok m)
    then have "functional (declared (route @ decl))"
      using merge_expressions_Ok [OF Ok] functional_merged_triples [of m] by simp
    with Ok show ?thesis by (simp add: merge_obligation_expressions_def)
  next
    case (Err y)
    with merge_expressions_Err [OF Err] show ?thesis by (auto simp: merge_obligation_expressions_def)
  qed
  then show ?thesis by (simp only: not_functional_declared)
qed

section \<open>Compiled needs\<close>

lemma expression_sel [simp]:
  "oe_predicate (expression p fs) = p"
  "facet_pairs (oe_facets (expression p fs)) = set fs"
  by (auto simp: expression_def facet_pairs_def image_image case_prod_beta)

lemma merge_Ok_predicates:
  assumes "merge_obligation_expressions route decl = Ok es"
  shows "distinct (map oe_predicate es)"
    and "oe_predicate ` set es = oe_predicate ` set (route @ decl)"
    and "length es \<le> 3"
proof -
  from assms obtain m where m: "merge_expressions (route @ decl) [] = Ok m"
    and es: "es = map (\<lambda>(p, fs). expression p fs) m"
    by (auto simp: merge_obligation_expressions_def)
  from merge_expressions_Ok [OF m] have bt: "btree m" and dom: "fst ` set m = oe_predicate ` set (route @ decl)"
    by (auto simp: btrees_def)
  have preds: "map oe_predicate es = map fst m" by (simp add: es case_prod_beta)
  show "distinct (map oe_predicate es)" using bt btree_distinct preds by metis
  show "oe_predicate ` set es = oe_predicate ` set (route @ decl)"
    using dom preds by (metis set_map)
  have "length m \<le> card (UNIV :: predicate_kind set)"
    by (rule btm.entries_bounded [OF bt finite_UNIV_predicate_kind]) simp
  then show "length es \<le> 3" by (simp add: es card_UNIV_predicate_kind)
qed

lemma merge_Ok_covers:
  assumes "merge_obligation_expressions route decl = Ok es" and "e \<in> set (route @ decl)"
  shows "\<exists>e' \<in> set es. oe_predicate e' = oe_predicate e \<and> set (oe_facets e) \<subseteq> set (oe_facets e')"
proof -
  from assms obtain m where m: "merge_expressions (route @ decl) [] = Ok m"
    and es: "es = map (\<lambda>(p, fs). expression p fs) m"
    by (auto simp: merge_obligation_expressions_def)
  from merge_expressions_Ok [OF m] have bt: "btrees m" "merged_triples m = declared (route @ decl)"
    and dom: "fst ` set m = oe_predicate ` set (route @ decl)" by auto
  from dom assms(2) obtain fs where fs: "(oe_predicate e, fs) \<in> set m" by force
  then have mp: "map_of m (oe_predicate e) = Some fs"
    using bt(1) by (intro map_of_is_SomeI) (auto simp: btrees_def btree_distinct)
  have "(fc_key f, fc_value f) \<in> set fs" if "f \<in> set (oe_facets e)" for f
  proof -
    have "(oe_predicate e, fc_key f, fc_value f) \<in> merged_triples m"
      using that assms(2) unfolding bt(2) declared_iff by blast
    with mp show ?thesis by (auto simp: merged_triples_def dest: map_of_SomeD)
  qed
  then have "facet_pairs (oe_facets e) \<subseteq> facet_pairs (oe_facets (expression (oe_predicate e) fs))"
    by (auto simp: facet_pairs_def [of "oe_facets e"])
  then have "set (oe_facets e) \<subseteq> set (oe_facets (expression (oe_predicate e) fs))"
    unfolding facet_pairs_def by (auto simp: facet_eq_iff image_subset_iff image_iff) (metis facet_eq_iff)
  moreover have "expression (oe_predicate e) fs \<in> set es" using fs es by force
  ultimately show ?thesis using expression_sel(1) by blast
qed

lemma compile_obligation_Ok:
  "compile_obligation blake3 subj route e = Ok ob \<Longrightarrow>
     ob = obligation_new blake3 (oe_predicate e) (sj_id subj) (oe_facets e) \<and> oe_predicate e \<in> set (rc_allowed route)"
  by (auto simp: compile_obligation_def split: if_splits)

lemma compile_obligations_map:
  "compile_obligations blake3 es subj route = Ok obs \<Longrightarrow>
     obs = map (\<lambda>e. obligation_new blake3 (oe_predicate e) (sj_id subj) (oe_facets e)) es"
  unfolding compile_obligations_def
  by (erule collect_results_Ok_map) (simp add: compile_obligation_Ok)

lemma compile_obligations_mem:
  "compile_obligations blake3 es subj route = Ok obs \<Longrightarrow> ob \<in> set obs \<Longrightarrow>
     ob_subject ob = sj_id subj \<and> ob_predicate ob \<in> set (rc_allowed route)"
  unfolding compile_obligations_def
  by (drule (1) collect_results_set) (auto dest!: compile_obligation_Ok)

lemma compile_world_lineage: "compile_world w lineage = Ok world \<Longrightarrow> sw_lineage world = lineage"
  by (auto simp: compile_world_def split: if_splits)

lemma compile_need_OkE:
  assumes "compile_need blake3 ir lineage route = Ok n"
  obtains subj req pref req0 pref0 where
    "nd_subjects n = [subj]"
    "\<exists>s \<in> set (ir_subjects ir). subj = subject_exact blake3 lineage (se_kind s) (se_name s)"
    "merge_obligation_expressions (rc_required route) (ir_required ir) = Ok req"
    "merge_obligation_expressions (rc_preferred route) (ir_preferred ir) = Ok pref"
    "compile_obligations blake3 req subj route = Ok req0"
    "compile_obligations blake3
       (filter (\<lambda>p. \<not> (\<exists>r \<in> set req. oe_predicate r = oe_predicate p)) pref) subj route = Ok pref0"
    "nd_required n = sort_obligations req0" "nd_preferred n = sort_obligations pref0"
    "sw_lineage (nd_world n) = lineage"
    "nd_constraints n = sort_dedup (ir_constraints ir)"
    "nd_residual n = compile_residual blake3 (nd_constraints n) (ir_body ir) (nd_subjects n)"
    "nd_id n = need_identity blake3 (nd_subjects n) (nd_required n) (nd_preferred n) (nd_constraints n)
       (nd_world n) (nd_inputs n)"
proof -
  define subs where "subs = dedup_by_key sj_id (sort_key sj_id
    (map (\<lambda>s. subject_exact blake3 lineage (se_kind s) (se_name s)) (ir_subjects ir)))"
  have mem: "\<exists>s \<in> set (ir_subjects ir). x = subject_exact blake3 lineage (se_kind s) (se_name s)"
    if "x \<in> set subs" for x
    using that unfolding subs_def by (auto dest!: dedup_by_key_subset)
  show thesis
    using assms mem
    by (auto simp: compile_need_def subs_def [symmetric] Let_def compile_world_lineage
        split: if_splits list.splits intro!: that)
qed

lemma compile_need_sound_raw:
  assumes "compile_need blake3 ir lineage route = Ok n"
  shows "\<exists>s. nd_subjects n = [s] \<and> subject_is_canonical blake3 s \<and> sj_lineage s = lineage \<and>
     sw_lineage (nd_world n) = lineage \<and>
     (\<forall>ob \<in> set (nd_required n @ nd_preferred n).
        ob_subject ob = sj_id s \<and> ob_predicate ob \<in> set (rc_allowed route)) \<and>
     sorted_wrt (<) (map ob_id (nd_required n)) \<and> sorted_wrt (<) (map ob_id (nd_preferred n)) \<and>
     length (nd_required n) \<le> 3 \<and>
     (\<forall>e \<in> set (rc_required route @ ir_required ir). \<exists>fs. set (oe_facets e) \<subseteq> set fs \<and>
        ob_id (obligation_new blake3 (oe_predicate e) (sj_id s) fs) \<in> ob_id ` set (nd_required n))"
  using assms
proof (rule compile_need_OkE)
  fix subj req pref req0 pref0
  assume facts: "nd_subjects n = [subj]"
    "\<exists>s \<in> set (ir_subjects ir). subj = subject_exact blake3 lineage (se_kind s) (se_name s)"
    and req: "merge_obligation_expressions (rc_required route) (ir_required ir) = Ok req"
    and req0: "compile_obligations blake3 req subj route = Ok req0"
    and pref0: "compile_obligations blake3
      (filter (\<lambda>p. \<not> (\<exists>r \<in> set req. oe_predicate r = oe_predicate p)) pref) subj route = Ok pref0"
    and nd: "nd_required n = sort_obligations req0" "nd_preferred n = sort_obligations pref0"
      "sw_lineage (nd_world n) = lineage"
  note r = compile_obligations_map [OF req0]
  have obs: "ob_subject ob = sj_id subj \<and> ob_predicate ob \<in> set (rc_allowed route)"
    if "ob \<in> set (nd_required n @ nd_preferred n)" for ob
    using that compile_obligations_mem [OF req0, of ob] compile_obligations_mem [OF pref0, of ob]
      sort_obligations_subset [of req0, THEN subsetD, of ob] sort_obligations_subset [of pref0, THEN subsetD, of ob]
    unfolding nd set_append by blast
  have "length (nd_required n) \<le> 3"
    using length_sort_obligations [of req0] r merge_Ok_predicates(3) [OF req] by (simp add: nd)
  moreover have "\<exists>fs. set (oe_facets e) \<subseteq> set fs \<and>
      ob_id (obligation_new blake3 (oe_predicate e) (sj_id subj) fs) \<in> ob_id ` set (nd_required n)"
    if e: "e \<in> set (rc_required route @ ir_required ir)" for e
  proof -
    from merge_Ok_covers [OF req e] obtain e' where e': "e' \<in> set req"
      "oe_predicate e' = oe_predicate e" "set (oe_facets e) \<subseteq> set (oe_facets e')" by blast
    then have "ob_id (obligation_new blake3 (oe_predicate e) (sj_id subj) (oe_facets e')) \<in> ob_id ` set req0"
      unfolding r by force
    with e' show ?thesis by (auto simp: nd sort_obligations_ids)
  qed
  ultimately show ?thesis
    using facts obs nd sort_obligations_strict_ids by auto
qed


definition sample_ir :: "obligation_expression list \<Rightarrow> obligation_expression list \<Rightarrow> need_ir" where
  "sample_ir required preferred =
     \<lparr>ir_route_hint = Some ''locate.implementation'',
      ir_subjects = [\<lparr>se_kind = Symbol, se_name = ''Digest''\<rparr>],
      ir_required = required, ir_preferred = preferred, ir_constraints = [], ir_world = [], ir_inputs = [],
      ir_projection = [], ir_body = ''where'', ir_format_revision = 1\<rparr>"

definition tests_expression :: obligation_expression where
  "tests_expression = expression FocusedTests [(''selection'', ''representative'')]"

definition length_hash :: "u8 list \<Rightarrow> digest" where
  "length_hash bs = Digest [word_of_nat (length bs)]"

text \<open>A hash for examples: the byte of an obligation preimage that holds the predicate tag.\<close>

definition tag_hash :: "u8 list \<Rightarrow> digest" where
  "tag_hash bs = Digest [bs ! 43]"

definition locate_route :: "(u8 list \<Rightarrow> digest) \<Rightarrow> route_contract" where
  "locate_route blake3 = hd (built_in_route_contracts blake3)"

abbreviation locate_facets :: "(string \<times> string) list" where
  "locate_facets \<equiv> [(''granularity'', ''exact-location''), (''polarity'', ''positive''), (''selection'', ''primary'')]"

lemma locate_route_sel [simp]:
  "rc_route (locate_route blake3) = ''locate.implementation''"
  "rc_required (locate_route blake3) = [expression ImplementationLocation locate_facets]"
  "rc_preferred (locate_route blake3) = []"
  "rc_allowed (locate_route blake3) = [ImplementationLocation, FocusedTests]"
  by (simp_all add: locate_route_def built_in_route_contracts_def route_contract_new_def)

lemma sample_merges:
  "merge_obligation_expressions [expression ImplementationLocation locate_facets] [tests_expression] =
     Ok [expression ImplementationLocation locate_facets, tests_expression]"
  "merge_obligation_expressions [expression ImplementationLocation locate_facets] [] =
     Ok [expression ImplementationLocation locate_facets]"
  "merge_obligation_expressions [] [tests_expression] = Ok [tests_expression]"
  "merge_obligation_expressions [] [] = Ok []"
  by code_simp+

lemma sample_obligations:
  fixes s :: subject
  shows "compile_obligation blake3 s (locate_route blake3) (expression ImplementationLocation locate_facets) =
     Ok (obligation_new blake3 ImplementationLocation (sj_id s) (oe_facets (expression ImplementationLocation locate_facets)))"
    "compile_obligation blake3 s (locate_route blake3) tests_expression =
     Ok (obligation_new blake3 FocusedTests (sj_id s) (oe_facets tests_expression))"
  by (cases "sj_kind s"; simp add: compile_obligation_def built_in_predicate_contracts_def predicate_contract_new_def
      tests_expression_def expression_def all_subject_kinds_def)+

lemma sample_world: "compile_world [] lineage = Ok w \<longleftrightarrow>
    w = \<lparr>sw_lineage = lineage, sw_source = ''current'', sw_platform = ''current'', sw_features = ''default'',
      sw_configuration = None, sw_toolchain = None\<rparr>"
  by (auto simp: compile_world_def has_duplicate_facet_keys_def parse_world_digest_def facet_value_def)

lemma sample_compiles:
  assumes "merge_obligation_expressions [expression ImplementationLocation locate_facets] r = Ok req"
    and "merge_obligation_expressions [] p = Ok pref"
    and "r \<in> {[], [tests_expression]}" "p \<in> {[], [tests_expression]}"
    and "subj = subject_exact blake3 lineage Symbol ''Digest''"
    and "compile_obligations blake3 req subj (locate_route blake3) = Ok req0"
    and "compile_obligations blake3 (filter (\<lambda>x. \<not> (\<exists>y \<in> set req. oe_predicate y = oe_predicate x)) pref)
      subj (locate_route blake3) = Ok pref0"
  shows "\<exists>n. compile_need blake3 (sample_ir r p) lineage (locate_route blake3) = Ok n \<and>
     nd_required n = sort_obligations req0 \<and> nd_preferred n = sort_obligations pref0 \<and>
     (\<exists>w. compile_world [] lineage = Ok w \<and> nd_id n = need_identity blake3 [subj] (sort_obligations req0) (sort_obligations pref0) [] w [])"
proof -
  have bounds: "\<not> ir_out_of_bounds (sample_ir r p)"
    using assms(3,4) by (auto simp: ir_out_of_bounds_def sample_ir_def semantic_bounds tests_expression_def expression_def)
  obtain w where w: "compile_world [] lineage = Ok w" using sample_world by blast
  show ?thesis
    using bounds assms(1,2,6,7) w
    by (simp add: compile_need_def sample_ir_def NEED_IR_FORMAT_REVISION_def assms(5) Let_def sort_dedup_def)
qed

lemma sample_required_compiles:
  obtains n where "compile_need blake3 (sample_ir [tests_expression] []) lineage (locate_route blake3) = Ok n"
    and "nd_required n \<noteq> []"
proof -
  define s where "s = subject_exact blake3 lineage Symbol ''Digest''"
  obtain req where req: "compile_obligations blake3
      [expression ImplementationLocation locate_facets, tests_expression] s (locate_route blake3) = Ok req" "req \<noteq> []"
    by (simp add: compile_obligations_def sample_obligations)
  from sample_compiles [OF sample_merges(1,4) _ _ s_def req(1), of "[]"]
  show thesis using that req(2) by (auto simp: compile_obligations_def)
qed


lemma compile_need_preferred_length:
  assumes "compile_need blake3 ir lineage route = Ok n"
  shows "length (nd_preferred n) \<le> 3"
  using assms
proof (rule compile_need_OkE)
  fix subj req pref req0 pref0
  assume pref: "merge_obligation_expressions (rc_preferred route) (ir_preferred ir) = Ok pref"
    and pref0: "compile_obligations blake3
      (filter (\<lambda>p. \<not> (\<exists>r \<in> set req. oe_predicate r = oe_predicate p)) pref) subj route = Ok pref0"
    and nd: "nd_preferred n = sort_obligations pref0"
  have "length (nd_preferred n) \<le> length pref0" by (simp add: nd length_sort_obligations)
  also have "length pref0 \<le> length pref"
    unfolding compile_obligations_map [OF pref0] by simp
  also have "length pref \<le> 3" by (rule merge_Ok_predicates(3) [OF pref])
  finally show ?thesis .
qed

lemma sort_obligations_bounded:
  assumes "set obs \<subseteq> set xs"
  shows "length (sort_obligations obs) \<le> length xs"
proof -
  have "length (sort_obligations obs) = card (ob_id ` set (sort_obligations obs))"
    using distinct_card [OF sort_obligations_distinct [of obs]] by simp
  also have "\<dots> \<le> card (ob_id ` set xs)"
    using assms by (auto simp: sort_obligations_ids intro!: card_mono)
  also have "\<dots> \<le> length xs" by (metis card_length length_map set_map)
  finally show ?thesis .
qed

text \<open>
  Fragments of a compiled need are consistent: for any nonempty selection of its obligations (in
  any order, with repetitions) and any inputs of which at most eight are distinct, the fragment that
  \<open>need_fragment\<close> builds passes \<open>NeedFragment::is_consistent\<close>, the check workers and store apply.
\<close>

theorem compiled_fragment_consistent:
  assumes n: "compile_need blake3 ir lineage route = Ok n"
    and obs: "obs \<noteq> []" "set obs \<subseteq> set (nd_required n @ nd_preferred n)"
    and inputs: "length (sort_dedup inputs) \<le> MAX_NEED_INPUTS"
  shows "fragment_is_consistent blake3 (need_fragment_of blake3 n obs inputs)"
proof -
  from compile_need_sound_raw [OF n] obtain s where s: "nd_subjects n = [s]" "subject_is_canonical blake3 s"
      "sj_lineage s = lineage" "sw_lineage (nd_world n) = lineage"
    and ob: "\<forall>ob \<in> set (nd_required n @ nd_preferred n). ob_subject ob = sj_id s"
    and len: "length (nd_required n) \<le> 3" by blast
  have len': "length (sort_obligations obs) \<le> 16"
    using sort_obligations_bounded [OF obs(2)] len compile_need_preferred_length [OF n] by simp
  have subj: "ob_subject x = sj_id s" if "x \<in> set (sort_obligations obs)" for x
    using that ob obs(2) sort_obligations_subset by blast
  have ne: "sort_obligations obs \<noteq> []" using obs(1) by simp
  have "set (map ob_subject (sort_obligations obs)) = {sj_id s}"
    using subj ne by (cases "sort_obligations obs") auto
  then have "sort_dedup (map ob_subject (sort_obligations obs)) = sort_dedup [sj_id s]"
    unfolding sort_dedup_eq_iff by simp
  then have ids: "sort_dedup (map ob_subject (sort_obligations obs)) = [sj_id s]"
    by (simp add: sort_dedup_def)
  show ?thesis
    using s len' inputs subj
    by (simp add: fragment_is_consistent_def need_fragment_of_def Let_def ids semantic_bounds
        sort_obligations_strict successively_less del: set_sort_dedup)
qed

theorem compiled_fragment_consistent_witness:
  "\<exists>n. compile_need length_hash (sample_ir [tests_expression] []) (Digest []) (locate_route length_hash) = Ok n \<and>
      nd_required n \<noteq> [] \<and>
      fragment_is_consistent length_hash (need_fragment_of length_hash n (nd_required n) [])"
proof -
  obtain n where n: "compile_need length_hash (sample_ir [tests_expression] []) (Digest [])
      (locate_route length_hash) = Ok n" and "nd_required n \<noteq> []" by (rule sample_required_compiles)
  with compiled_fragment_consistent [OF n, of "nd_required n" "[]"] show ?thesis
    by (auto simp: semantic_bounds sort_dedup_def)
qed

text \<open>
  The need identity does not record which obligations are mandatory. On the built-in route
  \<open>locate.implementation\<close>, requiring the focused-tests obligation and merely preferring it compile to
  needs with different required obligations and, whenever the location obligation's identity sorts
  first, the same \<open>NeedId\<close>.
\<close>

theorem need_identity_ignores_requirement:
  assumes "ob_id (obligation_new blake3 ImplementationLocation (subject_hash blake3 lineage Symbol ''Digest'')
        (oe_facets (hd (rc_required (locate_route blake3)))))
      < ob_id (obligation_new blake3 FocusedTests (subject_hash blake3 lineage Symbol ''Digest'')
        (oe_facets tests_expression))"
  shows "\<exists>a b. compile_need blake3 (sample_ir [tests_expression] []) lineage (locate_route blake3) = Ok a \<and>
      compile_need blake3 (sample_ir [] [tests_expression]) lineage (locate_route blake3) = Ok b \<and>
      nd_id a = nd_id b \<and> length (nd_required a) = 2 \<and> length (nd_required b) = 1"
proof -
  define s where "s = subject_exact blake3 lineage Symbol ''Digest''"
  define l where "l = obligation_new blake3 ImplementationLocation (sj_id s)
    (oe_facets (expression ImplementationLocation locate_facets))"
  define t where "t = obligation_new blake3 FocusedTests (sj_id s) (oe_facets tests_expression)"
  have lt: "ob_id l < ob_id t" using assms by (simp add: l_def t_def s_def subject_exact_def)
  then have sorts: "sort_obligations [l, t] = [l, t]" "sort_obligations [l] = [l]" "sort_obligations [t] = [t]"
    "sort_obligations [] = []"
    by (auto simp: sort_obligations_def obligation_ord_def)
  have tp: "oe_predicate tests_expression = FocusedTests" by (simp add: tests_expression_def)
  note ob = sample_obligations [of blake3 s, folded l_def t_def]
  from sample_compiles [OF sample_merges(1,4) _ _ s_def, of "[l, t]" "[]"]
  obtain a w where a: "compile_need blake3 (sample_ir [tests_expression] []) lineage (locate_route blake3) = Ok a"
    "nd_required a = [l, t]" "compile_world [] lineage = Ok w"
    "nd_id a = need_identity blake3 [s] [l, t] [] [] w []"
    by (auto simp: compile_obligations_def ob sorts)
  from sample_compiles [OF sample_merges(2,3) _ _ s_def, of "[l]" "[t]"] a(3)
  obtain b where b: "compile_need blake3 (sample_ir [] [tests_expression]) lineage (locate_route blake3) = Ok b"
    "nd_required b = [l]" "nd_id b = need_identity blake3 [s] [l] [t] [] w []"
    by (auto simp: compile_obligations_def ob sorts tp)
  have "nd_id a = nd_id b" by (simp add: a(4) b(3) need_identity_def)
  with a b show ?thesis by auto
qed

theorem need_identity_ignores_requirement_witness:
  "\<exists>a b. compile_need tag_hash (sample_ir [tests_expression] []) (Digest []) (locate_route tag_hash) = Ok a \<and>
      compile_need tag_hash (sample_ir [] [tests_expression]) (Digest []) (locate_route tag_hash) = Ok b \<and>
      nd_id a = nd_id b \<and> length (nd_required a) = 2 \<and> length (nd_required b) = 1"
  by (rule need_identity_ignores_requirement) code_simp

end
