(* ===== verification/Planner.thy ===== *)
theory Planner
  imports Planner_DP Need_Compiler
begin

text \<open>
  \<^verbatim>\<open>crates/needle-runtime/src/proof.rs\<close>: the proof planner. \<open>plan_validity\<close> finds a smallest set of
  reusable artifacts that covers the required obligations, \<open>plan_economics\<close> the cheapest selection
  for the mask that validity chose, \<open>plan\<close> combines both and issues a sufficiency certificate, and
  \<open>replay\<close> checks a certificate against the candidates. The resident scratch tables are explicit
  state, returned updated. Table indices are 16-bit masks: the source's casts between \<open>usize\<close> and
  \<open>u16\<close> lose nothing, since at most 16 obligations pass the bound check.
\<close>

section \<open>Data\<close>

record proof_candidate =
  cd_artifact :: digest
  cd_validation :: digest
  cd_coverage :: "obligation list"
  cd_exact_request :: bool
  cd_cost :: u64
  cd_claim_ids :: "digest list"
  cd_claim_validations :: "digest list"
  cd_claim_set :: "digest option"

datatype resolution_kind = ExactHit | CoverageHit | CompositeHit | PartialHit | Miss

record plan_economics_info =
  ec_fresh :: "u64 option"
  ec_selected :: "u64 option"
  ec_overhead :: u64
  ec_net :: "int option"

record selected_plan =
  sp_id :: digest
  sp_need :: digest
  sp_artifacts :: "digest list"
  sp_claims :: "digest list"
  sp_claim_validations :: "digest list"
  sp_claim_sets :: "digest list"
  sp_covered :: u16
  sp_missing :: u16
  sp_economics :: plan_economics_info
  sp_budget :: proof_budget
  sp_reason :: string

record satisfaction_step =
  ss_obligation :: digest
  ss_artifact :: digest
  ss_validation :: digest

record sufficiency_cert =
  su_id :: digest
  su_need :: digest
  su_obligations :: "digest list"
  su_artifacts :: "digest list"
  su_validations :: "digest list"
  su_steps :: "satisfaction_step list"
  su_world :: digest
  su_freshness :: digest
  su_contradiction :: digest
  su_residual :: "residual_intent option"
  su_engine :: digest

record proof_plan =
  pn_resolution :: resolution_kind
  pn_selected :: selected_plan
  pn_certificate :: "sufficiency_cert option"

record validity_selection =
  vs_covered :: u16
  vs_selected :: u64
  vs_count :: u8

datatype proof_error = ObligationBound | CandidateBound | Budget | ScratchPoisoned | ClaimCertificate

record plan_state =
  ps_selected :: u64
  ps_count :: u8

definition plan_state_root :: plan_state where
  "plan_state_root = \<lparr>ps_selected = 0, ps_count = 0\<rparr>"

definition plan_state_better :: "plan_state \<Rightarrow> plan_state \<Rightarrow> bool" where
  "plan_state_better self other \<longleftrightarrow>
     (ps_count self, ps_selected self) < (ps_count other, ps_selected other)"

record economic_state =
  es_selected :: u64
  es_count :: u8
  es_cost :: u64

definition economic_state_root :: economic_state where
  "economic_state_root = \<lparr>es_selected = 0, es_count = 0, es_cost = 0\<rparr>"

definition economic_state_better :: "economic_state \<Rightarrow> economic_state \<Rightarrow> bool" where
  "economic_state_better self other \<longleftrightarrow>
     (es_cost self, es_count self, es_selected self) < (es_cost other, es_count other, es_selected other)"

record planner_scratch =
  sc_states :: "u16 \<rightharpoonup> plan_state"
  sc_economic :: "u16 \<rightharpoonup> economic_state"
  sc_masks :: "u16 list"

definition scratch_new :: planner_scratch where
  "scratch_new = \<lparr>sc_states = Map.empty, sc_economic = Map.empty, sc_masks = replicate MAX_PROOF_CANDIDATES 0\<rparr>"

definition clear_table :: "nat \<Rightarrow> (u16 \<rightharpoonup> 's) \<Rightarrow> (u16 \<rightharpoonup> 's)" where
  "clear_table used t = (\<lambda>m. if unat m < used then None else t m)"

definition scratch_clear :: "nat \<Rightarrow> nat \<Rightarrow> planner_scratch \<Rightarrow> planner_scratch" where
  "scratch_clear used_states candidate_count sc =
     \<lparr>sc_states = clear_table used_states (sc_states sc),
      sc_economic = clear_table used_states (sc_economic sc),
      sc_masks = replicate candidate_count 0 @ drop candidate_count (sc_masks sc)\<rparr>"

text \<open>The planner: the engine definition and the mutex around the scratch tables.\<close>

record proof_planner =
  pp_engine :: digest
  pp_scratch :: planner_scratch
  pp_poisoned :: bool

definition planner_new :: "(u8 list \<Rightarrow> digest) \<Rightarrow> proof_planner" where
  "planner_new blake3 =
     \<lparr>pp_engine = hasher_finish blake3 (field_u16 64 (field_u16 16
        (field_str ''bounded-bitmask-dp'' (hasher_new ''proof-engine'')))),
      pp_scratch = scratch_new, pp_poisoned = False\<rparr>"

section \<open>Candidate masks\<close>

definition covers :: "proof_candidate \<Rightarrow> obligation \<Rightarrow> bool" where
  "covers candidate requested \<longleftrightarrow> (\<exists>provided \<in> set (cd_coverage candidate). satisfies provided requested)"

definition candidate_mask :: "obligation list \<Rightarrow> proof_candidate \<Rightarrow> u16" where
  "candidate_mask required candidate =
     fold (\<lambda>(i, requested) msk. if covers candidate requested then msk OR push_bit i 1 else msk)
       (List.enumerate 0 required) 0"

definition fill_masks :: "obligation list \<Rightarrow> proof_candidate list \<Rightarrow> u16 list \<Rightarrow> u16 list" where
  "fill_masks required candidates masks =
     fold (\<lambda>(i, c) ms. ms[i := candidate_mask required c]) (List.enumerate 0 candidates) masks"

section \<open>Validity\<close>

definition plan_state_next :: "nat \<Rightarrow> plan_state \<Rightarrow> plan_state" where
  "plan_state_next index existing =
     \<lparr>ps_selected = ps_selected existing OR push_bit index 1,
      ps_count = saturating_add (ps_count existing) 1\<rparr>"

definition validity_step :: "u8 \<Rightarrow> u16 \<Rightarrow> nat \<Rightarrow> u16 \<Rightarrow> (u16 \<rightharpoonup> plan_state) \<Rightarrow> (u16 \<rightharpoonup> plan_state)" where
  "validity_step max_artifacts coverage index msk states =
     (case states msk of
        None \<Rightarrow> states
      | Some existing \<Rightarrow>
          if ps_count existing \<ge> max_artifacts then states
          else
            let next_mask = msk OR coverage;
                next = plan_state_next index existing
            in case states next_mask of
                 Some current \<Rightarrow>
                   if \<not> plan_state_better next current then states else states(next_mask \<mapsto> next)
               | None \<Rightarrow> states(next_mask \<mapsto> next))"

definition validity_loop ::
    "u8 \<Rightarrow> nat \<Rightarrow> nat \<Rightarrow> u16 list \<Rightarrow> (u16 \<rightharpoonup> plan_state) \<Rightarrow> (u16 \<rightharpoonup> plan_state)" where
  "validity_loop max_artifacts obligation_count candidate_count masks states =
     fold (\<lambda>index states.
        if masks ! index = 0 then states
        else fold (validity_step max_artifacts (masks ! index) index) (masks_desc obligation_count) states)
       [0..<candidate_count] states"

definition count_ones :: "u16 \<Rightarrow> nat" where
  "count_ones m = length (filter (bit m) [0..<16])"

definition best_partial_step ::
    "(u16 \<rightharpoonup> plan_state) \<Rightarrow> u16 \<Rightarrow> u16 \<times> plan_state \<Rightarrow> u16 \<times> plan_state" where
  "best_partial_step states msk best =
     (case states msk of
        None \<Rightarrow> best
      | Some state \<Rightarrow>
          let greater = count_ones msk > count_ones (fst best) \<or>
                (count_ones msk = count_ones (fst best) \<and> ps_count state < ps_count (snd best));
              equal = count_ones msk = count_ones (fst best) \<and> ps_count state = ps_count (snd best)
          in if greater \<or> (equal \<and> msk < fst best) then (msk, state) else best)"

definition best_partial_mask :: "nat \<Rightarrow> (u16 \<rightharpoonup> plan_state) \<Rightarrow> u16" where
  "best_partial_mask state_count states =
     fst (fold (best_partial_step states) (map word_of_nat [1..<state_count]) (0, plan_state_root))"

definition mandatory_residual :: "need \<Rightarrow> bool" where
  "mandatory_residual n = (case nd_residual n of Some r \<Rightarrow> ri_mandatory r | None \<Rightarrow> False)"

definition validity_bounds :: "need \<Rightarrow> proof_candidate list \<Rightarrow> proof_budget \<Rightarrow> (unit, proof_error) result" where
  "validity_bounds n candidates budget =
     (let obligation_count = length (nd_required n) in
      if obligation_count = 0 \<or> obligation_count > 16 then Err ObligationBound
      else if length candidates > MAX_PROOF_CANDIDATES \<or> length candidates > unat (pb_max_candidates budget)
      then Err CandidateBound
      else if pb_max_artifacts budget = 0 \<or> unat (pb_max_artifacts budget) > MAX_PROOF_ARTIFACTS
         \<or> pb_max_plan_nodes budget = 0 \<or> unat (pb_max_plan_nodes budget) > 16
         \<or> obligation_count > unat (pb_max_plan_nodes budget)
         \<or> pb_max_derivation_depth budget = 0 \<or> unat (pb_max_derivation_depth budget) > MAX_DERIVATION_DEPTH
         \<or> pb_max_validation_millis budget = 0 \<or> pb_max_projection_tokens budget = 0
      then Err Budget
      else Ok ())"

definition plan_validity ::
    "proof_planner \<Rightarrow> need \<Rightarrow> proof_candidate list \<Rightarrow> proof_budget \<Rightarrow>
     (validity_selection, proof_error) result \<times> proof_planner" where
  "plan_validity planner n candidates budget =
     (case validity_bounds n candidates budget of
        Err e \<Rightarrow> (Err e, planner)
      | Ok _ \<Rightarrow>
          if pp_poisoned planner then (Err ScratchPoisoned, planner)
          else
            let state_count = 2 ^ length (nd_required n);
                full_mask = word_of_nat (state_count - 1);
                cleared = scratch_clear state_count (length candidates) (pp_scratch planner);
                masks = fill_masks (nd_required n) candidates (sc_masks cleared);
                states = validity_loop (pb_max_artifacts budget) (length (nd_required n)) (length candidates)
                  masks ((sc_states cleared)(0 \<mapsto> plan_state_root));
                chosen_mask = (if \<not> mandatory_residual n \<and> states full_mask \<noteq> None then full_mask
                  else best_partial_mask state_count states);
                state = (case states chosen_mask of Some s \<Rightarrow> s | None \<Rightarrow> plan_state_root)
            in (Ok \<lparr>vs_covered = chosen_mask, vs_selected = ps_selected state, vs_count = ps_count state\<rparr>,
                planner\<lparr>pp_scratch := cleared\<lparr>sc_states := states, sc_masks := masks\<rparr>\<rparr>))"

section \<open>Economics\<close>

definition economic_state_next :: "nat \<Rightarrow> u64 \<Rightarrow> economic_state \<Rightarrow> economic_state" where
  "economic_state_next index cost existing =
     \<lparr>es_selected = es_selected existing OR push_bit index 1,
      es_count = saturating_add (es_count existing) 1,
      es_cost = saturating_add (es_cost existing) cost\<rparr>"

definition economic_step ::
    "u8 \<Rightarrow> u16 \<Rightarrow> u64 \<Rightarrow> nat \<Rightarrow> u16 \<Rightarrow> (u16 \<rightharpoonup> economic_state) \<Rightarrow> (u16 \<rightharpoonup> economic_state)" where
  "economic_step max_artifacts coverage cost index msk states =
     (case states msk of
        None \<Rightarrow> states
      | Some existing \<Rightarrow>
          if es_count existing \<ge> max_artifacts then states
          else
            let next_mask = msk OR coverage;
                next = economic_state_next index cost existing
            in case states next_mask of
                 Some current \<Rightarrow>
                   if \<not> economic_state_better next current then states else states(next_mask \<mapsto> next)
               | None \<Rightarrow> states(next_mask \<mapsto> next))"

definition economic_loop ::
    "u8 \<Rightarrow> nat \<Rightarrow> proof_candidate list \<Rightarrow> u16 list \<Rightarrow> (u16 \<rightharpoonup> economic_state) \<Rightarrow> (u16 \<rightharpoonup> economic_state)" where
  "economic_loop max_artifacts obligation_count candidates masks states =
     fold (\<lambda>index states.
        if masks ! index = 0 then states
        else fold (economic_step max_artifacts (masks ! index) (cd_cost (candidates ! index)) index)
          (masks_desc obligation_count) states)
       [0..<length candidates] states"

definition plan_economics ::
    "proof_planner \<Rightarrow> need \<Rightarrow> proof_candidate list \<Rightarrow> proof_budget \<Rightarrow> u16 \<Rightarrow>
     (u64, proof_error) result \<times> proof_planner" where
  "plan_economics planner n candidates budget target_mask =
     (if pp_poisoned planner then (Err ScratchPoisoned, planner)
      else
        let state_count = 2 ^ length (nd_required n);
            cleared = scratch_clear state_count (length candidates) (pp_scratch planner);
            masks = fill_masks (nd_required n) candidates (sc_masks cleared);
            states = economic_loop (pb_max_artifacts budget) (length (nd_required n)) candidates
              masks ((sc_economic cleared)(0 \<mapsto> economic_state_root))
        in (Ok (case states target_mask of Some s \<Rightarrow> es_selected s | None \<Rightarrow> 0),
            planner\<lparr>pp_scratch := cleared\<lparr>sc_economic := states, sc_masks := masks\<rparr>\<rparr>))"

section \<open>Plans and certificates\<close>

definition relation_digest :: "(u8 list \<Rightarrow> digest) \<Rightarrow> string \<Rightarrow> digest list \<Rightarrow> digest" where
  "relation_digest blake3 domain artifacts = hasher_finish blake3 (fold field_digest artifacts (hasher_new domain))"

definition sufficiency_certificate_id :: "(u8 list \<Rightarrow> digest) \<Rightarrow> sufficiency_cert \<Rightarrow> digest" where
  "sufficiency_certificate_id blake3 cert =
     (let h = hasher_new ''reuse-sufficiency-certificate'';
          h = field_digest (su_need cert) h;
          h = fold field_digest (su_obligations cert) h;
          h = fold field_digest (su_artifacts cert) h;
          h = fold field_digest (su_validations cert) h;
          h = fold (\<lambda>s h. field_digest (ss_validation s) (field_digest (ss_artifact s)
                (field_digest (ss_obligation s) h))) (su_steps cert) h;
          h = field_digest (su_world cert) h;
          h = field_digest (su_freshness cert) h;
          h = field_digest (su_contradiction cert) h;
          h = (case su_residual cert of
                 Some r \<Rightarrow> field_u8 (if ri_mandatory r then 1 else 0) (field_digest (ri_raw r) (field_u8 1 h))
               | None \<Rightarrow> field_u8 0 h);
          h = field_digest (su_engine cert) h
      in hasher_finish blake3 h)"

text \<open>\<open>None\<close> stands for the panic of \<open>expect\<close> when no selected candidate covers a masked obligation.\<close>

fun certificate_steps ::
    "(nat \<times> obligation) list \<Rightarrow> proof_candidate list \<Rightarrow> u16 \<Rightarrow> satisfaction_step list option" where
  "certificate_steps [] selected covered_mask = Some []"
| "certificate_steps ((index, requested) # rest) selected covered_mask =
     (if covered_mask AND push_bit index 1 = 0 then certificate_steps rest selected covered_mask
      else case List.find (\<lambda>c. covers c requested) selected of
        None \<Rightarrow> None
      | Some c \<Rightarrow> map_option (\<lambda>steps.
          \<lparr>ss_obligation = ob_id requested, ss_artifact = cd_artifact c, ss_validation = cd_validation c\<rparr> # steps)
          (certificate_steps rest selected covered_mask))"

definition sufficiency_certificate ::
    "(u8 list \<Rightarrow> digest) \<Rightarrow> need \<Rightarrow> proof_candidate list \<Rightarrow> u16 \<Rightarrow> digest \<Rightarrow> sufficiency_cert option" where
  "sufficiency_certificate blake3 n selected covered_mask engine =
     map_option (\<lambda>steps.
       let artifacts = map cd_artifact selected;
           cert = \<lparr>su_id = blake3 (as_bytes ''pending''), su_need = nd_id n,
             su_obligations = map ob_id (nd_required n), su_artifacts = artifacts,
             su_validations = map cd_validation selected, su_steps = steps,
             su_world = world_id blake3 (nd_world n),
             su_freshness = relation_digest blake3 ''freshness'' artifacts,
             su_contradiction = relation_digest blake3 ''contradictions-clear'' artifacts,
             su_residual = nd_residual n, su_engine = engine\<rparr>
       in cert\<lparr>su_id := sufficiency_certificate_id blake3 cert\<rparr>)
       (certificate_steps (List.enumerate 0 (nd_required n)) selected covered_mask)"

fun resolution_tag :: "resolution_kind \<Rightarrow> u8" where
  "resolution_tag ExactHit = 0"
| "resolution_tag CoverageHit = 1"
| "resolution_tag CompositeHit = 2"
| "resolution_tag PartialHit = 3"
| "resolution_tag Miss = 4"

fun resolution_name :: "resolution_kind \<Rightarrow> string" where
  "resolution_name ExactHit = ''ExactHit''"
| "resolution_name CoverageHit = ''CoverageHit''"
| "resolution_name CompositeHit = ''CompositeHit''"
| "resolution_name PartialHit = ''PartialHit''"
| "resolution_name Miss = ''Miss''"

definition selected_plan_of ::
    "(u8 list \<Rightarrow> digest) \<Rightarrow> need \<Rightarrow> proof_candidate list \<Rightarrow> u16 \<Rightarrow> u16 \<Rightarrow> plan_economics_info \<Rightarrow>
     proof_budget \<Rightarrow> resolution_kind \<Rightarrow> selected_plan" where
  "selected_plan_of blake3 n selected covered missing economics budget resolution =
     \<lparr>sp_id = hasher_finish blake3 (field_u8 (resolution_tag resolution)
        (fold (\<lambda>c. field_digest (cd_artifact c)) selected
        (field_u16 missing (field_u16 covered (field_digest (nd_id n) (hasher_new ''selected-plan'')))))),
      sp_need = nd_id n, sp_artifacts = map cd_artifact selected, sp_claims = [],
      sp_claim_validations = [], sp_claim_sets = [], sp_covered = covered, sp_missing = missing,
      sp_economics = economics, sp_budget = budget, sp_reason = resolution_name resolution\<rparr>"

definition selected_by :: "u64 \<Rightarrow> proof_candidate list \<Rightarrow> proof_candidate list" where
  "selected_by bits candidates =
     map snd (filter (\<lambda>(i, c). bits AND push_bit i 1 \<noteq> 0) (List.enumerate 0 candidates))"

text \<open>\<open>i64::try_from(x).unwrap_or(i64::MAX)\<close> and the difference of two such values.\<close>

definition to_i64 :: "u64 \<Rightarrow> int" where
  "to_i64 x = (if uint x < 2 ^ 63 then uint x else 2 ^ 63 - 1)"

definition expected_net :: "u64 option \<Rightarrow> u64 option \<Rightarrow> int option" where
  "expected_net fresh selected =
     (case (fresh, selected) of (Some f, Some s) \<Rightarrow> Some (to_i64 f - to_i64 s) | _ \<Rightarrow> None)"

definition sum_costs :: "proof_candidate list \<Rightarrow> u64 option" where
  "sum_costs selected =
     fold (\<lambda>c acc. case acc of Some a \<Rightarrow> checked_add a (cd_cost c) | None \<Rightarrow> None) selected (Some 0)"

definition resolve_kind :: "proof_candidate list \<Rightarrow> bool \<Rightarrow> resolution_kind" where
  "resolve_kind selected full =
     (if selected = [] then Miss
      else if \<not> full then PartialHit
      else if length selected > 1 then CompositeHit
      else if cd_exact_request (selected ! 0) then ExactHit
      else CoverageHit)"

definition plan ::
    "(u8 list \<Rightarrow> digest) \<Rightarrow> proof_planner \<Rightarrow> need \<Rightarrow> proof_candidate list \<Rightarrow> u64 \<Rightarrow> u64 option \<Rightarrow> proof_budget \<Rightarrow>
     (proof_plan, proof_error) outcome \<times> proof_planner" where
  "plan blake3 planner n candidates overhead fresh budget =
     (case plan_validity planner n candidates budget of
        (Err e, planner) \<Rightarrow> (Return (Err e), planner)
      | (Ok validity, planner) \<Rightarrow>
          (case plan_economics planner n candidates budget (vs_covered validity) of
             (Err e, planner) \<Rightarrow> (Return (Err e), planner)
           | (Ok selected_bits, planner) \<Rightarrow>
               let full_mask = word_of_nat (2 ^ length (nd_required n) - 1);
                   chosen_mask = vs_covered validity;
                   selected = selected_by selected_bits candidates;
                   full = (chosen_mask = full_mask \<and> \<not> mandatory_residual n);
                   resolution = resolve_kind selected full;
                   expected_selected = sum_costs selected;
                   economics = \<lparr>ec_fresh = fresh, ec_selected = expected_selected, ec_overhead = overhead,
                     ec_net = expected_net fresh expected_selected\<rparr>;
                   sel = selected_plan_of blake3 n selected chosen_mask (full_mask XOR chosen_mask) economics
                     budget resolution
               in if \<not> full
                  then (Return (Ok \<lparr>pn_resolution = resolution, pn_selected = sel, pn_certificate = None\<rparr>), planner)
                  else case sufficiency_certificate blake3 n selected (sp_covered sel) (pp_engine planner) of
                    None \<Rightarrow> (Panic, planner)
                  | Some cert \<Rightarrow>
                      (Return (Ok \<lparr>pn_resolution = resolution, pn_selected = sel, pn_certificate = Some cert\<rparr>),
                       planner)))"

definition replay_step :: "sufficiency_cert \<Rightarrow> proof_candidate list \<Rightarrow> obligation \<Rightarrow> bool" where
  "replay_step cert candidates requested =
     (case List.find (\<lambda>s. ss_obligation s = ob_id requested) (su_steps cert) of
        None \<Rightarrow> False
      | Some s \<Rightarrow>
          (case List.find (\<lambda>c. cd_artifact c = ss_artifact s \<and> cd_validation c = ss_validation s) candidates of
             None \<Rightarrow> False
           | Some candidate \<Rightarrow>
               ss_artifact s \<in> set (su_artifacts cert) \<and> ss_validation s \<in> set (su_validations cert) \<and>
               covers candidate requested))"

definition replay :: "(u8 list \<Rightarrow> digest) \<Rightarrow> digest \<Rightarrow> need \<Rightarrow> sufficiency_cert \<Rightarrow> proof_candidate list \<Rightarrow> bool" where
  "replay blake3 engine n cert candidates \<longleftrightarrow>
     \<not> (su_need cert \<noteq> nd_id n
        \<or> su_engine cert \<noteq> engine
        \<or> su_id cert \<noteq> sufficiency_certificate_id blake3 cert
        \<or> (case su_residual cert of Some r \<Rightarrow> ri_mandatory r | None \<Rightarrow> False)
        \<or> su_world cert \<noteq> world_id blake3 (nd_world n)
        \<or> length (su_obligations cert) \<noteq> length (nd_required n)
        \<or> su_obligations cert \<noteq> map ob_id (nd_required n)
        \<or> length (su_artifacts cert) \<noteq> length (su_validations cert)
        \<or> su_freshness cert \<noteq> relation_digest blake3 ''freshness'' (su_artifacts cert)
        \<or> su_contradiction cert \<noteq> relation_digest blake3 ''contradictions-clear'' (su_artifacts cert))
     \<and> (\<forall>requested \<in> set (nd_required n). replay_step cert candidates requested)"

end
