(* ===== verification/Planner_Proofs.thy ===== *)
theory Planner_Proofs
  imports Planner
begin

text \<open>
  Correctness of the proof planner. The two table loops of the source interpret the locales of the
  bit-mask dynamic program; from their facts follow soundness and optimality of the validity
  selection, the cheapest plan under a sufficient artifact budget, freedom from panics there and a
  panic elsewhere, and that certificates replay.
\<close>

section \<open>Masks of candidates\<close>

lemma bit_word_exp [simp]: "bit (2 ^ k :: 'a::len word) b \<longleftrightarrow> b = k \<and> k < LENGTH('a)"
  by (auto simp: bit_exp_iff possible_bit_def)

lemma and_exp_eq_0 [simp]: "w AND 2 ^ k = 0 \<longleftrightarrow> \<not> bit w k" for w :: "'a::len word"
proof
  assume "w AND 2 ^ k = 0"
  then have "\<not> bit (w AND 2 ^ k) k" by simp
  then show "\<not> bit w k" by (auto simp: bit_and_iff dest: bit_imp_le_length)
next
  assume "\<not> bit w k"
  then show "w AND 2 ^ k = 0" by (intro bit_eqI) (auto simp: bit_and_iff)
qed

lemma bit_fold_or:
  "bit (fold (\<lambda>(i, x) m. if P x then m OR push_bit i 1 else m) (List.enumerate n xs) (m0 :: u16)) b \<longleftrightarrow>
     bit m0 b \<or> (n \<le> b \<and> b < n + length xs \<and> b < 16 \<and> P (xs ! (b - n)))"
proof (induction xs arbitrary: n m0)
  case (Cons x xs)
  show ?case
    by (auto simp: Cons.IH bit_or_iff nth_Cons' Suc_le_eq)
qed auto

lemma bit_candidate_mask:
  "bit (candidate_mask required c) b \<longleftrightarrow> b < length required \<and> b < 16 \<and> covers c (required ! b)"
  using bit_fold_or [of "covers c" 0 required 0 b] by (auto simp: candidate_mask_def)

lemma length_fold_fill:
  "length (fold (\<lambda>(i, c) ms. ms[i := g c]) (List.enumerate n cs) ms) = length ms"
  by (induction cs arbitrary: n ms) auto

lemma nth_fold_fill:
  "i < length ms \<Longrightarrow> fold (\<lambda>(i, c) ms. ms[i := g c]) (List.enumerate n cs) ms ! i =
     (if n \<le> i \<and> i < n + length cs then g (cs ! (i - n)) else ms ! i)"
proof (induction cs arbitrary: n ms)
  case (Cons c cs)
  then show ?case by (auto simp: nth_Cons' nth_list_update Suc_le_eq)
qed auto

lemma nth_fill_masks:
  "i < length cs \<Longrightarrow> length cs \<le> length ms \<Longrightarrow> fill_masks required cs ms ! i = candidate_mask required (cs ! i)"
  by (simp add: fill_masks_def nth_fold_fill)

definition mask_of :: "obligation list \<Rightarrow> proof_candidate list \<Rightarrow> nat \<Rightarrow> u16" where
  "mask_of required cs i = (if i < length cs then candidate_mask required (cs ! i) else 0)"

lemma bit_mask_of:
  "bit (mask_of required cs i) b \<longleftrightarrow> i < length cs \<and> b < length required \<and> b < 16 \<and> covers (cs ! i) (required ! b)"
  by (simp add: mask_of_def bit_candidate_mask)

lemma mask_of_fits: "fits (min 16 (length required)) (mask_of required cs i)"
  by (auto simp: fits_def bit_mask_of)

section \<open>The validity table\<close>

lemma unat_or_exp:
  assumes "\<And>b. bit a b \<Longrightarrow> b < k" "k < 64"
  shows "unat (a OR 2 ^ k :: u64) = unat a + 2 ^ k"
proof -
  have "unat (2 ^ k :: u64) = 2 ^ k"
    using assms(2) by (auto simp: bit_eq_iff bit_unsigned_iff bit_exp_iff)
  moreover have "unat a + 2 ^ k = unat a OR 2 ^ k"
    by (rule disjunctive_add) (use assms(1) in \<open>auto simp: bit_unsigned_iff bit_exp_iff\<close>)
  ultimately show ?thesis by (simp add: unsigned_or_eq)
qed

lemma run_selected_bits: "bit (ps_selected (fold plan_state_next xs plan_state_root)) b \<longleftrightarrow> b \<in> set xs \<and> b < 64"
  by (induction xs rule: rev_induct) (auto simp: plan_state_root_def plan_state_next_def bit_or_iff)

lemma run_count: "length xs \<le> 255 \<Longrightarrow> unat (ps_count (fold plan_state_next xs plan_state_root)) = length xs"
  by (induction xs rule: rev_induct) (auto simp: plan_state_root_def plan_state_next_def unat_saturating_add)

lemma sorted_bounded_length: "sorted_wrt (<) xs \<Longrightarrow> \<forall>x \<in> set xs. x < k \<Longrightarrow> length xs \<le> k" for xs :: "nat list"
  using card_mono [of "{..<k}" "set xs"] by (auto simp: strict_sorted_iff distinct_card)

interpretation vdp: mask_dp "\<lambda>i. validity_step limit (mask_of required cs i) i" "mask_of required cs"
    plan_state_root plan_state_next "\<lambda>s. unat (ps_count s)" "\<lambda>s. (ps_count s, ps_selected s)"
    "unat limit" "min 16 (length required)"
  for limit required cs
proof
  fix e :: plan_state and i
  assume "unat (ps_count e) < unat limit"
  then show "unat (ps_count (plan_state_next i e)) = Suc (unat (ps_count e))"
    using unsigned_less [of limit, where 'a = nat] by (simp add: plan_state_next_def unat_saturating_add)
qed (auto simp: validity_step_def plan_state_better_def plan_state_root_def Let_def word_le_nat_alt mask_of_fits
    simp del: fits_min split: option.splits)

interpretation vdp: mask_dp_count "\<lambda>i. validity_step limit (mask_of required cs i) i" "mask_of required cs"
    plan_state_root plan_state_next "\<lambda>s. unat (ps_count s)" "\<lambda>s. (ps_count s, ps_selected s)"
    "unat limit" "min 16 (length required)"
  for limit required cs
proof
  let ?run = "\<lambda>xs. fold plan_state_next xs plan_state_root"
  let ?picks = "vdp.picks required cs"
  have cnt: "unat (ps_count (?run xs)) = length xs \<and> length xs \<le> k" if "?picks k xs" "k \<le> 64" for k xs
    using that sorted_bounded_length [of xs k] by (auto simp: vdp.picks_def run_count)
  show "length xs \<le> length ys"
    if "?picks k xs" "?picks k ys" "k \<le> 64"
      "(ps_count (vdp.run xs), ps_selected (vdp.run xs)) \<le> (ps_count (vdp.run ys), ps_selected (vdp.run ys))" for k xs ys
    using that cnt [of k xs] cnt [of k ys] by (auto simp: vdp.run_def word_less_nat_alt word_le_nat_alt)
  fix k xs ys
  assume xs: "?picks k xs" and ys: "?picks k ys" and k: "k < 64"
    and le: "(ps_count (vdp.run xs), ps_selected (vdp.run xs)) \<le> (ps_count (vdp.run ys), ps_selected (vdp.run ys))"
  have sel: "unat (ps_selected (plan_state_next k (?run zs))) = unat (ps_selected (?run zs)) + 2 ^ k"
    if "?picks k zs" for zs
    using that k unat_or_exp [of "ps_selected (?run zs)" k]
    by (auto simp: plan_state_next_def run_selected_bits vdp.picks_def)
  have next_cnt: "unat (ps_count (plan_state_next k (?run zs))) = Suc (length zs)" if "?picks k zs" for zs
    using cnt [OF that] k by (simp add: plan_state_next_def unat_saturating_add)
  show "(ps_count (plan_state_next k (vdp.run xs)), ps_selected (plan_state_next k (vdp.run xs)))
      \<le> (ps_count (plan_state_next k (vdp.run ys)), ps_selected (plan_state_next k (vdp.run ys)))"
    using le cnt [OF xs] cnt [OF ys] sel [OF xs] sel [OF ys] next_cnt [OF xs] next_cnt [OF ys] k
    by (auto simp: vdp.run_def word_less_nat_alt word_le_nat_alt)
qed

section \<open>The economic table\<close>

definition cost_of :: "proof_candidate list \<Rightarrow> nat \<Rightarrow> u64" where
  "cost_of cs i = (if i < length cs then cd_cost (cs ! i) else 0)"

definition total_cost :: "proof_candidate list \<Rightarrow> nat" where
  "total_cost cs = (\<Sum>c \<leftarrow> cs. unat (cd_cost c))"

definition econ_next :: "proof_candidate list \<Rightarrow> nat \<Rightarrow> economic_state \<Rightarrow> economic_state" where
  "econ_next cs i = economic_state_next i (cost_of cs i)"

lemma economic_state_sel [simp]:
  "es_selected economic_state_root = 0" "es_count economic_state_root = 0" "es_cost economic_state_root = 0"
  "es_selected (econ_next cs i e) = es_selected e OR 2 ^ i"
  "es_count (econ_next cs i e) = saturating_add (es_count e) 1"
  "es_cost (econ_next cs i e) = saturating_add (es_cost e) (cost_of cs i)"
  by (simp_all add: economic_state_root_def econ_next_def economic_state_next_def)

interpretation edp: mask_dp "\<lambda>i. economic_step limit (mask_of required cs i) (cost_of cs i) i" "mask_of required cs"
    economic_state_root "econ_next cs" "\<lambda>s. unat (es_count s)" "\<lambda>s. (es_cost s, es_count s, es_selected s)"
    "unat limit" "min 16 (length required)"
  for limit required cs
proof
  fix e :: economic_state and i
  assume "unat (es_count e) < unat limit"
  then show "unat (es_count (econ_next cs i e)) = Suc (unat (es_count e))"
    using unsigned_less [of limit, where 'a = nat]
    by (simp add: unat_saturating_add)
qed (auto simp: economic_step_def economic_state_better_def econ_next_def [symmetric] Let_def
    word_le_nat_alt mask_of_fits simp del: fits_min split: option.splits)

lemma econ_selected_bits: "bit (es_selected (edp.run cs xs)) b \<longleftrightarrow> b \<in> set xs \<and> b < 64"
  by (induction xs rule: rev_induct)
    (auto simp: bit_or_iff)

lemma econ_count: "length xs \<le> 255 \<Longrightarrow> unat (es_count (edp.run cs xs)) = length xs"
  by (induction xs rule: rev_induct)
    (auto simp: unat_saturating_add)

lemma econ_cost: "unat (es_cost (edp.run cs xs)) = min (\<Sum>i \<leftarrow> xs. unat (cost_of cs i)) (2 ^ 64 - 1)"
  by (induction xs rule: rev_induct)
    (auto simp: unat_saturating_add)

lemma total_cost_nth: "total_cost cs = (\<Sum>i < length cs. unat (cost_of cs i))"
  by (simp add: total_cost_def cost_of_def sum_list_sum_nth atLeast0LessThan)

lemma cost_sum_le:
  assumes "distinct xs"
  shows "(\<Sum>i \<leftarrow> xs. unat (cost_of cs i)) \<le> total_cost cs"
proof -
  have "(\<Sum>i \<leftarrow> xs. unat (cost_of cs i)) = (\<Sum>i \<in> set xs. unat (cost_of cs i))"
    using assms by (simp add: sum_list_distinct_conv_sum_set)
  also have "\<dots> = (\<Sum>i \<in> set xs \<inter> {..<length cs}. unat (cost_of cs i))"
    by (rule sum.mono_neutral_right) (auto simp: cost_of_def)
  also have "\<dots> \<le> total_cost cs" unfolding total_cost_nth by (rule sum_mono2) auto
  finally show ?thesis .
qed

lemma econ_picks_bounds:
  assumes "edp.picks required cs k xs" "k \<le> 64" "total_cost cs < 2 ^ 64"
  shows "unat (es_count (edp.run cs xs)) = length xs" "length xs \<le> k"
    "unat (es_cost (edp.run cs xs)) = (\<Sum>i \<leftarrow> xs. unat (cost_of cs i))" "distinct xs"
proof -
  show len: "length xs \<le> k" using assms(1) sorted_bounded_length by (auto simp: edp.picks_def)
  with assms(2) show "unat (es_count (edp.run cs xs)) = length xs" by (intro econ_count) simp
  show "distinct xs" using assms(1) by (simp add: edp.picks_def strict_sorted_iff)
  with cost_sum_le [of xs cs] assms(3) show "unat (es_cost (edp.run cs xs)) = (\<Sum>i \<leftarrow> xs. unat (cost_of cs i))"
    unfolding econ_cost by linarith
qed

text \<open>Without saturation and with a limit that admits one artifact per obligation, the loop is exact.\<close>

lemma economics_drop:
  assumes sat: "total_cost cs < 2 ^ 64" and wide: "min 16 (length required) \<le> unat limit"
  shows "mask_dp_drop (\<lambda>i. economic_step limit (mask_of required cs i) (cost_of cs i) i) (mask_of required cs)
    economic_state_root (econ_next cs) (\<lambda>s. unat (es_count s)) (\<lambda>s. (es_cost s, es_count s, es_selected s))
    (unat limit) (min 16 (length required))"
proof
  fix k xs ys
  assume xs: "edp.picks required cs k xs" and ys: "edp.picks required cs k ys" and k: "k < 64"
    and le: "(es_cost (edp.run cs xs), es_count (edp.run cs xs), es_selected (edp.run cs xs))
      \<le> (es_cost (edp.run cs ys), es_count (edp.run cs ys), es_selected (edp.run cs ys))"
  have sel: "unat (es_selected (econ_next cs k (edp.run cs zs))) = unat (es_selected (edp.run cs zs)) + 2 ^ k"
    if "edp.picks required cs k zs" for zs
    using that k unat_or_exp [of "es_selected (edp.run cs zs)" k]
    by (auto simp: econ_selected_bits edp.picks_def)
  have cnt: "unat (es_count (econ_next cs k (edp.run cs zs))) = Suc (length zs)"
    if "edp.picks required cs k zs" for zs
    using econ_picks_bounds [OF that] k sat by (simp add: unat_saturating_add)
  have cost: "unat (es_cost (econ_next cs k (edp.run cs zs))) = unat (es_cost (edp.run cs zs)) + unat (cost_of cs k)"
    if zs: "edp.picks required cs k zs" for zs
  proof -
    have "distinct (zs @ [k])" using zs econ_picks_bounds(4) [OF zs] k sat by (auto simp: edp.picks_def)
    from cost_sum_le [OF this, of cs] sat econ_picks_bounds(3) [OF zs] k show ?thesis
      by (simp add: unat_saturating_add)
  qed
  show "(es_cost (econ_next cs k (edp.run cs xs)), es_count (econ_next cs k (edp.run cs xs)),
        es_selected (econ_next cs k (edp.run cs xs)))
      \<le> (es_cost (econ_next cs k (edp.run cs ys)), es_count (econ_next cs k (edp.run cs ys)),
        es_selected (econ_next cs k (edp.run cs ys)))"
    using le sel [OF xs] sel [OF ys] cnt [OF xs] cnt [OF ys] cost [OF xs] cost [OF ys] k sat
      econ_picks_bounds(1) [OF xs] econ_picks_bounds(1) [OF ys]
    by (auto simp: word_less_nat_alt word_le_nat_alt)
next
  fix k xs x ys
  assume p: "edp.picks required cs k (xs @ x # ys)" and k: "k \<le> 64"
  then have q: "edp.picks required cs k (xs @ ys)" by (auto simp: edp.picks_def sorted_wrt_append)
  show "(es_cost (edp.run cs (xs @ ys)), es_count (edp.run cs (xs @ ys)), es_selected (edp.run cs (xs @ ys)))
      < (es_cost (edp.run cs (xs @ x # ys)), es_count (edp.run cs (xs @ x # ys)), es_selected (edp.run cs (xs @ x # ys)))"
    using econ_picks_bounds(1,3) [OF p k sat] econ_picks_bounds(1,3) [OF q k sat]
    by (simp add: word_less_nat_alt word_le_nat_alt)
qed (rule wide)

text \<open>The interpretation ranges over the inputs that meet both conditions.\<close>

definition exact_costs :: "proof_candidate list \<Rightarrow> proof_candidate list" where
  "exact_costs cs = (if total_cost cs < 2 ^ 64 then cs else [])"

definition wide_limit :: "u8 \<Rightarrow> obligation list \<Rightarrow> u8" where
  "wide_limit limit required = (if min 16 (length required) \<le> unat limit then limit else 16)"

interpretation edp_exact: mask_dp_drop
    "\<lambda>i. economic_step (wide_limit limit required) (mask_of required (exact_costs cs) i) (cost_of (exact_costs cs) i) i"
    "mask_of required (exact_costs cs)" economic_state_root "econ_next (exact_costs cs)"
    "\<lambda>s. unat (es_count s)" "\<lambda>s. (es_cost s, es_count s, es_selected s)"
    "unat (wide_limit limit required)" "min 16 (length required)"
  for limit required cs
proof (rule economics_drop)
  show "total_cost (exact_costs cs) < 2 ^ 64" by (simp add: exact_costs_def total_cost_def)
  show "min 16 (length required) \<le> unat (wide_limit limit required)" by (simp add: wide_limit_def)
qed

section \<open>From the loops to the tables\<close>

lemma clear_root_agrees: "w \<le> 16 \<Longrightarrow> fits w m \<Longrightarrow> ((clear_table (2 ^ w) t)(0 \<mapsto> r)) m = [0 \<mapsto> r] m"
  by (simp add: clear_table_def fits_iff)

lemma length_scratch_clear: "k \<le> length (sc_masks (scratch_clear u k sc))"
  by (simp add: scratch_clear_def)

lemma cleared_mask:
  "i < length cs \<Longrightarrow> fill_masks required cs (sc_masks (scratch_clear u (length cs) sc)) ! i = mask_of required cs i"
  by (simp add: nth_fill_masks length_scratch_clear mask_of_def)

lemma validity_loop_stage:
  assumes "length required \<le> 16" and "fits (length required) m"
  shows "validity_loop limit (length required) (length cs)
      (fill_masks required cs (sc_masks (scratch_clear u (length cs) sc)))
      ((clear_table (2 ^ length required) t)(0 \<mapsto> plan_state_root)) m
    = vdp.stage limit required cs (length cs) m"
proof -
  have "validity_loop limit (length required) (length cs)
      (fill_masks required cs (sc_masks (scratch_clear u (length cs) sc))) st =
      fold (vdp.round limit required cs) [0..<length cs] st" for st
    unfolding validity_loop_def vdp.round_def
    by (rule fold_cong) (use assms(1) in \<open>auto simp: cleared_mask min_def\<close>)
  moreover have wm: "fits (min 16 (length required)) m" using assms(2) by simp
  have "vdp.agrees required ((clear_table (2 ^ length required) t)(0 \<mapsto> plan_state_root)) [0 \<mapsto> plan_state_root]"
    unfolding vdp.agrees_def fits_min by (intro allI impI clear_root_agrees [OF assms(1)]) simp
  from vdp.agrees_stage [OF this] have "fold (vdp.round limit required cs) [0..<length cs]
      ((clear_table (2 ^ length required) t)(0 \<mapsto> plan_state_root)) m = vdp.stage limit required cs (length cs) m"
    unfolding vdp.agrees_def using wm by blast
  ultimately show ?thesis by (simp only:)
qed

lemma economic_loop_stage:
  assumes "length required \<le> 16" and "fits (length required) m"
  shows "economic_loop limit (length required) cs
      (fill_masks required cs (sc_masks (scratch_clear u (length cs) sc)))
      ((clear_table (2 ^ length required) t)(0 \<mapsto> economic_state_root)) m
    = edp.stage limit required cs (length cs) m"
proof -
  have "economic_loop limit (length required) cs
      (fill_masks required cs (sc_masks (scratch_clear u (length cs) sc))) st =
      fold (edp.round limit required cs) [0..<length cs] st" for st
    unfolding economic_loop_def edp.round_def
    by (rule fold_cong) (use assms(1) in \<open>auto simp: cleared_mask min_def cost_of_def\<close>)
  moreover have wm: "fits (min 16 (length required)) m" using assms(2) by simp
  have "edp.agrees required ((clear_table (2 ^ length required) t)(0 \<mapsto> economic_state_root)) [0 \<mapsto> economic_state_root]"
    unfolding edp.agrees_def fits_min by (intro allI impI clear_root_agrees [OF assms(1)]) simp
  from edp.agrees_stage [OF this] have "fold (edp.round limit required cs) [0..<length cs]
      ((clear_table (2 ^ length required) t)(0 \<mapsto> economic_state_root)) m = edp.stage limit required cs (length cs) m"
    unfolding edp.agrees_def using wm by blast
  ultimately show ?thesis by (simp only:)
qed

lemma selected_by_filter: "selected_by w cs = map (nth cs) (filter (bit w) [0..<length cs])"
proof -
  have "List.enumerate 0 cs = map (\<lambda>i. (i, cs ! i)) [0..<length cs]"
    by (rule nth_equalityI) (simp_all add: nth_enumerate_eq)
  then show ?thesis by (simp add: selected_by_def filter_map o_def)
qed

lemma filter_picks: "sorted_wrt (<) xs \<Longrightarrow> \<forall>x \<in> set xs. x < k \<Longrightarrow> filter (\<lambda>i. i \<in> set xs) [0..<k] = xs" for xs :: "nat list"
  by (rule strict_sorted_equal) (auto simp: sorted_wrt_filter)

lemma selected_by_picks:
  assumes "sorted_wrt (<) xs" "\<forall>x \<in> set xs. x < length cs" "length cs \<le> 64"
    "\<And>b. bit w b \<longleftrightarrow> b \<in> set xs \<and> b < 64"
  shows "selected_by w cs = map (nth cs) xs"
proof -
  have "filter (bit w) [0..<length cs] = filter (\<lambda>i. i \<in> set xs) [0..<length cs]"
    by (rule filter_cong) (use assms in auto)
  then show ?thesis by (simp add: selected_by_filter filter_picks assms)
qed

section \<open>The best partial mask\<close>


definition no_better :: "u16 \<times> plan_state \<Rightarrow> u16 \<times> plan_state \<Rightarrow> bool" where
  "no_better a b \<longleftrightarrow> count_ones (fst a) < count_ones (fst b) \<or>
     (count_ones (fst a) = count_ones (fst b) \<and> ps_count (snd b) \<le> ps_count (snd a))"

lemma no_better_trans: "no_better a b \<Longrightarrow> no_better b c \<Longrightarrow> no_better a c"
  by (auto simp: no_better_def)

lemma best_partial_step_props:
  "no_better b (best_partial_step st m b)"
  "st m = Some s \<Longrightarrow> no_better (m, s) (best_partial_step st m b)"
  "best_partial_step st m b = b \<or> (\<exists>s. st m = Some s \<and> best_partial_step st m b = (m, s))"
  by (auto simp: best_partial_step_def no_better_def Let_def split: option.splits)

lemma best_partial_fold:
  "no_better b (fold (best_partial_step st) ms b) \<and>
   (\<forall>m \<in> set ms. \<forall>s. st m = Some s \<longrightarrow> no_better (m, s) (fold (best_partial_step st) ms b)) \<and>
   (fold (best_partial_step st) ms b = b \<or>
    (\<exists>m \<in> set ms. \<exists>s. st m = Some s \<and> fold (best_partial_step st) ms b = (m, s)))"
proof (induction ms arbitrary: b)
  case Nil
  then show ?case by (simp add: no_better_def)
next
  case (Cons m ms)
  let ?b = "best_partial_step st m b"
  let ?r = "fold (best_partial_step st) ms ?b"
  have "no_better ?b ?r" using Cons by blast
  then have "no_better b ?r" and "\<forall>s. st m = Some s \<longrightarrow> no_better (m, s) ?r"
    using best_partial_step_props(1) [of b st m] best_partial_step_props(2) [of st m _ b] no_better_trans by blast+
  moreover have "?r = b \<or> (\<exists>x \<in> set (m # ms). \<exists>s. st x = Some s \<and> ?r = (x, s))"
    using Cons [of ?b] best_partial_step_props(3) [of st m b] by (metis list.set_intros)
  ultimately show ?case using Cons [of ?b] by simp
qed

section \<open>Validity: soundness and optimality\<close>

lemma validity_bounds_Ok:
  assumes "validity_bounds n cs budget = Ok u"
  shows "0 < length (nd_required n)" "length (nd_required n) \<le> 16" "length cs \<le> 64"
    "pb_max_artifacts budget \<noteq> 0" "unat (pb_max_artifacts budget) \<le> 8"
  using assms by (auto simp: validity_bounds_def Let_def semantic_bounds split: if_splits)

lemma full_mask_bit: "w \<le> 16 \<Longrightarrow> bit (word_of_nat (2 ^ w - 1) :: u16) b \<longleftrightarrow> b < w"
proof -
  assume w: "w \<le> 16"
  have "(word_of_nat (2 ^ w - 1) :: u16) = Bit_Operations.mask w"
    by (simp add: mask_eq_exp_minus_1 of_nat_diff)
  then show ?thesis using w by (auto simp: bit_mask_iff possible_bit_def)
qed

lemma partial_masks: "fits w m \<Longrightarrow> m = 0 \<or> m \<in> set (map word_of_nat [1..<2 ^ w])"
proof (cases "m = 0")
  case False
  assume "fits w m"
  moreover from False have "0 < unat m" by (simp add: unat_gt_0)
  ultimately have "unat m \<in> set [1..<2 ^ w]" "m = word_of_nat (unat m)" by (auto simp: fits_iff Suc_le_eq)
  then show ?thesis by (metis image_eqI set_map)
qed simp

lemma partial_masks_fit: "w \<le> 16 \<Longrightarrow> m \<in> set (map word_of_nat [1..<2 ^ w]) \<Longrightarrow> fits w m"
  using small_exp [of w] by (auto simp: fits_iff)

lemma vdp_stage_root:
  assumes "length cs \<le> 64"
  shows "vdp.stage limit required cs (length cs) 0 = Some plan_state_root"
proof -
  obtain s where s: "vdp.stage limit required cs (length cs) 0 = Some s"
    using vdp.stage_optimal [of "length cs" required cs "[]"] assms by (auto simp: vdp.picks_def)
  from vdp.stage_sound [OF this] obtain xs where
    xs: "vdp.picks required cs (length cs) xs" "vdp.cover required cs xs = 0" "vdp.run xs = s" by blast
  then have "xs = []" using vdp.bit_cover [of required cs xs]
    by (cases xs) (auto simp: vdp.picks_def bit_eq_iff)
  with xs s show ?thesis by simp
qed

text \<open>What the chosen mask and state of a successful run are.\<close>

lemma plan_validity_Ok:
  assumes "plan_validity p n cs budget = (Ok v, p')"
  defines "st \<equiv> vdp.stage (pb_max_artifacts budget) (nd_required n) cs (length cs)"
    and "full \<equiv> (word_of_nat (2 ^ length (nd_required n) - 1) :: u16)"
  obtains s where "validity_bounds n cs budget = Ok ()" "\<not> pp_poisoned p" "\<not> pp_poisoned p'"
    "pp_engine p' = pp_engine p"
    "st (vs_covered v) = Some s" "vs_selected v = ps_selected s" "vs_count v = ps_count s"
    "(vs_covered v = full \<and> \<not> mandatory_residual n) \<or>
      ((mandatory_residual n \<or> st full = None) \<and>
       (\<forall>m t. fits (length (nd_required n)) m \<longrightarrow> st m = Some t \<longrightarrow> no_better (m, t) (vs_covered v, s)))"
proof -
  let ?w = "length (nd_required n)"
  from assms(1) have vb: "validity_bounds n cs budget = Ok ()" and np: "\<not> pp_poisoned p"
    by (auto simp: plan_validity_def split: result.splits if_splits)
  note b = validity_bounds_Ok [OF vb]
  define tbl where "tbl = validity_loop (pb_max_artifacts budget) ?w (length cs)
    (fill_masks (nd_required n) cs (sc_masks (scratch_clear (2 ^ ?w) (length cs) (pp_scratch p))))
    ((clear_table (2 ^ ?w) (sc_states (pp_scratch p)))(0 \<mapsto> plan_state_root))"
  have tbl: "tbl m = st m" if "fits ?w m" for m
    unfolding tbl_def st_def by (rule validity_loop_stage [OF b(2) that])
  define chosen where "chosen = (if \<not> mandatory_residual n \<and> tbl full \<noteq> None then full
    else best_partial_mask (2 ^ ?w) tbl)"
  have v: "vs_covered v = chosen"
      "vs_selected v = ps_selected (case tbl chosen of Some s \<Rightarrow> s | None \<Rightarrow> plan_state_root)"
      "vs_count v = ps_count (case tbl chosen of Some s \<Rightarrow> s | None \<Rightarrow> plan_state_root)"
      "\<not> pp_poisoned p'" "pp_engine p' = pp_engine p"
    using assms(1) vb np
    by (auto simp: plan_validity_def Let_def chosen_def tbl_def full_def scratch_clear_def)
  have root: "st 0 = Some plan_state_root" unfolding st_def by (rule vdp_stage_root [OF b(3)])
  have ffull: "fits ?w full" unfolding fits_def full_def full_mask_bit [OF b(2)] by blast
  show thesis
  proof (cases "\<not> mandatory_residual n \<and> tbl full \<noteq> None")
    case True
    then obtain s where "tbl full = Some s" by blast
    with True that [of s] vb np v tbl [OF ffull] show thesis by (simp add: chosen_def)
  next
    case False
    let ?ms = "map word_of_nat [1..<2 ^ ?w] :: u16 list"
    let ?b = "fold (best_partial_step tbl) ?ms (0, plan_state_root)"
    have chosen: "chosen = fst ?b" using False by (auto simp: chosen_def best_partial_mask_def)
    obtain s where s: "st chosen = Some s" "?b = (chosen, s)"
    proof (cases "?b = (0, plan_state_root)")
      case True
      with that root show thesis by (simp add: chosen)
    next
      case False
      with best_partial_fold [of "(0, plan_state_root)" tbl ?ms] obtain m t
        where "m \<in> set ?ms" "tbl m = Some t" "?b = (m, t)" by blast
      with that [of t] tbl [OF partial_masks_fit [OF b(2)]] show thesis by (simp add: chosen)
    qed
    have fit: "fits ?w chosen"
    proof -
      from vdp.stage_sound [OF s(1) [unfolded st_def]] vdp.cover_fits show ?thesis by (metis fits_min)
    qed
    have opt: "no_better (m, t) (chosen, s)" if "fits ?w m" "st m = Some t" for m t
      using best_partial_fold [of "(0, plan_state_root)" tbl ?ms] partial_masks [OF that(1)] that tbl root
      unfolding s(2) by auto
    show thesis
      by (rule that [of s]) (use False vb np v s(1) fit opt tbl ffull in auto)
  qed
qed



lemma plan_validity_sound_raw:
  assumes "plan_validity p n cs budget = (Ok v, p')"
  shows "length (selected_by (vs_selected v) cs) = unat (vs_count v) \<and>
     unat (vs_count v) \<le> unat (pb_max_artifacts budget) \<and>
     (\<forall>b. bit (vs_covered v) b \<longleftrightarrow> b < length (nd_required n) \<and>
        (\<exists>c \<in> set (selected_by (vs_selected v) cs). covers c (nd_required n ! b)))"
  using assms
proof (rule plan_validity_Ok)
  fix s
  assume vb: "validity_bounds n cs budget = Ok ()"
    and st: "vdp.stage (pb_max_artifacts budget) (nd_required n) cs (length cs) (vs_covered v) = Some s"
    and v: "vs_selected v = ps_selected s" "vs_count v = ps_count s"
  note b = validity_bounds_Ok [OF vb]
  from vdp.stage_sound [OF st] obtain xs where
    xs: "vdp.picks (nd_required n) cs (length cs) xs" "vdp.cover (nd_required n) cs xs = vs_covered v"
      "vdp.run xs = s" "unat (ps_count s) = length xs" "length xs \<le> unat (pb_max_artifacts budget)" by blast
  have sel: "selected_by (vs_selected v) cs = map (nth cs) xs"
    using xs b(3) by (intro selected_by_picks) (auto simp: v vdp.picks_def vdp.run_def run_selected_bits)
  have "bit (vs_covered v) k \<longleftrightarrow> k < length (nd_required n) \<and>
      (\<exists>c \<in> set (selected_by (vs_selected v) cs). covers c (nd_required n ! k))" for k
    using xs(1) b(2) unfolding xs(2) [symmetric] sel vdp.bit_cover by (auto simp: bit_mask_of vdp.picks_def)
  with xs sel v show ?thesis by simp
qed

text \<open>
  Validity is sound: the bits a successful run returns select exactly as many candidates as it
  reports, never more than the budget's artifacts, and the covered mask has exactly the bits of the
  required obligations that some selected candidate satisfies.
\<close>

theorem plan_validity_sound:
  assumes "plan_validity p n cs budget = (Ok v, p')"
  shows "length (selected_by (vs_selected v) cs) = unat (vs_count v) \<and>
     unat (vs_count v) \<le> unat (pb_max_artifacts budget) \<and>
     (\<forall>b. bit (vs_covered v) b \<longleftrightarrow> b < length (nd_required n) \<and>
        (\<exists>c \<in> set (selected_by (vs_selected v) cs). covers c (nd_required n ! b)))"
  using assms by (rule plan_validity_sound_raw)


section \<open>Economics and plans\<close>

text \<open>What a successful plan is made of: the validity selection and the economic state of its mask.\<close>

lemma plan_economics_Ok:
  assumes "\<not> pp_poisoned p" "length (nd_required n) \<le> 16" "fits (length (nd_required n)) target"
  obtains p' where "plan_economics p n cs budget target =
    (Ok (case edp.stage (pb_max_artifacts budget) (nd_required n) cs (length cs) target of
       Some s \<Rightarrow> es_selected s | None \<Rightarrow> 0), p')" "pp_engine p' = pp_engine p"
proof -
  let ?w = "length (nd_required n)"
  have "economic_loop (pb_max_artifacts budget) ?w cs
      (fill_masks (nd_required n) cs (sc_masks (scratch_clear (2 ^ ?w) (length cs) (pp_scratch p))))
      ((clear_table (2 ^ ?w) (sc_economic (pp_scratch p)))(0 \<mapsto> economic_state_root)) target =
      edp.stage (pb_max_artifacts budget) (nd_required n) cs (length cs) target"
    by (rule economic_loop_stage) (use assms in auto)
  moreover have "sc_economic (scratch_clear u k sc) = clear_table u (sc_economic sc)" for u k sc
    by (simp add: scratch_clear_def)
  ultimately show thesis using that assms(1) by (simp add: plan_economics_def Let_def)
qed

definition economic_choice :: "need \<Rightarrow> proof_candidate list \<Rightarrow> proof_budget \<Rightarrow> u16 \<Rightarrow> proof_candidate list" where
  "economic_choice n cs budget target =
     selected_by (case edp.stage (pb_max_artifacts budget) (nd_required n) cs (length cs) target of
       Some s \<Rightarrow> es_selected s | None \<Rightarrow> 0) cs"

definition plan_outcome ::
    "(u8 list \<Rightarrow> digest) \<Rightarrow> need \<Rightarrow> proof_candidate list \<Rightarrow> u16 \<Rightarrow> u64 \<Rightarrow> u64 option \<Rightarrow> proof_budget \<Rightarrow> digest \<Rightarrow>
     (proof_plan, proof_error) outcome" where
  "plan_outcome blake3 n selected covered overhead fresh budget engine =
     (let full_mask = word_of_nat (2 ^ length (nd_required n) - 1);
          full = (covered = full_mask \<and> \<not> mandatory_residual n);
          resolution = resolve_kind selected full;
          economics = \<lparr>ec_fresh = fresh, ec_selected = sum_costs selected, ec_overhead = overhead,
            ec_net = expected_net fresh (sum_costs selected)\<rparr>;
          sel = selected_plan_of blake3 n selected covered (full_mask XOR covered) economics budget resolution
      in if \<not> full then Return (Ok \<lparr>pn_resolution = resolution, pn_selected = sel, pn_certificate = None\<rparr>)
         else case sufficiency_certificate blake3 n selected covered engine of
           None \<Rightarrow> Panic
         | Some cert \<Rightarrow> Return (Ok \<lparr>pn_resolution = resolution, pn_selected = sel, pn_certificate = Some cert\<rparr>))"

lemma plan_is_outcome:
  assumes pv: "plan_validity p n cs budget = (Ok v, p')"
  shows "fst (plan blake3 p n cs overhead fresh budget) =
    plan_outcome blake3 n (economic_choice n cs budget (vs_covered v)) (vs_covered v) overhead fresh budget (pp_engine p)"
proof -
  from plan_validity_Ok [OF pv] have vb: "validity_bounds n cs budget = Ok ()" and np: "\<not> pp_poisoned p'"
    and eng: "pp_engine p' = pp_engine p" by blast+
  have "fits (length (nd_required n)) (vs_covered v)"
    using plan_validity_sound_raw [OF pv] by (auto simp: fits_def)
  with np validity_bounds_Ok(2) [OF vb] obtain p'' where
    pe: "plan_economics p' n cs budget (vs_covered v) =
      (Ok (case edp.stage (pb_max_artifacts budget) (nd_required n) cs (length cs) (vs_covered v) of
         Some s \<Rightarrow> es_selected s | None \<Rightarrow> 0), p'')" and eng'': "pp_engine p'' = pp_engine p'"
    by (rule plan_economics_Ok)
  have sel: "sp_covered (selected_plan_of blake3 n s c m e b r) = c" for s c m e b r
    by (simp add: selected_plan_of_def)
  show ?thesis
    unfolding plan_def pv prod.case result.case pe plan_outcome_def economic_choice_def [symmetric] Let_def sel eng'' eng
    by (simp only: if_distrib [of fst] option.case_distrib [of fst] prod.sel)
qed

lemma plan_not_Err:
  assumes "fst (plan blake3 p n cs overhead fresh budget) = r" and "\<forall>e. r \<noteq> Return (Err e)"
  obtains v p' where "plan_validity p n cs budget = (Ok v, p')"
    "plan_outcome blake3 n (economic_choice n cs budget (vs_covered v)) (vs_covered v) overhead fresh budget
       (pp_engine p) = r"
proof (cases "plan_validity p n cs budget")
  case (Pair res p')
  show thesis
  proof (cases res)
    case (Err e)
    with Pair assms show thesis by (auto simp: plan_def)
  next
    case (Ok v)
    with Pair have "plan_validity p n cs budget = (Ok v, p')" by simp
    from that [OF this] plan_is_outcome [OF this] assms(1) show thesis by metis
  qed
qed

lemma plan_outcome_Panic:
  "plan_outcome blake3 n selected covered overhead fresh budget engine = Panic \<Longrightarrow>
     certificate_steps (List.enumerate 0 (nd_required n)) selected covered = None"
  by (simp add: plan_outcome_def Let_def sufficiency_certificate_def split: option.splits if_splits)

lemma plan_outcome_Ok:
  assumes "plan_outcome blake3 n selected covered overhead fresh budget engine = Return (Ok pl)"
  shows "sp_covered (pn_selected pl) = covered"
    and "ec_selected (sp_economics (pn_selected pl)) = sum_costs selected"
    and "pn_certificate pl = Some cert \<Longrightarrow> sufficiency_certificate blake3 n selected covered engine = Some cert \<and>
      covered = word_of_nat (2 ^ length (nd_required n) - 1) \<and> \<not> mandatory_residual n"
proof -
  have "sp_covered (pn_selected pl) = covered \<and> ec_selected (sp_economics (pn_selected pl)) = sum_costs selected"
    using assms by (auto simp: plan_outcome_def Let_def selected_plan_of_def split: option.splits if_splits)
  then show "sp_covered (pn_selected pl) = covered" "ec_selected (sp_economics (pn_selected pl)) = sum_costs selected"
    by blast+
  show "sufficiency_certificate blake3 n selected covered engine = Some cert \<and>
      covered = word_of_nat (2 ^ length (nd_required n) - 1) \<and> \<not> mandatory_residual n"
    if "pn_certificate pl = Some cert"
    using assms that unfolding plan_outcome_def Let_def
    by (cases "covered = word_of_nat (2 ^ length (nd_required n) - 1) \<and> \<not> mandatory_residual n";
        cases "sufficiency_certificate blake3 n selected covered engine") auto
qed

lemma economic_choice_sound:
  assumes "validity_bounds n cs budget = Ok ()"
    and "edp.stage (pb_max_artifacts budget) (nd_required n) cs (length cs) target = Some s"
  obtains xs where "edp.picks (nd_required n) cs (length cs) xs" "edp.cover (nd_required n) cs xs = target"
    "economic_choice n cs budget target = map (nth cs) xs" "length xs \<le> unat (pb_max_artifacts budget)"
    "edp.run cs xs = s"
proof -
  from edp.stage_sound [OF assms(2)] obtain xs where
    xs: "edp.picks (nd_required n) cs (length cs) xs" "edp.cover (nd_required n) cs xs = target" "edp.run cs xs = s"
      "length xs \<le> unat (pb_max_artifacts budget)" by blast
  have "economic_choice n cs budget target = map (nth cs) xs"
    unfolding economic_choice_def assms(2) option.case
    using xs validity_bounds_Ok(3) [OF assms(1)]
    by (intro selected_by_picks) (auto simp: edp.picks_def econ_selected_bits)
  with xs that show thesis by blast
qed

lemma economic_choice_cheapest:
  assumes pv: "plan_validity p n cs budget = (Ok v, p')"
    and sat: "total_cost cs < 2 ^ 64" and wide: "length (nd_required n) \<le> unat (pb_max_artifacts budget)"
  obtains xs where "edp.picks (nd_required n) cs (length cs) xs" "edp.cover (nd_required n) cs xs = vs_covered v"
    "economic_choice n cs budget (vs_covered v) = map (nth cs) xs"
    "\<And>ys. edp.picks (nd_required n) cs (length cs) ys \<Longrightarrow> edp.cover (nd_required n) cs ys = vs_covered v \<Longrightarrow>
       (\<Sum>i \<leftarrow> xs. unat (cost_of cs i)) \<le> (\<Sum>i \<leftarrow> ys. unat (cost_of cs i))"
proof -
  from plan_validity_Ok [OF pv] obtain t where vb: "validity_bounds n cs budget = Ok ()"
    and st: "vdp.stage (pb_max_artifacts budget) (nd_required n) cs (length cs) (vs_covered v) = Some t" by blast
  note b = validity_bounds_Ok [OF vb]
  from vdp.stage_sound [OF st] obtain zs where
    zs: "edp.picks (nd_required n) cs (length cs) zs" "edp.cover (nd_required n) cs zs = vs_covered v" by blast
  have exact: "exact_costs cs = cs" "wide_limit (pb_max_artifacts budget) (nd_required n) = pb_max_artifacts budget"
    using sat wide by (simp_all add: exact_costs_def wide_limit_def min.coboundedI2)
  note cheapest = edp_exact.stage_cheapest [where cs = cs and limit = "pb_max_artifacts budget" and
      required = "nd_required n", unfolded exact, OF b(3)]
  from cheapest [OF zs(1)] zs(2) obtain s where
    s: "edp.stage (pb_max_artifacts budget) (nd_required n) cs (length cs) (vs_covered v) = Some s" by auto
  from economic_choice_sound [OF vb s] obtain xs where
    xs: "edp.picks (nd_required n) cs (length cs) xs" "edp.cover (nd_required n) cs xs = vs_covered v"
      "economic_choice n cs budget (vs_covered v) = map (nth cs) xs" "edp.run cs xs = s" by blast
  have "(\<Sum>i \<leftarrow> xs. unat (cost_of cs i)) \<le> (\<Sum>i \<leftarrow> ys. unat (cost_of cs i))"
    if ys: "edp.picks (nd_required n) cs (length cs) ys" "edp.cover (nd_required n) cs ys = vs_covered v" for ys
  proof -
    from cheapest [OF ys(1)] ys(2) s have "es_cost s \<le> es_cost (edp.run cs ys)" by auto
    then show ?thesis
      using econ_picks_bounds(3) [OF xs(1) b(3) sat] econ_picks_bounds(3) [OF ys(1) b(3) sat] xs(4)
      by (simp add: word_le_nat_alt)
  qed
  with xs that show thesis by blast
qed

lemma certificate_steps_None:
  "certificate_steps (List.enumerate k req) sel m = None \<Longrightarrow>
     \<exists>i < length req. bit m (k + i) \<and> (\<forall>c \<in> set sel. \<not> covers c (req ! i))"
proof (induction req arbitrary: k)
  case (Cons r req)
  show ?case
  proof (cases "bit m k \<and> List.find (\<lambda>c. covers c r) sel = None")
    case True
    then show ?thesis by (auto simp: find_None_iff intro!: exI [of _ 0])
  next
    case False
    with Cons.prems have "certificate_steps (List.enumerate (Suc k) req) sel m = None"
      by (auto split: option.splits if_splits)
    from Cons.IH [OF this] obtain i where "i < length req" "bit m (Suc k + i)"
      "\<forall>c \<in> set sel. \<not> covers c (req ! i)" by blast
    then show ?thesis by (auto intro!: exI [of _ "Suc i"])
  qed
qed simp

lemma certificate_steps_Some:
  "certificate_steps (List.enumerate k req) sel m = Some steps \<Longrightarrow> (\<And>i. i < length req \<Longrightarrow> bit m (k + i)) \<Longrightarrow>
     list_all2 (\<lambda>r s. ss_obligation s = ob_id r \<and>
       (\<exists>c \<in> set sel. covers c r \<and> ss_artifact s = cd_artifact c \<and> ss_validation s = cd_validation c)) req steps"
proof (induction req arbitrary: k steps)
  case (Cons r req)
  have "bit m k" using Cons.prems(2) [of 0] by simp
  with Cons.prems(1) obtain c rest where c: "List.find (\<lambda>c. covers c r) sel = Some c"
    and rest: "certificate_steps (List.enumerate (Suc k) req) sel m = Some rest"
    and steps: "steps = \<lparr>ss_obligation = ob_id r, ss_artifact = cd_artifact c, ss_validation = cd_validation c\<rparr> # rest"
    by (auto split: option.splits)
  have "bit m (Suc k + i)" if "i < length req" for i using Cons.prems(2) [of "Suc i"] that by simp
  from Cons.IH [OF rest this] c show ?case
    unfolding steps by (auto simp: find_Some_iff intro!: bexI [of _ c])
qed simp




lemma plan_no_panic_raw:
  assumes wide: "length (nd_required n) \<le> unat (pb_max_artifacts budget)" and sat: "total_cost cs < 2 ^ 64"
  shows "fst (plan blake3 p n cs overhead fresh budget) \<noteq> Panic"
proof
  assume "fst (plan blake3 p n cs overhead fresh budget) = Panic"
  then obtain v p' where pv: "plan_validity p n cs budget = (Ok v, p')"
    and out: "plan_outcome blake3 n (economic_choice n cs budget (vs_covered v)) (vs_covered v) overhead fresh budget
      (pp_engine p) = Panic" by (rule plan_not_Err) simp_all
  from economic_choice_cheapest [OF pv sat wide] obtain xs where
    xs: "edp.picks (nd_required n) cs (length cs) xs" "edp.cover (nd_required n) cs xs = vs_covered v"
      "economic_choice n cs budget (vs_covered v) = map (nth cs) xs" by metis
  from certificate_steps_None [OF plan_outcome_Panic [OF out]] obtain i where
    i: "bit (vs_covered v) i" "\<forall>c \<in> set (map (nth cs) xs). \<not> covers c (nd_required n ! i)"
    unfolding xs(3) by auto
  then show False unfolding xs(2) [symmetric] edp.bit_cover by (auto simp: bit_mask_of)
qed

text \<open>
  C37. Planning does not panic on needs within the budget: when the budget admits one artifact per
  required obligation and the candidates' costs do not overflow a \<open>u64\<close> together, \<open>plan\<close> returns.
\<close>

theorem plan_no_panic:
  assumes wide: "length (nd_required n) \<le> unat (pb_max_artifacts budget)" and sat: "total_cost cs < 2 ^ 64"
  shows "fst (plan blake3 p n cs overhead fresh budget) \<noteq> Panic"
  using assms by (rule plan_no_panic_raw)


section \<open>Certificates\<close>

lemma sufficiency_certificate_sel:
  assumes "sufficiency_certificate blake3 n selected covered engine = Some cert"
  obtains steps where "certificate_steps (List.enumerate 0 (nd_required n)) selected covered = Some steps"
    "su_steps cert = steps" "su_artifacts cert = map cd_artifact selected"
    "su_validations cert = map cd_validation selected" "su_obligations cert = map ob_id (nd_required n)"
    "su_need cert = nd_id n" "su_engine cert = engine" "su_world cert = world_id blake3 (nd_world n)"
    "su_residual cert = nd_residual n" "su_id cert = sufficiency_certificate_id blake3 cert"
    "su_freshness cert = relation_digest blake3 ''freshness'' (su_artifacts cert)"
    "su_contradiction cert = relation_digest blake3 ''contradictions-clear'' (su_artifacts cert)"
proof -
  have idem: "sufficiency_certificate_id blake3 (c\<lparr>su_id := d\<rparr>) = sufficiency_certificate_id blake3 c" for c d
    by (simp add: sufficiency_certificate_id_def)
  define base where "base steps = \<lparr>su_id = blake3 (as_bytes ''pending''), su_need = nd_id n,
      su_obligations = map ob_id (nd_required n), su_artifacts = map cd_artifact selected,
      su_validations = map cd_validation selected, su_steps = steps,
      su_world = world_id blake3 (nd_world n),
      su_freshness = relation_digest blake3 ''freshness'' (map cd_artifact selected),
      su_contradiction = relation_digest blake3 ''contradictions-clear'' (map cd_artifact selected),
      su_residual = nd_residual n, su_engine = engine\<rparr>" for steps
  from assms obtain steps where st: "certificate_steps (List.enumerate 0 (nd_required n)) selected covered = Some steps"
    and cert: "cert = (base steps)\<lparr>su_id := sufficiency_certificate_id blake3 (base steps)\<rparr>"
    by (auto simp: sufficiency_certificate_def Let_def base_def)
  have "su_id cert = sufficiency_certificate_id blake3 cert" unfolding cert idem by simp
  then show thesis by (rule that [OF st, rotated 8]) (simp_all add: cert base_def)
qed

lemma find_Some_mem: "List.find P xs = Some x \<Longrightarrow> x \<in> set xs \<and> P x"
  by (auto simp: find_Some_iff)

lemma replay_step_intro:
  assumes all: "list_all2 (\<lambda>r s. ss_obligation s = ob_id r \<and>
       (\<exists>c \<in> set sel. covers c r \<and> ss_artifact s = cd_artifact c \<and> ss_validation s = cd_validation c)) req (su_steps cert)"
    and dist: "distinct (map ob_id req)" and r: "r \<in> set req" and sub: "set sel \<subseteq> set cs"
    and same: "\<forall>c \<in> set cs. \<forall>d \<in> set cs. cd_artifact c = cd_artifact d \<and> cd_validation c = cd_validation d \<longrightarrow>
      cd_coverage c = cd_coverage d"
    and cert: "su_artifacts cert = map cd_artifact sel" "su_validations cert = map cd_validation sel"
  shows "replay_step cert cs r"
proof -
  have ids: "map ss_obligation (su_steps cert) = map ob_id req"
    using all by (auto simp: list_all2_conv_all_nth list_eq_iff_nth_eq)
  with r have "ob_id r \<in> set (map ss_obligation (su_steps cert))" by simp
  then obtain s where s: "List.find (\<lambda>s. ss_obligation s = ob_id r) (su_steps cert) = Some s"
    by (cases "List.find (\<lambda>s. ss_obligation s = ob_id r) (su_steps cert)") (auto simp: find_None_iff)
  then obtain j where j: "j < length (su_steps cert)" "s = su_steps cert ! j" "ss_obligation s = ob_id r"
    by (auto simp: find_Some_iff)
  have "req ! j = r"
    using j ids dist r all by (auto simp: list_all2_conv_all_nth distinct_map inj_on_def)
  with j all obtain c where c: "c \<in> set sel" "covers c r" "ss_artifact s = cd_artifact c" "ss_validation s = cd_validation c"
    by (auto simp: list_all2_conv_all_nth)
  with sub obtain d where d: "List.find (\<lambda>d. cd_artifact d = ss_artifact s \<and> cd_validation d = ss_validation s) cs = Some d"
    by (cases "List.find (\<lambda>d. cd_artifact d = ss_artifact s \<and> cd_validation d = ss_validation s) cs")
      (auto simp: find_None_iff)
  then have "d \<in> set cs" "cd_artifact d = ss_artifact s" "cd_validation d = ss_validation s"
    by (auto simp: find_Some_iff)
  with c sub same have "covers d r" by (metis covers_def subsetD)
  with s d c cert show ?thesis by (auto simp: replay_step_def)
qed

lemma plan_certificate_replays_raw:
  assumes ret: "fst (plan blake3 p n cs overhead fresh budget) = Return (Ok pl)"
    and cert: "pn_certificate pl = Some cert"
    and dist: "distinct (map ob_id (nd_required n))"
    and same: "\<forall>c \<in> set cs. \<forall>d \<in> set cs. cd_artifact c = cd_artifact d \<and> cd_validation c = cd_validation d \<longrightarrow>
      cd_coverage c = cd_coverage d"
  shows "replay blake3 (pp_engine p) n cert cs"
proof -
  from ret obtain v p' where pv: "plan_validity p n cs budget = (Ok v, p')"
    and out: "plan_outcome blake3 n (economic_choice n cs budget (vs_covered v)) (vs_covered v) overhead fresh budget
      (pp_engine p) = Return (Ok pl)" by (rule plan_not_Err) simp_all
  note full = plan_outcome_Ok(3) [OF out cert]
  from plan_validity_Ok [OF pv] have vb: "validity_bounds n cs budget = Ok ()" by blast
  from full obtain steps where st: "certificate_steps (List.enumerate 0 (nd_required n))
      (economic_choice n cs budget (vs_covered v)) (vs_covered v) = Some steps"
    and c: "su_steps cert = steps" "su_artifacts cert = map cd_artifact (economic_choice n cs budget (vs_covered v))"
      "su_validations cert = map cd_validation (economic_choice n cs budget (vs_covered v))"
      "su_obligations cert = map ob_id (nd_required n)"
      "su_need cert = nd_id n" "su_engine cert = pp_engine p" "su_world cert = world_id blake3 (nd_world n)"
      "su_residual cert = nd_residual n" "su_id cert = sufficiency_certificate_id blake3 cert"
      "su_freshness cert = relation_digest blake3 ''freshness'' (su_artifacts cert)"
      "su_contradiction cert = relation_digest blake3 ''contradictions-clear'' (su_artifacts cert)"
    by (elim conjE) (rule sufficiency_certificate_sel)
  have bits: "bit (vs_covered v) (0 + i)" if "i < length (nd_required n)" for i
    using full that full_mask_bit [OF validity_bounds_Ok(2) [OF vb]] by simp
  have sub: "set (economic_choice n cs budget (vs_covered v)) \<subseteq> set cs"
    unfolding economic_choice_def selected_by_filter by auto
  have "replay_step cert cs r" if "r \<in> set (nd_required n)" for r
    by (rule replay_step_intro [OF _ dist that sub same c(2,3)]) (unfold c(1), rule certificate_steps_Some [OF st bits])
  moreover have "\<not> (case su_residual cert of Some r \<Rightarrow> ri_mandatory r | None \<Rightarrow> False)"
    using full by (simp add: c(8) mandatory_residual_def)
  moreover have "length (su_artifacts cert) = length (su_validations cert)" by (simp add: c(2,3))
  ultimately show ?thesis
    unfolding replay_def using c(4-7,9-11) by simp
qed

text \<open>
  C20. A certificate the planner issues replays: when obligation identities are distinct (as
  \<open>compile_need\<close> guarantees) and candidates with the same artifact and validation certificate have the
  same coverage, \<open>replay\<close> accepts the certificate of \<open>plan\<close> for that need and those candidates.
\<close>

theorem plan_certificate_replays:
  assumes ret: "fst (plan blake3 p n cs overhead fresh budget) = Return (Ok pl)"
    and cert: "pn_certificate pl = Some cert"
    and dist: "distinct (map ob_id (nd_required n))"
    and same: "\<forall>c \<in> set cs. \<forall>d \<in> set cs. cd_artifact c = cd_artifact d \<and> cd_validation c = cd_validation d \<longrightarrow>
      cd_coverage c = cd_coverage d"
  shows "replay blake3 (pp_engine p) n cert cs"
  using assms by (rule plan_certificate_replays_raw)

text \<open>
  C27. Replay is sound: when it accepts a certificate, every required obligation is satisfied by a
  candidate whose artifact and validation certificate are listed in it, and the certificate is bound
  to the need, its world, its obligations in order and the engine, with no mandatory residual.
\<close>

theorem replay_sound:
  assumes "replay blake3 engine n cert cs"
  shows "su_need cert = nd_id n \<and> su_engine cert = engine \<and> su_world cert = world_id blake3 (nd_world n) \<and>
     su_obligations cert = map ob_id (nd_required n) \<and> \<not> (\<exists>r. su_residual cert = Some r \<and> ri_mandatory r) \<and>
     (\<forall>ob \<in> set (nd_required n). \<exists>c \<in> set cs. covers c ob \<and>
        cd_artifact c \<in> set (su_artifacts cert) \<and> cd_validation c \<in> set (su_validations cert))"
proof -
  have "\<exists>c \<in> set cs. covers c ob \<and> cd_artifact c \<in> set (su_artifacts cert) \<and> cd_validation c \<in> set (su_validations cert)"
    if "ob \<in> set (nd_required n)" for ob
  proof -
    have "replay_step cert cs ob" using assms that by (simp add: replay_def)
    then show ?thesis
      unfolding replay_step_def by (fastforce split: option.splits dest!: find_Some_mem)
  qed
  with assms show ?thesis by (auto simp: replay_def)
qed

definition table_selection :: "need \<Rightarrow> (u16 \<rightharpoonup> plan_state) \<Rightarrow> validity_selection" where
  "table_selection n states =
     (let full_mask = word_of_nat (2 ^ length (nd_required n) - 1);
          chosen_mask = (if \<not> mandatory_residual n \<and> states full_mask \<noteq> None then full_mask
            else best_partial_mask (2 ^ length (nd_required n)) states);
          state = (case states chosen_mask of Some s \<Rightarrow> s | None \<Rightarrow> plan_state_root)
      in \<lparr>vs_covered = chosen_mask, vs_selected = ps_selected state, vs_count = ps_count state\<rparr>)"

lemma table_selection_cong:
  assumes w: "length (nd_required n) \<le> 16"
    and eq: "\<And>m. fits (length (nd_required n)) m \<Longrightarrow> st m = st' m"
  shows "table_selection n st = table_selection n st'"
proof -
  let ?w = "length (nd_required n)"
  have full: "st (word_of_nat (2 ^ ?w - 1)) = st' (word_of_nat (2 ^ ?w - 1))"
    by (rule eq) (unfold fits_def full_mask_bit [OF w], blast)
  have "fold (best_partial_step st) (map word_of_nat [1..<2 ^ ?w]) b =
      fold (best_partial_step st') (map word_of_nat [1..<2 ^ ?w]) b" for b
    by (rule fold_cong [OF refl refl]) (rule ext, simp only: best_partial_step_def eq [OF partial_masks_fit [OF w]])
  then have best: "best_partial_mask (2 ^ ?w) st = best_partial_mask (2 ^ ?w) st'"
    by (simp only: best_partial_mask_def)
  have "fits ?w (best_partial_mask (2 ^ ?w) st')"
    using best_partial_fold [of "(0, plan_state_root)" st' "map word_of_nat [1..<2 ^ ?w]"] partial_masks_fit [OF w]
    unfolding best_partial_mask_def by (metis fits_0 fst_conv)
  with eq best full show ?thesis unfolding table_selection_def Let_def by auto
qed

lemma plan_validity_table:
  assumes "validity_bounds n cs budget = Ok ()" and "\<not> pp_poisoned p"
  shows "fst (plan_validity p n cs budget) =
    Ok (table_selection n (vdp.stage (pb_max_artifacts budget) (nd_required n) cs (length cs)))"
proof -
  let ?w = "length (nd_required n)"
  let ?sc = "scratch_clear (2 ^ ?w) (length cs) (pp_scratch p)"
  have "fst (plan_validity p n cs budget) = Ok (table_selection n (validity_loop (pb_max_artifacts budget) ?w (length cs)
      (fill_masks (nd_required n) cs (sc_masks ?sc)) ((sc_states ?sc)(0 \<mapsto> plan_state_root))))"
    unfolding plan_validity_def assms(1) result.case table_selection_def Let_def
    using assms(2) by (simp only: if_False fst_conv)
  also have "sc_states ?sc = clear_table (2 ^ ?w) (sc_states (pp_scratch p))" by (simp add: scratch_clear_def)
  also have "table_selection n (validity_loop (pb_max_artifacts budget) ?w (length cs)
      (fill_masks (nd_required n) cs (sc_masks ?sc))
      ((clear_table (2 ^ ?w) (sc_states (pp_scratch p)))(0 \<mapsto> plan_state_root))) =
      table_selection n (vdp.stage (pb_max_artifacts budget) (nd_required n) cs (length cs))"
    by (intro table_selection_cong validity_loop_stage validity_bounds_Ok(2) [OF assms(1)])
  finally show ?thesis .
qed

text \<open>
  Validity reads no price: candidates that differ only in cost, exactness, identity or claims give
  the same validity result, on any two planners whose lock is not poisoned, whatever their scratch
  tables hold.
\<close>

theorem plan_validity_price_independent:
  assumes "map cd_coverage cs = map cd_coverage ds" and "pp_poisoned p = pp_poisoned q"
  shows "fst (plan_validity p n cs budget) = fst (plan_validity q n ds budget)"
proof -
  have len: "length cs = length ds" using assms(1) map_eq_imp_length_eq by blast
  then have vb: "validity_bounds n cs budget = validity_bounds n ds budget" unfolding validity_bounds_def by (simp only:)
  have cov: "cd_coverage (cs ! i) = cd_coverage (ds ! i)" if "i < length ds" for i
    using assms(1) len that by (metis nth_map)
  then have masks: "mask_of (nd_required n) cs = mask_of (nd_required n) ds"
    using len by (auto simp: mask_of_def candidate_mask_def covers_def fun_eq_iff)
  show ?thesis
  proof (cases "validity_bounds n ds budget = Ok () \<and> \<not> pp_poisoned q")
    case False
    then show ?thesis using assms(2) vb by (auto simp: plan_validity_def split: result.splits)
  next
    case True
    then have ds: "fst (plan_validity q n ds budget) =
        Ok (table_selection n (vdp.stage (pb_max_artifacts budget) (nd_required n) ds (length ds)))"
      by (intro plan_validity_table) auto
    from True have "fst (plan_validity p n cs budget) =
        Ok (table_selection n (vdp.stage (pb_max_artifacts budget) (nd_required n) cs (length cs)))"
      using assms(2) vb by (intro plan_validity_table) auto
    then show ?thesis unfolding ds masks len by (simp only:)
  qed
qed

section \<open>A sample need\<close>

definition sample_obligation :: "predicate_kind \<Rightarrow> obligation" where
  "sample_obligation k = \<lparr>ob_id = Digest [predicate_tag k], ob_predicate = k, ob_subject = Digest [], ob_facets = []\<rparr>"

definition sample_need :: need where
  "sample_need = \<lparr>nd_id = Digest [], nd_subjects = [],
     nd_required = map sample_obligation [ImplementationLocation, RuntimeFlow, FocusedTests],
     nd_preferred = [], nd_constraints = [],
     nd_world = \<lparr>sw_lineage = Digest [], sw_source = ''current'', sw_platform = ''current'',
       sw_features = ''default'', sw_configuration = None, sw_toolchain = None\<rparr>,
     nd_inputs = [], nd_residual = None, nd_body_digest = Digest [], nd_format_revision = 1\<rparr>"

definition sample_candidate :: "u8 \<Rightarrow> predicate_kind list \<Rightarrow> u64 \<Rightarrow> proof_candidate" where
  "sample_candidate k ps cost = \<lparr>cd_artifact = Digest [k], cd_validation = Digest [k],
     cd_coverage = map sample_obligation ps, cd_exact_request = False, cd_cost = cost,
     cd_claim_ids = [], cd_claim_validations = [], cd_claim_set = None\<rparr>"

definition sample_candidates :: "proof_candidate list" where
  "sample_candidates =
     [sample_candidate 0 [ImplementationLocation, RuntimeFlow] 100,
      sample_candidate 1 [ImplementationLocation] 1,
      sample_candidate 2 [RuntimeFlow] 1,
      sample_candidate 3 [FocusedTests] 1]"

definition constant_hash :: "u8 list \<Rightarrow> digest" where
  "constant_hash bs = Digest []"

definition is_panic :: "('a, 'e) outcome \<Rightarrow> bool" where
  "is_panic r = (case r of Panic \<Rightarrow> True | Return x \<Rightarrow> False)"

lemma clear_table_empty [simp]: "clear_table k Map.empty = Map.empty"
  by (simp add: clear_table_def fun_eq_iff)

lemma masks_desc_3: "masks_desc 3 = [7, 6, 5, 4, 3, 2, 1, 0]"
  by (simp add: masks_desc_def upt_rec)

lemma sample_masks:
  "map (candidate_mask (nd_required sample_need)) sample_candidates = [3, 1, 2, 4]"
  by (simp add: candidate_mask_def sample_candidates_def sample_need_def covers_def satisfies_def
      sample_candidate_def sample_obligation_def)

lemma sample_fill:
  "fill_masks (nd_required sample_need) sample_candidates (0 # 0 # 0 # 0 # ms) = 3 # 1 # 2 # 4 # ms"
  using sample_masks by (simp add: fill_masks_def sample_candidates_def)

lemma saturating_add_1_u8 [simp]: "saturating_add (0 :: u8) 1 = 1" "saturating_add (1 :: u8) 1 = 2"
  by (simp_all add: saturating_add_def)

abbreviation econ :: "u64 \<Rightarrow> u8 \<Rightarrow> u64 \<Rightarrow> economic_state" where
  "econ sel k cost \<equiv> \<lparr>es_selected = sel, es_count = k, es_cost = cost\<rparr>"

abbreviation vst :: "u64 \<Rightarrow> u8 \<Rightarrow> plan_state" where
  "vst sel k \<equiv> \<lparr>ps_selected = sel, ps_count = k\<rparr>"

lemmas econ_eval = economic_step_def economic_state_next_def economic_state_better_def saturating_add_def Let_def

lemmas valid_eval = validity_step_def plan_state_next_def plan_state_better_def saturating_add_def Let_def

lemma sample_economic_rounds:
  "fold (economic_step 2 3 100 0) (masks_desc 3) [0 \<mapsto> econ 0 0 0] = [0 \<mapsto> econ 0 0 0, 3 \<mapsto> econ 1 1 100]"
  "fold (economic_step 2 1 1 1) (masks_desc 3) [0 \<mapsto> econ 0 0 0, 3 \<mapsto> econ 1 1 100] =
     [0 \<mapsto> econ 0 0 0, 3 \<mapsto> econ 1 1 100, 1 \<mapsto> econ 2 1 1]"
  "fold (economic_step 2 2 1 2) (masks_desc 3)
       [0 \<mapsto> econ 0 0 0, 3 \<mapsto> econ 1 1 100, 1 \<mapsto> econ 2 1 1] =
     [0 \<mapsto> econ 0 0 0, 1 \<mapsto> econ 2 1 1, 3 \<mapsto> econ 6 2 2, 2 \<mapsto> econ 4 1 1]"
  "fold (economic_step 2 4 1 3) (masks_desc 3)
       [0 \<mapsto> econ 0 0 0, 1 \<mapsto> econ 2 1 1, 3 \<mapsto> econ 6 2 2, 2 \<mapsto> econ 4 1 1] =
     [0 \<mapsto> econ 0 0 0, 1 \<mapsto> econ 2 1 1, 3 \<mapsto> econ 6 2 2, 2 \<mapsto> econ 4 1 1,
      6 \<mapsto> econ 12 2 2, 5 \<mapsto> econ 10 2 2, 4 \<mapsto> econ 8 1 1]"
  by (simp_all add: masks_desc_3 econ_eval word_le_nat_alt)

lemma sample_validity_rounds:
  "fold (validity_step 2 3 0) (masks_desc 3) [0 \<mapsto> vst 0 0] = [0 \<mapsto> vst 0 0, 3 \<mapsto> vst 1 1]"
  "fold (validity_step 2 1 1) (masks_desc 3) [0 \<mapsto> vst 0 0, 3 \<mapsto> vst 1 1] =
     [0 \<mapsto> vst 0 0, 3 \<mapsto> vst 1 1, 1 \<mapsto> vst 2 1]"
  "fold (validity_step 2 2 2) (masks_desc 3) [0 \<mapsto> vst 0 0, 3 \<mapsto> vst 1 1, 1 \<mapsto> vst 2 1] =
     [0 \<mapsto> vst 0 0, 3 \<mapsto> vst 1 1, 1 \<mapsto> vst 2 1, 2 \<mapsto> vst 4 1]"
  "fold (validity_step 2 4 3) (masks_desc 3)
       [0 \<mapsto> vst 0 0, 3 \<mapsto> vst 1 1, 1 \<mapsto> vst 2 1, 2 \<mapsto> vst 4 1] =
     [0 \<mapsto> vst 0 0, 3 \<mapsto> vst 1 1, 1 \<mapsto> vst 2 1, 2 \<mapsto> vst 4 1, 7 \<mapsto> vst 9 2, 6 \<mapsto> vst 12 2, 5 \<mapsto> vst 10 2, 4 \<mapsto> vst 8 1]"
  by (simp_all add: masks_desc_3 valid_eval word_le_nat_alt)

lemma upt_0_4: "[0..<4] = [0, 1, 2, 3]"
  by (simp add: upt_rec)

lemma sample_validity_loop:
  "validity_loop 2 3 4 (3 # 1 # 2 # 4 # ms) [0 \<mapsto> plan_state_root] =
     [0 \<mapsto> vst 0 0, 3 \<mapsto> vst 1 1, 1 \<mapsto> vst 2 1, 2 \<mapsto> vst 4 1, 7 \<mapsto> vst 9 2, 6 \<mapsto> vst 12 2, 5 \<mapsto> vst 10 2, 4 \<mapsto> vst 8 1]"
  by (simp add: validity_loop_def plan_state_root_def upt_0_4 sample_validity_rounds del: One_nat_def)

lemma sample_economic_loop:
  "economic_loop 2 3 sample_candidates (3 # 1 # 2 # 4 # ms) [0 \<mapsto> economic_state_root] 7 = None"
proof -
  have "length sample_candidates = 4" "map (\<lambda>i. cd_cost (sample_candidates ! i)) [0, 1, 2, 3] = [100, 1, 1, 1]"
    by (simp_all add: sample_candidates_def sample_candidate_def)
  then show ?thesis
    by (simp add: economic_loop_def economic_state_root_def upt_0_4 sample_economic_rounds del: One_nat_def)
qed

lemma sample_validity_bounds:
  "validity_bounds sample_need sample_candidates (default_proof_budget\<lparr>pb_max_artifacts := 2\<rparr>) = Ok ()"
  by (simp add: validity_bounds_def sample_need_def sample_candidates_def default_proof_budget_def semantic_bounds)

lemma sample_required: "length (nd_required sample_need) = 3" "\<not> mandatory_residual sample_need"
    "length sample_candidates = 4"
  by (simp_all add: sample_need_def mandatory_residual_def sample_candidates_def)

lemma sample_cleared:
  "scratch_clear 8 4 scratch_new = scratch_new"
  "sc_masks scratch_new = 0 # 0 # 0 # 0 # replicate 60 0"
  by (simp_all add: scratch_clear_def scratch_new_def semantic_bounds numeral_eq_Suc)

lemma sample_plan_validity:
  "plan_validity (planner_new blake3) sample_need sample_candidates (default_proof_budget\<lparr>pb_max_artifacts := 2\<rparr>) =
     (Ok \<lparr>vs_covered = 7, vs_selected = 9, vs_count = 2\<rparr>,
      planner_new blake3
        \<lparr>pp_scratch := \<lparr>sc_states =
           [0 \<mapsto> vst 0 0, 3 \<mapsto> vst 1 1, 1 \<mapsto> vst 2 1, 2 \<mapsto> vst 4 1, 7 \<mapsto> vst 9 2, 6 \<mapsto> vst 12 2,
            5 \<mapsto> vst 10 2, 4 \<mapsto> vst 8 1],
           sc_economic = Map.empty, sc_masks = 3 # 1 # 2 # 4 # replicate 60 0\<rparr>\<rparr>)"
proof -
  have "sc_states scratch_new = Map.empty" "sc_economic scratch_new = Map.empty"
    "pp_scratch (planner_new blake3) = scratch_new" "\<not> pp_poisoned (planner_new blake3)"
    by (simp_all add: scratch_new_def planner_new_def)
  then show ?thesis
    by (simp add: plan_validity_def sample_validity_bounds Let_def sample_required sample_cleared sample_fill
        sample_validity_loop)
qed

lemma sample_recleared:
  "scratch_clear 8 4 \<lparr>sc_states = st, sc_economic = Map.empty, sc_masks = a # b # c # d # ms\<rparr> =
     \<lparr>sc_states = clear_table 8 st, sc_economic = Map.empty, sc_masks = 0 # 0 # 0 # 0 # ms\<rparr>"
proof -
  have "replicate 4 (0 :: u16) = [0, 0, 0, 0]" "drop 4 (a # b # c # d # ms) = ms"
    by (simp_all add: numeral_eq_Suc)
  then show ?thesis by (simp add: scratch_clear_def)
qed

lemma sample_plan_economics:
  assumes "pp_scratch p = \<lparr>sc_states = st, sc_economic = Map.empty, sc_masks = a # b # c # d # ms\<rparr>"
    and "\<not> pp_poisoned p" and "pb_max_artifacts budget = 2"
  shows "fst (plan_economics p sample_need sample_candidates budget 7) = Ok 0"
  using assms
  by (simp add: plan_economics_def Let_def sample_required sample_recleared sample_fill sample_economic_loop)

text \<open>
  C38. Planning can panic. For three required obligations, a budget of two artifacts and four
  candidates, the validity table finds a two-artifact cover, but the economic table has replaced the
  one-artifact state it needs by a cheaper two-artifact one, so \<open>plan_economics\<close> finds no state for the
  chosen mask, returns an empty selection, and \<open>sufficiency_certificate\<close> fails its \<open>expect\<close>.
\<close>

theorem plan_panics:
  "fst (plan blake3 (planner_new blake3) sample_need sample_candidates overhead fresh
     (default_proof_budget\<lparr>pb_max_artifacts := 2\<rparr>)) = Panic"
proof -
  let ?budget = "default_proof_budget\<lparr>pb_max_artifacts := 2\<rparr>"
  have steps: "certificate_steps (List.enumerate 0 (nd_required sample_need)) [] 7 = None"
    by (simp add: sample_need_def bit_numeral_rec)
  have none: "selected_by 0 cs = []" for cs by (simp add: selected_by_filter)
  obtain p where p: "plan_validity (planner_new blake3) sample_need sample_candidates ?budget =
      (Ok \<lparr>vs_covered = 7, vs_selected = 9, vs_count = 2\<rparr>, p)"
    and econ: "fst (plan_economics p sample_need sample_candidates ?budget 7) = Ok 0"
    using sample_plan_validity sample_plan_economics by (fastforce simp: planner_new_def)
  then obtain p' where "plan_economics p sample_need sample_candidates ?budget 7 = (Ok 0, p')"
    by (metis prod.collapse)
  with p show ?thesis
    by (simp add: plan_def Let_def sample_required none sufficiency_certificate_def steps selected_plan_of_def)
qed

section \<open>Instances\<close>

theorem plan_validity_sound_witness:
  "length (selected_by 9 sample_candidates) = 2 \<and>
   (\<forall>b. bit (7 :: u16) b \<longleftrightarrow> b < 3 \<and> (\<exists>c \<in> set (selected_by 9 sample_candidates). covers c (nd_required sample_need ! b)))"
  using plan_validity_sound [OF sample_plan_validity [of constant_hash]] by (simp add: sample_required)


theorem plan_validity_price_independent_witness:
  "fst (plan_validity (planner_new constant_hash) sample_need sample_candidates default_proof_budget) =
   fst (plan_validity (planner_new constant_hash) sample_need
     (map (\<lambda>c. c\<lparr>cd_cost := 0\<rparr>) sample_candidates) default_proof_budget)"
  by (rule plan_validity_price_independent) simp_all

lemma sample_total_cost: "total_cost sample_candidates < 2 ^ 64"
  by (simp add: total_cost_def sample_candidates_def sample_candidate_def)

lemma sample_wide: "length (nd_required sample_need) \<le> unat (pb_max_artifacts default_proof_budget)"
  by (simp add: sample_required default_proof_budget_def)

theorem plan_no_panic_witness:
  "fst (plan constant_hash (planner_new constant_hash) sample_need sample_candidates 0 None default_proof_budget) \<noteq> Panic"
  by (rule plan_no_panic [OF sample_wide sample_total_cost])

text \<open>One obligation and one candidate that covers it.\<close>

definition single_need :: need where
  "single_need = sample_need\<lparr>nd_required := [sample_obligation RuntimeFlow]\<rparr>"

definition single_candidate :: proof_candidate where
  "single_candidate = sample_candidate 0 [RuntimeFlow] 5"

lemma single_mask: "candidate_mask (nd_required single_need) single_candidate = 1"
  by (simp add: candidate_mask_def single_need_def single_candidate_def covers_def satisfies_def
      sample_candidate_def sample_obligation_def)

lemma single_stage:
  "vdp.stage 8 (nd_required single_need) [single_candidate] 1 = [0 \<mapsto> vst 0 0, 1 \<mapsto> vst 1 1]"
  "edp.stage 8 (nd_required single_need) [single_candidate] 1 = [0 \<mapsto> econ 0 0 0, 1 \<mapsto> econ 1 1 5]"
proof -
  have m: "mask_of (nd_required single_need) [single_candidate] 0 = 1" by (simp add: mask_of_def single_mask)
  have md: "masks_desc (Suc 0) = [1, 0]" by (simp add: masks_desc_def upt_rec)
  have len: "length (nd_required single_need) = Suc 0" by (simp add: single_need_def)
  have c: "cost_of [single_candidate] 0 = 5" by (simp add: cost_of_def single_candidate_def sample_candidate_def)
  show "vdp.stage 8 (nd_required single_need) [single_candidate] 1 = [0 \<mapsto> vst 0 0, 1 \<mapsto> vst 1 1]"
    unfolding One_nat_def vdp.stage_simps vdp.round_def by (simp add: m md len valid_eval plan_state_root_def word_le_nat_alt)
  show "edp.stage 8 (nd_required single_need) [single_candidate] 1 = [0 \<mapsto> econ 0 0 0, 1 \<mapsto> econ 1 1 5]"
    unfolding One_nat_def edp.stage_simps edp.round_def by (simp add: m md len c econ_eval economic_state_root_def word_le_nat_alt)
qed

lemma single_plan:
  obtains pl cert where
    "fst (plan constant_hash (planner_new constant_hash) single_need [single_candidate] 0 None default_proof_budget) =
       Return (Ok pl)"
    "pn_certificate pl = Some cert" "sp_covered (pn_selected pl) = 1"
proof -
  have vb: "validity_bounds single_need [single_candidate] default_proof_budget = Ok ()"
    by (simp add: validity_bounds_def single_need_def default_proof_budget_def semantic_bounds)
  have lim: "pb_max_artifacts default_proof_budget = 8" by (simp add: default_proof_budget_def)
  have nr: "\<not> mandatory_residual single_need" "length (nd_required single_need) = 1"
    by (simp_all add: mandatory_residual_def single_need_def sample_need_def)
  from plan_validity_table [OF vb, of "planner_new constant_hash"]
  have "fst (plan_validity (planner_new constant_hash) single_need [single_candidate] default_proof_budget) =
      Ok \<lparr>vs_covered = 1, vs_selected = 1, vs_count = 1\<rparr>"
    using single_stage(1) by (simp add: lim table_selection_def nr planner_new_def)
  then obtain p' where pv: "plan_validity (planner_new constant_hash) single_need [single_candidate] default_proof_budget =
      (Ok \<lparr>vs_covered = 1, vs_selected = 1, vs_count = 1\<rparr>, p')" by (metis prod.collapse)
  have choice: "economic_choice single_need [single_candidate] default_proof_budget 1 = [single_candidate]"
    using single_stage(2) by (simp add: economic_choice_def lim selected_by_def)
  have cov: "covers single_candidate (sample_obligation RuntimeFlow)"
    by (simp add: covers_def single_candidate_def sample_candidate_def)
  show thesis
    using plan_is_outcome [OF pv, of constant_hash 0 None]
    by (auto simp: choice plan_outcome_def nr sufficiency_certificate_def cov selected_plan_of_def Let_def
        single_need_def [THEN arg_cong [of _ _ nd_required]] intro!: that)
qed


theorem plan_certificate_replays_witness:
  "\<exists>pl cert. fst (plan constant_hash (planner_new constant_hash) single_need [single_candidate] 0 None
        default_proof_budget) = Return (Ok pl) \<and> pn_certificate pl = Some cert \<and>
      replay constant_hash (pp_engine (planner_new constant_hash)) single_need cert [single_candidate]"
proof -
  obtain pl cert where ret: "fst (plan constant_hash (planner_new constant_hash) single_need [single_candidate] 0 None
      default_proof_budget) = Return (Ok pl)" and cert: "pn_certificate pl = Some cert" by (rule single_plan)
  with plan_certificate_replays [OF ret cert] show ?thesis by (simp add: single_need_def)
qed

definition single_certificate :: sufficiency_cert where
  "single_certificate = \<lparr>su_id = Digest [], su_need = Digest [], su_obligations = [Digest [1]], su_artifacts = [Digest [0]],
     su_validations = [Digest [0]],
     su_steps = [\<lparr>ss_obligation = Digest [1], ss_artifact = Digest [0], ss_validation = Digest [0]\<rparr>],
     su_world = Digest [], su_freshness = Digest [], su_contradiction = Digest [], su_residual = None, su_engine = Digest []\<rparr>"

theorem replay_sound_witness:
  "\<exists>c \<in> set [single_candidate]. covers c (sample_obligation RuntimeFlow) \<and> cd_artifact c \<in> set (su_artifacts single_certificate)"
proof -
  have "replay constant_hash (Digest []) single_need single_certificate [single_candidate]"
    by (simp add: replay_def replay_step_def single_certificate_def single_need_def sample_need_def single_candidate_def
        sample_candidate_def sample_obligation_def covers_def constant_hash_def hasher_finish_def
        sufficiency_certificate_id_def world_id_def relation_digest_def Let_def)
  from replay_sound [OF this] show ?thesis by (simp add: single_need_def)
qed

end
