(* ===== verification/Commands.thy ===== *)
theory Commands
  imports Semantic
begin

text \<open>
  \<^verbatim>\<open>crates/needle-core/src/artifact.rs\<close>: route plans (\<open>RoutePlan::new\<close>), the statically safe test
  command (\<open>TestCommand\<close>) and the test plan (\<open>TestPlan\<close>). Strings are UTF-8 bytes; the two
  character classes the source takes from Unicode (\<open>char::is_control\<close> and the white space of
  \<open>str::trim\<close>) are written out on their encodings. The JSON encoder of a route plan is a parameter.
\<close>

section \<open>Unicode classes on UTF-8 bytes\<close>

text \<open>\<open>chars().any(char::is_control)\<close>: U+0000 to U+001F, U+007F and U+0080 to U+009F.\<close>

fun has_control :: "string \<Rightarrow> bool" where
  "has_control [] = False"
| "has_control [c] = (char_code c < 32 \<or> char_code c = 127)"
| "has_control (c # d # s) =
     (char_code c < 32 \<or> char_code c = 127 \<or>
      (char_code c = 194 \<and> 128 \<le> char_code d \<and> char_code d \<le> 159) \<or> has_control (d # s))"

text \<open>\<open>trim().is_empty()\<close>: every character has the Unicode property \<open>White_Space\<close>.\<close>

definition ws2 :: "char \<Rightarrow> char \<Rightarrow> bool" where
  "ws2 a b \<longleftrightarrow> char_code a = 194 \<and> char_code b \<in> {133, 160}"

definition ws3 :: "char \<Rightarrow> char \<Rightarrow> char \<Rightarrow> bool" where
  "ws3 a b c \<longleftrightarrow>
     (char_code a = 225 \<and> char_code b = 154 \<and> char_code c = 128) \<or>
     (char_code a = 226 \<and> char_code b = 128 \<and>
       ((128 \<le> char_code c \<and> char_code c \<le> 138) \<or> char_code c \<in> {168, 169, 175})) \<or>
     (char_code a = 226 \<and> char_code b = 129 \<and> char_code c = 159) \<or>
     (char_code a = 227 \<and> char_code b = 128 \<and> char_code c = 128)"

fun is_blank :: "string \<Rightarrow> bool" where
  "is_blank [] = True"
| "is_blank (a # s) =
     (if char_code a \<in> {9, 10, 11, 12, 13, 32} then is_blank s
      else case s of
        b # t \<Rightarrow>
          if ws2 a b then is_blank t
          else (case t of c # u \<Rightarrow> ws3 a b c \<and> is_blank u | [] \<Rightarrow> False)
      | [] \<Rightarrow> False)"

section \<open>Route plans\<close>

definition MAX_ROUTE_PLAN_NODES :: nat where "MAX_ROUTE_PLAN_NODES = 16"

record plan_node =
  pl_id :: string
  pl_operator :: string
  pl_depends_on :: "string list"

record route_plan =
  rp_id :: string
  rp_revision :: u32
  rp_route_key :: string
  rp_nodes :: "plan_node list"
  rp_definition :: digest

datatype route_plan_error = NodeCount | DuplicateNode string | InvalidDependency string string

fun check_dependencies :: "string \<Rightarrow> string set \<Rightarrow> string list \<Rightarrow> (unit, route_plan_error) result" where
  "check_dependencies node seen [] = Ok ()"
| "check_dependencies node seen (d # ds) =
     (if d \<notin> seen then Err (InvalidDependency node d) else check_dependencies node seen ds)"

fun check_nodes :: "string set \<Rightarrow> plan_node list \<Rightarrow> (unit, route_plan_error) result" where
  "check_nodes seen [] = Ok ()"
| "check_nodes seen (node # nodes) =
     (if pl_id node \<in> seen then Err (DuplicateNode (pl_id node))
      else let seen = insert (pl_id node) seen in
        rbind (check_dependencies (pl_id node) seen (pl_depends_on node)) (\<lambda>_. check_nodes seen nodes))"

definition route_plan_new ::
    "(u8 list \<Rightarrow> digest) \<Rightarrow> (string \<times> u32 \<times> string \<times> plan_node list \<Rightarrow> u8 list) \<Rightarrow>
     string \<Rightarrow> u32 \<Rightarrow> string \<Rightarrow> plan_node list \<Rightarrow> (route_plan, route_plan_error) result" where
  "route_plan_new blake3 json plan_id revision route_key nodes =
     (if nodes = [] \<or> length nodes > MAX_ROUTE_PLAN_NODES then Err NodeCount
      else rbind (check_nodes {} nodes) (\<lambda>_.
        Ok \<lparr>rp_id = plan_id, rp_revision = revision, rp_route_key = route_key, rp_nodes = nodes,
            rp_definition = blake3 (json (plan_id, revision, route_key, nodes))\<rparr>))"

definition plan_nodes :: "(string \<times> string \<times> string list) list \<Rightarrow> plan_node list" where
  "plan_nodes nodes = map (\<lambda>(node, operator, deps). \<lparr>pl_id = node, pl_operator = operator, pl_depends_on = deps\<rparr>) nodes"

definition built_in_route_nodes :: "(string \<times> plan_node list) list" where
  "built_in_route_nodes =
     [(''locate.implementation'', plan_nodes
        [(''location'', ''code-location'', []), (''test'', ''test-plan'', []),
         (''brief'', ''evidence-brief'', [''location'', ''test''])]),
      (''trace.state-flow'', plan_nodes
        [(''location'', ''code-location'', []), (''behavior'', ''behavior-trace'', [''location'']),
         (''test'', ''test-plan'', []), (''brief'', ''evidence-brief'', [''location'', ''behavior'', ''test''])]),
      (''tests.relevant'', plan_nodes
        [(''test'', ''test-plan'', []), (''brief'', ''evidence-brief'', [''test''])])]"

text \<open>\<open>None\<close> stands for the panic of an \<open>expect\<close>.\<close>

fun built_in_route_plans_from ::
    "(u8 list \<Rightarrow> digest) \<Rightarrow> (string \<times> u32 \<times> string \<times> plan_node list \<Rightarrow> u8 list) \<Rightarrow>
     (string \<times> plan_node list) list \<Rightarrow> route_plan list option" where
  "built_in_route_plans_from blake3 json [] = Some []"
| "built_in_route_plans_from blake3 json ((plan_id, nodes) # rest) =
     (case need_key_new plan_id of
        Err e \<Rightarrow> None
      | Ok key \<Rightarrow>
          (case route_plan_new blake3 json plan_id 1 key nodes of
             Err e \<Rightarrow> None
           | Ok p \<Rightarrow> map_option ((#) p) (built_in_route_plans_from blake3 json rest)))"

definition built_in_route_plans ::
    "(u8 list \<Rightarrow> digest) \<Rightarrow> (string \<times> u32 \<times> string \<times> plan_node list \<Rightarrow> u8 list) \<Rightarrow> route_plan list option" where
  "built_in_route_plans blake3 json = built_in_route_plans_from blake3 json built_in_route_nodes"

section \<open>Test commands\<close>

definition MAX_TEST_COMMAND_ARGV :: nat where "MAX_TEST_COMMAND_ARGV = 16"
definition MAX_TEST_COMMAND_ARGUMENT_BYTES :: nat where "MAX_TEST_COMMAND_ARGUMENT_BYTES = 512"
definition MAX_VERIFIER_TEST_PLANS :: nat where "MAX_VERIFIER_TEST_PLANS = 4"

datatype input_form = CompleteArgv | RunnerRelativeArgv

datatype command_violation =
  RunnerNotCargo | ArgvNotDirectCargoTest | ArgvNotCanonical | ArgvInvalidOrUnsafe | ArgvScopeNotFocused
  | ArgvContainsShellSyntax | IdentifierInvalidOrUnsafe | IdentifierNotInArgv

fun violation_rank :: "command_violation \<Rightarrow> nat" where
  "violation_rank RunnerNotCargo = 0"
| "violation_rank ArgvNotDirectCargoTest = 1"
| "violation_rank ArgvNotCanonical = 2"
| "violation_rank ArgvInvalidOrUnsafe = 3"
| "violation_rank ArgvScopeNotFocused = 4"
| "violation_rank ArgvContainsShellSyntax = 5"
| "violation_rank IdentifierInvalidOrUnsafe = 6"
| "violation_rank IdentifierNotInArgv = 7"

instantiation command_violation :: linorder
begin
definition less_eq_command_violation :: "command_violation \<Rightarrow> command_violation \<Rightarrow> bool" where
  "less_eq_command_violation a b \<longleftrightarrow> violation_rank a \<le> violation_rank b"
definition less_command_violation :: "command_violation \<Rightarrow> command_violation \<Rightarrow> bool" where
  "less_command_violation a b \<longleftrightarrow> violation_rank a < violation_rank b"
instance
proof
  fix a b :: command_violation
  show "a \<le> b \<Longrightarrow> b \<le> a \<Longrightarrow> a = b"
    by (cases a; cases b) (auto simp: less_eq_command_violation_def)
qed (auto simp: less_eq_command_violation_def less_command_violation_def)
end

record test_command =
  tc_runner :: string
  tc_argv :: "string list"
  tc_identifier :: string

definition text_is_unsafe :: "string \<Rightarrow> bool" where
  "text_is_unsafe value \<longleftrightarrow>
     has_control value \<or>
     (\<exists>marker \<in> set [''@@need'', ''@@end'', ''[NEEDLE_CONTEXT]'', ''[/NEEDLE_CONTEXT]'']. str_contains marker value)"

definition input_form_of :: "string list \<Rightarrow> input_form option" where
  "input_form_of argv =
     (case argv of
        [] \<Rightarrow> None
      | first # rest \<Rightarrow>
          if first = ''cargo'' \<and> (case rest of second # _ \<Rightarrow> second = ''test'' | [] \<Rightarrow> False) then Some CompleteArgv
          else if first = ''test'' then Some RunnerRelativeArgv
          else None)"

definition canonical_argv :: "string list \<Rightarrow> string list" where
  "canonical_argv argv = (if input_form_of argv = Some RunnerRelativeArgv then ''cargo'' # argv else argv)"

definition shell_byte :: "char \<Rightarrow> bool" where
  "shell_byte c \<longleftrightarrow> c \<in> set ''|;><'' \<or> char_code c = 10 \<or> char_code c = 13"

definition identifier_byte :: "char \<Rightarrow> bool" where
  "identifier_byte c \<longleftrightarrow> is_ascii_alphanumeric c \<or> c \<in> set ''_:.-/''"

text \<open>\<open>rsplit("::").next()\<close>: the text after the last \<open>::\<close>, found from the end.\<close>

fun until_colons :: "string \<Rightarrow> string" where
  "until_colons (c # d # s) = (if c = CHR '':'' \<and> d = CHR '':'' then [] else c # until_colons (d # s))"
| "until_colons s = s"

definition identifier_filter :: "string \<Rightarrow> string" where
  "identifier_filter s = rev (until_colons (rev s))"

definition command_violations :: "string \<Rightarrow> string list \<Rightarrow> string \<Rightarrow> command_violation list" where
  "command_violations runner argv test_identifier =
     (let canonical = canonical_argv argv in
      (if runner \<noteq> ''cargo'' then [RunnerNotCargo] else []) @
      (if input_form_of argv = None then [ArgvNotDirectCargoTest] else []) @
      (if length canonical < 3 \<or> length canonical > MAX_TEST_COMMAND_ARGV \<or>
          (\<exists>a \<in> set canonical. is_blank a \<or> length a > MAX_TEST_COMMAND_ARGUMENT_BYTES \<or> text_is_unsafe a)
       then [ArgvInvalidOrUnsafe] else []) @
      (if \<exists>a \<in> set canonical. a \<in> set [''--workspace'', ''--all'', ''--all-targets'', ''--manifest-path'', ''--config'']
       then [ArgvScopeNotFocused] else []) @
      (if \<exists>a \<in> set canonical. (\<exists>c \<in> set a. shell_byte c) \<or> a = ''&&'' then [ArgvContainsShellSyntax] else []) @
      (if is_blank test_identifier \<or> length test_identifier > MAX_TEST_COMMAND_ARGUMENT_BYTES \<or>
          starts_with ''-'' test_identifier \<or> \<not> (\<forall>c \<in> set test_identifier. identifier_byte c) \<or>
          text_is_unsafe test_identifier
       then [IdentifierInvalidOrUnsafe] else []) @
      (if \<not> (\<exists>a \<in> set canonical. a = test_identifier \<or> a = identifier_filter test_identifier)
       then [IdentifierNotInArgv] else []))"

definition from_worker_parts ::
    "string \<Rightarrow> string list \<Rightarrow> string \<Rightarrow> (test_command \<times> input_form, command_violation list) result" where
  "from_worker_parts runner argv test_identifier =
     (let violations = sort_dedup (command_violations runner argv test_identifier) in
      if violations \<noteq> [] then Err violations
      else Ok (\<lparr>tc_runner = ''cargo'', tc_argv = canonical_argv argv, tc_identifier = test_identifier\<rparr>,
               the (input_form_of argv)))"

definition from_canonical_parts ::
    "string \<Rightarrow> string list \<Rightarrow> string \<Rightarrow> (test_command, command_violation list) result" where
  "from_canonical_parts runner argv test_identifier =
     rbind (from_worker_parts runner argv test_identifier) (\<lambda>(command, form).
       if form = RunnerRelativeArgv then Err [ArgvNotCanonical] else Ok command)"

record test_plan =
  tp_runner :: string
  tp_argv :: "string list"
  tp_cwd_relative :: string
  tp_identifier :: string
  tp_requires_approval :: bool
  tp_execution_evidence :: "string option"

definition test_command_of :: "test_plan \<Rightarrow> (test_command, command_violation list) result" where
  "test_command_of p = from_canonical_parts (tp_runner p) (tp_argv p) (tp_identifier p)"

definition plan_identity_digest :: "(u8 list \<Rightarrow> digest) \<Rightarrow> test_plan \<Rightarrow> digest" where
  "plan_identity_digest blake3 p =
     (let (runner, argv, identifier) =
        (case test_command_of p of
           Ok c \<Rightarrow> (tc_runner c, tc_argv c, tc_identifier c)
         | Err e \<Rightarrow> (tp_runner p, tp_argv p, tp_identifier p))
      in hasher_finish blake3 (field_str identifier (field_str (tp_cwd_relative p)
        (fold field_str argv
        (field_u16 (len_u16 (length argv))
        (field_str runner (hasher_new ''needle-test-plan-identity-v2'')))))))"

section \<open>Route plans: order of dependencies\<close>

lemma check_dependencies_Ok: "check_dependencies node seen ds = Ok u \<longleftrightarrow> set ds \<subseteq> seen"
  by (induction ds) auto

lemma check_nodes_Ok:
  "check_nodes seen nodes = Ok () \<longleftrightarrow>
     distinct (map pl_id nodes) \<and> seen \<inter> set (map pl_id nodes) = {} \<and>
     (\<forall>i < length nodes. set (pl_depends_on (nodes ! i)) \<subseteq> seen \<union> set (map pl_id (take (Suc i) nodes)))"
proof (induction nodes arbitrary: seen)
  case (Cons n ns)
  have split: "(\<forall>i < length (n # ns). P i) \<longleftrightarrow> P 0 \<and> (\<forall>i < length ns. P (Suc i))" for P
    by (metis Suc_less_eq length_Cons not0_implies_Suc zero_less_Suc)
  show ?case unfolding split by (auto simp: Let_def check_dependencies_Ok Cons.IH)
qed simp

text \<open>
  An accepted route plan has between one and sixteen nodes with distinct names, and every
  dependency of a node names that node itself or an earlier one. So executing the nodes in list order
  meets every dependency on another node.
\<close>

theorem route_plan_ordered:
  assumes "route_plan_new blake3 json plan_id revision key nodes = Ok p"
  shows "rp_nodes p = nodes \<and> 1 \<le> length nodes \<and> length nodes \<le> MAX_ROUTE_PLAN_NODES \<and>
     distinct (map pl_id nodes) \<and>
     (\<forall>i < length nodes. \<forall>d \<in> set (pl_depends_on (nodes ! i)). \<exists>j \<le> i. d = pl_id (nodes ! j))"
proof -
  from assms have ne: "nodes \<noteq> []" "length nodes \<le> MAX_ROUTE_PLAN_NODES" and ok: "check_nodes {} nodes = Ok ()"
    and p: "rp_nodes p = nodes"
    by (auto simp: route_plan_new_def split: if_splits)
  have "\<exists>j \<le> i. d = pl_id (nodes ! j)" if "i < length nodes" "d \<in> set (pl_depends_on (nodes ! i))" for i d
  proof -
    from ok that have "d \<in> set (map pl_id (take (Suc i) nodes))" by (auto simp: check_nodes_Ok)
    then obtain j where "j \<le> i" "d = pl_id (nodes ! j)" by (auto simp: in_set_conv_nth less_Suc_eq_le)
    then show ?thesis by blast
  qed
  with ne ok p show ?thesis by (auto simp: check_nodes_Ok Suc_le_eq)
qed

definition chain_nodes :: "plan_node list" where
  "chain_nodes = plan_nodes [(''a'', ''code-location'', []), (''b'', ''evidence-brief'', [''a''])]"

theorem route_plan_ordered_witness:
  "\<exists>p. route_plan_new (\<lambda>bs. Digest []) (\<lambda>x. []) ''locate'' 1 ''locate'' chain_nodes = Ok p \<and>
     distinct (map pl_id chain_nodes)"
proof -
  have "is_ok (route_plan_new (\<lambda>bs. Digest []) (\<lambda>x. []) ''locate'' 1 ''locate'' chain_nodes)"
    by (simp add: route_plan_new_def chain_nodes_def plan_nodes_def MAX_ROUTE_PLAN_NODES_def)
  then obtain p where p: "route_plan_new (\<lambda>bs. Digest []) (\<lambda>x. []) ''locate'' 1 ''locate'' chain_nodes = Ok p"
    unfolding is_ok_iff by blast
  with route_plan_ordered [OF p] show ?thesis by blast
qed

text \<open>
  The check admits a node that depends on itself, because a node's name is recorded before its
  dependencies are looked up: such a plan is not a dependency order, although the error for it says
  that a dependency must be known and not later.
\<close>

theorem route_plan_accepts_self_dependency:
  "\<exists>p. route_plan_new blake3 json plan_id revision key
     [\<lparr>pl_id = ''a'', pl_operator = ''code-location'', pl_depends_on = [''a'']\<rparr>] = Ok p"
  by (simp add: route_plan_new_def MAX_ROUTE_PLAN_NODES_def)

text \<open>
  The built-in route plans are valid: building them never fails, and in each of them every
  dependency is on a strictly earlier node.
\<close>

theorem built_in_route_plans_valid:
  "\<exists>ps. built_in_route_plans blake3 json = Some ps \<and> map rp_id ps = map fst built_in_route_nodes \<and>
     (\<forall>p \<in> set ps. \<forall>i < length (rp_nodes p). \<forall>d \<in> set (pl_depends_on (rp_nodes p ! i)).
        \<exists>j < i. d = pl_id (rp_nodes p ! j))"
proof -
  have keys: "need_key_new ''locate.implementation'' = Ok ''locate.implementation''"
    "need_key_new ''trace.state-flow'' = Ok ''trace.state-flow''"
    "need_key_new ''tests.relevant'' = Ok ''tests.relevant''"
    by code_simp+
  show ?thesis
    by (simp add: built_in_route_plans_def built_in_route_nodes_def plan_nodes_def keys route_plan_new_def
        MAX_ROUTE_PLAN_NODES_def All_less_Suc Ex_less_Suc)
qed

theorem built_in_route_plans_valid_witness:
  "\<exists>ps. built_in_route_plans (\<lambda>_. Digest []) (\<lambda>_. []) = Some ps \<and> length ps = length built_in_route_nodes"
  using built_in_route_plans_valid [of "\<lambda>_. Digest []" "\<lambda>_. []"] by (metis length_map)

section \<open>Test commands\<close>

lemma input_form_complete: "input_form_of argv = Some CompleteArgv \<Longrightarrow> \<exists>rest. argv = ''cargo'' # ''test'' # rest"
  by (auto simp: input_form_of_def split: list.splits if_splits)

lemma input_form_relative: "input_form_of argv = Some RunnerRelativeArgv \<Longrightarrow> \<exists>rest. argv = ''test'' # rest"
  by (auto simp: input_form_of_def split: list.splits if_splits)

lemma input_form_sel [simp]:
  "input_form_of (''cargo'' # ''test'' # rest) = Some CompleteArgv"
  "input_form_of (''test'' # rest) = Some RunnerRelativeArgv"
  by (auto simp: input_form_of_def split: list.splits)

lemma canonical_argv_sel [simp]:
  "canonical_argv (''cargo'' # ''test'' # rest) = ''cargo'' # ''test'' # rest"
  "canonical_argv (''test'' # rest) = ''cargo'' # ''test'' # rest"
  by (auto simp: canonical_argv_def)

lemma sort_dedup_Nil [simp]: "sort_dedup xs = [] \<longleftrightarrow> xs = []"
  by (metis set_empty set_sort_dedup)

lemma from_worker_parts_Ok:
  "from_worker_parts runner argv i = Ok (c, form) \<longleftrightarrow>
     command_violations runner argv i = [] \<and> input_form_of argv = Some form \<and>
     c = \<lparr>tc_runner = ''cargo'', tc_argv = canonical_argv argv, tc_identifier = i\<rparr>"
proof -
  have "input_form_of argv \<noteq> None" if "command_violations runner argv i = []"
    using that by (auto simp: command_violations_def Let_def split: if_splits)
  then show ?thesis by (auto simp: from_worker_parts_def Let_def)
qed

lemma command_violations_relative:
  "command_violations runner (''test'' # rest) i = command_violations runner (''cargo'' # ''test'' # rest) i"
  by (simp add: command_violations_def)

text \<open>
  Ingress normalisation is canonical: an accepted worker command, in either form, is a complete
  \<open>cargo test\<close> vector that \<open>from_canonical_parts\<close> accepts and leaves unchanged, and the form that omits
  the executable is accepted exactly when the complete one is, with the same command.
\<close>

theorem worker_command_canonical:
  "(from_worker_parts runner argv i = Ok (c, form) \<longrightarrow>
      from_canonical_parts (tc_runner c) (tc_argv c) (tc_identifier c) = Ok c) \<and>
   (from_worker_parts runner (''test'' # rest) i = Ok (c, RunnerRelativeArgv) \<longleftrightarrow>
      from_worker_parts runner (''cargo'' # ''test'' # rest) i = Ok (c, CompleteArgv))"
proof
  show "from_worker_parts runner (''test'' # rest) i = Ok (c, RunnerRelativeArgv) \<longleftrightarrow>
      from_worker_parts runner (''cargo'' # ''test'' # rest) i = Ok (c, CompleteArgv)"
    by (simp add: from_worker_parts_Ok command_violations_relative)
  show "from_worker_parts runner argv i = Ok (c, form) \<longrightarrow>
      from_canonical_parts (tc_runner c) (tc_argv c) (tc_identifier c) = Ok c"
  proof
    assume "from_worker_parts runner argv i = Ok (c, form)"
    then have v: "command_violations runner argv i = []" and f: "input_form_of argv = Some form"
      and c: "c = \<lparr>tc_runner = ''cargo'', tc_argv = canonical_argv argv, tc_identifier = i\<rparr>"
      by (simp_all add: from_worker_parts_Ok)
    from v have r: "runner = ''cargo''" by (auto simp: command_violations_def Let_def split: if_splits)
    from f obtain rest where a: "argv = ''cargo'' # ''test'' # rest \<or> argv = ''test'' # rest"
      using input_form_complete input_form_relative by (cases form) blast+
    have argv: "canonical_argv argv = ''cargo'' # ''test'' # rest" using a canonical_argv_sel by metis
    have "command_violations ''cargo'' (''cargo'' # ''test'' # rest) i = []"
      using v r a command_violations_relative by metis
    then have "from_worker_parts ''cargo'' (''cargo'' # ''test'' # rest) i = Ok (c, CompleteArgv)"
      unfolding from_worker_parts_Ok c argv by simp
    then show "from_canonical_parts (tc_runner c) (tc_argv c) (tc_identifier c) = Ok c"
      by (simp add: from_canonical_parts_def c argv)
  qed
qed

theorem worker_command_canonical_witness:
  "\<exists>c. from_worker_parts ''cargo'' [''test'', ''--lib'', ''plan::tests::merge''] ''plan::tests::merge'' =
       Ok (c, RunnerRelativeArgv) \<and>
     from_canonical_parts (tc_runner c) (tc_argv c) (tc_identifier c) = Ok c"
proof -
  have "command_violations ''cargo'' [''test'', ''--lib'', ''plan::tests::merge''] ''plan::tests::merge'' = []"
    by code_simp
  then obtain c where c: "from_worker_parts ''cargo'' [''test'', ''--lib'', ''plan::tests::merge''] ''plan::tests::merge'' =
      Ok (c, RunnerRelativeArgv)"
    by (auto simp: from_worker_parts_Ok)
  with worker_command_canonical [of "''cargo''" "[''test'', ''--lib'', ''plan::tests::merge'']" "''plan::tests::merge''"
      c RunnerRelativeArgv "[]"] show ?thesis by blast
qed

end
