(* ===== verification/Change.thy ===== *)
theory Change
  imports Commands "HOL-Library.Multiset"
begin

text \<open>
  \<^verbatim>\<open>crates/needle-core/src/change.rs\<close>: change identifiers, change requests, patches and verification
  artifacts with their canonical identities. A text field is hashed with its line endings
  normalised (\<open>field_normalized_lines\<close>). \<open>sort_unstable\<close> is modelled by the stable sort; the two
  can differ only on elements with equal keys.
\<close>

section \<open>Change identifiers\<close>

definition change_id_from_digest :: "digest \<Rightarrow> string" where
  "change_id_from_digest d = ''chg_'' @ take 24 (to_hex d)"

definition is_ascii_hexdigit :: "char \<Rightarrow> bool" where
  "is_ascii_hexdigit c \<longleftrightarrow>
     is_ascii_digit c \<or> (65 \<le> char_code c \<and> char_code c \<le> 70) \<or> (97 \<le> char_code c \<and> char_code c \<le> 102)"

definition ascii_lower :: "char \<Rightarrow> char" where
  "ascii_lower c = (if is_ascii_uppercase c then char_of (char_code c + 32) else c)"

datatype change_id_error = MissingPrefix | BadHex

definition change_id_parse :: "string \<Rightarrow> (string, change_id_error) result" where
  "change_id_parse value =
     (case strip_prefix ''chg_'' value of
        None \<Rightarrow> Err MissingPrefix
      | Some hex \<Rightarrow>
          if length hex \<noteq> 24 \<or> \<not> (\<forall>c \<in> set hex. is_ascii_hexdigit c) then Err BadHex
          else Ok (map ascii_lower value))"

section \<open>Change requests\<close>

datatype allowed_path_scope = Exact | Subtree

fun scope_discriminant :: "allowed_path_scope \<Rightarrow> u8" where
  "scope_discriminant Exact = 0"
| "scope_discriminant Subtree = 1"

record allowed_path =
  ap_path :: string
  ap_scope :: allowed_path_scope

record change_request =
  cr_task :: string
  cr_acceptance :: "string list"
  cr_paths :: "allowed_path list"
  cr_artifacts :: "digest list"
  cr_claims :: "digest list"
  cr_constraints :: "string list"

definition path_key :: "allowed_path \<Rightarrow> string \<times> u8" where
  "path_key p = (ap_path p, scope_discriminant (ap_scope p))"

definition path_fields :: "allowed_path \<Rightarrow> hasher \<Rightarrow> hasher" where
  "path_fields p h = field_u8 (scope_discriminant (ap_scope p)) (field_str (ap_path p) h)"

definition change_request_digest :: "(u8 list \<Rightarrow> digest) \<Rightarrow> change_request \<Rightarrow> digest \<Rightarrow> digest" where
  "change_request_digest blake3 r source_snapshot =
     (let h = hasher_new ''needle-change-request'';
          h = field_digest source_snapshot h;
          h = field_normalized_lines (cr_task r) h;
          acceptance = sort (cr_acceptance r);
          h = field_u16 (len_u16 (length acceptance)) h;
          h = fold field_normalized_lines acceptance h;
          paths = sort_key path_key (cr_paths r);
          h = field_u16 (len_u16 (length paths)) h;
          h = fold path_fields paths h;
          artifacts = sort (cr_artifacts r);
          h = field_u16 (len_u16 (length artifacts)) h;
          h = fold field_digest artifacts h;
          claims = sort (cr_claims r);
          h = field_u16 (len_u16 (length claims)) h;
          h = fold field_digest claims h;
          constraints = sort (cr_constraints r);
          h = field_u16 (len_u16 (length constraints)) h;
          h = fold field_normalized_lines constraints h
      in hasher_finish blake3 h)"

section \<open>Patches\<close>

datatype patch_operation = PatchCreate | PatchUpdate | PatchDelete

fun operation_discriminant :: "patch_operation \<Rightarrow> u8" where
  "operation_discriminant PatchCreate = 0"
| "operation_discriminant PatchUpdate = 1"
| "operation_discriminant PatchDelete = 2"

record patch_file =
  pf_path :: string
  pf_operation :: patch_operation
  pf_before :: "digest option"
  pf_after :: "digest option"
  pf_before_bytes :: u64
  pf_after_bytes :: u64

datatype acceptance_status = Addressed | PartiallyAddressed | Unaddressed

record acceptance_coverage =
  ac_criterion :: string
  ac_status :: acceptance_status
  ac_evidence :: string

record patch_artifact =
  pa_id :: digest
  pa_change :: string
  pa_revision :: u32
  pa_source_snapshot :: digest
  pa_files :: "patch_file list"
  pa_summary :: string
  pa_acceptance :: "acceptance_coverage list"
  pa_residual_risks :: "string list"
  pa_declared_output :: digest
  pa_discrepancies :: "string list"

definition patch_file_fields :: "patch_file \<Rightarrow> hasher \<Rightarrow> hasher" where
  "patch_file_fields f h =
     (let h = field_str (pf_path f) h;
          h = field_u8 (operation_discriminant (pf_operation f)) h;
          h = field_u8 (if pf_before f \<noteq> None then 1 else 0) h;
          h = (case pf_before f of Some d \<Rightarrow> field_digest d h | None \<Rightarrow> h);
          h = field_u8 (if pf_after f \<noteq> None then 1 else 0) h;
          h = (case pf_after f of Some d \<Rightarrow> field_digest d h | None \<Rightarrow> h);
          h = field_bytes (u64_le (pf_before_bytes f)) h
      in field_bytes (u64_le (pf_after_bytes f)) h)"

definition patch_compute_id :: "(u8 list \<Rightarrow> digest) \<Rightarrow> digest \<Rightarrow> patch_file list \<Rightarrow> digest" where
  "patch_compute_id blake3 source_snapshot files =
     (let sorted_files = sort_key pf_path files;
          h = field_digest source_snapshot (hasher_new ''needle-patch-artifact'');
          h = field_u16 (len_u16 (length sorted_files)) h
      in hasher_finish blake3 (fold patch_file_fields sorted_files h))"

section \<open>Verification artifacts\<close>

definition MAX_VERIFICATION_FAILURE_REASON_BYTES :: nat where "MAX_VERIFICATION_FAILURE_REASON_BYTES = 2 * 1024"

datatype verification_status = NotRequested | Verified | VerificationRejected | Repairable | VerificationInconclusive

fun verification_tag :: "verification_status \<Rightarrow> u8" where
  "verification_tag NotRequested = 0"
| "verification_tag Verified = 1"
| "verification_tag VerificationRejected = 2"
| "verification_tag Repairable = 3"
| "verification_tag VerificationInconclusive = 4"

fun acceptance_tag :: "acceptance_status \<Rightarrow> u8" where
  "acceptance_tag Addressed = 0"
| "acceptance_tag PartiallyAddressed = 1"
| "acceptance_tag Unaddressed = 2"

record verification_plan_result =
  vr_plan_digest :: digest
  vr_runner :: string
  vr_argv :: "string list"
  vr_cwd_relative :: string
  vr_identifier :: string
  vr_expected :: bool
  vr_available :: bool
  vr_executed :: bool
  vr_passed :: bool
  vr_evidence_id :: "string option"
  vr_failure_reason :: "string option"

record verification_artifact =
  va_id :: digest
  va_change :: string
  va_patch :: digest
  va_verdict :: verification_status
  va_acceptance :: "acceptance_coverage list"
  va_findings :: "string list"
  va_evidence_ids :: "string list"
  va_plan_results :: "verification_plan_result list"
  va_over_cap :: bool
  va_verifier :: digest
  va_created :: u64

definition bool_u8 :: "bool \<Rightarrow> u8" where
  "bool_u8 b = (if b then 1 else 0)"

definition coverage_fields :: "acceptance_coverage \<Rightarrow> hasher \<Rightarrow> hasher" where
  "coverage_fields c h =
     field_normalized_lines (ac_evidence c) (field_u8 (acceptance_tag (ac_status c)) (field_normalized_lines (ac_criterion c) h))"

definition verification_head ::
    "string \<Rightarrow> digest \<Rightarrow> verification_status \<Rightarrow> acceptance_coverage list \<Rightarrow> string list \<Rightarrow> hasher" where
  "verification_head change patch verdict acceptance findings =
     (let h = hasher_new ''needle-verification-artifact'';
          h = field_str change h;
          h = field_digest patch h;
          h = field_u8 (verification_tag verdict) h;
          h = field_u16 (len_u16 (length acceptance)) h;
          h = fold coverage_fields acceptance h;
          sorted_findings = sort findings;
          h = field_u16 (len_u16 (length sorted_findings)) h
      in fold field_normalized_lines sorted_findings h)"

definition compute_id_legacy ::
    "(u8 list \<Rightarrow> digest) \<Rightarrow> string \<Rightarrow> digest \<Rightarrow> verification_status \<Rightarrow> acceptance_coverage list \<Rightarrow> string list \<Rightarrow>
     string list \<Rightarrow> digest \<Rightarrow> digest" where
  "compute_id_legacy blake3 change patch verdict acceptance findings evidence_ids verifier =
     (let h = verification_head change patch verdict acceptance findings;
          evidence = sort evidence_ids;
          h = field_u16 (len_u16 (length evidence)) h;
          h = fold field_str evidence h
      in hasher_finish blake3 (field_digest verifier h))"

definition verification_compute_id ::
    "(u8 list \<Rightarrow> digest) \<Rightarrow> string \<Rightarrow> digest \<Rightarrow> verification_status \<Rightarrow> acceptance_coverage list \<Rightarrow> string list \<Rightarrow>
     string list \<Rightarrow> digest \<Rightarrow> digest" where
  "verification_compute_id blake3 change patch verdict acceptance findings evidence_ids verifier =
     compute_id_legacy blake3 change patch verdict acceptance findings evidence_ids verifier"

definition plan_result_fields :: "verification_plan_result \<Rightarrow> hasher \<Rightarrow> hasher" where
  "plan_result_fields r h =
     (let h = field_digest (vr_plan_digest r) h;
          h = field_str (vr_runner r) h;
          h = field_u16 (len_u16 (length (vr_argv r))) h;
          h = fold field_str (vr_argv r) h;
          h = field_str (vr_cwd_relative r) h;
          h = field_str (vr_identifier r) h;
          h = field_u8 (bool_u8 (vr_expected r)) h;
          h = field_u8 (bool_u8 (vr_available r)) h;
          h = field_u8 (bool_u8 (vr_executed r)) h;
          h = field_u8 (bool_u8 (vr_passed r)) h;
          h = (case vr_evidence_id r of Some v \<Rightarrow> field_str v (field_u8 1 h) | None \<Rightarrow> field_u8 0 h)
      in (case vr_failure_reason r of Some v \<Rightarrow> field_normalized_lines v (field_u8 1 h) | None \<Rightarrow> field_u8 0 h))"

definition compute_id_with_plan_results ::
    "(u8 list \<Rightarrow> digest) \<Rightarrow> string \<Rightarrow> digest \<Rightarrow> verification_status \<Rightarrow> acceptance_coverage list \<Rightarrow> string list \<Rightarrow>
     string list \<Rightarrow> verification_plan_result list \<Rightarrow> bool \<Rightarrow> digest \<Rightarrow> digest" where
  "compute_id_with_plan_results blake3 change patch verdict acceptance findings evidence_ids results over_cap verifier =
     (if results = [] \<and> \<not> over_cap
      then compute_id_legacy blake3 change patch verdict acceptance findings evidence_ids verifier
      else
        let h = verification_head change patch verdict acceptance findings;
            h = field_u16 (len_u16 (length evidence_ids)) h;
            h = fold field_str evidence_ids h;
            h = field_u16 (len_u16 (length results)) h;
            h = field_u8 (bool_u8 over_cap) h;
            h = fold plan_result_fields results h
        in hasher_finish blake3 (field_digest verifier h))"

definition result_plan :: "verification_plan_result \<Rightarrow> test_plan" where
  "result_plan r = \<lparr>tp_runner = vr_runner r, tp_argv = vr_argv r, tp_cwd_relative = vr_cwd_relative r,
     tp_identifier = vr_identifier r, tp_requires_approval = True, tp_execution_evidence = None\<rparr>"

definition record_valid :: "(u8 list \<Rightarrow> digest) \<Rightarrow> verification_plan_result \<Rightarrow> bool" where
  "record_valid blake3 r \<longleftrightarrow>
     vr_expected r \<and> is_ok (test_command_of (result_plan r)) \<and>
     plan_identity_digest blake3 (result_plan r) = vr_plan_digest r \<and>
     vr_executed r = (vr_evidence_id r \<noteq> None) \<and>
     (\<not> vr_passed r \<or> (vr_available r \<and> vr_executed r \<and> vr_failure_reason r = None)) \<and>
     (vr_passed r \<or> vr_failure_reason r \<noteq> None)"

definition result_passed :: "verification_plan_result \<Rightarrow> bool" where
  "result_passed r \<longleftrightarrow>
     vr_expected r \<and> vr_available r \<and> vr_executed r \<and> vr_passed r \<and> vr_evidence_id r \<noteq> None \<and> vr_failure_reason r = None"

definition verification_is_canonical :: "(u8 list \<Rightarrow> digest) \<Rightarrow> verification_artifact \<Rightarrow> bool" where
  "verification_is_canonical blake3 a \<longleftrightarrow>
     (let results = va_plan_results a;
          over = va_over_cap a;
          identity = (if results = [] \<and> \<not> over
            then verification_compute_id blake3 (va_change a) (va_patch a) (va_verdict a) (va_acceptance a) (va_findings a)
              (va_evidence_ids a) (va_verifier a)
            else compute_id_with_plan_results blake3 (va_change a) (va_patch a) (va_verdict a) (va_acceptance a)
              (va_findings a) (va_evidence_ids a) results over (va_verifier a));
          ordered = successively (\<lambda>x y. vr_plan_digest x < vr_plan_digest y) results;
          record_evidence = List.map_filter vr_evidence_id results;
          records_valid = (\<forall>r \<in> set results. record_valid blake3 r);
          failure_reasons_bounded = (\<forall>r \<in> set results. case vr_failure_reason r of
             None \<Rightarrow> True | Some reason \<Rightarrow> length reason \<le> MAX_VERIFICATION_FAILURE_REASON_BYTES);
          evidence_unique = (successively (\<noteq>) (va_evidence_ids a) \<and>
            card (set (va_evidence_ids a)) = length (va_evidence_ids a));
          overflow_signal = (\<not> over \<or> (results = [] \<and> (\<exists>f \<in> set (va_findings a). str_contains ''test-plan bound'' f)));
          legacy_projection = (results = [] \<and> \<not> over);
          verified_projection = (legacy_projection \<or> (\<not> over \<and> results \<noteq> [] \<and> (\<forall>r \<in> set results. result_passed r)))
      in (length results \<le> MAX_VERIFIER_TEST_PLANS \<or> over) \<and>
         ((results = [] \<and> \<not> over) \<or> length (va_evidence_ids a) \<le> MAX_VERIFIER_TEST_PLANS) \<and>
         (\<not> over \<or> (results = [] \<and> va_evidence_ids a = [])) \<and>
         ordered \<and> evidence_unique \<and> records_valid \<and> failure_reasons_bounded \<and> overflow_signal \<and>
         (results = [] \<or> record_evidence = va_evidence_ids a) \<and>
         (va_verdict a \<noteq> Verified \<or> verified_projection) \<and>
         va_id a = identity)"

section \<open>Applying a change\<close>

datatype change_apply_status = Applying | Applied | ApplyRolledBack | RollbackFailed | RecoveryConflict

record change_apply_record =
  ca_id :: digest
  ca_change :: string
  ca_patch :: digest
  ca_repository_root :: string
  ca_pre_snapshot :: digest
  ca_post_snapshot :: "digest option"
  ca_status :: change_apply_status
  ca_created :: u64
  ca_completed :: "u64 option"

section \<open>Identities\<close>

text \<open>The lower-case hexadecimal text of a digest.\<close>

lemma hex_digit_class: "n < 16 \<Longrightarrow> is_ascii_hexdigit (hex_digit n) \<and> ascii_lower (hex_digit n) = hex_digit n"
  by (auto simp: hex_digit_def is_ascii_hexdigit_def ascii_lower_def ascii_defs)

lemma to_hex_class: "c \<in> set (to_hex d) \<Longrightarrow> is_ascii_hexdigit c \<and> ascii_lower c = c"
proof -
  have "unat b < 256" for b :: u8 using unsigned_less [of b] by simp
  then have "unat b div 16 < 16" for b :: u8 by (simp add: less_mult_imp_div_less)
  then show "c \<in> set (to_hex d) \<Longrightarrow> ?thesis"
    using hex_digit_class by (auto simp: to_hex_def hex_byte_def)
qed

text \<open>
  A change identifier is its own text: the identifier made from any 32-byte digest is accepted
  by \<open>ChangeId::parse\<close> unchanged.
\<close>

theorem change_id_roundtrip:
  assumes "wf_digest d"
  shows "change_id_parse (change_id_from_digest d) = Ok (change_id_from_digest d)"
proof -
  have "length (take 24 (to_hex d)) = 24" using assms by (simp add: wf_digest_def)
  moreover have "\<forall>c \<in> set (take 24 (to_hex d)). is_ascii_hexdigit c \<and> ascii_lower c = c"
    using to_hex_class set_take_subset by fast
  moreover have "map ascii_lower ''chg_'' = ''chg_''" by code_simp
  ultimately show ?thesis
    by (simp add: change_id_parse_def change_id_from_digest_def map_idI)
qed

theorem change_id_roundtrip_witness:
  "change_id_parse (change_id_from_digest (Digest (replicate 32 171))) = Ok (change_id_from_digest (Digest (replicate 32 171)))"
  by (rule change_id_roundtrip) (simp add: wf_digest_def)

text \<open>
  The digest of a change request does not depend on the order in which its criteria, paths,
  artifacts, claims and constraints are listed.
\<close>

theorem change_request_digest_order:
  assumes "cr_task r = cr_task q" "mset (cr_acceptance r) = mset (cr_acceptance q)" "mset (cr_paths r) = mset (cr_paths q)"
    "mset (cr_artifacts r) = mset (cr_artifacts q)" "mset (cr_claims r) = mset (cr_claims q)"
    "mset (cr_constraints r) = mset (cr_constraints q)"
  shows "change_request_digest blake3 r snapshot = change_request_digest blake3 q snapshot"
proof -
  have sorts: "mset xs = mset ys \<Longrightarrow> sort xs = sort ys" for xs ys :: "'a::linorder list"
    by (metis mset_sort properties_for_sort sorted_sort)
  have "scope_discriminant a = scope_discriminant b \<longleftrightarrow> a = b" for a b by (cases a; cases b) simp_all
  then have "sort_key path_key (cr_paths r) = sort_key path_key (cr_paths q)"
    by (intro sort_key_inj_key_eq) (auto simp: assms(3) inj_on_def path_key_def)
  with assms(1) sorts [OF assms(2)] sorts [OF assms(4)] sorts [OF assms(5)] sorts [OF assms(6)] show ?thesis
    unfolding change_request_digest_def Let_def by (simp only: length_sort mset_eq_length [OF assms(2)]
      mset_eq_length [OF assms(3)] mset_eq_length [OF assms(4)] mset_eq_length [OF assms(5)] mset_eq_length [OF assms(6)])
qed

definition criteria_request :: "string list \<Rightarrow> change_request" where
  "criteria_request criteria = \<lparr>cr_task = ''t'', cr_acceptance = criteria, cr_paths = [], cr_artifacts = [], cr_claims = [],
     cr_constraints = []\<rparr>"

theorem change_request_digest_order_witness:
  "change_request_digest Digest (criteria_request [''a'', ''b'']) (Digest []) =
   change_request_digest Digest (criteria_request [''b'', ''a'']) (Digest [])"
  by (rule change_request_digest_order) (simp_all add: criteria_request_def)

text \<open>
  Line endings still reach the digest of a change request: the criteria are sorted by their raw
  text and normalised only while they are hashed, so the same two criteria with \<open>\r\n\<close> instead of
  \<open>\n\<close> can be absorbed in the other order and give another preimage.
\<close>

theorem change_request_digest_line_endings:
  "\<exists>r q. cr_task r = cr_task q \<and> cr_constraints r = cr_constraints q \<and>
     map (crlf_to_lf \<circ> as_bytes) (cr_acceptance r) = map (crlf_to_lf \<circ> as_bytes) (cr_acceptance q) \<and>
     change_request_digest Digest r (Digest []) \<noteq> change_request_digest Digest q (Digest [])"
proof -
  let ?r = "criteria_request [[CHR ''x'', CHR 0x0D, CHR 0x0A, CHR ''y''], [CHR ''x'', CHR 0x0A, CHR ''~'']]"
  let ?q = "criteria_request [[CHR ''x'', CHR 0x0A, CHR ''y''], [CHR ''x'', CHR 0x0A, CHR ''~'']]"
  have "map (crlf_to_lf \<circ> as_bytes) (cr_acceptance ?r) = map (crlf_to_lf \<circ> as_bytes) (cr_acceptance ?q)"
    by (simp add: criteria_request_def as_bytes_def)
  moreover have "change_request_digest Digest ?r (Digest []) \<noteq> change_request_digest Digest ?q (Digest [])"
    by (simp add: criteria_request_def change_request_digest_def hasher_finish_def field_normalized_lines_bytes field_bytes_def
      field_u16_def field_digest_def as_bytes_def Let_def)
  ultimately show ?thesis by (intro exI [of _ ?r] exI [of _ ?q]) (simp add: criteria_request_def)
qed

section \<open>The identity of a patch\<close>

text \<open>The fields of one file in the order they are absorbed.\<close>

definition optional_part :: "digest option \<Rightarrow> u8 list list" where
  "optional_part d = (case d of None \<Rightarrow> [[0]] | Some v \<Rightarrow> [[1], dg_bytes v])"

definition patch_file_parts :: "patch_file \<Rightarrow> u8 list list" where
  "patch_file_parts f =
     [as_bytes (pf_path f), [operation_discriminant (pf_operation f)]] @ optional_part (pf_before f) @
     optional_part (pf_after f) @ [u64_le (pf_before_bytes f), u64_le (pf_after_bytes f)]"

definition patch_parts :: "digest \<Rightarrow> patch_file list \<Rightarrow> u8 list list" where
  "patch_parts snapshot files =
     dg_bytes snapshot # u16_le (len_u16 (length files)) # concat (map patch_file_parts (sort_key pf_path files))"

definition patch_preimage :: "digest \<Rightarrow> patch_file list \<Rightarrow> u8 list" where
  "patch_preimage snapshot files = fold field_bytes (patch_parts snapshot files) (hasher_new ''needle-patch-artifact'')"

lemma patch_file_fields_parts: "patch_file_fields f h = fold field_bytes (patch_file_parts f) h"
  by (simp add: patch_file_fields_def patch_file_parts_def optional_part_def field_str_def field_u8_def field_digest_def
    Let_def split: option.split)

lemma patch_compute_id_parts: "patch_compute_id blake3 snapshot files = blake3 (patch_preimage snapshot files)"
proof -
  have "fold patch_file_fields fs h = fold field_bytes (concat (map patch_file_parts fs)) h" for fs h
    by (induction fs arbitrary: h) (simp_all add: patch_file_fields_parts)
  then show ?thesis
    by (simp add: patch_compute_id_def patch_preimage_def patch_parts_def hasher_finish_def field_digest_def field_u16_def Let_def)
qed

lemma operation_discriminant_inj: "operation_discriminant a = operation_discriminant b \<longleftrightarrow> a = b"
  by (cases a; cases b) simp_all

lemma optional_part_decode: "optional_part d @ xs = optional_part e @ ys \<longleftrightarrow> d = e \<and> xs = ys"
  by (auto simp: optional_part_def digest.expand split: option.splits)

lemma patch_file_decode: "patch_file_parts f @ xs = patch_file_parts g @ ys \<longleftrightarrow> f = g \<and> xs = ys"
proof
  assume "patch_file_parts f @ xs = patch_file_parts g @ ys"
  then show "f = g \<and> xs = ys"
    by (cases f; cases g)
      (auto simp: patch_file_parts_def optional_part_decode operation_discriminant_inj dest: le_bytes_word_inj)
qed simp

lemma patch_files_decode: "concat (map patch_file_parts fs) = concat (map patch_file_parts gs) \<Longrightarrow> fs = gs"
proof (induction fs arbitrary: gs)
  case Nil
  then show ?case by (cases gs) (auto simp: patch_file_parts_def)
next
  case (Cons f fs)
  from Cons.prems obtain g gs' where "gs = g # gs'" by (cases gs) (auto simp: patch_file_parts_def)
  with Cons show ?case by (auto simp: patch_file_decode)
qed

definition hashable_file :: "patch_file \<Rightarrow> bool" where
  "hashable_file f \<longleftrightarrow> length (pf_path f) < 2 ^ 64 \<and> pred_option wf_digest (pf_before f) \<and> pred_option wf_digest (pf_after f)"

lemma patch_parts_short:
  assumes "wf_digest snapshot" "\<forall>f \<in> set files. hashable_file f"
  shows "\<forall>v \<in> set (patch_parts snapshot files). length v < 2 ^ 64"
proof -
  have "length v < 2 ^ 64" if "hashable_file f" "v \<in> set (patch_file_parts f)" for f v
    using that by (auto simp: hashable_file_def patch_file_parts_def optional_part_def wf_digest_def u64_le_def split: option.splits)
  with assms show ?thesis by (auto simp: patch_parts_def wf_digest_def u16_le_def)
qed

text \<open>
  C29. A patch is identified by its content: two sets of files with distinct paths have the same patch
  id exactly when the source snapshots agree and the files are the same up to order, for every pair
  of preimages that is not a collision of the hash.
\<close>

theorem patch_id_iff:
  assumes hash: "\<not> collision blake3 (patch_preimage s fs) (patch_preimage t gs)"
    and paths: "distinct (map pf_path fs)" "distinct (map pf_path gs)"
    and short: "wf_digest s" "wf_digest t" "\<forall>f \<in> set fs. hashable_file f" "\<forall>g \<in> set gs. hashable_file g"
  shows "patch_compute_id blake3 s fs = patch_compute_id blake3 t gs \<longleftrightarrow> s = t \<and> mset fs = mset gs"
proof
  assume "patch_compute_id blake3 s fs = patch_compute_id blake3 t gs"
  with hash have "patch_preimage s fs = patch_preimage t gs" by (simp add: patch_compute_id_parts collision_def)
  with framing_injective [of "''needle-patch-artifact''" "''needle-patch-artifact''",
      OF _ _ patch_parts_short [OF short(1,3)] patch_parts_short [OF short(2,4)]]
  have "patch_parts s fs = patch_parts t gs" by (simp add: patch_preimage_def)
  then have "s = t" "sort_key pf_path fs = sort_key pf_path gs"
    by (auto simp: patch_parts_def digest.expand dest: patch_files_decode)
  then show "s = t \<and> mset fs = mset gs" by (metis mset_sort)
next
  assume "s = t \<and> mset fs = mset gs"
  moreover from this have "sort_key pf_path fs = sort_key pf_path gs"
    using paths(1) by (intro sort_key_inj_key_eq) (auto simp: distinct_map)
  ultimately show "patch_compute_id blake3 s fs = patch_compute_id blake3 t gs" by (simp add: patch_compute_id_def)
qed

definition sample_file :: "string \<Rightarrow> patch_file" where
  "sample_file path = \<lparr>pf_path = path, pf_operation = PatchDelete, pf_before = Some (Digest (replicate 32 1)), pf_after = None,
     pf_before_bytes = 7, pf_after_bytes = 0\<rparr>"

theorem patch_id_iff_witness:
  "patch_compute_id Digest (Digest (replicate 32 0)) [sample_file ''a'', sample_file ''b''] =
     patch_compute_id Digest (Digest (replicate 32 0)) [sample_file ''b'', sample_file ''a''] \<and>
   patch_compute_id Digest (Digest (replicate 32 0)) [sample_file ''a'', sample_file ''b''] \<noteq>
     patch_compute_id Digest (Digest (replicate 32 0)) [sample_file ''a'']"
  using patch_id_iff [of Digest "Digest (replicate 32 0)" "[sample_file ''a'', sample_file ''b'']" "Digest (replicate 32 0)"
      "[sample_file ''b'', sample_file ''a'']"]
    patch_id_iff [of Digest "Digest (replicate 32 0)" "[sample_file ''a'', sample_file ''b'']" "Digest (replicate 32 0)"
      "[sample_file ''a'']"]
  by (simp add: collision_def sample_file_def hashable_file_def wf_digest_def)

section \<open>What a verified artifact shows\<close>

text \<open>
  A canonical verification artifact with verdict \<open>Verified\<close> and plan results proves its tests: there
  are one to four results in strictly increasing plan order, each expected, available, executed and
  passed with the recorded plan digest, and the artifact's evidence ids are exactly the results'.
\<close>

theorem verified_artifact_tests:
  assumes "verification_is_canonical blake3 a" "va_verdict a = Verified" "va_plan_results a \<noteq> [] \<or> va_over_cap a"
  shows "\<not> va_over_cap a \<and> length (va_plan_results a) \<in> {1..4} \<and>
    sorted_wrt (<) (map vr_plan_digest (va_plan_results a)) \<and>
    (\<forall>r \<in> set (va_plan_results a). vr_available r \<and> vr_executed r \<and> vr_passed r \<and>
       is_ok (test_command_of (result_plan r)) \<and> plan_identity_digest blake3 (result_plan r) = vr_plan_digest r) \<and>
    map Some (va_evidence_ids a) = map vr_evidence_id (va_plan_results a) \<and> distinct (va_evidence_ids a)"
proof -
  have all: "\<not> va_over_cap a" "va_plan_results a \<noteq> []" "\<forall>r \<in> set (va_plan_results a). result_passed r"
    using assms by (auto simp: verification_is_canonical_def Let_def)
  have "length (va_plan_results a) \<le> 4"
    using assms(1) all(1) by (auto simp: verification_is_canonical_def Let_def MAX_VERIFIER_TEST_PLANS_def)
  moreover have "sorted_wrt (<) (map vr_plan_digest (va_plan_results a))"
    using assms(1) by (auto simp: verification_is_canonical_def Let_def successively_less_key)
  moreover have "\<forall>r \<in> set (va_plan_results a). record_valid blake3 r"
    using assms(1) by (auto simp: verification_is_canonical_def Let_def)
  moreover have ev: "List.map_filter vr_evidence_id (va_plan_results a) = va_evidence_ids a"
    and "card (set (va_evidence_ids a)) = length (va_evidence_ids a)"
    using assms(1) all(2) by (auto simp: verification_is_canonical_def Let_def)
  moreover have "map Some (List.map_filter vr_evidence_id rs) = map vr_evidence_id rs"
    if "\<forall>r \<in> set rs. result_passed r" for rs
    using that by (induction rs) (auto simp: List.map_filter_simps result_passed_def)
  from this [OF all(3)] ev have "map Some (va_evidence_ids a) = map vr_evidence_id (va_plan_results a)" by simp
  ultimately show ?thesis
    using all by (auto simp: record_valid_def result_passed_def card_distinct Suc_le_eq)
qed

definition sample_verification :: verification_artifact where
  "sample_verification =
     (let r = \<lparr>vr_plan_digest = Digest [], vr_runner = ''cargo'',
            vr_argv = [''cargo'', ''test'', ''--lib'', ''plan::tests::merge''], vr_cwd_relative = ''.'',
            vr_identifier = ''plan::tests::merge'', vr_expected = True, vr_available = True, vr_executed = True,
            vr_passed = True, vr_evidence_id = Some ''run-1'', vr_failure_reason = None\<rparr>
      in \<lparr>va_id = Digest [], va_change = ''chg_1'', va_patch = Digest [1], va_verdict = Verified, va_acceptance = [],
           va_findings = [], va_evidence_ids = [''run-1''], va_plan_results = [r], va_over_cap = False,
           va_verifier = Digest [2], va_created = 0\<rparr>)"

lemma sample_verification_canonical: "verification_is_canonical (\<lambda>_. Digest []) sample_verification"
proof -
  have "is_ok (test_command_of \<lparr>tp_runner = ''cargo'', tp_argv = [''cargo'', ''test'', ''--lib'', ''plan::tests::merge''],
      tp_cwd_relative = ''.'', tp_identifier = ''plan::tests::merge'', tp_requires_approval = True,
      tp_execution_evidence = None\<rparr>)" by code_simp
  then show ?thesis
    by (simp add: verification_is_canonical_def sample_verification_def Let_def record_valid_def result_plan_def
      result_passed_def plan_identity_digest_def compute_id_with_plan_results_def hasher_finish_def
      MAX_VERIFIER_TEST_PLANS_def List.map_filter_simps split: result.split)
qed

theorem verified_artifact_tests_witness: "distinct (va_evidence_ids sample_verification) \<and> va_plan_results sample_verification \<noteq> []"
proof -
  have "va_verdict sample_verification = Verified" "va_plan_results sample_verification \<noteq> []"
    by (simp_all add: sample_verification_def Let_def)
  with verified_artifact_tests [OF sample_verification_canonical] show ?thesis by blast
qed

end
