(* ===== verification/Role_Profile.thy ===== *)
theory Role_Profile
  imports Semantic
begin

text \<open>
  \<^verbatim>\<open>crates/needle-core/src/role_profile.rs\<close>: worker role profiles. Profile names, policies, the
  definition with its canonical digest, revisions and their provenance, and the projections to the
  worker boundary (\<open>WorkerProfile\<close> of \<^verbatim>\<open>artifact.rs\<close>, \<open>WorkerConfig\<close> of \<^verbatim>\<open>domain.rs\<close>). The lemmas show
  that a validated definition has only safe policy combinations, that canonicalisation depends on
  the set of assigned routes only, and that the digest pins the definition.
\<close>

section \<open>Constants and errors\<close>

definition ROLE_PROFILE_MAX_TURNS :: u8 where "ROLE_PROFILE_MAX_TURNS = 8"
definition ROLE_PROFILE_MAX_COST_MICROUSD :: u64 where "ROLE_PROFILE_MAX_COST_MICROUSD = 1000000000"
definition ROLE_PROFILE_MAX_TIMEOUT_SECONDS :: u64 where "ROLE_PROFILE_MAX_TIMEOUT_SECONDS = 3600"
definition ROLE_PROFILE_MAX_MODEL_BYTES :: nat where "ROLE_PROFILE_MAX_MODEL_BYTES = 128"
definition HARD_RESULT_TOKENS :: nat where "HARD_RESULT_TOKENS = 2000"
definition HARD_MAX_NEEDS_PER_TASK :: u8 where "HARD_MAX_NEEDS_PER_TASK = 8"

lemmas role_profile_bounds = ROLE_PROFILE_MAX_TURNS_def ROLE_PROFILE_MAX_COST_MICROUSD_def
  ROLE_PROFILE_MAX_TIMEOUT_SECONDS_def ROLE_PROFILE_MAX_MODEL_BYTES_def HARD_RESULT_TOKENS_def
  HARD_MAX_NEEDS_PER_TASK_def

datatype role_profile_error =
  ProfileId string | ModelToken string | HostInvalid | TimeoutInvalid | BudgetInvalid string | Routes | RouteCredential
  | Concurrency | Policy string | DigestMismatch digest digest | Revision | IdentityMismatch | StateMetadata

text \<open>The messages the errors carry.\<close>

definition profile_id_length_msg :: string where "profile_id_length_msg = ''profile id must be between 1 and 64 ASCII bytes''"
definition profile_id_start_msg :: string where "profile_id_start_msg = ''profile id must start with a lowercase ASCII letter or digit''"
definition profile_id_character_msg :: string where "profile_id_character_msg = ''profile id contains an invalid character''"
definition profile_id_syntax_msg :: string where "profile_id_syntax_msg = ''profile id contains path or credential-like syntax''"
definition model_length_msg :: string where "model_length_msg = ''model must be between 1 and 128 ASCII bytes''"
definition model_credential_msg :: string where "model_credential_msg = ''model contains a credential-like prefix''"
definition budget_turns_msg :: string where "budget_turns_msg = ''max_turns must be between 1 and 8''"
definition budget_tokens_msg :: string where "budget_tokens_msg = ''max_output_tokens is outside the hard bound''"
definition budget_cost_msg :: string where "budget_cost_msg = ''max_cost_microusd is outside the hard bound''"
definition policy_network_msg :: string where "policy_network_msg = ''network must be denied''"
definition policy_write_msg :: string where "policy_write_msg = ''isolated_write requires disposable_checkout and implementer role''"
definition policy_read_only_msg :: string where "policy_read_only_msg = ''non-implementer roles require read_only tool and filesystem policies''"
definition policy_certified_msg :: string where "policy_certified_msg = ''certified_tests command requires certified test policy and vice versa''"
definition policy_tests_role_msg :: string where "policy_tests_role_msg = ''certified_tests is allowed only for test_runner or verifier''"
definition model_character_msg :: string where
  "model_character_msg = ''model must contain only ASCII letters, digits, '.', '_' or '-'' @ [CHR 0x27]"

section \<open>Credential-like text\<close>

definition to_ascii_lowercase :: "string \<Rightarrow> string" where
  "to_ascii_lowercase s = map (\<lambda>c. if is_ascii_uppercase c then char_of (char_code c + 32) else c) s"

definition credential_prefixes :: "string list" where
  "credential_prefixes =
     [''ghp_'', ''gho_'', ''ghu_'', ''ghs_'', ''ghr_'', ''github_pat_'', ''glpat-'', ''sk-'', ''sk_'', ''rk_'',
      ''xoxa-'', ''xoxb-'', ''xoxp-'', ''xoxr-'', ''xoxs-'', ''bearer '', ''basic '']"

definition google_api_key :: "string \<Rightarrow> bool" where
  "google_api_key value \<longleftrightarrow>
     length value = 39 \<and> starts_with ''AIza'' value \<and>
     (\<forall>c \<in> set (drop 4 value). is_ascii_alphanumeric c \<or> c \<in> set ''-_'')"

definition aws_access_key_id :: "string \<Rightarrow> bool" where
  "aws_access_key_id value \<longleftrightarrow>
     length value = 20 \<and> (\<forall>c \<in> set value. is_ascii_uppercase c \<or> is_ascii_digit c) \<and>
     (starts_with ''AKIA'' value \<or> starts_with ''ASIA'' value)"

definition credential_prefix :: "string \<Rightarrow> bool" where
  "credential_prefix value \<longleftrightarrow>
     (\<exists>prefix \<in> set credential_prefixes. starts_with prefix (to_ascii_lowercase value)) \<or>
     google_api_key value \<or> aws_access_key_id value"

section \<open>Profile names and models\<close>

definition role_profile_id_new :: "string \<Rightarrow> (string, role_profile_error) result" where
  "role_profile_id_new value =
     (if value = [] \<or> length value > 64
      then Err (ProfileId profile_id_length_msg)
      else if \<not> is_ascii_lowercase (hd value) \<and> \<not> is_ascii_digit (hd value)
      then Err (ProfileId profile_id_start_msg)
      else if \<exists>c \<in> set value. \<not> (is_ascii_lowercase c \<or> is_ascii_digit c \<or> c \<in> set ''._-'')
      then Err (ProfileId profile_id_character_msg)
      else if str_contains ''..'' value \<or> str_contains ''/'' value \<or> str_contains [CHR 0x5C] value
         \<or> starts_with ''~'' value \<or> str_contains '':'' value \<or> credential_prefix value
      then Err (ProfileId profile_id_syntax_msg)
      else Ok value)"

definition validate_model :: "string \<Rightarrow> (unit, role_profile_error) result" where
  "validate_model value =
     (if value = [] \<or> length value > ROLE_PROFILE_MAX_MODEL_BYTES
      then Err (ModelToken model_length_msg)
      else if \<exists>c \<in> set value. \<not> (is_ascii_alphanumeric c \<or> c \<in> set ''._-'')
      then Err (ModelToken model_character_msg)
      else if credential_prefix value
      then Err (ModelToken model_credential_msg)
      else Ok ())"

section \<open>Policies\<close>

datatype codex_role = Explorer | Implementer | TestRunner | Reviewer | Verifier | Auditor

fun codex_role_str :: "codex_role \<Rightarrow> string" where
  "codex_role_str Explorer = ''explorer''"
| "codex_role_str Implementer = ''implementer''"
| "codex_role_str TestRunner = ''test_runner''"
| "codex_role_str Reviewer = ''reviewer''"
| "codex_role_str Verifier = ''verifier''"
| "codex_role_str Auditor = ''auditor''"

fun codex_role_tag :: "codex_role \<Rightarrow> u8" where
  "codex_role_tag Explorer = 0"
| "codex_role_tag Implementer = 1"
| "codex_role_tag TestRunner = 2"
| "codex_role_tag Reviewer = 3"
| "codex_role_tag Verifier = 4"
| "codex_role_tag Auditor = 5"

datatype codex_host = Codex

definition codex_host_str :: "codex_host \<Rightarrow> string" where
  "codex_host_str h = ''codex''"

datatype reasoning_level = Low | Medium | High | Xhigh

fun reasoning_str :: "reasoning_level \<Rightarrow> string" where
  "reasoning_str Low = ''low''"
| "reasoning_str Medium = ''medium''"
| "reasoning_str High = ''high''"
| "reasoning_str Xhigh = ''xhigh''"

fun reasoning_tag :: "reasoning_level \<Rightarrow> u8" where
  "reasoning_tag Low = 0"
| "reasoning_tag Medium = 1"
| "reasoning_tag High = 2"
| "reasoning_tag Xhigh = 3"

datatype service_tier = TierDefault | TierPriority

fun service_tier_str :: "service_tier \<Rightarrow> string" where
  "service_tier_str TierDefault = ''default''"
| "service_tier_str TierPriority = ''priority''"

fun service_tier_tag :: "service_tier \<Rightarrow> u8" where
  "service_tier_tag TierDefault = 0"
| "service_tier_tag TierPriority = 1"

datatype tool_policy = ToolReadOnly | IsolatedWrite

fun tool_policy_tag :: "tool_policy \<Rightarrow> u8" where
  "tool_policy_tag ToolReadOnly = 0"
| "tool_policy_tag IsolatedWrite = 1"

datatype command_policy = CommandDenied | CommandReadOnly | CertifiedTests

fun command_policy_tag :: "command_policy \<Rightarrow> u8" where
  "command_policy_tag CommandDenied = 0"
| "command_policy_tag CommandReadOnly = 1"
| "command_policy_tag CertifiedTests = 2"

datatype filesystem_policy = ReadOnlyCheckout | DisposableCheckout

fun filesystem_policy_tag :: "filesystem_policy \<Rightarrow> u8" where
  "filesystem_policy_tag ReadOnlyCheckout = 0"
| "filesystem_policy_tag DisposableCheckout = 1"

datatype network_policy = NetworkDenied

definition network_policy_tag :: "network_policy \<Rightarrow> u8" where
  "network_policy_tag p = 0"

datatype test_policy = TestDisabled | TestCertified

fun test_policy_tag :: "test_policy \<Rightarrow> u8" where
  "test_policy_tag TestDisabled = 0"
| "test_policy_tag TestCertified = 1"

datatype repair_policy = RepairNone | RepairOnce

fun repair_policy_tag :: "repair_policy \<Rightarrow> u8" where
  "repair_policy_tag RepairNone = 0"
| "repair_policy_tag RepairOnce = 1"

datatype fallback_policy = FallbackDisabled | FallbackNative

fun fallback_policy_tag :: "fallback_policy \<Rightarrow> u8" where
  "fallback_policy_tag FallbackDisabled = 0"
| "fallback_policy_tag FallbackNative = 1"

section \<open>Definitions\<close>

record role_profile_budget =
  rb_max_turns :: u8
  rb_max_output_tokens :: u32
  rb_max_cost_microusd :: u64

record role_profile_input =
  rd_profile_id :: string
  rd_role :: codex_role
  rd_host :: codex_host
  rd_model :: string
  rd_reasoning :: reasoning_level
  rd_service_tier :: service_tier
  rd_timeout_seconds :: u64
  rd_budget :: role_profile_budget
  rd_prompt_profile :: digest
  rd_output_contract :: digest
  rd_tool_policy :: tool_policy
  rd_command_policy :: command_policy
  rd_filesystem_policy :: filesystem_policy
  rd_network_policy :: network_policy
  rd_test_policy :: test_policy
  rd_repair_policy :: repair_policy
  rd_fallback_policy :: fallback_policy
  rd_concurrency :: u8
  rd_routes :: "string list"

text \<open>A definition has the input's fields and the digest.\<close>

record role_profile_definition = role_profile_input +
  rd_definition_digest :: digest

definition validate_without_digest :: "('a) role_profile_input_scheme \<Rightarrow> (unit, role_profile_error) result" where
  "validate_without_digest d =
     rbind (validate_model (rd_model d)) (\<lambda>_.
     if rd_host d \<noteq> Codex then Err HostInvalid
     else if rd_timeout_seconds d = 0 \<or> rd_timeout_seconds d > ROLE_PROFILE_MAX_TIMEOUT_SECONDS then Err TimeoutInvalid
     else if rb_max_turns (rd_budget d) = 0 \<or> rb_max_turns (rd_budget d) > ROLE_PROFILE_MAX_TURNS
     then Err (BudgetInvalid budget_turns_msg)
     else if rb_max_output_tokens (rd_budget d) = 0 \<or> rb_max_output_tokens (rd_budget d) > word_of_nat HARD_RESULT_TOKENS
     then Err (BudgetInvalid budget_tokens_msg)
     else if rb_max_cost_microusd (rd_budget d) = 0 \<or> rb_max_cost_microusd (rd_budget d) > ROLE_PROFILE_MAX_COST_MICROUSD
     then Err (BudgetInvalid budget_cost_msg)
     else if length (rd_routes d) > unat HARD_MAX_NEEDS_PER_TASK then Err Routes
     else if \<exists>r \<in> set (rd_routes d). credential_prefix r then Err RouteCredential
     else if sort_dedup (rd_routes d) \<noteq> rd_routes d then Err Routes
     else if rd_concurrency d \<noteq> 1 then Err Concurrency
     else if rd_network_policy d \<noteq> NetworkDenied then Err (Policy policy_network_msg)
     else if rd_tool_policy d = IsolatedWrite \<and>
         (rd_filesystem_policy d \<noteq> DisposableCheckout \<or> rd_role d \<noteq> Implementer)
     then Err (Policy policy_write_msg)
     else if rd_role d \<noteq> Implementer \<and>
         (rd_tool_policy d \<noteq> ToolReadOnly \<or> rd_filesystem_policy d \<noteq> ReadOnlyCheckout)
     then Err (Policy policy_read_only_msg)
     else if (rd_command_policy d = CertifiedTests) \<noteq> (rd_test_policy d = TestCertified)
     then Err (Policy policy_certified_msg)
     else if rd_command_policy d = CertifiedTests \<and> rd_role d \<notin> {TestRunner, Verifier}
     then Err (Policy policy_tests_role_msg)
     else Ok ())"

definition definition_fields :: "('a) role_profile_input_scheme \<Rightarrow> u8 list list" where
  "definition_fields d =
     [as_bytes (rd_profile_id d), [codex_role_tag (rd_role d)], [0], as_bytes (rd_model d),
      [reasoning_tag (rd_reasoning d)], [service_tier_tag (rd_service_tier d)], u64_le (rd_timeout_seconds d),
      [rb_max_turns (rd_budget d)], u32_le (rb_max_output_tokens (rd_budget d)),
      u64_le (rb_max_cost_microusd (rd_budget d)), dg_bytes (rd_prompt_profile d), dg_bytes (rd_output_contract d),
      [tool_policy_tag (rd_tool_policy d)], [command_policy_tag (rd_command_policy d)],
      [filesystem_policy_tag (rd_filesystem_policy d)], [network_policy_tag NetworkDenied],
      [test_policy_tag (rd_test_policy d)], [repair_policy_tag (rd_repair_policy d)],
      [fallback_policy_tag (rd_fallback_policy d)], [rd_concurrency d],
      u32_le (word_of_nat (length (rd_routes d)))] @ map as_bytes (rd_routes d)"

definition definition_digest_of :: "(u8 list \<Rightarrow> digest) \<Rightarrow> ('a) role_profile_input_scheme \<Rightarrow> digest" where
  "definition_digest_of blake3 d =
     hasher_finish blake3 (fold field_bytes (definition_fields d) (hasher_new ''needle-codex-role-profile-definition-v1''))"

definition with_digest :: "role_profile_input \<Rightarrow> digest \<Rightarrow> role_profile_definition" where
  "with_digest i dg = role_profile_input.extend i \<lparr>rd_definition_digest = dg\<rparr>"

definition canonicalize :: "(u8 list \<Rightarrow> digest) \<Rightarrow> role_profile_input \<Rightarrow> (role_profile_definition, role_profile_error) result" where
  "canonicalize blake3 input =
     (if length (rd_routes input) > unat HARD_MAX_NEEDS_PER_TASK then Err Routes
      else let sorted_input = input\<lparr>rd_routes := sort_dedup (rd_routes input)\<rparr> in
        rbind (validate_without_digest sorted_input) (\<lambda>_.
        Ok (with_digest sorted_input (definition_digest_of blake3 sorted_input))))"

definition definition_validate :: "(u8 list \<Rightarrow> digest) \<Rightarrow> role_profile_definition \<Rightarrow> (unit, role_profile_error) result" where
  "definition_validate blake3 d =
     rbind (validate_without_digest d) (\<lambda>_.
     let expected = definition_digest_of blake3 d in
     if expected \<noteq> rd_definition_digest d then Err (DigestMismatch expected (rd_definition_digest d)) else Ok ())"

section \<open>The worker boundary\<close>

record worker_profile =
  wp_platform :: string
  wp_model :: string
  wp_reasoning :: string
  wp_service_tier :: "string option"
  wp_definition :: digest

text \<open>\<open>format!\<close> joins the fields with line feeds, an absent tier as the empty string.\<close>

definition unlines :: "string list \<Rightarrow> string" where
  "unlines ls = concat (map (\<lambda>l. l @ [CHR 0x0A]) ls)"

definition or_empty :: "string option \<Rightarrow> string" where
  "or_empty s = (case s of Some v \<Rightarrow> v | None \<Rightarrow> [])"

definition worker_profile_new ::
    "(u8 list \<Rightarrow> digest) \<Rightarrow> string \<Rightarrow> string \<Rightarrow> string \<Rightarrow> string option \<Rightarrow> worker_profile" where
  "worker_profile_new blake3 platform model reasoning tier =
     \<lparr>wp_platform = platform, wp_model = model, wp_reasoning = reasoning, wp_service_tier = tier,
      wp_definition = blake3 (as_bytes (unlines [''needle-worker-profile'', platform, model, reasoning, or_empty tier]))\<rparr>"

definition tier_option :: "service_tier \<Rightarrow> string option" where
  "tier_option t = (case t of TierDefault \<Rightarrow> None | TierPriority \<Rightarrow> Some ''priority'')"

definition definition_to_worker_profile ::
    "(u8 list \<Rightarrow> digest) \<Rightarrow> role_profile_definition \<Rightarrow> (worker_profile, role_profile_error) result" where
  "definition_to_worker_profile blake3 d =
     rbind (definition_validate blake3 d) (\<lambda>_.
     Ok (worker_profile_new blake3 (codex_host_str (rd_host d)) (rd_model d) (reasoning_str (rd_reasoning d))
       (tier_option (rd_service_tier d))))"

section \<open>Revisions and provenance\<close>

datatype role_profile_state = Draft | RevisionActive | Inactive

record role_profile_revision =
  rv_profile_id :: string
  rv_revision :: u64
  rv_definition :: role_profile_definition
  rv_state :: role_profile_state
  rv_created :: u64
  rv_activated :: "u64 option"

record role_profile_provenance =
  pv_profile_id :: string
  pv_revision :: u64
  pv_definition_digest :: digest

definition provenance_validate :: "role_profile_provenance \<Rightarrow> (unit, role_profile_error) result" where
  "provenance_validate p =
     (if pv_revision p = 0 then Err Revision
      else rbind (map_err (\<lambda>_. IdentityMismatch) (role_profile_id_new (pv_profile_id p))) (\<lambda>_. Ok ()))"

definition provenance_new :: "string \<Rightarrow> u64 \<Rightarrow> digest \<Rightarrow> (role_profile_provenance, role_profile_error) result" where
  "provenance_new profile_id revision dg =
     (let p = \<lparr>pv_profile_id = profile_id, pv_revision = revision, pv_definition_digest = dg\<rparr> in
      rbind (provenance_validate p) (\<lambda>_. Ok p))"

definition revision_validate :: "(u8 list \<Rightarrow> digest) \<Rightarrow> role_profile_revision \<Rightarrow> (unit, role_profile_error) result" where
  "revision_validate blake3 r =
     (if rv_revision r = 0 then Err Revision
      else rbind (definition_validate blake3 (rv_definition r)) (\<lambda>_.
        if rv_profile_id r \<noteq> rd_profile_id (rv_definition r) then Err IdentityMismatch
        else if rv_state r = RevisionActive \<and> rv_activated r = None then Err StateMetadata
        else Ok ()))"

definition provenance_from_revision ::
    "(u8 list \<Rightarrow> digest) \<Rightarrow> role_profile_revision \<Rightarrow> (role_profile_provenance, role_profile_error) result" where
  "provenance_from_revision blake3 r =
     rbind (revision_validate blake3 r) (\<lambda>_.
     provenance_new (rv_profile_id r) (rv_revision r) (rd_definition_digest (rv_definition r)))"

definition revision_to_worker_profile ::
    "(u8 list \<Rightarrow> digest) \<Rightarrow> role_profile_revision \<Rightarrow> (worker_profile, role_profile_error) result" where
  "revision_to_worker_profile blake3 r =
     rbind (revision_validate blake3 r) (\<lambda>_. definition_to_worker_profile blake3 (rv_definition r))"

datatype evidence_failure_policy = DiscardInvalidFact | EvidenceRepairOnce

fun evidence_failure_policy_str :: "evidence_failure_policy \<Rightarrow> string" where
  "evidence_failure_policy_str DiscardInvalidFact = ''discard_invalid_fact''"
| "evidence_failure_policy_str EvidenceRepairOnce = ''repair_once''"

record worker_config =
  wc_executable :: string
  wc_model :: string
  wc_reasoning :: string
  wc_service_tier :: "string option"
  wc_timeout_seconds :: u64
  wc_evidence_failure :: evidence_failure_policy
  wc_provenance :: "role_profile_provenance option"

definition to_worker_config ::
    "(u8 list \<Rightarrow> digest) \<Rightarrow> string \<Rightarrow> role_profile_revision \<Rightarrow> (worker_config, role_profile_error) result" where
  "to_worker_config blake3 executable r =
     rbind (revision_validate blake3 r) (\<lambda>_.
     rbind (provenance_from_revision blake3 r) (\<lambda>p.
     let d = rv_definition r in
     Ok \<lparr>wc_executable = executable, wc_model = rd_model d, wc_reasoning = reasoning_str (rd_reasoning d),
         wc_service_tier = tier_option (rd_service_tier d), wc_timeout_seconds = rd_timeout_seconds d,
         wc_evidence_failure = (case rd_repair_policy d of RepairNone \<Rightarrow> DiscardInvalidFact | RepairOnce \<Rightarrow> EvidenceRepairOnce),
         wc_provenance = Some p\<rparr>))"

text \<open>The decimal text of an unsigned integer (\<open>Display for u64\<close>).\<close>

function decimal :: "nat \<Rightarrow> string" where
  "decimal n = (if n < 10 then [char_of (48 + n)] else decimal (n div 10) @ [char_of (48 + n mod 10)])"
  by auto
termination by (relation "measure id") auto

definition worker_config_digest :: "(u8 list \<Rightarrow> digest) \<Rightarrow> worker_config \<Rightarrow> digest" where
  "worker_config_digest blake3 c = blake3 (as_bytes (unlines
     [''needle-worker-config'', wc_executable c, wc_model c, wc_reasoning c, or_empty (wc_service_tier c),
      decimal (unat (wc_timeout_seconds c)), evidence_failure_policy_str (wc_evidence_failure c),
      (case wc_provenance c of
         Some p \<Rightarrow> pv_profile_id p @ ''@'' @ decimal (unat (pv_revision p)) @ ''#'' @ digest_to_string (pv_definition_digest p)
       | None \<Rightarrow> [])]))"

section \<open>Profile names\<close>

lemma str_contains_single: "str_contains [x] s \<longleftrightarrow> x \<in> set s"
  by (induction s) auto

lemma need_key_byte_not:
  "need_key_byte c \<Longrightarrow> c \<noteq> CHR ''/'' \<and> c \<noteq> CHR 0x5C \<and> c \<noteq> CHR '':'' \<and> c \<noteq> CHR ''~'' \<and> \<not> is_ascii_uppercase c"
  by (auto simp: need_key_byte_def ascii_defs)

lemma need_key_not_google: "\<forall>c \<in> set v. need_key_byte c \<Longrightarrow> \<not> google_api_key v"
proof
  assume v: "\<forall>c \<in> set v. need_key_byte c" and "google_api_key v"
  then obtain t where "v = CHR ''A'' # t" by (auto simp: google_api_key_def starts_with_iff)
  with v show False by (auto simp: need_key_byte_def ascii_defs)
qed

lemma need_key_not_aws: "\<forall>c \<in> set v. need_key_byte c \<Longrightarrow> \<not> aws_access_key_id v"
proof
  assume v: "\<forall>c \<in> set v. need_key_byte c" and "aws_access_key_id v"
  then obtain t where "v = CHR ''A'' # t" by (auto simp: aws_access_key_id_def starts_with_iff)
  with v show False by (auto simp: need_key_byte_def ascii_defs)
qed

lemma need_key_lowercase: "\<forall>c \<in> set v. need_key_byte c \<Longrightarrow> to_ascii_lowercase v = v"
  unfolding to_ascii_lowercase_def by (rule map_idI) (auto dest: need_key_byte_not)

lemma role_profile_id_new_Ok:
  "role_profile_id_new v = Ok k \<longleftrightarrow>
     k = v \<and> v \<noteq> [] \<and> length v \<le> 64 \<and> (is_ascii_lowercase (hd v) \<or> is_ascii_digit (hd v)) \<and>
     (\<forall>c \<in> set v. need_key_byte c) \<and> \<not> str_contains ''..'' v \<and> \<not> str_contains ''/'' v \<and>
     \<not> str_contains [CHR 0x5C] v \<and> \<not> starts_with ''~'' v \<and> \<not> str_contains '':'' v \<and> \<not> credential_prefix v"
  unfolding role_profile_id_new_def need_key_byte_def [symmetric] by auto

text \<open>
  Profile names are route keys without dot-dot and without a credential prefix. A name is accepted
  exactly when it is a valid need key that contains no \<open>..\<close> and does not start with one of the listed
  token prefixes: the separate checks for slashes, colons, a tilde and for Google and AWS keys never
  decide, because the character set already excludes those.
\<close>

theorem role_profile_id_iff:
  "role_profile_id_new v = Ok k \<longleftrightarrow>
     need_key_new v = Ok k \<and> \<not> str_contains ''..'' v \<and> \<not> (\<exists>prefix \<in> set credential_prefixes. starts_with prefix v)"
proof (cases "\<forall>c \<in> set v. need_key_byte c")
  case True
  have "CHR ''~'' \<notin> set v" using True need_key_byte_not by blast
  then have "\<not> starts_with ''~'' v" by (cases v) auto
  moreover have "CHR ''/'' \<notin> set v" "CHR 0x5C \<notin> set v" "CHR '':'' \<notin> set v" using True need_key_byte_not by blast+
  moreover have "credential_prefix v \<longleftrightarrow> (\<exists>prefix \<in> set credential_prefixes. starts_with prefix v)"
    using True by (simp add: credential_prefix_def need_key_lowercase need_key_not_google need_key_not_aws)
  ultimately show ?thesis using True unfolding role_profile_id_new_Ok need_key_new_Ok str_contains_single by simp
next
  case False
  then show ?thesis unfolding need_key_new_Ok role_profile_id_new_Ok by blast
qed

section \<open>Definitions: safety and canonical form\<close>

text \<open>
  A validated definition is safe: only an implementer in a disposable checkout may write, every
  other role reads only, certified tests run only for the test runner and the verifier and only
  under the certified test policy, the network is denied, one worker runs at a time, routes are in
  strict order, and time, turns, tokens and cost are positive and within the hard bounds.
\<close>

theorem validated_definition_safe:
  assumes "definition_validate blake3 d = Ok ()"
  shows "(rd_tool_policy d = IsolatedWrite \<longrightarrow> rd_role d = Implementer \<and> rd_filesystem_policy d = DisposableCheckout) \<and>
     (rd_role d \<noteq> Implementer \<longrightarrow> rd_tool_policy d = ToolReadOnly \<and> rd_filesystem_policy d = ReadOnlyCheckout) \<and>
     (rd_command_policy d = CertifiedTests \<longleftrightarrow> rd_test_policy d = TestCertified) \<and>
     (rd_test_policy d = TestCertified \<longrightarrow> rd_role d \<in> {TestRunner, Verifier}) \<and>
     rd_network_policy d = NetworkDenied \<and> rd_concurrency d = 1 \<and>
     sorted_wrt (<) (rd_routes d) \<and> length (rd_routes d) \<le> 8 \<and> \<not> credential_prefix (rd_model d) \<and>
     unat (rd_timeout_seconds d) \<in> {1..3600} \<and> unat (rb_max_turns (rd_budget d)) \<in> {1..8} \<and>
     unat (rb_max_output_tokens (rd_budget d)) \<in> {1..2000} \<and>
     unat (rb_max_cost_microusd (rd_budget d)) \<in> {1..1000000000} \<and>
     rd_definition_digest d = definition_digest_of blake3 d"
proof -
  from assms have ok: "validate_without_digest d = Ok ()" and dg: "rd_definition_digest d = definition_digest_of blake3 d"
    by (auto simp: definition_validate_def Let_def split: if_splits)
  have routes: "sorted_wrt (<) (rd_routes d)" if "sort_dedup (rd_routes d) = rd_routes d"
    using that strict_sort_dedup [of "rd_routes d"] by simp
  have pos: "w \<noteq> 0 \<Longrightarrow> 1 \<le> unat w" for w :: "'a::len word" by (simp add: Suc_le_eq unat_gt_0)
  note g = ok [unfolded validate_without_digest_def validate_model_def rbind_Ok_iff guard_Ok_iff de_Morgan_disj, simplified]
  show ?thesis
    using g dg routes pos [of "rd_timeout_seconds d"] pos [of "rb_max_turns (rd_budget d)"]
      pos [of "rb_max_output_tokens (rd_budget d)"] pos [of "rb_max_cost_microusd (rd_budget d)"]
    by (simp add: role_profile_bounds not_less word_le_nat_alt) blast
qed

lemma validate_routes_irrelevant:
  "sort_dedup (rd_routes i) = sort_dedup rs \<Longrightarrow> i\<lparr>rd_routes := sort_dedup (rd_routes i)\<rparr> = i\<lparr>rd_routes := sort_dedup rs\<rparr>"
  by simp

lemma definition_digest_extend [simp]: "definition_digest_of blake3 (with_digest i dg) = definition_digest_of blake3 i"
  by (simp add: definition_digest_of_def definition_fields_def with_digest_def role_profile_input.defs)

lemma validate_extend [simp]: "validate_without_digest (with_digest i dg) = validate_without_digest i"
  by (simp add: validate_without_digest_def with_digest_def role_profile_input.defs)

lemma with_digest_sel [simp]:
  "rd_definition_digest (with_digest i dg) = dg" "rd_routes (with_digest i dg) = rd_routes i"
  "rd_profile_id (with_digest i dg) = rd_profile_id i"
  by (simp_all add: with_digest_def role_profile_input.defs)

text \<open>
  Canonicalisation is stable: its result validates, it does not depend on the order or the
  repetition of the assigned routes, and canonicalising the result's own fields gives it back.
\<close>

theorem canonicalize_stable:
  assumes "canonicalize blake3 i = Ok d"
  shows "definition_validate blake3 d = Ok () \<and>
     (\<forall>rs. set rs = set (rd_routes i) \<longrightarrow> length rs \<le> 8 \<longrightarrow> canonicalize blake3 (i\<lparr>rd_routes := rs\<rparr>) = Ok d) \<and>
     canonicalize blake3 (role_profile_input.truncate d) = Ok d"
proof -
  let ?s = "i\<lparr>rd_routes := sort_dedup (rd_routes i)\<rparr>"
  from assms have len: "length (rd_routes i) \<le> 8" and ok: "validate_without_digest ?s = Ok ()"
    and d: "d = with_digest ?s (definition_digest_of blake3 ?s)"
    by (auto simp: canonicalize_def Let_def role_profile_bounds split: if_splits)
  have "length (sort_dedup (rd_routes i)) \<le> length (rd_routes i)"
    by (metis length_sort remdups_adj_length sort_dedup_def)
  moreover have "sort_dedup (sort_dedup (rd_routes i)) = sort_dedup (rd_routes i)"
    by (rule sort_dedup_id) simp
  moreover have "role_profile_input.truncate d = ?s"
    by (simp add: d with_digest_def role_profile_input.defs)
  ultimately have "canonicalize blake3 (role_profile_input.truncate d) = Ok d"
    using ok len by (simp add: canonicalize_def Let_def role_profile_bounds d)
  moreover have "canonicalize blake3 (i\<lparr>rd_routes := rs\<rparr>) = Ok d"
    if "set rs = set (rd_routes i)" "length rs \<le> 8" for rs
  proof -
    have "sort_dedup rs = sort_dedup (rd_routes i)" using that(1) by (simp add: sort_dedup_eq_iff)
    with that(2) ok show ?thesis by (simp add: canonicalize_def Let_def role_profile_bounds d)
  qed
  ultimately show ?thesis using ok by (simp add: definition_validate_def d)
qed

section \<open>The digest pins the definition\<close>

lemma tag_inj:
  "codex_role_tag a = codex_role_tag b \<longleftrightarrow> a = b" "reasoning_tag c = reasoning_tag d \<longleftrightarrow> c = d"
  "service_tier_tag e = service_tier_tag f \<longleftrightarrow> e = f" "tool_policy_tag g = tool_policy_tag h \<longleftrightarrow> g = h"
  "command_policy_tag i = command_policy_tag j \<longleftrightarrow> i = j" "filesystem_policy_tag k = filesystem_policy_tag l \<longleftrightarrow> k = l"
  "test_policy_tag m = test_policy_tag n \<longleftrightarrow> m = n" "repair_policy_tag p = repair_policy_tag q \<longleftrightarrow> p = q"
  "fallback_policy_tag r = fallback_policy_tag s \<longleftrightarrow> r = s"
proof -
  show "codex_role_tag a = codex_role_tag b \<longleftrightarrow> a = b" by (cases a; cases b) simp_all
  show "reasoning_tag c = reasoning_tag d \<longleftrightarrow> c = d" by (cases c; cases d) simp_all
  show "service_tier_tag e = service_tier_tag f \<longleftrightarrow> e = f" by (cases e; cases f) simp_all
  show "tool_policy_tag g = tool_policy_tag h \<longleftrightarrow> g = h" by (cases g; cases h) simp_all
  show "command_policy_tag i = command_policy_tag j \<longleftrightarrow> i = j" by (cases i; cases j) simp_all
  show "filesystem_policy_tag k = filesystem_policy_tag l \<longleftrightarrow> k = l" by (cases k; cases l) simp_all
  show "test_policy_tag m = test_policy_tag n \<longleftrightarrow> m = n" by (cases m; cases n) simp_all
  show "repair_policy_tag p = repair_policy_tag q \<longleftrightarrow> p = q" by (cases p; cases q) simp_all
  show "fallback_policy_tag r = fallback_policy_tag s \<longleftrightarrow> r = s" by (cases r; cases s) simp_all
qed

definition short_fields :: "role_profile_definition \<Rightarrow> bool" where
  "short_fields d \<longleftrightarrow> (\<forall>f \<in> set (definition_fields d). length f < 2 ^ 64)"

lemma definition_fields_inj:
  assumes "definition_fields d = definition_fields e" "rd_definition_digest d = rd_definition_digest e"
  shows "d = (e :: role_profile_definition)"
proof -
  have "rd_network_policy d = rd_network_policy e" "rd_host d = rd_host e"
    by (cases "rd_network_policy d"; cases "rd_network_policy e"; simp) (cases "rd_host d"; cases "rd_host e"; simp)
  moreover have "rd_routes d = rd_routes e"
    using assms(1) inj_map_eq_map [of as_bytes "rd_routes d" "rd_routes e"]
    by (simp add: definition_fields_def inj_def)
  moreover have "rd_budget d = rd_budget e" "rd_timeout_seconds d = rd_timeout_seconds e"
    using assms(1) le_bytes_word_inj by (auto simp: definition_fields_def)
  moreover have "rd_prompt_profile d = rd_prompt_profile e" "rd_output_contract d = rd_output_contract e"
    using assms(1) by (simp_all add: definition_fields_def digest.expand)
  ultimately show ?thesis
    using assms by (cases d; cases e) (simp add: definition_fields_def tag_inj)
qed

definition definition_preimage :: "('a) role_profile_input_scheme \<Rightarrow> u8 list" where
  "definition_preimage d = fold field_bytes (definition_fields d) (hasher_new ''needle-codex-role-profile-definition-v1'')"

text \<open>
  The digest pins the definition: two validated definitions with the same definition digest are
  equal in every field unless their two preimages are a collision of the hash, so a provenance
  (name, revision, digest) determines the whole configuration a worker ran under.
\<close>

theorem definition_digest_pins:
  assumes hash: "\<not> collision blake3 (definition_preimage d) (definition_preimage e)"
    and "definition_validate blake3 d = Ok ()" "definition_validate blake3 e = Ok ()"
    and "short_fields d" "short_fields e"
    and "rd_definition_digest d = rd_definition_digest e"
  shows "d = e"
proof -
  have dg: "rd_definition_digest d = definition_digest_of blake3 d" "rd_definition_digest e = definition_digest_of blake3 e"
    using assms(2,3) by (auto simp: definition_validate_def Let_def split: if_splits)
  with assms(6) have "definition_digest_of blake3 d = definition_digest_of blake3 e" by simp
  then have "fold field_bytes (definition_fields d) (hasher_new ''needle-codex-role-profile-definition-v1'') =
      fold field_bytes (definition_fields e) (hasher_new ''needle-codex-role-profile-definition-v1'')"
    using hash unfolding definition_digest_of_def hasher_finish_def definition_preimage_def collision_def by blast
  from framing_injective [OF _ _ _ _ this] assms(4,5) have "definition_fields d = definition_fields e"
    by (simp add: short_fields_def)
  then show ?thesis using assms(6) by (rule definition_fields_inj)
qed

section \<open>Instances\<close>

definition sample_input :: role_profile_input where
  "sample_input = \<lparr>rd_profile_id = ''explorer'', rd_role = Explorer, rd_host = Codex, rd_model = ''gpt-5'',
     rd_reasoning = Low, rd_service_tier = TierDefault, rd_timeout_seconds = 60,
     rd_budget = \<lparr>rb_max_turns = 2, rb_max_output_tokens = 1000, rb_max_cost_microusd = 50000\<rparr>,
     rd_prompt_profile = Digest [], rd_output_contract = Digest [], rd_tool_policy = ToolReadOnly,
     rd_command_policy = CommandDenied, rd_filesystem_policy = ReadOnlyCheckout, rd_network_policy = NetworkDenied,
     rd_test_policy = TestDisabled, rd_repair_policy = RepairNone, rd_fallback_policy = FallbackDisabled,
     rd_concurrency = 1, rd_routes = []\<rparr>"

definition sample_definition :: role_profile_definition where
  "sample_definition = with_digest sample_input (definition_digest_of Digest sample_input)"

lemma sample_input_valid: "validate_without_digest sample_input = Ok ()"
  by code_simp

lemma sample_definition_valid: "definition_validate Digest sample_definition = Ok ()"
  by (simp add: definition_validate_def sample_definition_def sample_input_valid)

theorem validated_definition_safe_witness:
  "rd_network_policy sample_definition = NetworkDenied \<and> unat (rb_max_turns (rd_budget sample_definition)) \<in> {1..8}"
  using validated_definition_safe [OF sample_definition_valid] by blast

theorem canonicalize_stable_witness:
  "\<exists>d. canonicalize Digest sample_input = Ok d \<and> canonicalize Digest (role_profile_input.truncate d) = Ok d"
proof -
  have "sample_input\<lparr>rd_routes := sort_dedup (rd_routes sample_input)\<rparr> = sample_input"
    by (simp add: sample_input_def sort_dedup_def)
  then have "canonicalize Digest sample_input = Ok sample_definition"
    by (simp add: canonicalize_def sample_input_valid sample_definition_def role_profile_bounds)
      (simp add: sample_input_def)
  with canonicalize_stable [OF this] show ?thesis by blast
qed

definition other_definition :: role_profile_definition where
  "other_definition = with_digest (sample_input\<lparr>rd_timeout_seconds := 61\<rparr>)
     (definition_digest_of Digest (sample_input\<lparr>rd_timeout_seconds := 61\<rparr>))"

lemma other_definition_valid: "definition_validate Digest other_definition = Ok ()"
proof -
  have "validate_without_digest (sample_input\<lparr>rd_timeout_seconds := 61\<rparr>) = Ok ()" by code_simp
  then show ?thesis by (simp add: definition_validate_def other_definition_def)
qed

lemma sample_short_fields: "short_fields sample_definition" "short_fields other_definition"
  by (simp_all add: short_fields_def sample_definition_def other_definition_def with_digest_def sample_input_def
      definition_fields_def role_profile_input.defs u64_le_def u32_le_def)

theorem definition_digest_pins_witness:
  "rd_definition_digest sample_definition \<noteq> rd_definition_digest other_definition"
proof
  assume "rd_definition_digest sample_definition = rd_definition_digest other_definition"
  with definition_digest_pins [OF _ sample_definition_valid other_definition_valid sample_short_fields]
  have "rd_timeout_seconds sample_definition = rd_timeout_seconds other_definition" by (simp add: collision_def)
  then show False
    by (simp add: sample_definition_def other_definition_def with_digest_def sample_input_def role_profile_input.defs)
qed

end
