(* ===== verification/Text_Ops.thy ===== *)
theory Text_Ops
  imports Commands
begin

text \<open>
  Operations of \<open>str\<close> that several parsers share, on UTF-8 bytes: white space and trimming, searching, stripping
  and splitting; and how they act on visible ASCII text.
\<close>

section \<open>Definitions\<close>

text \<open>White space at the head of a UTF-8 text: the byte length of the first character if it is white, else 0.\<close>

definition ascii_ws :: "char \<Rightarrow> bool" where
  "ascii_ws c \<longleftrightarrow> char_code c \<in> {9, 10, 11, 12, 13, 32}"

fun ws_head :: "string \<Rightarrow> nat" where
  "ws_head [] = 0"
| "ws_head (a # s) =
     (if ascii_ws a then 1
      else case s of
        [] \<Rightarrow> 0
      | b # t \<Rightarrow> if ws2 a b then 2 else (case t of [] \<Rightarrow> 0 | c # u \<Rightarrow> if ws3 a b c then 3 else 0))"

fun ws_tail :: "string \<Rightarrow> nat" where
  "ws_tail [] = 0"
| "ws_tail (a # s) =
     (if ascii_ws a then 1
      else case s of
        [] \<Rightarrow> 0
      | b # t \<Rightarrow> if ws2 b a then 2 else (case t of [] \<Rightarrow> 0 | c # u \<Rightarrow> if ws3 c b a then 3 else 0))"

lemma ws_head_le: "ws_head s \<le> length s"
  by (cases s rule: ws_head.cases) (auto split: list.splits)

lemma ws_tail_le: "ws_tail s \<le> length s"
  by (cases s rule: ws_tail.cases) (auto split: list.splits)

function trim_start :: "string \<Rightarrow> string" where
  "trim_start s = (if ws_head s = 0 then s else trim_start (drop (ws_head s) s))"
  by pat_completeness auto
termination
proof (relation "measure length")
  fix s :: string assume "ws_head s \<noteq> 0"
  with ws_head_le [of s] show "(drop (ws_head s) s, s) \<in> measure length" by simp
qed simp

text \<open>The same from the end, on the reversed text.\<close>

function trim_tail :: "string \<Rightarrow> string" where
  "trim_tail s = (if ws_tail s = 0 then s else trim_tail (drop (ws_tail s) s))"
  by pat_completeness auto
termination
proof (relation "measure length")
  fix s :: string assume "ws_tail s \<noteq> 0"
  with ws_tail_le [of s] show "(drop (ws_tail s) s, s) \<in> measure length" by simp
qed simp

declare trim_start.simps [simp del] trim_tail.simps [simp del]

definition trim_end :: "string \<Rightarrow> string" where
  "trim_end s = rev (trim_tail (rev s))"

definition trim :: "string \<Rightarrow> string" where
  "trim s = trim_end (trim_start s)"

text \<open>\<open>str::find\<close> of white space and of a set of ASCII characters, \<open>strip_suffix\<close>, \<open>split_once\<close>, \<open>lines\<close>.\<close>

fun find_ws :: "string \<Rightarrow> nat option" where
  "find_ws [] = None"
| "find_ws (a # s) = (if ws_head (a # s) \<noteq> 0 then Some 0 else map_option Suc (find_ws s))"

fun find_char :: "(char \<Rightarrow> bool) \<Rightarrow> string \<Rightarrow> nat option" where
  "find_char P [] = None"
| "find_char P (a # s) = (if P a then Some 0 else map_option Suc (find_char P s))"

definition strip_suffix :: "string \<Rightarrow> string \<Rightarrow> string option" where
  "strip_suffix suf s = (if ends_with suf s then Some (take (length s - length suf) s) else None)"

fun split_once :: "string \<Rightarrow> string \<Rightarrow> (string \<times> string) option" where
  "split_once pat [] = (if pat = [] then Some ([], []) else None)"
| "split_once pat (c # s) =
     (if starts_with pat (c # s) then Some ([], drop (length pat) (c # s))
      else map_option (\<lambda>(a, b). (c # a, b)) (split_once pat s))"

fun split_newline :: "string \<Rightarrow> string list" where
  "split_newline [] = [[]]"
| "split_newline (c # cs) =
     (if char_code c = 10 then [] # split_newline cs
      else case split_newline cs of [] \<Rightarrow> [[c]] | l # ls \<Rightarrow> (c # l) # ls)"

definition strip_cr :: "string \<Rightarrow> string" where
  "strip_cr l = (if l \<noteq> [] \<and> char_code (last l) = 13 then butlast l else l)"

definition str_lines :: "string \<Rightarrow> string list" where
  "str_lines s = (let ls = split_newline s in map strip_cr (if last ls = [] then butlast ls else ls))"

definition first_word :: "string \<Rightarrow> string option" where
  "first_word s =
     (let t = trim_start s in
      if t = [] then None else Some (case find_ws t of None \<Rightarrow> t | Some i \<Rightarrow> take i t))"

section \<open>ASCII text\<close>

definition visible :: "char \<Rightarrow> bool" where
  "visible c \<longleftrightarrow> 32 < char_code c \<and> char_code c < 127"

abbreviation sp :: char where "sp \<equiv> CHR '' ''"

lemma sp_code [simp]: "char_code sp = 32"
  by (simp add: char_code_def)

lemma visible_not_white [simp]: "visible c \<Longrightarrow> \<not> ascii_ws c" "visible c \<Longrightarrow> \<not> is_ascii_whitespace c"
  by (auto simp: visible_def ascii_ws_def is_ascii_whitespace_def)

lemma visible_wide [simp]: "visible c \<Longrightarrow> \<not> ws2 c d" "visible c \<Longrightarrow> \<not> ws2 d c" "visible c \<Longrightarrow> \<not> ws3 c d e" "visible c \<Longrightarrow> \<not> ws3 e d c"
  by (auto simp: visible_def ws2_def ws3_def)

lemma white_sp [simp]: "ascii_ws sp" "is_ascii_whitespace sp"
  by (auto simp: ascii_ws_def is_ascii_whitespace_def)

lemma ws_head_visible [simp]: "visible c \<Longrightarrow> ws_head (c # s) = 0"
  by (auto split: list.splits)

lemma ws_tail_visible [simp]: "visible c \<Longrightarrow> ws_tail (c # s) = 0"
  by (auto split: list.splits)

lemma ws_head_sp [simp]: "ws_head (sp # s) = 1" "ws_tail (sp # s) = 1"
  by auto

declare ws_head.simps(2) [simp del] ws_tail.simps(2) [simp del]

lemma trim_start_visible [simp]: "visible c \<Longrightarrow> trim_start (c # s) = c # s"
  by (subst trim_start.simps) simp

lemma trim_start_Nil [simp]: "trim_start [] = []"
  by (subst trim_start.simps) simp

lemma trim_start_sp [simp]: "trim_start (sp # s) = trim_start s"
  by (subst trim_start.simps) simp

lemma trim_tail_visible [simp]: "visible c \<Longrightarrow> trim_tail (c # s) = c # s"
  by (subst trim_tail.simps) simp

lemma trim_tail_sp [simp]: "trim_tail (sp # s) = trim_tail s"
  by (subst trim_tail.simps) simp

lemma trim_end_visible: "visible c \<Longrightarrow> trim_end (s @ [c]) = s @ [c]"
  by (simp add: trim_end_def)

lemma trim_end_last: "s \<noteq> [] \<Longrightarrow> visible (last s) \<Longrightarrow> trim_end s = s"
  using trim_end_visible [of "last s" "butlast s"] by simp

lemma trim_visible: "s \<noteq> [] \<Longrightarrow> visible (hd s) \<Longrightarrow> visible (last s) \<Longrightarrow> trim s = s"
  by (cases s) (simp_all add: trim_def trim_end_last del: last.simps)

lemma trim_trailing_sp: "s \<noteq> [] \<Longrightarrow> visible (hd s) \<Longrightarrow> visible (last s) \<Longrightarrow> trim (s @ [sp]) = s"
  using trim_end_last [of s] by (cases s) (simp_all add: trim_def trim_end_def del: last.simps)

lemma find_ws_sp: "list_all visible x \<Longrightarrow> find_ws (x @ sp # y) = Some (length x)"
  by (induction x) auto

lemma find_char_append: "list_all (\<lambda>c. \<not> P c) x \<Longrightarrow> P q \<Longrightarrow> find_char P (x @ q # y) = Some (length x)"
  by (induction x) auto

lemma has_control_printable: "(\<And>c. c \<in> set s \<Longrightarrow> 32 \<le> char_code c \<and> char_code c < 127) \<Longrightarrow> \<not> has_control s"
  by (induction s rule: has_control.induct) (force simp: )+

lemma split_ws_acc_visible: "list_all visible x \<Longrightarrow> split_ws_acc acc (x @ s) = split_ws_acc (rev x @ acc) s"
  by (induction x arbitrary: acc) auto

lemma split_join:
  assumes "\<And>x. x \<in> set xs \<Longrightarrow> x \<noteq> [] \<and> list_all visible x"
  shows "split_ascii_whitespace (join '' '' xs) = xs"
  unfolding split_ascii_whitespace_def using assms
proof (induction "'' ''" xs rule: join.induct)
  case (2 x)
  with split_ws_acc_visible [of x "[]" "[]"] show ?case by simp
next
  case (3 x y xs)
  then have x: "x \<noteq> []" "list_all visible x" by auto
  with 3 show ?case by (simp add: split_ws_acc_visible)
qed simp

lemma set_join: "c \<in> set (join '' '' xs) \<Longrightarrow> c = sp \<or> (\<exists>x \<in> set xs. c \<in> set x)"
  by (induction "'' ''" xs rule: join.induct) auto

lemma join_ends:
  assumes "xs \<noteq> []" "\<And>x. x \<in> set xs \<Longrightarrow> x \<noteq> [] \<and> list_all visible x"
  shows "join '' '' xs \<noteq> [] \<and> visible (hd (join '' '' xs)) \<and> visible (last (join '' '' xs))"
  using assms
proof (induction "'' ''" xs rule: join.induct)
  case (2 x)
  then have "x \<noteq> []" "list_all visible x" by auto
  then show ?case by (simp add: list_all_iff)
next
  case (3 x y xs)
  then have "x \<noteq> []" "list_all visible x" by auto
  then have "visible (hd x)" by (simp add: list_all_iff)
  with 3 \<open>x \<noteq> []\<close> show ?case by auto
qed simp

end
