(* ===== verification/Paths.thy ===== *)
theory Paths
  imports Prelude
begin

text \<open>
  The parts of \<open>std::path\<close> that the lifecycle and the approval broker use, on Unix: components, absolute
  and relative paths, \<open>join\<close> and the component-wise \<open>starts_with\<close>. A path is its text. Reading the file
  system (\<open>fs::canonicalize\<close>, \<open>fs::metadata\<close>, \<open>fs::read\<close>) is a parameter, the record \<open>file_system\<close>.
\<close>

section \<open>Components\<close>

text \<open>
  \<open>std::path::Path::components\<close> on Unix: a leading slash is the root, empty segments and inner
  \<open>.\<close> segments are skipped, a leading \<open>.\<close> is kept.
\<close>

datatype path_component = RootDir | CurDir | ParentDir | Normal string

fun split_slash :: "string \<Rightarrow> string list" where
  "split_slash [] = [[]]"
| "split_slash (c # cs) =
     (if c = CHR ''/'' then [] # split_slash cs
      else case split_slash cs of [] \<Rightarrow> [[c]] | seg # segs \<Rightarrow> (c # seg) # segs)"

definition segment_component :: "string \<Rightarrow> path_component option" where
  "segment_component seg =
     (if seg = [] \<or> seg = ''.'' then None else if seg = ''..'' then Some ParentDir else Some (Normal seg))"

definition is_relative :: "string \<Rightarrow> bool" where
  "is_relative value \<longleftrightarrow> \<not> starts_with ''/'' value"

definition path_components :: "string \<Rightarrow> path_component list" where
  "path_components value =
     (if is_relative value then (if hd (split_slash value) = ''.'' then [CurDir] else []) else [RootDir])
     @ List.map_filter segment_component (split_slash value)"

text \<open>\<open>Path::starts_with\<close> and the equality of paths compare components; \<open>Path::join\<close> keeps an absolute argument.\<close>

definition path_starts_with :: "string \<Rightarrow> string \<Rightarrow> bool" where
  "path_starts_with path base \<longleftrightarrow> take (length (path_components base)) (path_components path) = path_components base"

definition path_eq :: "string \<Rightarrow> string \<Rightarrow> bool" where
  "path_eq a b \<longleftrightarrow> path_components a = path_components b"

definition path_join :: "string \<Rightarrow> string \<Rightarrow> string" where
  "path_join base path =
     (if \<not> is_relative path then path
      else if base = [] \<or> last base = CHR ''/'' then base @ path else base @ ''/'' @ path)"

lemma path_starts_with_refl: "path_starts_with p p"
  by (simp add: path_starts_with_def)

lemma path_parent: "ParentDir \<in> set (path_components v) \<longleftrightarrow> ''..'' \<in> set (split_slash v)"
proof -
  have "ParentDir \<in> set (List.map_filter segment_component segs) \<longleftrightarrow> ''..'' \<in> set segs" for segs
    by (induction segs) (auto simp: List.map_filter_simps segment_component_def)
  then show ?thesis by (simp add: path_components_def)
qed

lemma path_root: "RootDir \<in> set (path_components v) \<longleftrightarrow> starts_with ''/'' v"
proof -
  have "RootDir \<notin> set (List.map_filter segment_component segs)" for segs
    by (induction segs) (auto simp: List.map_filter_simps segment_component_def)
  then show ?thesis by (auto simp: path_components_def is_relative_def)
qed

section \<open>The file system\<close>

record file_metadata =
  fm_is_file :: bool
  fm_len :: u64

record file_system =
  fs_canonicalize :: "string \<Rightarrow> string option"
  fs_metadata :: "string \<Rightarrow> file_metadata option"
  fs_read :: "string \<Rightarrow> u8 list option"

end
