(* ===== verification/Approval.thy ===== *)
theory Approval
  imports Text_Ops Role_Profile Paths
begin

text \<open>
  \<^verbatim>\<open>crates/needle-core/src/approval.rs\<close> and \<^verbatim>\<open>crates/needle-runtime/src/approval.rs\<close>: the approval requests of
  worker commands, the policies, and the broker that classifies a command as automatically approved,
  pending or rejected. Definitions only; the properties are in \<open>Approval_Proofs\<close>. The file system and
  the JSON encoder of a payload are parameters.
\<close>

section \<open>Numbers and names\<close>

text \<open>\<open>str::parse::<u32>\<close>: an optional plus sign, then at least one digit, within the range.\<close>

definition decimal_value :: "string \<Rightarrow> nat" where
  "decimal_value s = foldl (\<lambda>n c. 10 * n + (char_code c - 48)) 0 s"

definition parse_u32 :: "string \<Rightarrow> u32 option" where
  "parse_u32 s =
     (let digits = (case s of c # rest \<Rightarrow> if c = CHR ''+'' then rest else s | [] \<Rightarrow> s) in
      if digits = [] \<or> \<not> (\<forall>c \<in> set digits. is_ascii_digit c) \<or> 2 ^ 32 \<le> decimal_value digits then None
      else Some (word_of_nat (decimal_value digits)))"

definition basename_lower :: "string \<Rightarrow> string" where
  "basename_lower s = to_ascii_lowercase (last (split_slash (map (\<lambda>c. if c = CHR 0x5C then CHR ''/'' else c) s)))"

section \<open>Requests and policies\<close>

datatype approval_decision = Accept | Decline | CancelDecision

datatype approval_decision_source = AutoPolicy | WebUser | Timeout | Runtime

datatype command_classification =
    AutoApprovedTest string | AutoApprovedReadOnly string | PendingUser | RejectedFileChange | RejectedNetwork
  | RejectedUnparseable | RejectedPolicyMismatch | Expired

text \<open>\<open>serde_json::Value\<close>, with a number as its text.\<close>

datatype json_value =
    JNull | JBool bool | JNumber string | JString string | JArray "json_value list" | JObject "(string \<times> json_value) list"

record requested_permissions =
  pe_write_paths :: "string list"
  pe_read_paths :: "string list"
  pe_network :: bool
  pe_raw :: json_value

definition requested_permissions_default :: requested_permissions where
  "requested_permissions_default = \<lparr>pe_write_paths = [], pe_read_paths = [], pe_network = False, pe_raw = JNull\<rparr>"

record approval_request =
  ar_id :: string
  ar_protocol_request_id :: json_value
  ar_protocol_approval_id :: "string option"
  ar_thread_id :: string
  ar_turn_id :: string
  ar_item_id :: string
  ar_argv :: "string list"
  ar_command_display :: "string option"
  ar_cwd :: string
  ar_reason :: "string option"
  ar_requested_permissions :: requested_permissions
  ar_route :: string
  ar_repository_id :: digest
  ar_repository_root :: string
  ar_expires :: u64
  ar_classification :: command_classification
  ar_payload_digest :: digest
  ar_decision :: "approval_decision option"
  ar_decision_source :: "approval_decision_source option"
  ar_decided :: "u64 option"

definition compute_payload_digest ::
    "(u8 list \<Rightarrow> digest) \<Rightarrow> (string list \<times> string \<times> requested_permissions \<Rightarrow> u8 list option) \<Rightarrow>
     string list \<Rightarrow> string \<Rightarrow> requested_permissions \<Rightarrow> digest option" where
  "compute_payload_digest blake3 json argv cwd permissions = map_option blake3 (json (argv, cwd, permissions))"

definition can_apply_decision :: "approval_request \<Rightarrow> digest \<Rightarrow> u64 \<Rightarrow> bool" where
  "can_apply_decision r expected now \<longleftrightarrow>
     ar_decision r = None \<and> ar_payload_digest r = expected \<and> now < ar_expires r"

record command_execution_evidence =
  ce_id :: string
  ce_approval_id :: string
  ce_argv :: "string list"
  ce_cwd :: string
  ce_source_snapshot_digest :: digest
  ce_runner :: string
  ce_runner_version :: "string option"
  ce_exit_status :: "int option"
  ce_duration_ms :: u64
  ce_output_digest :: digest
  ce_output_preview :: string
  ce_test_identifier :: "string option"
  ce_tests_executed :: "u32 option"
  ce_infrastructure_failure :: "string option"

record test_command_policy =
  tcp_id :: string
  tcp_repository_id :: digest
  tcp_trusted :: bool
  tcp_executable :: string
  tcp_argv_prefix :: "string list"
  tcp_maximum_executions :: u32

definition cargo_test_policy :: "digest \<Rightarrow> test_command_policy" where
  "cargo_test_policy repository =
     \<lparr>tcp_id = ''cargo-test-direct-v1'', tcp_repository_id = repository, tcp_trusted = True, tcp_executable = ''cargo'',
      tcp_argv_prefix = [''cargo'', ''test''], tcp_maximum_executions = 2\<rparr>"

record read_only_command_policy =
  ro_id :: string
  ro_repository_id :: digest
  ro_trusted :: bool
  ro_maximum_executions :: u32

definition repository_inspection_policy :: "digest \<Rightarrow> read_only_command_policy" where
  "repository_inspection_policy repository =
     \<lparr>ro_id = ''repository-read-only-v1'', ro_repository_id = repository, ro_trusted = True, ro_maximum_executions = 16\<rparr>"

section \<open>Parsing commands\<close>

definition MAX_READ_ONLY_COMMAND_BYTES :: nat where "MAX_READ_ONLY_COMMAND_BYTES = 4096"
definition MAX_READ_ONLY_ARGUMENTS :: nat where "MAX_READ_ONLY_ARGUMENTS = 64"
definition MAX_GET_CONTENT_BYTES :: u64 where "MAX_GET_CONTENT_BYTES = 1024 * 1024"

datatype approval_error =
    Unparseable | CwdOutsideCheckout | BudgetExhausted | EvidenceArgvMismatch | EvidenceExitFailure
  | EvidenceIdentifier | EvidenceNoTests | InvalidTestPlanError

definition command_metacharacter :: "char \<Rightarrow> bool" where
  "command_metacharacter c \<longleftrightarrow> c \<in> set ''|&;><'' \<or> char_code c \<in> {96, 10, 13}"

definition quote_char :: "char \<Rightarrow> bool" where
  "quote_char c \<longleftrightarrow> char_code c \<in> {34, 39}"

definition shell_words :: "string list" where
  "shell_words = [''cmd'', ''cmd.exe'', ''powershell'', ''powershell.exe'', ''pwsh'', ''sh'', ''bash'']"

definition parse_direct_argv :: "string \<Rightarrow> (string list, approval_error) result" where
  "parse_direct_argv command =
     (let command = trim command in
      if command = [] \<or> (\<exists>c \<in> set command. command_metacharacter c \<or> quote_char c \<or> c = CHR ''$'') \<or> has_control command
      then Err Unparseable
      else
        let argv = split_ascii_whitespace command in
        if argv = [] \<or> (\<exists>a \<in> set argv. CHR ''='' \<in> set a \<or> to_ascii_lowercase a \<in> set shell_words)
        then Err Unparseable else Ok argv)"

definition shell_safe_char :: "char \<Rightarrow> bool" where
  "shell_safe_char c \<longleftrightarrow> is_ascii_alphanumeric c \<or> c \<in> set ''_./:-''"

definition shell_safe_command :: "string list \<Rightarrow> string option" where
  "shell_safe_command argv =
     (if argv = [] \<or> (\<exists>a \<in> set argv. a = [] \<or> \<not> (\<forall>c \<in> set a. shell_safe_char c)) then None
      else let command = join '' '' argv in if parse_direct_argv command = Ok argv then Some command else None)"

definition both_nonempty :: "string \<Rightarrow> string \<Rightarrow> (string \<times> string) option" where
  "both_nonempty executable arguments = (if executable \<noteq> [] \<and> arguments \<noteq> [] then Some (executable, arguments) else None)"

definition split_shell_executable :: "string \<Rightarrow> (string \<times> string) option" where
  "split_shell_executable command =
     (let command = trim command in
      case strip_prefix [CHR 0x22] command of
        Some rest \<Rightarrow>
          (case find_char (\<lambda>c. c = CHR 0x22) rest of
             None \<Rightarrow> None
           | Some closing \<Rightarrow> both_nonempty (take closing rest) (trim_start (drop (closing + 1) rest)))
      | None \<Rightarrow>
          (case find_ws command of
             None \<Rightarrow> None
           | Some split \<Rightarrow> both_nonempty (take split command) (trim_start (drop split command))))"

text \<open>The text between two equal quotes, with the flags before it.\<close>

definition quoted_payload :: "string \<Rightarrow> nat \<Rightarrow> (string \<times> char \<times> string) option" where
  "quoted_payload arguments quote_start =
     (let flags = trim (take quote_start arguments); quoted = trim (drop quote_start arguments) in
      case quoted of
        [] \<Rightarrow> None
      | quote # rest \<Rightarrow>
          if length quoted < 2 \<or> last quoted \<noteq> quote then None
          else
            let payload = butlast rest in
            if flags = [] \<or> quote \<in> set payload then None else Some (flags, quote, payload))"

definition split_shell_payload :: "string \<Rightarrow> string \<Rightarrow> (string \<times> char option \<times> string) option" where
  "split_shell_payload arguments expected_command =
     (case find_char quote_char arguments of
        None \<Rightarrow>
          (case strip_suffix expected_command arguments of
             None \<Rightarrow> None
           | Some prefix \<Rightarrow>
               if ws_tail (rev prefix) = 0 then None
               else
                 let flags = trim_end prefix in
                 if flags = [] then None
                 else Some (flags, None, drop (length arguments - length expected_command) arguments))
      | Some quote_start \<Rightarrow>
          map_option (\<lambda>(flags, quote, payload). (flags, Some quote, payload)) (quoted_payload arguments quote_start))"

definition split_read_only_shell_payload :: "string \<Rightarrow> (string \<times> string) option" where
  "split_read_only_shell_payload arguments =
     (case find_char quote_char arguments of
        None \<Rightarrow> None
      | Some quote_start \<Rightarrow>
          (case quoted_payload arguments quote_start of
             None \<Rightarrow> None
           | Some (flags, quote, payload) \<Rightarrow> if payload = [] then None else Some (flags, payload)))"

definition valid_powershell_flags :: "string list \<Rightarrow> bool" where
  "valid_powershell_flags flags \<longleftrightarrow>
     flags \<noteq> [] \<and> last flags = ''-command'' \<and> length (butlast flags) \<le> 3 \<and>
     (\<forall>f \<in> set (butlast flags). f \<in> set [''-nologo'', ''-noprofile'', ''-noninteractive'']) \<and> distinct (butlast flags)"

definition powershell_names :: "string list" where
  "powershell_names = [''powershell'', ''powershell.exe'', ''pwsh'', ''pwsh.exe'']"
definition cmd_names :: "string list" where
  "cmd_names = [''cmd'', ''cmd.exe'']"
definition posix_shell_names :: "string list" where
  "posix_shell_names = [''sh'', ''sh.exe'', ''bash'', ''bash.exe'', ''zsh'', ''zsh.exe'']"

definition cmd_flags :: "string list \<Rightarrow> bool" where
  "cmd_flags flags \<longleftrightarrow> flags = [''/c''] \<or> flags = [''/d'', ''/s'', ''/c'']"
definition posix_flags :: "string list \<Rightarrow> bool" where
  "posix_flags flags \<longleftrightarrow> flags = [''-c''] \<or> flags = [''-lc''] \<or> flags = [''-l'', ''-c'']"

definition test_shell_supported :: "string \<Rightarrow> char option \<Rightarrow> string list \<Rightarrow> bool" where
  "test_shell_supported shell quote flags \<longleftrightarrow>
     (if shell \<in> set powershell_names then valid_powershell_flags flags
      else if shell \<in> set cmd_names then (quote = None \<or> quote = Some (CHR 0x22)) \<and> cmd_flags flags
      else if shell \<in> set posix_shell_names then quote \<noteq> None \<and> posix_flags flags
      else False)"

definition parse_test_command_argv :: "string \<Rightarrow> string list \<Rightarrow> (string list, approval_error) result" where
  "parse_test_command_argv command expected_argv =
     (case parse_direct_argv command of
        Ok argv \<Rightarrow> Ok argv
      | Err e \<Rightarrow>
          rbind (ok_or Unparseable (shell_safe_command expected_argv)) (\<lambda>expected_command.
          rbind (ok_or Unparseable (split_shell_executable command)) (\<lambda>(executable, arguments).
          rbind (ok_or Unparseable (split_shell_payload arguments expected_command)) (\<lambda>(flags, quote, payload).
            if test_shell_supported (basename_lower executable) quote (map to_ascii_lowercase (split_ascii_whitespace flags)) \<and>
               payload = expected_command
            then Ok expected_argv else Err Unparseable))))"

text \<open>
  The quote-aware splitter: the state is the finished arguments (in reverse), the current argument
  (in reverse) and the open quote. Inside double quotes the shell expansions are refused, outside quotes
  meta-characters, control characters and grouping.
\<close>

definition expansion_char :: "char \<Rightarrow> bool" where
  "expansion_char c \<longleftrightarrow> c \<in> set ''$%'' \<or> char_code c = 96"

definition forbidden_unquoted :: "char \<Rightarrow> string \<Rightarrow> bool" where
  "forbidden_unquoted c rest \<longleftrightarrow>
     command_metacharacter c \<or> char_code c < 32 \<or> char_code c = 127 \<or>
     (char_code c = 194 \<and> (case rest of d # _ \<Rightarrow> 128 \<le> char_code d \<and> char_code d \<le> 159 | [] \<Rightarrow> False)) \<or>
     c \<in> set ''$%(){}''"

fun bounded_argv_loop ::
    "string list \<Rightarrow> string \<Rightarrow> char option \<Rightarrow> string \<Rightarrow> (string list \<times> string \<times> char option) option" where
  "bounded_argv_loop argv argument quote [] = Some (argv, argument, quote)"
| "bounded_argv_loop argv argument quote (c # rest) =
     (let next_state =
        (case quote of
           Some active \<Rightarrow>
             if c = active then Some (argv, argument, None)
             else if active = CHR 0x22 \<and> expansion_char c then None
             else Some (argv, c # argument, quote)
         | None \<Rightarrow>
             if quote_char c then Some (argv, argument, Some c)
             else if is_ascii_whitespace c then
               Some (if argument = [] then (argv, argument, None) else (rev argument # argv, [], None))
             else if forbidden_unquoted c rest then None
             else Some (argv, c # argument, None))
      in case next_state of
           None \<Rightarrow> None
         | Some (argv, argument, quote) \<Rightarrow>
             if MAX_READ_ONLY_ARGUMENTS \<le> length argv then None else bounded_argv_loop argv argument quote rest)"

definition parse_bounded_argv :: "string \<Rightarrow> (string list, approval_error) result" where
  "parse_bounded_argv command =
     (let command = trim command in
      if command = [] \<or> length command > MAX_READ_ONLY_COMMAND_BYTES then Err Unparseable
      else case bounded_argv_loop [] [] None command of
        None \<Rightarrow> Err Unparseable
      | Some (argv, argument, quote) \<Rightarrow>
          if quote \<noteq> None then Err Unparseable
          else
            let argv = rev (if argument = [] then argv else rev argument # argv) in
            if argv = [] \<or> length argv > MAX_READ_ONLY_ARGUMENTS then Err Unparseable else Ok argv)"

section \<open>Read-only commands\<close>

datatype read_only_tool = Ripgrep | GetContent

definition read_only_executable :: "string list \<Rightarrow> read_only_tool option" where
  "read_only_executable argv =
     (case argv of
        [] \<Rightarrow> None
      | first # _ \<Rightarrow>
          let executable = basename_lower first in
          if executable = ''rg'' \<or> executable = ''rg.exe'' then Some Ripgrep
          else if executable = ''get-content'' then Some GetContent
          else None)"

definition read_only_shell_supported :: "string \<Rightarrow> string list \<Rightarrow> bool" where
  "read_only_shell_supported shell flags \<longleftrightarrow>
     (if shell \<in> set powershell_names then valid_powershell_flags flags
      else if shell \<in> set cmd_names then cmd_flags flags
      else if shell \<in> set posix_shell_names then posix_flags flags
      else False)"

definition parse_read_only_shell :: "string \<Rightarrow> (string list, approval_error) result" where
  "parse_read_only_shell command =
     rbind (ok_or Unparseable (split_shell_executable command)) (\<lambda>(executable, arguments).
     rbind (ok_or Unparseable (split_read_only_shell_payload arguments)) (\<lambda>(flags, payload).
     rbind (parse_bounded_argv payload) (\<lambda>argv.
       if read_only_shell_supported (basename_lower executable) (map to_ascii_lowercase (split_ascii_whitespace flags)) \<and>
          read_only_executable argv \<noteq> None
       then Ok argv else Err Unparseable)))"

definition parse_read_only_command_argv :: "string \<Rightarrow> (string list, approval_error) result" where
  "parse_read_only_command_argv command =
     (case parse_bounded_argv command of
        Ok argv \<Rightarrow> if read_only_executable argv \<noteq> None then Ok argv else parse_read_only_shell command
      | Err e \<Rightarrow> parse_read_only_shell command)"

definition bounded_count :: "string \<Rightarrow> bool" where
  "bounded_count value = (case parse_u32 value of None \<Rightarrow> False | Some n \<Rightarrow> n \<le> 4096)"

definition read_path_is_within :: "file_system \<Rightarrow> string \<Rightarrow> string \<Rightarrow> string \<Rightarrow> bool \<Rightarrow> bool" where
  "read_path_is_within fs path cwd checkout_root bounded_file \<longleftrightarrow>
     (if path = [] \<or> (\<exists>c \<in> set path. c \<in> set ''*?[]'') \<or> ParentDir \<in> set (path_components path) then False
      else
        let candidate = (if \<not> is_relative path then path else path_join cwd path) in
        case (fs_canonicalize fs candidate, fs_canonicalize fs checkout_root) of
          (Some candidate, Some root) \<Rightarrow>
            if \<not> path_starts_with candidate root then False
            else \<not> bounded_file \<or>
              (case fs_metadata fs candidate of
                 None \<Rightarrow> False | Some m \<Rightarrow> fm_is_file m \<and> fm_len m \<le> MAX_GET_CONTENT_BYTES)
        | _ \<Rightarrow> False)"

definition read_permissions_are_within :: "file_system \<Rightarrow> requested_permissions \<Rightarrow> string \<Rightarrow> bool" where
  "read_permissions_are_within fs permissions checkout_root \<longleftrightarrow>
     (\<forall>path \<in> set (pe_read_paths permissions). read_path_is_within fs path checkout_root checkout_root False)"

definition rg_short_flags :: "string list" where
  "rg_short_flags = [''-n'', ''-S'', ''-s'', ''-i'', ''-F'', ''-w'', ''-x'']"
definition rg_long_flags :: "string list" where
  "rg_long_flags = [''--line-number'', ''--smart-case'', ''--ignore-case'', ''--case-sensitive'', ''--fixed-strings'',
     ''--word-regexp'', ''--line-regexp'', ''--heading'', ''--no-heading'', ''--stats'']"
definition rg_short_values :: "string list" where
  "rg_short_values = [''-e'', ''-g'', ''-t'', ''-T'', ''-A'', ''-B'', ''-C'', ''-m'']"
definition rg_long_counts :: "string list" where
  "rg_long_counts = [''--after-context'', ''--before-context'', ''--context'', ''--max-count'', ''--max-columns'']"
definition rg_long_values :: "string list" where
  "rg_long_values = [''--regexp'', ''--glob'', ''--type'', ''--type-not''] @ rg_long_counts"

definition is_safe_combined_rg_flag :: "string \<Rightarrow> bool" where
  "is_safe_combined_rg_flag value =
     (case strip_prefix ''-'' value of None \<Rightarrow> False | Some flags \<Rightarrow> length flags > 1 \<and> (\<forall>c \<in> set flags. c \<in> set ''nsiFSwx''))"

definition rg_plain_flag :: "string \<Rightarrow> bool" where
  "rg_plain_flag argument \<longleftrightarrow>
     argument \<in> set rg_short_flags \<or> to_ascii_lowercase argument \<in> set rg_long_flags \<or>
     to_ascii_lowercase argument = ''--color=never'' \<or> is_safe_combined_rg_flag argument"

definition rg_takes_value :: "string \<Rightarrow> bool" where
  "rg_takes_value argument \<longleftrightarrow> argument \<in> set rg_short_values \<or> to_ascii_lowercase argument \<in> set rg_long_values"

definition rg_counts :: "string \<Rightarrow> bool" where
  "rg_counts argument \<longleftrightarrow>
     argument \<in> set [''-A'', ''-B'', ''-C'', ''-m''] \<or> to_ascii_lowercase argument \<in> set rg_long_counts"

text \<open>
  The scan over the arguments of \<open>rg\<close>: whether a pattern was declared, whether \<open>--files\<close> was seen,
  and the paths collected so far (in reverse); \<open>None\<close> is a refusal.
\<close>

fun rg_rest :: "bool \<Rightarrow> bool \<Rightarrow> string list \<Rightarrow> string list \<Rightarrow> bool \<times> bool \<times> string list" where
  "rg_rest pattern files paths [] = (pattern, files, paths)"
| "rg_rest pattern files paths (a # as) =
     (if files \<or> pattern then rg_rest pattern files (a # paths) as else rg_rest True files paths as)"

fun rg_scan :: "bool \<Rightarrow> bool \<Rightarrow> string list \<Rightarrow> string list \<Rightarrow> (bool \<times> bool \<times> string list) option" where
  "rg_scan pattern files paths [] = Some (pattern, files, paths)"
| "rg_scan pattern files paths (argument # as) =
     (if argument = ''--'' then Some (rg_rest pattern files paths as)
      else if to_ascii_lowercase argument = ''--files'' then rg_scan pattern True paths as
      else if rg_plain_flag argument then rg_scan pattern files paths as
      else if rg_takes_value argument then
        (case as of
           [] \<Rightarrow> None
         | value # rest \<Rightarrow>
             if argument = ''-e'' \<or> to_ascii_lowercase argument = ''--regexp'' then rg_scan True files paths rest
             else if rg_counts argument \<and> \<not> bounded_count value then None
             else rg_scan pattern files paths rest)
      else case split_once ''='' (to_ascii_lowercase argument) of
        Some (flag, value) \<Rightarrow>
          if flag \<in> set rg_long_values then
            (if flag = ''--regexp'' then rg_scan True files paths as
             else if flag \<in> set rg_long_counts \<and> \<not> bounded_count value then None
             else rg_scan pattern files paths as)
          else if starts_with ''-'' argument then None
          else if files \<or> pattern then rg_scan pattern files (argument # paths) as
          else rg_scan True files paths as
      | None \<Rightarrow>
          if starts_with ''-'' argument then None
          else if files \<or> pattern then rg_scan pattern files (argument # paths) as
          else rg_scan True files paths as)"

definition rg_argv_is_allowed :: "file_system \<Rightarrow> string list \<Rightarrow> string \<Rightarrow> string \<Rightarrow> bool" where
  "rg_argv_is_allowed fs argv cwd checkout_root =
     (case rg_scan False False [] (drop 1 argv) of
        None \<Rightarrow> False
      | Some (pattern, files, paths) \<Rightarrow>
          if \<not> files \<and> \<not> pattern then False
          else \<forall>path \<in> set paths. read_path_is_within fs path cwd checkout_root False)"

definition get_content_counts :: "string list" where
  "get_content_counts = [''-totalcount'', ''-tail'', ''-readcount'']"

fun get_content_scan :: "string option \<Rightarrow> string list \<Rightarrow> string option option" where
  "get_content_scan path [] = Some path"
| "get_content_scan path (argument # as) =
     (let normalized = to_ascii_lowercase argument in
      if normalized = ''-literalpath'' then
        (case as of [] \<Rightarrow> None | value # rest \<Rightarrow> if path \<noteq> None then None else get_content_scan (Some value) rest)
      else if normalized \<in> set get_content_counts then
        (case as of [] \<Rightarrow> None | value # rest \<Rightarrow> if bounded_count value then get_content_scan path rest else None)
      else if normalized = ''-encoding'' then
        (case as of
           [] \<Rightarrow> None
         | value # rest \<Rightarrow>
             if to_ascii_lowercase value \<in> set [''utf8'', ''utf8bom'', ''ascii''] then get_content_scan path rest else None)
      else if normalized = ''-raw'' then get_content_scan path as
      else if starts_with ''-'' argument \<or> path \<noteq> None then None
      else get_content_scan (Some argument) as)"

definition get_content_argv_is_allowed :: "file_system \<Rightarrow> string list \<Rightarrow> string \<Rightarrow> string \<Rightarrow> bool" where
  "get_content_argv_is_allowed fs argv cwd checkout_root =
     (case get_content_scan None (drop 1 argv) of
        Some (Some path) \<Rightarrow> read_path_is_within fs path cwd checkout_root True
      | _ \<Rightarrow> False)"

definition read_only_argv_is_allowed :: "file_system \<Rightarrow> string list \<Rightarrow> string \<Rightarrow> string \<Rightarrow> bool" where
  "read_only_argv_is_allowed fs argv cwd checkout_root =
     (case read_only_executable argv of
        Some Ripgrep \<Rightarrow> rg_argv_is_allowed fs argv cwd checkout_root
      | Some GetContent \<Rightarrow> get_content_argv_is_allowed fs argv cwd checkout_root
      | None \<Rightarrow> False)"

section \<open>Paths of a request\<close>

definition path_is_within :: "file_system \<Rightarrow> string \<Rightarrow> string \<Rightarrow> bool" where
  "path_is_within fs path root \<longleftrightarrow>
     (case (fs_canonicalize fs path, fs_canonicalize fs root) of
        (Some path, Some root) \<Rightarrow> path_starts_with path root | _ \<Rightarrow> False)"

definition same_canonical_path :: "file_system \<Rightarrow> string \<Rightarrow> string \<Rightarrow> bool" where
  "same_canonical_path fs left right \<longleftrightarrow>
     (case (fs_canonicalize fs left, fs_canonicalize fs right) of
        (Some left, Some right) \<Rightarrow> path_eq left right | _ \<Rightarrow> False)"

definition write_path_allowed :: "string \<Rightarrow> string \<Rightarrow> string \<Rightarrow> bool" where
  "write_path_allowed value target_root temp_root \<longleftrightarrow>
     (if (\<exists>c \<in> set (path_components value). c = ParentDir \<or> c = RootDir) \<and> is_relative value then False
      else if \<not> is_relative value then path_starts_with value target_root \<or> path_starts_with value temp_root
      else False)"

section \<open>The broker\<close>

record approval_context =
  ax_route :: string
  ax_repository_id :: digest
  ax_checkout_root :: string
  ax_target_root :: string
  ax_temp_root :: string
  ax_test_plan :: "test_plan option"
  ax_verifier_test_plans :: "test_plan list option"
  ax_test_execution_available :: bool

record approval_broker =
  ab_test_policies :: "test_command_policy list"
  ab_read_only_policies :: "read_only_command_policy list"
  ab_executions :: "string \<rightharpoonup> u32"
  ab_verifier_next_plan :: nat
  ab_verifier_in_flight :: "digest option"

definition broker_new :: "test_command_policy list \<Rightarrow> approval_broker" where
  "broker_new policies =
     \<lparr>ab_test_policies = policies, ab_read_only_policies = [], ab_executions = Map.empty, ab_verifier_next_plan = 0,
      ab_verifier_in_flight = None\<rparr>"

definition with_read_only_policies :: "read_only_command_policy list \<Rightarrow> approval_broker \<Rightarrow> approval_broker" where
  "with_read_only_policies policies b = b\<lparr>ab_read_only_policies := policies\<rparr>"

text \<open>\<open>executions.entry(id).or_default()\<close>, the comparison with the maximum and the increment.\<close>

definition executions_of :: "string \<Rightarrow> approval_broker \<Rightarrow> u32" where
  "executions_of i b = (case ab_executions b i of None \<Rightarrow> 0 | Some n \<Rightarrow> n)"

definition take_execution :: "string \<Rightarrow> u32 \<Rightarrow> approval_broker \<Rightarrow> approval_broker option \<times> approval_broker" where
  "take_execution i maximum b =
     (let count = executions_of i b; entered = b\<lparr>ab_executions := (ab_executions b)(i \<mapsto> count)\<rparr> in
      if maximum \<le> count then (None, entered)
      else (Some (b\<lparr>ab_executions := (ab_executions b)(i \<mapsto> count + 1)\<rparr>), entered))"

type_synonym classified = "(string list \<times> command_classification) \<times> approval_broker"

definition test_policy_matches :: "digest \<Rightarrow> string list \<Rightarrow> test_command_policy \<Rightarrow> bool" where
  "test_policy_matches repository argv policy \<longleftrightarrow>
     tcp_trusted policy \<and> tcp_repository_id policy = repository \<and>
     (case argv of [] \<Rightarrow> False | first # _ \<Rightarrow> first = tcp_executable policy) \<and>
     take (length (tcp_argv_prefix policy)) argv = tcp_argv_prefix policy"

definition parses_to_plan :: "string option \<Rightarrow> test_plan \<Rightarrow> bool" where
  "parses_to_plan command plan \<longleftrightarrow>
     (case command of None \<Rightarrow> False | Some c \<Rightarrow> parse_test_command_argv c (tp_argv plan) = Ok (tp_argv plan))"

fun scan_verifier_plans ::
    "(test_plan \<Rightarrow> bool) \<Rightarrow> (test_plan \<Rightarrow> bool) \<Rightarrow> nat \<Rightarrow> nat \<Rightarrow> nat option \<Rightarrow> bool \<Rightarrow> test_plan list \<Rightarrow> nat option \<times> bool" where
  "scan_verifier_plans matches here next_plan index matching_index matching_next [] = (matching_index, matching_next)"
| "scan_verifier_plans matches here next_plan index matching_index matching_next (plan # plans) =
     (if matches plan then
        scan_verifier_plans matches here next_plan (index + 1)
          (case matching_index of None \<Rightarrow> Some index | Some i \<Rightarrow> Some i)
          (matching_next \<or> (index = next_plan \<and> here plan)) plans
      else scan_verifier_plans matches here next_plan (index + 1) matching_index matching_next plans)"

definition classify_verifier ::
    "(u8 list \<Rightarrow> digest) \<Rightarrow> file_system \<Rightarrow> approval_broker \<Rightarrow> string option \<Rightarrow> string option \<Rightarrow> string \<Rightarrow>
     approval_context \<Rightarrow> test_plan list \<Rightarrow> classified option" where
  "classify_verifier blake3 fs b display action cwd cx plans =
     (let matches = (\<lambda>plan. parses_to_plan display plan \<and> parses_to_plan action plan);
          here = (\<lambda>plan. same_canonical_path fs cwd (path_join (ax_checkout_root cx) (tp_cwd_relative plan))) in
      case scan_verifier_plans matches here (ab_verifier_next_plan b) 0 None False plans of
        (None, _) \<Rightarrow> None
      | (Some first, False) \<Rightarrow> Some ((tp_argv (plans ! first), RejectedPolicyMismatch), b)
      | (Some first, True) \<Rightarrow>
          let plan = plans ! ab_verifier_next_plan b in
          if \<not> ax_test_execution_available cx \<or> ab_verifier_in_flight b \<noteq> None
          then Some ((tp_argv plan, RejectedPolicyMismatch), b)
          else case List.find (test_policy_matches (ax_repository_id cx) (tp_argv plan)) (ab_test_policies b) of
            None \<Rightarrow> Some ((tp_argv plan, RejectedPolicyMismatch), b)
          | Some policy \<Rightarrow>
              (case take_execution (tcp_id policy) (tcp_maximum_executions policy) b of
                 (None, b) \<Rightarrow> Some ((tp_argv plan, RejectedPolicyMismatch), b)
               | (Some b, _) \<Rightarrow>
                   Some ((tp_argv plan, AutoApprovedTest (tcp_id policy)),
                     b\<lparr>ab_verifier_next_plan := ab_verifier_next_plan b + 1,
                       ab_verifier_in_flight := Some (plan_identity_digest blake3 plan)\<rparr>)))"

definition classify_test ::
    "file_system \<Rightarrow> approval_broker \<Rightarrow> string \<Rightarrow> string \<Rightarrow> string \<Rightarrow> approval_context \<Rightarrow> test_plan \<Rightarrow> classified option" where
  "classify_test fs b display action cwd cx plan =
     (case (parse_test_command_argv display (tp_argv plan), parse_test_command_argv action (tp_argv plan)) of
        (Ok display_argv, Ok argv) \<Rightarrow>
          if display_argv \<noteq> argv then Some (([], PendingUser), b)
          else if argv = tp_argv plan \<and>
             same_canonical_path fs cwd (path_join (ax_checkout_root cx) (tp_cwd_relative plan))
          then (case List.find (test_policy_matches (ax_repository_id cx) argv) (ab_test_policies b) of
              None \<Rightarrow> None
            | Some policy \<Rightarrow>
                (case take_execution (tcp_id policy) (tcp_maximum_executions policy) b of
                   (None, b) \<Rightarrow> Some ((argv, RejectedPolicyMismatch), b)
                 | (Some b, _) \<Rightarrow> Some ((argv, AutoApprovedTest (tcp_id policy)), b)))
          else None
      | _ \<Rightarrow> None)"

definition classify_read_only ::
    "file_system \<Rightarrow> approval_broker \<Rightarrow> string \<Rightarrow> string \<Rightarrow> string \<Rightarrow> requested_permissions \<Rightarrow> approval_context \<Rightarrow> classified" where
  "classify_read_only fs b display action cwd permissions cx =
     (case (parse_read_only_command_argv display, parse_read_only_command_argv action) of
        (Ok display_argv, Ok argv) \<Rightarrow>
          if display_argv \<noteq> argv \<or> pe_write_paths permissions \<noteq> [] \<or>
             \<not> read_permissions_are_within fs permissions (ax_checkout_root cx) \<or>
             \<not> read_only_argv_is_allowed fs argv cwd (ax_checkout_root cx)
          then ((argv, PendingUser), b)
          else
            (case List.find (\<lambda>p. ro_trusted p \<and> ro_repository_id p = ax_repository_id cx) (ab_read_only_policies b) of
               None \<Rightarrow> ((argv, PendingUser), b)
             | Some policy \<Rightarrow>
                 (case take_execution (ro_id policy) (ro_maximum_executions policy) b of
                    (None, b) \<Rightarrow> ((argv, RejectedPolicyMismatch), b)
                  | (Some b, _) \<Rightarrow> ((argv, AutoApprovedReadOnly (ro_id policy)), b)))
      | _ \<Rightarrow> ((case parse_direct_argv action of Ok argv \<Rightarrow> argv | Err e \<Rightarrow> [], PendingUser), b))"

definition plan_unavailable ::
    "file_system \<Rightarrow> string option \<Rightarrow> string option \<Rightarrow> string \<Rightarrow> approval_context \<Rightarrow> test_plan \<Rightarrow> bool" where
  "plan_unavailable fs display action cwd cx plan \<longleftrightarrow>
     \<not> ax_test_execution_available cx \<and>
     same_canonical_path fs cwd (path_join (ax_checkout_root cx) (tp_cwd_relative plan)) \<and>
     (parses_to_plan display plan \<or> parses_to_plan action plan)"

definition malformed_plans :: "approval_context \<Rightarrow> bool" where
  "malformed_plans cx \<longleftrightarrow>
     (case ax_test_plan cx of None \<Rightarrow> False | Some plan \<Rightarrow> \<not> is_ok (test_command_of plan)) \<or>
     (case ax_verifier_test_plans cx of None \<Rightarrow> False | Some plans \<Rightarrow> \<exists>plan \<in> set plans. \<not> is_ok (test_command_of plan))"

definition classify_general ::
    "file_system \<Rightarrow> approval_broker \<Rightarrow> string option \<Rightarrow> string option \<Rightarrow> string \<Rightarrow> requested_permissions \<Rightarrow>
     approval_context \<Rightarrow> classified" where
  "classify_general fs b display action cwd permissions cx =
     (case ax_test_plan cx of
        Some plan \<Rightarrow>
          if plan_unavailable fs display action cwd cx plan then ((tp_argv plan, RejectedPolicyMismatch), b)
          else (case (display, action) of
              (Some display, Some action) \<Rightarrow>
                (case classify_test fs b display action cwd cx plan of
                   Some r \<Rightarrow> r
                 | None \<Rightarrow> classify_read_only fs b display action cwd permissions cx)
            | _ \<Rightarrow> (([], PendingUser), b))
      | None \<Rightarrow>
          (case (display, action) of
             (Some display, Some action) \<Rightarrow> classify_read_only fs b display action cwd permissions cx
           | _ \<Rightarrow> (([], PendingUser), b)))"

definition classify_command ::
    "(u8 list \<Rightarrow> digest) \<Rightarrow> file_system \<Rightarrow> approval_broker \<Rightarrow> string option \<Rightarrow> string option \<Rightarrow> string \<Rightarrow>
     requested_permissions \<Rightarrow> approval_context \<Rightarrow> classified" where
  "classify_command blake3 fs b display action cwd permissions cx =
     (if malformed_plans cx then (([], RejectedPolicyMismatch), b)
      else if pe_network permissions then (([], RejectedNetwork), b)
      else if \<not> path_is_within fs cwd (ax_checkout_root cx) then (([], RejectedPolicyMismatch), b)
      else if \<exists>path \<in> set (pe_write_paths permissions). \<not> write_path_allowed path (ax_target_root cx) (ax_temp_root cx)
      then (([], RejectedFileChange), b)
      else
        (case ax_verifier_test_plans cx of
           None \<Rightarrow> classify_general fs b display action cwd permissions cx
         | Some plans \<Rightarrow>
             (case classify_verifier blake3 fs b display action cwd cx plans of
                Some r \<Rightarrow> r
              | None \<Rightarrow> classify_general fs b display action cwd permissions cx)))"

definition complete_verifier_plan :: "digest \<Rightarrow> approval_broker \<Rightarrow> bool \<times> approval_broker" where
  "complete_verifier_plan plan_digest b =
     (if ab_verifier_in_flight b = Some plan_digest then (True, b\<lparr>ab_verifier_in_flight := None\<rparr>) else (False, b))"

fun automatic_decision :: "command_classification \<Rightarrow> (approval_decision \<times> approval_decision_source) option" where
  "automatic_decision (AutoApprovedTest policy) = Some (Accept, AutoPolicy)"
| "automatic_decision (AutoApprovedReadOnly policy) = Some (Accept, AutoPolicy)"
| "automatic_decision RejectedFileChange = Some (Decline, Runtime)"
| "automatic_decision RejectedNetwork = Some (Decline, Runtime)"
| "automatic_decision RejectedUnparseable = Some (Decline, Runtime)"
| "automatic_decision RejectedPolicyMismatch = Some (Decline, Runtime)"
| "automatic_decision Expired = Some (Decline, Runtime)"
| "automatic_decision PendingUser = None"

section \<open>Test evidence\<close>

definition test_output_observes_identifier :: "string \<Rightarrow> string \<Rightarrow> bool" where
  "test_output_observes_identifier output identifier \<longleftrightarrow>
     (let suffix = identifier_filter identifier in
      suffix \<noteq> [] \<and>
      (\<exists>line \<in> set (str_lines output).
         case strip_prefix ''test '' (trim line) of
           None \<Rightarrow> False
         | Some observation \<Rightarrow>
             let observed = trim (case split_once '' ... '' observation of None \<Rightarrow> observation | Some (name, _) \<Rightarrow> name) in
             observed \<noteq> ''result:'' \<and> (observed = identifier \<or> observed = suffix)))"

definition tests_in_line :: "string \<Rightarrow> u32 option" where
  "tests_in_line line =
     (case strip_prefix ''test result: ok. '' (trim line) of
        None \<Rightarrow> None
      | Some rest \<Rightarrow> (case first_word rest of None \<Rightarrow> None | Some count \<Rightarrow> parse_u32 count))"

fun parse_tests_lines :: "string list \<Rightarrow> u32 option" where
  "parse_tests_lines [] = None"
| "parse_tests_lines (line # lines) = (case tests_in_line line of Some n \<Rightarrow> Some n | None \<Rightarrow> parse_tests_lines lines)"

definition parse_cargo_tests_executed :: "string \<Rightarrow> u32 option" where
  "parse_cargo_tests_executed output = parse_tests_lines (str_lines output)"

definition validate_test_evidence :: "test_plan \<Rightarrow> command_execution_evidence \<Rightarrow> (unit, approval_error) result" where
  "validate_test_evidence plan evidence =
     rbind (map_err (\<lambda>_. InvalidTestPlanError) (test_command_of plan)) (\<lambda>plan_command.
     rbind (map_err (\<lambda>_. EvidenceArgvMismatch)
       (from_canonical_parts (ce_runner evidence) (ce_argv evidence) (tp_identifier plan))) (\<lambda>evidence_command.
     if plan_command \<noteq> evidence_command then Err EvidenceArgvMismatch
     else if ce_exit_status evidence \<noteq> Some 0 \<or> ce_infrastructure_failure evidence \<noteq> None then Err EvidenceExitFailure
     else if ce_test_identifier evidence \<noteq> Some (tp_identifier plan) \<or>
        \<not> test_output_observes_identifier (ce_output_preview evidence) (tp_identifier plan)
     then Err EvidenceIdentifier
     else if (case ce_tests_executed evidence of None \<Rightarrow> 0 | Some n \<Rightarrow> n) = 0 then Err EvidenceNoTests
     else Ok ()))"


text \<open>
  \<open>String::from_utf8_lossy\<close>: \<open>utf8_prefix\<close> is the number of bytes of the first character and whether
  they are a well-formed encoding; of an ill-formed sequence the longest possible beginning is replaced
  by U+FFFD. Bytes are the characters of a string.
\<close>

definition in_range :: "nat \<Rightarrow> nat \<Rightarrow> string \<Rightarrow> nat \<Rightarrow> bool" where
  "in_range lo hi s i \<longleftrightarrow> i < length s \<and> lo \<le> char_code (s ! i) \<and> char_code (s ! i) \<le> hi"

definition utf8_second :: "nat \<Rightarrow> string \<Rightarrow> bool" where
  "utf8_second b s =
     (if b = 0xE0 then in_range 0xA0 0xBF s 1
      else if b = 0xED then in_range 0x80 0x9F s 1
      else if b = 0xF0 then in_range 0x90 0xBF s 1
      else if b = 0xF4 then in_range 0x80 0x8F s 1
      else in_range 0x80 0xBF s 1)"

definition utf8_prefix :: "char \<Rightarrow> string \<Rightarrow> nat \<times> bool" where
  "utf8_prefix c rest =
     (let b = char_code c; s = c # rest in
      if b < 0x80 then (1, True)
      else if 0xC2 \<le> b \<and> b \<le> 0xDF then (if in_range 0x80 0xBF s 1 then (2, True) else (1, False))
      else if 0xE0 \<le> b \<and> b \<le> 0xEF then
        (if \<not> utf8_second b s then (1, False)
         else if \<not> in_range 0x80 0xBF s 2 then (2, False) else (3, True))
      else if 0xF0 \<le> b \<and> b \<le> 0xF4 then
        (if \<not> utf8_second b s then (1, False)
         else if \<not> in_range 0x80 0xBF s 2 then (2, False)
         else if \<not> in_range 0x80 0xBF s 3 then (3, False) else (4, True))
      else (1, False))"

function from_utf8_lossy :: "string \<Rightarrow> string" where
  "from_utf8_lossy [] = []"
| "from_utf8_lossy (c # rest) =
     (case utf8_prefix c rest of
        (n, valid) \<Rightarrow> (if valid then take n (c # rest) else [CHR 0xEF, CHR 0xBF, CHR 0xBD]) @ from_utf8_lossy (drop (n - 1) rest))"
  by pat_completeness auto
termination
  by (relation "measure length") auto

definition is_char_boundary :: "string \<Rightarrow> nat \<Rightarrow> bool" where
  "is_char_boundary s i \<longleftrightarrow> i = 0 \<or> i = length s \<or> (i < length s \<and> \<not> (0x80 \<le> char_code (s ! i) \<and> char_code (s ! i) < 0xC0))"

fun floor_boundary :: "string \<Rightarrow> nat \<Rightarrow> nat" where
  "floor_boundary s 0 = 0"
| "floor_boundary s (Suc e) = (if is_char_boundary s (Suc e) then Suc e else floor_boundary s e)"

definition bounded_preview :: "string \<Rightarrow> nat \<Rightarrow> string" where
  "bounded_preview output maximum =
     (let text = from_utf8_lossy output in take (floor_boundary text (min (length text) maximum)) text)"

definition command_evidence_from_output ::
    "(u8 list \<Rightarrow> digest) \<Rightarrow> approval_request \<Rightarrow> digest \<Rightarrow> string option \<Rightarrow> string option \<Rightarrow> int option \<Rightarrow> u64 \<Rightarrow>
     string \<Rightarrow> command_execution_evidence" where
  "command_evidence_from_output blake3 approval snapshot runner_version expected_test_identifier exit_status duration_ms output =
     (let preview = bounded_preview output 4096 in
      \<lparr>ce_id = ''command-evidence-'' @ to_hex (blake3 (as_bytes (ar_id approval @ [CHR 0x0A] @ ar_item_id approval @ [CHR 0x0A]))),
       ce_approval_id = ar_id approval, ce_argv = ar_argv approval, ce_cwd = ar_cwd approval,
       ce_source_snapshot_digest = snapshot,
       ce_runner = (case ar_argv approval of [] \<Rightarrow> [] | first # _ \<Rightarrow> first),
       ce_runner_version = runner_version, ce_exit_status = exit_status, ce_duration_ms = duration_ms,
       ce_output_digest = blake3 (as_bytes output), ce_output_preview = preview,
       ce_test_identifier =
         (case expected_test_identifier of
            None \<Rightarrow> None
          | Some identifier \<Rightarrow> if test_output_observes_identifier preview identifier then Some identifier else None),
       ce_tests_executed = parse_cargo_tests_executed preview, ce_infrastructure_failure = None\<rparr>)"

end
