(* ===== verification/Lifecycle.thy ===== *)
theory Lifecycle
  imports Change Role_Profile Approval
begin

text \<open>
  \<^verbatim>\<open>crates/needle-core/src/lifecycle/model.rs\<close> and \<^verbatim>\<open>crates/needle-core/src/lifecycle.rs\<close>: the development
  lifecycle (explore, implement, test, review, verify, apply), its transitions, its event journal
  and the replay of a journal. This theory holds the definitions; their properties are in
  \<open>Lifecycle_Machine\<close>. The hash function and the JSON encoders (\<open>serde_json::to_vec\<close>) are not
  part of the repository: they are the fields of \<open>lifecycle_env\<close>, an argument of every
  definition that uses them. Constructor names carry a prefix where two Rust enums share one.
\<close>

section \<open>Bounds and errors\<close>

definition MAX_LIFECYCLE_ARTIFACT_REFS :: nat where "MAX_LIFECYCLE_ARTIFACT_REFS = 32"
definition MAX_LIFECYCLE_TEST_PLANS :: nat where "MAX_LIFECYCLE_TEST_PLANS = MAX_VERIFIER_TEST_PLANS"
definition MAX_LIFECYCLE_REVIEW_FINDINGS :: nat where "MAX_LIFECYCLE_REVIEW_FINDINGS = 32"
definition MAX_LIFECYCLE_REASON_CODE_BYTES :: nat where "MAX_LIFECYCLE_REASON_CODE_BYTES = 64"
definition MAX_LIFECYCLE_EVIDENCE_ID_BYTES :: nat where "MAX_LIFECYCLE_EVIDENCE_ID_BYTES = 128"
definition MAX_LIFECYCLE_STATE_BYTES :: nat where "MAX_LIFECYCLE_STATE_BYTES = 64 * 1024"
definition MAX_LIFECYCLE_EVENT_BYTES :: nat where "MAX_LIFECYCLE_EVENT_BYTES = 64 * 1024"
definition MAX_LIFECYCLE_EVENTS :: u64 where "MAX_LIFECYCLE_EVENTS = 16"

datatype lifecycle_error =
    InvalidBudget | BudgetOverflow | BudgetExceeded | NestedWorker | ProfileMismatch
  | InvalidWorkerCompletion | InvalidTransition | Terminal | MissingArtifact | InvalidArtifact
  | InvalidTestPlan | MissingTestEvidence | InvalidTestEvidence | InvalidReview
  | InvalidVerification | StaleApproval | InvalidReason | TimeRegression | GenerationOverflow
  | InvalidState | StateTooLarge | EventTooLarge | EventReplay

definition identifier_symbol :: "char \<Rightarrow> bool" where
  "identifier_symbol c \<longleftrightarrow> is_ascii_alphanumeric c \<or> c \<in> set ''._-:''"

definition bounded_identifier :: "string \<Rightarrow> nat \<Rightarrow> bool" where
  "bounded_identifier value max_bytes \<longleftrightarrow>
     value \<noteq> [] \<and> length value \<le> max_bytes \<and> (\<forall>c \<in> set value. identifier_symbol c)"

fun normal_or_cur :: "path_component \<Rightarrow> bool" where
  "normal_or_cur (Normal seg) = True"
| "normal_or_cur CurDir = True"
| "normal_or_cur RootDir = False"
| "normal_or_cur ParentDir = False"

definition safe_relative_directory :: "string \<Rightarrow> bool" where
  "safe_relative_directory value \<longleftrightarrow>
     is_relative value \<and> value \<noteq> [] \<and> length value \<le> 512 \<and> (\<forall>c \<in> set (path_components value). normal_or_cur c)"

definition test_plan_contains_absolute_path :: "test_plan \<Rightarrow> bool" where
  "test_plan_contains_absolute_path plan \<longleftrightarrow>
     (\<exists>argument \<in> set (tp_argv plan). RootDir \<in> set (path_components argument))"

section \<open>Phases, statuses and outcomes\<close>

datatype lifecycle_phase = Explore | Implement | Test | Review | Verify | Apply

definition LIFECYCLE_PHASES :: "lifecycle_phase list" where
  "LIFECYCLE_PHASES = [Explore, Implement, Test, Review, Verify, Apply]"

fun phase_str :: "lifecycle_phase \<Rightarrow> string" where
  "phase_str Explore = ''explore''"
| "phase_str Implement = ''implement''"
| "phase_str Test = ''test''"
| "phase_str Review = ''review''"
| "phase_str Verify = ''verify''"
| "phase_str Apply = ''apply''"

datatype lifecycle_status =
    Active | RepairReserved | AwaitingApproval | StatusApproved | StatusApplying | Completed
  | StatusFailed | StatusCancelled | StatusInconclusive | StatusRolledBack

fun terminal :: "lifecycle_status \<Rightarrow> bool" where
  "terminal Completed = True"
| "terminal StatusFailed = True"
| "terminal StatusCancelled = True"
| "terminal StatusInconclusive = True"
| "terminal StatusRolledBack = True"
| "terminal Active = False"
| "terminal RepairReserved = False"
| "terminal AwaitingApproval = False"
| "terminal StatusApproved = False"
| "terminal StatusApplying = False"

datatype lifecycle_terminal_outcome =
    OutcomeApplied | OutcomeFailed | OutcomeCancelled | OutcomeInconclusive | OutcomeRolledBack
  | OutcomeRollbackFailed | OutcomeRecoveryConflict

record lifecycle_reason =
  lr_code :: string
  lr_detail_digest :: digest

definition reason_validate :: "lifecycle_reason \<Rightarrow> (unit, lifecycle_error) result" where
  "reason_validate r =
     (if \<not> bounded_identifier (lr_code r) MAX_LIFECYCLE_REASON_CODE_BYTES then Err InvalidReason else Ok ())"

definition reason_new :: "(u8 list \<Rightarrow> digest) \<Rightarrow> string \<Rightarrow> string \<Rightarrow> (lifecycle_reason, lifecycle_error) result" where
  "reason_new blake3 code detail =
     (let reason = \<lparr>lr_code = code, lr_detail_digest = blake3 (as_bytes detail)\<rparr> in
      rbind (reason_validate reason) (\<lambda>_. Ok reason))"

section \<open>Budgets and usage\<close>

record lifecycle_budget =
  lb_max_worker_turns :: u32
  lb_max_output_tokens :: u64
  lb_max_cost_microusd :: u64
  lb_max_concurrent_workers :: u8

definition budget_validate :: "lifecycle_budget \<Rightarrow> (unit, lifecycle_error) result" where
  "budget_validate b =
     (if lb_max_worker_turns b = 0 \<or> lb_max_output_tokens b = 0 \<or> lb_max_cost_microusd b = 0 \<or>
         lb_max_concurrent_workers b \<noteq> 1
      then Err InvalidBudget else Ok ())"

record lifecycle_usage =
  lu_worker_turns :: u32
  lu_output_tokens :: u64
  lu_cost_microusd :: u64

definition usage_default :: lifecycle_usage where
  "usage_default = \<lparr>lu_worker_turns = 0, lu_output_tokens = 0, lu_cost_microusd = 0\<rparr>"

definition usage_checked_add ::
    "lifecycle_usage \<Rightarrow> lifecycle_usage \<Rightarrow> (lifecycle_usage, lifecycle_error) result" where
  "usage_checked_add u delta =
     rbind (ok_or BudgetOverflow (checked_add (lu_worker_turns u) (lu_worker_turns delta))) (\<lambda>turns.
     rbind (ok_or BudgetOverflow (checked_add (lu_output_tokens u) (lu_output_tokens delta))) (\<lambda>tokens.
     rbind (ok_or BudgetOverflow (checked_add (lu_cost_microusd u) (lu_cost_microusd delta))) (\<lambda>cost.
     Ok \<lparr>lu_worker_turns = turns, lu_output_tokens = tokens, lu_cost_microusd = cost\<rparr>)))"

definition usage_within :: "lifecycle_usage \<Rightarrow> lifecycle_budget \<Rightarrow> bool" where
  "usage_within u b \<longleftrightarrow>
     lu_worker_turns u \<le> lb_max_worker_turns b \<and> lu_output_tokens u \<le> lb_max_output_tokens b \<and>
     lu_cost_microusd u \<le> lb_max_cost_microusd b"

section \<open>Worker profiles and test plans\<close>

record lifecycle_worker_profiles =
  wp_explore :: role_profile_provenance
  wp_implement :: role_profile_provenance
  wp_test :: role_profile_provenance
  wp_review :: role_profile_provenance
  wp_verify :: role_profile_provenance

fun for_phase :: "lifecycle_worker_profiles \<Rightarrow> lifecycle_phase \<Rightarrow> role_profile_provenance option" where
  "for_phase p Explore = Some (wp_explore p)"
| "for_phase p Implement = Some (wp_implement p)"
| "for_phase p Test = Some (wp_test p)"
| "for_phase p Review = Some (wp_review p)"
| "for_phase p Verify = Some (wp_verify p)"
| "for_phase p Apply = None"

definition profiles_validate :: "lifecycle_worker_profiles \<Rightarrow> (unit, lifecycle_error) result" where
  "profiles_validate p =
     rbind (collect_results (\<lambda>phase.
       rbind (ok_or ProfileMismatch (for_phase p phase)) (\<lambda>profile.
       map_err (\<lambda>_. ProfileMismatch) (provenance_validate profile))) (take 5 LIFECYCLE_PHASES)) (\<lambda>_. Ok ())"

definition profile_fields :: "lifecycle_worker_profiles \<Rightarrow> lifecycle_phase \<Rightarrow> hasher \<Rightarrow> hasher" where
  "profile_fields p phase h =
     (case for_phase p phase of
        None \<Rightarrow> h
      | Some profile \<Rightarrow>
          field_digest (pv_definition_digest profile)
          (field_bytes (u64_le (pv_revision profile))
          (field_str (pv_profile_id profile) (field_str (phase_str phase) h))))"

definition profiles_hash_into :: "lifecycle_worker_profiles \<Rightarrow> hasher \<Rightarrow> hasher" where
  "profiles_hash_into p h = fold (profile_fields p) (take 5 LIFECYCLE_PHASES) h"

definition lifecycle_id_compute ::
    "(u8 list \<Rightarrow> digest) \<Rightarrow> string \<Rightarrow> digest \<Rightarrow> lifecycle_worker_profiles \<Rightarrow> digest" where
  "lifecycle_id_compute blake3 change_id source_snapshot profiles =
     hasher_finish blake3 (profiles_hash_into profiles
       (field_digest source_snapshot (field_str change_id (hasher_new ''needle-development-lifecycle''))))"

record lifecycle_test_plan_binding =
  tb_plan :: test_plan
  tb_certificate_digest :: digest

definition binding_plan_digest :: "(u8 list \<Rightarrow> digest) \<Rightarrow> lifecycle_test_plan_binding \<Rightarrow> digest" where
  "binding_plan_digest blake3 b = plan_identity_digest blake3 (tb_plan b)"

definition binding_validate :: "lifecycle_test_plan_binding \<Rightarrow> (unit, lifecycle_error) result" where
  "binding_validate b =
     (if \<not> tp_requires_approval (tb_plan b) \<or> tp_execution_evidence (tb_plan b) \<noteq> None \<or>
         \<not> is_ok (test_command_of (tb_plan b)) \<or> \<not> safe_relative_directory (tp_cwd_relative (tb_plan b)) \<or>
         test_plan_contains_absolute_path (tb_plan b)
      then Err InvalidTestPlan else Ok ())"

record lifecycle_spec =
  ls_worker_depth_limit :: u8
  ls_profiles :: lifecycle_worker_profiles
  ls_budget :: lifecycle_budget
  ls_test_plans :: "lifecycle_test_plan_binding list"

fun validate_bindings ::
    "(u8 list \<Rightarrow> digest) \<Rightarrow> digest option \<Rightarrow> lifecycle_test_plan_binding list \<Rightarrow> (unit, lifecycle_error) result" where
  "validate_bindings blake3 prior [] = Ok ()"
| "validate_bindings blake3 prior (b # bs) =
     rbind (binding_validate b) (\<lambda>_.
       if (case prior of None \<Rightarrow> False | Some value \<Rightarrow> binding_plan_digest blake3 b \<le> value) then Err InvalidTestPlan
       else validate_bindings blake3 (Some (binding_plan_digest blake3 b)) bs)"

definition spec_validate :: "(u8 list \<Rightarrow> digest) \<Rightarrow> lifecycle_spec \<Rightarrow> (unit, lifecycle_error) result" where
  "spec_validate blake3 s =
     (if ls_worker_depth_limit s \<noteq> 1 then Err NestedWorker
      else rbind (profiles_validate (ls_profiles s)) (\<lambda>_.
           rbind (budget_validate (ls_budget s)) (\<lambda>_.
           if ls_test_plans s = [] \<or> length (ls_test_plans s) > MAX_LIFECYCLE_TEST_PLANS then Err InvalidTestPlan
           else validate_bindings blake3 None (ls_test_plans s))))"

section \<open>Artifacts of a lifecycle\<close>

datatype lifecycle_artifact_kind = Exploration

record lifecycle_artifact_ref =
  la_kind :: lifecycle_artifact_kind
  la_id :: digest
  la_source_snapshot :: digest

record lifecycle_patch_ref =
  lp_patch_id :: digest
  lp_revision :: u32

record lifecycle_test_result =
  lt_plan_digest :: digest
  lt_certificate_digest :: digest
  lt_available :: bool
  lt_executed :: bool
  lt_passed :: bool
  lt_evidence_id :: "string option"
  lt_failure_code :: "string option"

definition unbounded_option :: "string option \<Rightarrow> nat \<Rightarrow> bool" where
  "unbounded_option v max_bytes \<longleftrightarrow> (case v of None \<Rightarrow> False | Some value \<Rightarrow> \<not> bounded_identifier value max_bytes)"

definition test_result_validate :: "lifecycle_test_result \<Rightarrow> (unit, lifecycle_error) result" where
  "test_result_validate r =
     (if unbounded_option (lt_evidence_id r) MAX_LIFECYCLE_EVIDENCE_ID_BYTES \<or>
         unbounded_option (lt_failure_code r) MAX_LIFECYCLE_REASON_CODE_BYTES
      then Err InvalidTestEvidence
      else if lt_passed r then
        (if \<not> lt_available r \<or> \<not> lt_executed r \<or> lt_evidence_id r = None \<or> lt_failure_code r \<noteq> None
         then Err InvalidTestEvidence else Ok ())
      else if lt_failure_code r = None then Err InvalidTestEvidence else Ok ())"

datatype lifecycle_review_verdict = ReviewApproved | ReviewRejected | ReviewInconclusive

record lifecycle_acceptance_review =
  lc_criterion_digest :: digest
  lc_status :: acceptance_status
  lc_evidence_digest :: digest

definition acceptance_review_new ::
    "(u8 list \<Rightarrow> digest) \<Rightarrow> u8 list \<Rightarrow> acceptance_status \<Rightarrow> u8 list \<Rightarrow> lifecycle_acceptance_review" where
  "acceptance_review_new blake3 criterion status evidence =
     \<lparr>lc_criterion_digest = blake3 criterion, lc_status = status, lc_evidence_digest = blake3 evidence\<rparr>"

record review_artifact =
  ra_id :: digest
  ra_change_id :: string
  ra_patch_id :: digest
  ra_verdict :: lifecycle_review_verdict
  ra_acceptance_coverage :: "lifecycle_acceptance_review list"
  ra_findings :: "lifecycle_reason list"
  ra_reviewer_definition :: digest
  ra_created :: u64

text \<open>The fields of a review that its identity covers.\<close>

record review_material =
  rm_change_id :: string
  rm_patch_id :: digest
  rm_verdict :: lifecycle_review_verdict
  rm_acceptance_coverage :: "lifecycle_acceptance_review list"
  rm_findings :: "lifecycle_reason list"
  rm_reviewer_definition :: digest
  rm_created :: u64

record lifecycle_verification_ref =
  lv_verification_id :: digest
  lv_patch_id :: digest
  lv_verdict :: verification_status

fun decision_source_tag :: "approval_decision_source \<Rightarrow> u8" where
  "decision_source_tag AutoPolicy = 0"
| "decision_source_tag WebUser = 1"
| "decision_source_tag Timeout = 2"
| "decision_source_tag Runtime = 3"

record lifecycle_apply_approval =
  ly_id :: digest
  ly_approved_state_digest :: digest
  ly_patch_id :: digest
  ly_verification_id :: digest
  ly_decision_source :: approval_decision_source
  ly_decided :: u64

definition approval_compute_id ::
    "(u8 list \<Rightarrow> digest) \<Rightarrow> digest \<Rightarrow> digest \<Rightarrow> digest \<Rightarrow> approval_decision_source \<Rightarrow> u64 \<Rightarrow> digest" where
  "approval_compute_id blake3 approved_state patch verification source decided =
     hasher_finish blake3 (field_bytes (u64_le decided) (field_u8 (decision_source_tag source)
       (field_digest verification (field_digest patch (field_digest approved_state
         (hasher_new ''needle-lifecycle-user-apply-approval''))))))"

definition approval_new ::
    "(u8 list \<Rightarrow> digest) \<Rightarrow> digest \<Rightarrow> digest \<Rightarrow> digest \<Rightarrow> approval_decision_source \<Rightarrow> u64 \<Rightarrow> lifecycle_apply_approval" where
  "approval_new blake3 approved_state patch verification source decided =
     \<lparr>ly_id = approval_compute_id blake3 approved_state patch verification source decided,
      ly_approved_state_digest = approved_state, ly_patch_id = patch, ly_verification_id = verification,
      ly_decision_source = source, ly_decided = decided\<rparr>"

definition approval_is_canonical :: "(u8 list \<Rightarrow> digest) \<Rightarrow> lifecycle_apply_approval \<Rightarrow> bool" where
  "approval_is_canonical blake3 a \<longleftrightarrow>
     ly_id a = approval_compute_id blake3 (ly_approved_state_digest a) (ly_patch_id a) (ly_verification_id a)
       (ly_decision_source a) (ly_decided a)"

record lifecycle_worker_completion =
  lw_profile :: role_profile_provenance
  lw_worker_depth :: u8
  lw_logical_worker_spawns :: u8
  lw_usage :: lifecycle_usage

datatype lifecycle_transition =
    CompleteExplore lifecycle_worker_completion "lifecycle_artifact_ref list"
  | CompleteImplement lifecycle_worker_completion lifecycle_patch_ref
  | CompleteTest lifecycle_worker_completion "lifecycle_test_result list"
  | CompleteReview lifecycle_worker_completion review_artifact
  | CompleteVerify lifecycle_worker_completion lifecycle_verification_ref
  | ConsumeRepair
  | ApproveApply lifecycle_apply_approval
  | StartApply digest
  | FinishApply digest change_apply_status
  | Cancel lifecycle_reason
  | Fail lifecycle_reason

fun transition_worker :: "lifecycle_transition \<Rightarrow> lifecycle_worker_completion option" where
  "transition_worker (CompleteExplore worker artifacts) = Some worker"
| "transition_worker (CompleteImplement worker patch) = Some worker"
| "transition_worker (CompleteTest worker results) = Some worker"
| "transition_worker (CompleteReview worker review) = Some worker"
| "transition_worker (CompleteVerify worker verification) = Some worker"
| "transition_worker ConsumeRepair = None"
| "transition_worker (ApproveApply approval) = None"
| "transition_worker (StartApply apply_id) = None"
| "transition_worker (FinishApply apply_id status) = None"
| "transition_worker (Cancel reason) = None"
| "transition_worker (Fail reason) = None"

section \<open>The lifecycle, its journal and the environment\<close>

record development_lifecycle =
  dl_id :: digest
  dl_change_id :: string
  dl_source_snapshot :: digest
  dl_spec :: lifecycle_spec
  dl_phase :: lifecycle_phase
  dl_status :: lifecycle_status
  dl_terminal_outcome :: "lifecycle_terminal_outcome option"
  dl_terminal_reason :: "lifecycle_reason option"
  dl_generation :: u64
  dl_usage :: lifecycle_usage
  dl_exploration_artifacts :: "lifecycle_artifact_ref list"
  dl_patch :: "lifecycle_patch_ref option"
  dl_test_results :: "lifecycle_test_result list"
  dl_review :: "review_artifact option"
  dl_verification :: "lifecycle_verification_ref option"
  dl_repair_reserved :: bool
  dl_repair_consumed :: bool
  dl_approval :: "lifecycle_apply_approval option"
  dl_apply_id :: "digest option"
  dl_created :: u64
  dl_updated :: u64

datatype lifecycle_event_kind = Created development_lifecycle | Transitioned lifecycle_transition

record lifecycle_event =
  ev_lifecycle_id :: digest
  ev_change_id :: string
  ev_sequence :: u64
  ev_phase :: lifecycle_phase
  ev_status :: lifecycle_status
  ev_source_snapshot :: digest
  ev_profile_revision_digest :: "digest option"
  ev_patch_id :: "digest option"
  ev_verification_id :: "digest option"
  ev_prior_state_digest :: "digest option"
  ev_resulting_state_digest :: digest
  ev_kind :: lifecycle_event_kind
  ev_created :: u64

text \<open>\<open>Digest::blake3\<close> and \<open>serde_json::to_vec\<close> at the three types it is used at; \<open>None\<close> is a serialisation error.\<close>

record lifecycle_env =
  env_blake3 :: "u8 list \<Rightarrow> digest"
  env_review_json :: "review_material \<Rightarrow> u8 list option"
  env_state_json :: "development_lifecycle \<Rightarrow> u8 list option"
  env_event_json :: "lifecycle_event \<Rightarrow> u8 list option"

definition unwrap_or_default :: "u8 list option \<Rightarrow> u8 list" where
  "unwrap_or_default v = (case v of None \<Rightarrow> [] | Some bytes \<Rightarrow> bytes)"

section \<open>Reviews\<close>

definition finding_key :: "lifecycle_reason \<Rightarrow> string \<times> digest" where
  "finding_key r = (lr_code r, lr_detail_digest r)"

fun validate_findings :: "(string \<times> digest) set \<Rightarrow> lifecycle_reason list \<Rightarrow> (unit, lifecycle_error) result" where
  "validate_findings ids [] = Ok ()"
| "validate_findings ids (f # fs) =
     rbind (reason_validate f) (\<lambda>_.
       if finding_key f \<in> ids then Err InvalidReview else validate_findings (insert (finding_key f) ids) fs)"

definition review_validate_material :: "review_artifact \<Rightarrow> (unit, lifecycle_error) result" where
  "review_validate_material r =
     (if ra_acceptance_coverage r = [] \<or> length (ra_acceptance_coverage r) > MAX_LIFECYCLE_ARTIFACT_REFS \<or>
         length (ra_findings r) > MAX_LIFECYCLE_REVIEW_FINDINGS
      then Err InvalidReview
      else if \<not> distinct (map lc_criterion_digest (ra_acceptance_coverage r)) \<or>
         \<not> successively (\<lambda>a b. \<not> lc_criterion_digest b \<le> lc_criterion_digest a) (ra_acceptance_coverage r) \<or>
         (ra_verdict r = ReviewApproved \<and> (\<exists>c \<in> set (ra_acceptance_coverage r). lc_status c \<noteq> Addressed))
      then Err InvalidReview
      else rbind (validate_findings {} (ra_findings r)) (\<lambda>_.
        if \<not> successively (\<lambda>a b. \<not> finding_key b \<le> finding_key a) (ra_findings r) then Err InvalidReview else Ok ()))"

definition review_material_of :: "review_artifact \<Rightarrow> review_material" where
  "review_material_of r =
     \<lparr>rm_change_id = ra_change_id r, rm_patch_id = ra_patch_id r, rm_verdict = ra_verdict r,
      rm_acceptance_coverage = ra_acceptance_coverage r, rm_findings = ra_findings r,
      rm_reviewer_definition = ra_reviewer_definition r, rm_created = ra_created r\<rparr>"

definition review_compute_id :: "lifecycle_env \<Rightarrow> review_artifact \<Rightarrow> digest" where
  "review_compute_id env r = env_blake3 env (unwrap_or_default (env_review_json env (review_material_of r)))"

definition review_is_canonical :: "lifecycle_env \<Rightarrow> review_artifact \<Rightarrow> bool" where
  "review_is_canonical env r \<longleftrightarrow> is_ok (review_validate_material r) \<and> ra_id r = review_compute_id env r"

definition review_new ::
    "lifecycle_env \<Rightarrow> string \<Rightarrow> digest \<Rightarrow> lifecycle_review_verdict \<Rightarrow> lifecycle_acceptance_review list \<Rightarrow>
     lifecycle_reason list \<Rightarrow> digest \<Rightarrow> u64 \<Rightarrow> (review_artifact, lifecycle_error) result" where
  "review_new env change_id patch_id verdict coverage findings reviewer created =
     (let artifact = \<lparr>ra_id = env_blake3 env (as_bytes ''pending-review-artifact''), ra_change_id = change_id,
        ra_patch_id = patch_id, ra_verdict = verdict,
        ra_acceptance_coverage = sort_key lc_criterion_digest coverage, ra_findings = sort_key finding_key findings,
        ra_reviewer_definition = reviewer, ra_created = created\<rparr> in
      rbind (review_validate_material artifact) (\<lambda>_. Ok (artifact\<lparr>ra_id := review_compute_id env artifact\<rparr>)))"

section \<open>Validation of a lifecycle\<close>

definition state_digest :: "lifecycle_env \<Rightarrow> development_lifecycle \<Rightarrow> digest" where
  "state_digest env s = env_blake3 env (unwrap_or_default (env_state_json env s))"

definition expected_revision :: "development_lifecycle \<Rightarrow> u32" where
  "expected_revision s = (if dl_repair_consumed s then 2 else 1)"

text \<open>Results are zipped with the bindings and checked pairwise.\<close>

fun validate_results ::
    "(u8 list \<Rightarrow> digest) \<Rightarrow> lifecycle_test_result list \<Rightarrow> lifecycle_test_plan_binding list \<Rightarrow>
     (unit, lifecycle_error) result" where
  "validate_results blake3 (r # rs) (b # bs) =
     rbind (test_result_validate r) (\<lambda>_.
       if lt_plan_digest r \<noteq> binding_plan_digest blake3 b \<or> lt_certificate_digest r \<noteq> tb_certificate_digest b
       then Err InvalidTestEvidence else validate_results blake3 rs bs)"
| "validate_results blake3 [] bs = Ok ()"
| "validate_results blake3 rs [] = Ok ()"

definition check_exploration :: "development_lifecycle \<Rightarrow> (unit, lifecycle_error) result" where
  "check_exploration s =
     (if length (dl_exploration_artifacts s) > MAX_LIFECYCLE_ARTIFACT_REFS \<or>
         (\<exists>a \<in> set (dl_exploration_artifacts s).
            la_source_snapshot a \<noteq> dl_source_snapshot s \<or> la_kind a \<noteq> Exploration) \<or>
         \<not> successively (\<lambda>a b. \<not> la_id b \<le> la_id a) (dl_exploration_artifacts s)
      then Err InvalidArtifact else Ok ())"

definition check_patch :: "development_lifecycle \<Rightarrow> (unit, lifecycle_error) result" where
  "check_patch s =
     (case dl_patch s of
        Some patch \<Rightarrow>
          if dl_exploration_artifacts s = [] \<or> lp_revision patch \<noteq> expected_revision s then Err InvalidArtifact else Ok ()
      | None \<Rightarrow>
          if dl_test_results s \<noteq> [] \<or> dl_review s \<noteq> None \<or> dl_verification s \<noteq> None \<or> dl_approval s \<noteq> None \<or>
             dl_apply_id s \<noteq> None
          then Err InvalidState else Ok ())"

definition check_results :: "lifecycle_env \<Rightarrow> development_lifecycle \<Rightarrow> (unit, lifecycle_error) result" where
  "check_results env s =
     (if dl_test_results s = [] then Ok ()
      else if length (dl_test_results s) \<noteq> length (ls_test_plans (dl_spec s)) then Err MissingTestEvidence
      else validate_results (env_blake3 env) (dl_test_results s) (ls_test_plans (dl_spec s)))"

definition check_review :: "lifecycle_env \<Rightarrow> development_lifecycle \<Rightarrow> (unit, lifecycle_error) result" where
  "check_review env s =
     (case dl_review s of
        None \<Rightarrow> Ok ()
      | Some review \<Rightarrow>
          rbind (ok_or MissingArtifact (dl_patch s)) (\<lambda>patch.
            if (\<exists>r \<in> set (dl_test_results s). \<not> lt_passed r) \<or>
               length (dl_test_results s) \<noteq> length (ls_test_plans (dl_spec s)) \<or>
               \<not> review_is_canonical env review \<or> ra_change_id review \<noteq> dl_change_id s \<or>
               ra_patch_id review \<noteq> lp_patch_id patch \<or>
               ra_reviewer_definition review \<noteq> pv_definition_digest (wp_review (ls_profiles (dl_spec s)))
            then Err InvalidReview else Ok ()))"

definition check_verification :: "development_lifecycle \<Rightarrow> (unit, lifecycle_error) result" where
  "check_verification s =
     (case dl_verification s of
        None \<Rightarrow> Ok ()
      | Some verification \<Rightarrow>
          rbind (ok_or MissingArtifact (dl_patch s)) (\<lambda>patch.
            if map_option ra_verdict (dl_review s) \<noteq> Some ReviewApproved \<or>
               lv_patch_id verification \<noteq> lp_patch_id patch \<or> lv_verdict verification = NotRequested
            then Err InvalidVerification else Ok ()))"

definition check_approval :: "lifecycle_env \<Rightarrow> development_lifecycle \<Rightarrow> (unit, lifecycle_error) result" where
  "check_approval env s =
     (case dl_approval s of
        None \<Rightarrow> Ok ()
      | Some approval \<Rightarrow>
          rbind (ok_or MissingArtifact (dl_patch s)) (\<lambda>patch.
          rbind (ok_or MissingArtifact (dl_verification s)) (\<lambda>verification.
            if \<not> approval_is_canonical (env_blake3 env) approval \<or> lv_verdict verification \<noteq> Verified \<or>
               ly_patch_id approval \<noteq> lp_patch_id patch \<or>
               ly_verification_id approval \<noteq> lv_verification_id verification
            then Err StaleApproval else Ok ())))"

definition validate_artifact_chain :: "lifecycle_env \<Rightarrow> development_lifecycle \<Rightarrow> (unit, lifecycle_error) result" where
  "validate_artifact_chain env s =
     rbind (check_exploration s) (\<lambda>_.
     rbind (check_patch s) (\<lambda>_.
     rbind (check_results env s) (\<lambda>_.
     rbind (check_review env s) (\<lambda>_.
     rbind (check_verification s) (\<lambda>_.
     rbind (check_approval env s) (\<lambda>_.
       if dl_apply_id s \<noteq> None \<and> dl_approval s = None then Err InvalidState else Ok ()))))))"

definition valid_terminal :: "lifecycle_status \<Rightarrow> lifecycle_terminal_outcome option \<Rightarrow> bool" where
  "valid_terminal status outcome \<longleftrightarrow>
     (status, outcome) \<in> set [(Completed, Some OutcomeApplied), (StatusFailed, Some OutcomeFailed),
       (StatusFailed, Some OutcomeRollbackFailed), (StatusFailed, Some OutcomeRecoveryConflict),
       (StatusCancelled, Some OutcomeCancelled), (StatusInconclusive, Some OutcomeInconclusive),
       (StatusRolledBack, Some OutcomeRolledBack)]"

definition apply_outcome :: "lifecycle_terminal_outcome option \<Rightarrow> bool" where
  "apply_outcome outcome \<longleftrightarrow>
     outcome \<in> set [Some OutcomeApplied, Some OutcomeRolledBack, Some OutcomeRollbackFailed, Some OutcomeRecoveryConflict]"

fun live_shape :: "lifecycle_phase \<Rightarrow> lifecycle_status \<Rightarrow> development_lifecycle \<Rightarrow> bool" where
  "live_shape Explore Active s \<longleftrightarrow>
     dl_exploration_artifacts s = [] \<and> dl_patch s = None \<and> \<not> dl_repair_consumed s"
| "live_shape Implement Active s \<longleftrightarrow>
     dl_exploration_artifacts s \<noteq> [] \<and> dl_patch s = None \<and> dl_test_results s = [] \<and> dl_review s = None \<and>
     dl_verification s = None"
| "live_shape Test Active s \<longleftrightarrow>
     dl_patch s \<noteq> None \<and> dl_test_results s = [] \<and> dl_review s = None \<and> dl_verification s = None"
| "live_shape Review Active s \<longleftrightarrow>
     length (dl_test_results s) = length (ls_test_plans (dl_spec s)) \<and>
     (\<forall>r \<in> set (dl_test_results s). lt_passed r) \<and> dl_review s = None \<and> dl_verification s = None"
| "live_shape Verify Active s \<longleftrightarrow>
     map_option ra_verdict (dl_review s) = Some ReviewApproved \<and> dl_verification s = None \<and> \<not> dl_repair_reserved s"
| "live_shape Verify RepairReserved s \<longleftrightarrow>
     map_option lv_verdict (dl_verification s) = Some Repairable \<and> dl_repair_reserved s \<and> \<not> dl_repair_consumed s"
| "live_shape Apply AwaitingApproval s \<longleftrightarrow>
     map_option lv_verdict (dl_verification s) = Some Verified \<and> dl_approval s = None \<and> dl_apply_id s = None"
| "live_shape Apply StatusApproved s \<longleftrightarrow> dl_approval s \<noteq> None \<and> dl_apply_id s = None"
| "live_shape Apply StatusApplying s \<longleftrightarrow> dl_approval s \<noteq> None \<and> dl_apply_id s \<noteq> None"
| "live_shape _ _ s \<longleftrightarrow> False"

definition validate_status_shape :: "development_lifecycle \<Rightarrow> (unit, lifecycle_error) result" where
  "validate_status_shape s =
     (if terminal (dl_status s) then
        (if \<not> valid_terminal (dl_status s) (dl_terminal_outcome s) \<or> dl_repair_reserved s \<or>
            (apply_outcome (dl_terminal_outcome s) \<and> (dl_phase s \<noteq> Apply \<or> dl_apply_id s = None))
         then Err InvalidState else Ok ())
      else if \<not> live_shape (dl_phase s) (dl_status s) s \<or> dl_terminal_outcome s \<noteq> None \<or> dl_terminal_reason s \<noteq> None
      then Err InvalidState else Ok ())"

definition terminal_fields_agree :: "development_lifecycle \<Rightarrow> bool" where
  "terminal_fields_agree s \<longleftrightarrow>
     terminal (dl_status s) = (dl_terminal_outcome s \<noteq> None) \<and>
     terminal (dl_status s) = (dl_terminal_reason s \<noteq> None \<or> dl_terminal_outcome s = Some OutcomeApplied \<or>
       dl_terminal_outcome s = Some OutcomeRolledBack)"

definition lifecycle_validate :: "lifecycle_env \<Rightarrow> development_lifecycle \<Rightarrow> (unit, lifecycle_error) result" where
  "lifecycle_validate env s =
     rbind (spec_validate (env_blake3 env) (dl_spec s)) (\<lambda>_.
       if dl_id s \<noteq> lifecycle_id_compute (env_blake3 env) (dl_change_id s) (dl_source_snapshot s) (ls_profiles (dl_spec s)) \<or>
          dl_updated s < dl_created s \<or> \<not> usage_within (dl_usage s) (ls_budget (dl_spec s)) \<or>
          MAX_LIFECYCLE_EVENTS \<le> dl_generation s
       then Err InvalidState
       else if \<not> terminal_fields_agree s then Err InvalidState
       else if dl_repair_reserved s \<and> dl_repair_consumed s then Err InvalidState
       else
         rbind (validate_artifact_chain env s) (\<lambda>_.
         rbind (validate_status_shape s) (\<lambda>_.
         rbind (ok_or InvalidState (env_state_json env s)) (\<lambda>bytes.
           if length bytes > MAX_LIFECYCLE_STATE_BYTES then Err StateTooLarge else Ok ()))))"

definition lifecycle_new ::
    "lifecycle_env \<Rightarrow> string \<Rightarrow> digest \<Rightarrow> lifecycle_spec \<Rightarrow> u64 \<Rightarrow> (development_lifecycle, lifecycle_error) result" where
  "lifecycle_new env change_id source_snapshot spec created =
     rbind (spec_validate (env_blake3 env) spec) (\<lambda>_.
     let state = \<lparr>dl_id = lifecycle_id_compute (env_blake3 env) change_id source_snapshot (ls_profiles spec),
        dl_change_id = change_id, dl_source_snapshot = source_snapshot, dl_spec = spec, dl_phase = Explore,
        dl_status = Active, dl_terminal_outcome = None, dl_terminal_reason = None, dl_generation = 0,
        dl_usage = usage_default, dl_exploration_artifacts = [], dl_patch = None, dl_test_results = [],
        dl_review = None, dl_verification = None, dl_repair_reserved = False, dl_repair_consumed = False,
        dl_approval = None, dl_apply_id = None, dl_created = created, dl_updated = created\<rparr> in
     rbind (lifecycle_validate env state) (\<lambda>_. Ok state))"

section \<open>Transitions\<close>

type_synonym lifecycle_result = "(development_lifecycle, lifecycle_error) result"

definition require_active_phase :: "development_lifecycle \<Rightarrow> lifecycle_phase \<Rightarrow> (unit, lifecycle_error) result" where
  "require_active_phase s expected =
     (if dl_phase s \<noteq> expected \<or> dl_status s \<noteq> Active then Err InvalidTransition else Ok ())"

definition accept_worker ::
    "lifecycle_phase \<Rightarrow> lifecycle_worker_completion \<Rightarrow> development_lifecycle \<Rightarrow> lifecycle_result" where
  "accept_worker phase worker s =
     (if lw_worker_depth worker \<noteq> 1 \<or> lw_logical_worker_spawns worker \<noteq> 1 then Err NestedWorker
      else if lu_worker_turns (lw_usage worker) = 0 then Err InvalidWorkerCompletion
      else if for_phase (ls_profiles (dl_spec s)) phase \<noteq> Some (lw_profile worker) then Err ProfileMismatch
      else rbind (usage_checked_add (dl_usage s) (lw_usage worker)) (\<lambda>usage.
        if \<not> usage_within usage (ls_budget (dl_spec s)) then Err BudgetExceeded else Ok (s\<lparr>dl_usage := usage\<rparr>)))"

definition finish_terminal ::
    "lifecycle_status \<Rightarrow> lifecycle_terminal_outcome \<Rightarrow> lifecycle_reason option \<Rightarrow> development_lifecycle \<Rightarrow>
     development_lifecycle" where
  "finish_terminal status outcome reason s =
     s\<lparr>dl_repair_reserved := False, dl_status := status, dl_terminal_outcome := Some outcome,
       dl_terminal_reason := reason\<rparr>"

definition finish_with ::
    "lifecycle_env \<Rightarrow> lifecycle_status \<Rightarrow> lifecycle_terminal_outcome \<Rightarrow> string \<Rightarrow> string \<Rightarrow> development_lifecycle \<Rightarrow>
     lifecycle_result" where
  "finish_with env status outcome code detail s =
     rbind (reason_new (env_blake3 env) code detail) (\<lambda>reason. Ok (finish_terminal status outcome (Some reason) s))"

definition stop_transition ::
    "lifecycle_status \<Rightarrow> lifecycle_terminal_outcome \<Rightarrow> lifecycle_reason \<Rightarrow> development_lifecycle \<Rightarrow> lifecycle_result" where
  "stop_transition status outcome reason s =
     (if dl_status s = StatusApplying then Err InvalidTransition
      else rbind (reason_validate reason) (\<lambda>_. Ok (finish_terminal status outcome (Some reason) s)))"

text \<open>The loop over the explored artifacts with its \<open>BTreeSet\<close> of identifiers.\<close>

fun artifacts_accepted :: "digest \<Rightarrow> digest set \<Rightarrow> lifecycle_artifact_ref list \<Rightarrow> bool" where
  "artifacts_accepted snapshot ids [] = True"
| "artifacts_accepted snapshot ids (a # as) =
     (la_source_snapshot a = snapshot \<and> la_id a \<notin> ids \<and> artifacts_accepted snapshot (insert (la_id a) ids) as)"

definition complete_explore ::
    "lifecycle_worker_completion \<Rightarrow> lifecycle_artifact_ref list \<Rightarrow> development_lifecycle \<Rightarrow> lifecycle_result" where
  "complete_explore worker artifacts s =
     rbind (require_active_phase s Explore) (\<lambda>_.
     rbind (accept_worker Explore worker s) (\<lambda>s.
     if artifacts = [] \<or> length artifacts > MAX_LIFECYCLE_ARTIFACT_REFS then Err MissingArtifact
     else if \<not> artifacts_accepted (dl_source_snapshot s) {} artifacts then Err InvalidArtifact
     else Ok (s\<lparr>dl_exploration_artifacts := artifacts, dl_phase := Implement\<rparr>)))"

definition complete_implement ::
    "lifecycle_worker_completion \<Rightarrow> lifecycle_patch_ref \<Rightarrow> development_lifecycle \<Rightarrow> lifecycle_result" where
  "complete_implement worker patch s =
     rbind (require_active_phase s Implement) (\<lambda>_.
     rbind (accept_worker Implement worker s) (\<lambda>s.
     if lp_revision patch \<noteq> expected_revision s then Err InvalidArtifact
     else Ok (s\<lparr>dl_patch := Some patch, dl_test_results := [], dl_review := None, dl_verification := None,
       dl_approval := None, dl_apply_id := None, dl_phase := Test\<rparr>)))"

definition complete_test ::
    "lifecycle_env \<Rightarrow> lifecycle_worker_completion \<Rightarrow> lifecycle_test_result list \<Rightarrow> development_lifecycle \<Rightarrow>
     lifecycle_result" where
  "complete_test env worker results s =
     rbind (require_active_phase s Test) (\<lambda>_.
     rbind (accept_worker Test worker s) (\<lambda>s.
     if length results \<noteq> length (ls_test_plans (dl_spec s)) then Err MissingTestEvidence
     else rbind (validate_results (env_blake3 env) results (ls_test_plans (dl_spec s))) (\<lambda>_.
       let s = s\<lparr>dl_test_results := results\<rparr> in
       if (\<exists>r \<in> set results. \<not> lt_available r \<or> \<not> lt_executed r)
       then finish_with env StatusInconclusive OutcomeInconclusive ''test_evidence_unavailable''
         ''trusted test evidence unavailable'' s
       else if (\<exists>r \<in> set results. \<not> lt_passed r)
       then finish_with env StatusFailed OutcomeFailed ''test_failed'' ''trusted test failed'' s
       else Ok (s\<lparr>dl_phase := Review\<rparr>))))"

definition complete_review ::
    "lifecycle_env \<Rightarrow> lifecycle_worker_completion \<Rightarrow> review_artifact \<Rightarrow> development_lifecycle \<Rightarrow> lifecycle_result" where
  "complete_review env worker review s =
     rbind (require_active_phase s Review) (\<lambda>_.
     rbind (accept_worker Review worker s) (\<lambda>s.
     rbind (ok_or MissingArtifact (dl_patch s)) (\<lambda>patch.
     if \<not> review_is_canonical env review \<or> ra_change_id review \<noteq> dl_change_id s \<or>
        ra_patch_id review \<noteq> lp_patch_id patch \<or>
        ra_reviewer_definition review \<noteq> pv_definition_digest (lw_profile worker)
     then Err InvalidReview
     else
       let s = s\<lparr>dl_review := Some review\<rparr> in
       case ra_verdict review of
         ReviewApproved \<Rightarrow> Ok (s\<lparr>dl_phase := Verify\<rparr>)
       | ReviewRejected \<Rightarrow> finish_with env StatusFailed OutcomeFailed ''review_rejected'' ''review rejected patch'' s
       | ReviewInconclusive \<Rightarrow>
           finish_with env StatusInconclusive OutcomeInconclusive ''review_inconclusive'' ''review was inconclusive'' s)))"

text \<open>\<open>unreachable!()\<close> follows a guard that excludes the case; the guard's error stands for it here.\<close>

definition complete_verify ::
    "lifecycle_env \<Rightarrow> lifecycle_worker_completion \<Rightarrow> lifecycle_verification_ref \<Rightarrow> development_lifecycle \<Rightarrow>
     lifecycle_result" where
  "complete_verify env worker verification s =
     rbind (require_active_phase s Verify) (\<lambda>_.
     rbind (accept_worker Verify worker s) (\<lambda>s.
     rbind (ok_or MissingArtifact (dl_patch s)) (\<lambda>patch.
     if lv_patch_id verification \<noteq> lp_patch_id patch \<or> lv_verdict verification = NotRequested
     then Err InvalidVerification
     else
       let s = s\<lparr>dl_verification := Some verification\<rparr> in
       case lv_verdict verification of
         Verified \<Rightarrow> Ok (s\<lparr>dl_phase := Apply, dl_status := AwaitingApproval\<rparr>)
       | Repairable \<Rightarrow>
           if dl_repair_reserved s \<or> dl_repair_consumed s
           then finish_with env StatusFailed OutcomeFailed ''repair_limit_exhausted''
             ''verification requested a second repair'' s
           else Ok (s\<lparr>dl_status := RepairReserved, dl_repair_reserved := True\<rparr>)
       | VerificationRejected \<Rightarrow>
           finish_with env StatusFailed OutcomeFailed ''verification_rejected'' ''verification rejected patch'' s
       | VerificationInconclusive \<Rightarrow>
           finish_with env StatusInconclusive OutcomeInconclusive ''verification_inconclusive''
             ''verification was inconclusive'' s
       | NotRequested \<Rightarrow> Err InvalidVerification)))"

definition consume_repair :: "development_lifecycle \<Rightarrow> lifecycle_result" where
  "consume_repair s =
     (if dl_phase s \<noteq> Verify \<or> dl_status s \<noteq> RepairReserved \<or> \<not> dl_repair_reserved s \<or> dl_repair_consumed s
      then Err InvalidTransition
      else Ok (s\<lparr>dl_repair_reserved := False, dl_repair_consumed := True, dl_phase := Implement, dl_status := Active,
        dl_patch := None, dl_test_results := [], dl_review := None, dl_verification := None, dl_approval := None,
        dl_apply_id := None\<rparr>))"

definition approve_apply ::
    "lifecycle_env \<Rightarrow> lifecycle_apply_approval \<Rightarrow> development_lifecycle \<Rightarrow> lifecycle_result" where
  "approve_apply env approval s =
     (if dl_phase s \<noteq> Apply \<or> dl_status s \<noteq> AwaitingApproval then Err InvalidTransition
      else
        rbind (ok_or MissingArtifact (dl_patch s)) (\<lambda>patch.
        rbind (ok_or MissingArtifact (dl_verification s)) (\<lambda>verification.
        if ly_approved_state_digest approval \<noteq> state_digest env s \<or> ly_patch_id approval \<noteq> lp_patch_id patch \<or>
           ly_verification_id approval \<noteq> lv_verification_id verification \<or> ly_decision_source approval \<noteq> WebUser
        then Err StaleApproval
        else Ok (s\<lparr>dl_approval := Some approval, dl_status := StatusApproved\<rparr>))))"

definition start_apply :: "digest \<Rightarrow> development_lifecycle \<Rightarrow> lifecycle_result" where
  "start_apply apply_id s =
     (if dl_phase s \<noteq> Apply \<or> dl_status s \<noteq> StatusApproved then Err InvalidTransition
      else Ok (s\<lparr>dl_apply_id := Some apply_id, dl_status := StatusApplying\<rparr>))"

definition finish_apply ::
    "lifecycle_env \<Rightarrow> digest \<Rightarrow> change_apply_status \<Rightarrow> development_lifecycle \<Rightarrow> lifecycle_result" where
  "finish_apply env apply_id status s =
     (if dl_phase s \<noteq> Apply \<or> dl_status s \<noteq> StatusApplying \<or> dl_apply_id s \<noteq> Some apply_id \<or> status = Applying
      then Err InvalidTransition
      else case status of
        Applied \<Rightarrow> Ok (finish_terminal Completed OutcomeApplied None s)
      | ApplyRolledBack \<Rightarrow> Ok (finish_terminal StatusRolledBack OutcomeRolledBack None s)
      | RollbackFailed \<Rightarrow>
          finish_with env StatusFailed OutcomeRollbackFailed ''rollback_failed'' ''active apply rollback failed'' s
      | RecoveryConflict \<Rightarrow>
          finish_with env StatusFailed OutcomeRecoveryConflict ''recovery_conflict'' ''pending apply recovery conflicted'' s
      | Applying \<Rightarrow> Err InvalidTransition)"

fun apply_transition :: "lifecycle_env \<Rightarrow> lifecycle_transition \<Rightarrow> development_lifecycle \<Rightarrow> lifecycle_result" where
  "apply_transition env (Cancel reason) s = stop_transition StatusCancelled OutcomeCancelled reason s"
| "apply_transition env (Fail reason) s = stop_transition StatusFailed OutcomeFailed reason s"
| "apply_transition env (CompleteExplore worker artifacts) s = complete_explore worker artifacts s"
| "apply_transition env (CompleteImplement worker patch) s = complete_implement worker patch s"
| "apply_transition env (CompleteTest worker results) s = complete_test env worker results s"
| "apply_transition env (CompleteReview worker review) s = complete_review env worker review s"
| "apply_transition env (CompleteVerify worker verification) s = complete_verify env worker verification s"
| "apply_transition env ConsumeRepair s = consume_repair s"
| "apply_transition env (ApproveApply approval) s = approve_apply env approval s"
| "apply_transition env (StartApply apply_id) s = start_apply apply_id s"
| "apply_transition env (FinishApply apply_id status) s = finish_apply env apply_id status s"

section \<open>Events and replay\<close>

definition event_validate_size :: "lifecycle_env \<Rightarrow> lifecycle_event \<Rightarrow> (unit, lifecycle_error) result" where
  "event_validate_size env e =
     rbind (ok_or EventReplay (env_event_json env e)) (\<lambda>bytes.
       if length bytes > MAX_LIFECYCLE_EVENT_BYTES then Err EventTooLarge else Ok ())"

definition event_created :: "lifecycle_env \<Rightarrow> development_lifecycle \<Rightarrow> (lifecycle_event, lifecycle_error) result" where
  "event_created env s =
     (let event = \<lparr>ev_lifecycle_id = dl_id s, ev_change_id = dl_change_id s, ev_sequence = 0, ev_phase = dl_phase s,
        ev_status = dl_status s, ev_source_snapshot = dl_source_snapshot s, ev_profile_revision_digest = None,
        ev_patch_id = None, ev_verification_id = None, ev_prior_state_digest = None,
        ev_resulting_state_digest = state_digest env s, ev_kind = Created s, ev_created = dl_created s\<rparr> in
      rbind (event_validate_size env event) (\<lambda>_. Ok event))"

definition event_transitioned ::
    "lifecycle_env \<Rightarrow> development_lifecycle \<Rightarrow> digest \<Rightarrow> lifecycle_transition \<Rightarrow> u64 \<Rightarrow>
     (lifecycle_event, lifecycle_error) result" where
  "event_transitioned env s prior t created =
     (let event = \<lparr>ev_lifecycle_id = dl_id s, ev_change_id = dl_change_id s, ev_sequence = dl_generation s,
        ev_phase = dl_phase s, ev_status = dl_status s, ev_source_snapshot = dl_source_snapshot s,
        ev_profile_revision_digest = map_option (\<lambda>w. pv_definition_digest (lw_profile w)) (transition_worker t),
        ev_patch_id = map_option lp_patch_id (dl_patch s),
        ev_verification_id = map_option lv_verification_id (dl_verification s),
        ev_prior_state_digest = Some prior, ev_resulting_state_digest = state_digest env s,
        ev_kind = Transitioned t, ev_created = created\<rparr> in
      rbind (event_validate_size env event) (\<lambda>_. Ok event))"

text \<open>A review or an approval must be dated between the creation of the lifecycle and now.\<close>

fun dated_outside :: "lifecycle_transition \<Rightarrow> u64 \<Rightarrow> u64 \<Rightarrow> bool" where
  "dated_outside (CompleteReview worker review) lo hi = (ra_created review < lo \<or> hi < ra_created review)"
| "dated_outside (ApproveApply approval) lo hi = (ly_decided approval < lo \<or> hi < ly_decided approval)"
| "dated_outside _ lo hi = False"

definition transition ::
    "lifecycle_env \<Rightarrow> development_lifecycle \<Rightarrow> lifecycle_transition \<Rightarrow> u64 \<Rightarrow>
     (development_lifecycle \<times> lifecycle_event, lifecycle_error) result" where
  "transition env s t created =
     rbind (lifecycle_validate env s) (\<lambda>_.
     if terminal (dl_status s) then Err Terminal
     else if created < dl_updated s then Err TimeRegression
     else if dated_outside t (dl_created s) created then Err TimeRegression
     else
       rbind (apply_transition env t s) (\<lambda>next_state.
       rbind (ok_or GenerationOverflow (checked_add (dl_generation next_state) 1)) (\<lambda>generation.
       let next_state = next_state\<lparr>dl_generation := generation, dl_updated := created\<rparr> in
       rbind (lifecycle_validate env next_state) (\<lambda>_.
       rbind (event_transitioned env next_state (state_digest env s) t created) (\<lambda>event.
       Ok (next_state, event))))))"

fun replay_loop ::
    "lifecycle_env \<Rightarrow> development_lifecycle \<Rightarrow> lifecycle_event list \<Rightarrow> lifecycle_result" where
  "replay_loop env current [] = Ok current"
| "replay_loop env current (event # events) =
     (case ev_kind event of
        Created _ \<Rightarrow> Err EventReplay
      | Transitioned t \<Rightarrow>
          if ev_sequence event \<noteq> dl_generation current + 1 \<or>
             ev_prior_state_digest event \<noteq> Some (state_digest env current)
          then Err EventReplay
          else rbind (transition env current t (ev_created event)) (\<lambda>(next_state, reproduced).
            if reproduced \<noteq> event \<or> state_digest env next_state \<noteq> ev_resulting_state_digest event
            then Err EventReplay
            else replay_loop env next_state events))"

fun lifecycle_replay :: "lifecycle_env \<Rightarrow> lifecycle_event list \<Rightarrow> lifecycle_result" where
  "lifecycle_replay env [] = Err EventReplay"
| "lifecycle_replay env (first # events) =
     (case ev_kind first of
        Transitioned _ \<Rightarrow> Err EventReplay
      | Created state \<Rightarrow>
          rbind (lifecycle_validate env state) (\<lambda>_.
          rbind (event_created env state) (\<lambda>expected.
            if first \<noteq> expected then Err EventReplay else replay_loop env state events)))"

end
