(* ===== verification/Lifecycle_Machine.thy ===== *)
theory Lifecycle_Machine
  imports Lifecycle
begin

text \<open>
  Properties of the lifecycle state machine of \<open>Lifecycle\<close>: the refinement of an abstract stage
  machine, the bound on the length of every run, the evidence behind an applied change, exact
  accounting of usage, the correspondence of replay and runs, and the terminal states.
\<close>

section \<open>What a successful transition does\<close>

lemma accept_worker_Ok_iff:
  "accept_worker phase w s = Ok s' \<longleftrightarrow>
     lw_worker_depth w = 1 \<and> lw_logical_worker_spawns w = 1 \<and> lu_worker_turns (lw_usage w) \<noteq> 0 \<and>
     for_phase (ls_profiles (dl_spec s)) phase = Some (lw_profile w) \<and>
     (\<exists>usage. usage_checked_add (dl_usage s) (lw_usage w) = Ok usage \<and>
        usage_within usage (ls_budget (dl_spec s)) \<and> s' = s\<lparr>dl_usage := usage\<rparr>)"
  unfolding accept_worker_def by (auto simp: guard_Ok_iff)

lemma require_active_phase_Ok [simp]:
  "require_active_phase s p = Ok u \<longleftrightarrow> dl_phase s = p \<and> dl_status s = Active"
  by (simp add: require_active_phase_def)

text \<open>The usage after the transition \<open>t\<close>: a worker's usage is added, every other transition keeps it.\<close>

definition usage_after :: "lifecycle_transition \<Rightarrow> development_lifecycle \<Rightarrow> lifecycle_usage \<Rightarrow> bool" where
  "usage_after t s usage \<longleftrightarrow>
     (case transition_worker t of
        None \<Rightarrow> usage = dl_usage s
      | Some w \<Rightarrow> usage_checked_add (dl_usage s) (lw_usage w) = Ok usage)"

lemma worker_usage: "accept_worker phase w s = Ok s' \<Longrightarrow> transition_worker t = Some w \<Longrightarrow>
    \<exists>usage. usage_after t s usage \<and> s' = s\<lparr>dl_usage := usage\<rparr>"
  by (auto simp: accept_worker_Ok_iff usage_after_def)

definition stopped :: "lifecycle_status \<Rightarrow> lifecycle_terminal_outcome \<Rightarrow> development_lifecycle \<Rightarrow> development_lifecycle \<Rightarrow> bool" where
  "stopped status outcome s m \<longleftrightarrow> (\<exists>reason. m = finish_terminal status outcome reason s)"

lemma finish_with_Ok: "finish_with env st oc code detail s = Ok m \<Longrightarrow> stopped st oc s m"
  by (auto simp: finish_with_def stopped_def)

lemma complete_explore_Ok:
  assumes "complete_explore w artifacts s = Ok m"
  obtains usage where "dl_phase s = Explore" "dl_status s = Active" "usage_after (CompleteExplore w artifacts) s usage"
    "artifacts \<noteq> []" "m = s\<lparr>dl_usage := usage, dl_exploration_artifacts := artifacts, dl_phase := Implement\<rparr>"
  using assms by (auto simp: complete_explore_def guard_Ok_iff dest!: worker_usage [where t = "CompleteExplore w artifacts"])

lemma complete_implement_Ok:
  assumes "complete_implement w patch s = Ok m"
  obtains usage where "dl_phase s = Implement" "dl_status s = Active" "usage_after (CompleteImplement w patch) s usage"
    "lp_revision patch = expected_revision s"
    "m = s\<lparr>dl_usage := usage, dl_patch := Some patch, dl_test_results := [], dl_review := None,
       dl_verification := None, dl_approval := None, dl_apply_id := None, dl_phase := Test\<rparr>"
  using assms by (auto simp: complete_implement_def guard_Ok_iff expected_revision_def
    dest!: worker_usage [where t = "CompleteImplement w patch"])

lemma complete_test_Ok:
  assumes "complete_test env w results s = Ok m"
  obtains usage m' where "dl_phase s = Test" "dl_status s = Active" "usage_after (CompleteTest w results) s usage"
    "m' = s\<lparr>dl_usage := usage, dl_test_results := results\<rparr>"
    "stopped StatusInconclusive OutcomeInconclusive m' m \<or> stopped StatusFailed OutcomeFailed m' m \<or>
     m = m'\<lparr>dl_phase := Review\<rparr>"
proof -
  from assms obtain s' where a: "dl_phase s = Test" "dl_status s = Active" "accept_worker Test w s = Ok s'"
    and m: "stopped StatusInconclusive OutcomeInconclusive (s'\<lparr>dl_test_results := results\<rparr>) m \<or>
      stopped StatusFailed OutcomeFailed (s'\<lparr>dl_test_results := results\<rparr>) m \<or>
      m = s'\<lparr>dl_test_results := results, dl_phase := Review\<rparr>"
    unfolding complete_test_def Let_def by (fastforce dest: finish_with_Ok split: if_splits)
  from worker_usage [OF a(3), of "CompleteTest w results"] obtain usage where "usage_after (CompleteTest w results) s usage"
    "s' = s\<lparr>dl_usage := usage\<rparr>" by auto
  with a m show thesis by (auto intro: that)
qed

lemma complete_review_Ok:
  assumes "complete_review env w review s = Ok m"
  obtains usage m' where "dl_phase s = Review" "dl_status s = Active" "usage_after (CompleteReview w review) s usage"
    "m' = s\<lparr>dl_usage := usage, dl_review := Some review\<rparr>"
    "stopped StatusFailed OutcomeFailed m' m \<or> stopped StatusInconclusive OutcomeInconclusive m' m \<or>
     m = m'\<lparr>dl_phase := Verify\<rparr>"
proof -
  from assms obtain s' where a: "dl_phase s = Review" "dl_status s = Active" "accept_worker Review w s = Ok s'"
    and m: "stopped StatusInconclusive OutcomeInconclusive (s'\<lparr>dl_review := Some review\<rparr>) m \<or>
      stopped StatusFailed OutcomeFailed (s'\<lparr>dl_review := Some review\<rparr>) m \<or>
      m = s'\<lparr>dl_review := Some review, dl_phase := Verify\<rparr>"
    unfolding complete_review_def Let_def
    by (fastforce dest: finish_with_Ok split: if_splits lifecycle_review_verdict.splits)
  from worker_usage [OF a(3), of "CompleteReview w review"] obtain usage where "usage_after (CompleteReview w review) s usage"
    "s' = s\<lparr>dl_usage := usage\<rparr>" by auto
  with a m show thesis by (auto intro: that)
qed

lemma complete_verify_Ok:
  assumes "complete_verify env w v s = Ok m"
  obtains usage m' where "dl_phase s = Verify" "dl_status s = Active" "usage_after (CompleteVerify w v) s usage"
    "m' = s\<lparr>dl_usage := usage, dl_verification := Some v\<rparr>"
    "stopped StatusFailed OutcomeFailed m' m \<or> stopped StatusInconclusive OutcomeInconclusive m' m \<or>
     (lv_verdict v = Verified \<and> m = m'\<lparr>dl_phase := Apply, dl_status := AwaitingApproval\<rparr>) \<or>
     (\<not> dl_repair_reserved s \<and> \<not> dl_repair_consumed s \<and>
        m = m'\<lparr>dl_status := RepairReserved, dl_repair_reserved := True\<rparr>)"
proof -
  from assms obtain s' where a: "dl_phase s = Verify" "dl_status s = Active" "accept_worker Verify w s = Ok s'"
    and m: "stopped StatusInconclusive OutcomeInconclusive (s'\<lparr>dl_verification := Some v\<rparr>) m \<or>
      stopped StatusFailed OutcomeFailed (s'\<lparr>dl_verification := Some v\<rparr>) m \<or>
      (lv_verdict v = Verified \<and> m = s'\<lparr>dl_verification := Some v, dl_phase := Apply, dl_status := AwaitingApproval\<rparr>) \<or>
      (\<not> dl_repair_reserved s' \<and> \<not> dl_repair_consumed s' \<and>
         m = s'\<lparr>dl_verification := Some v, dl_status := RepairReserved, dl_repair_reserved := True\<rparr>)"
    unfolding complete_verify_def Let_def
    by (fastforce dest: finish_with_Ok split: if_splits verification_status.splits)
  from worker_usage [OF a(3), of "CompleteVerify w v"] obtain usage where "usage_after (CompleteVerify w v) s usage"
    "s' = s\<lparr>dl_usage := usage\<rparr>" by auto
  with a m show thesis by (auto intro: that)
qed

lemma consume_repair_Ok:
  assumes "consume_repair s = Ok m"
  obtains "dl_phase s = Verify" "dl_status s = RepairReserved" "\<not> dl_repair_consumed s"
    "m = s\<lparr>dl_repair_reserved := False, dl_repair_consumed := True, dl_phase := Implement, dl_status := Active,
       dl_patch := None, dl_test_results := [], dl_review := None, dl_verification := None, dl_approval := None,
       dl_apply_id := None\<rparr>"
  using assms by (auto simp: consume_repair_def guard_Ok_iff)

lemma approve_apply_Ok:
  assumes "approve_apply env a s = Ok m"
  obtains "dl_phase s = Apply" "dl_status s = AwaitingApproval" "ly_approved_state_digest a = state_digest env s"
    "ly_decision_source a = WebUser" "m = s\<lparr>dl_approval := Some a, dl_status := StatusApproved\<rparr>"
  using assms by (auto simp: approve_apply_def guard_Ok_iff)

lemma start_apply_Ok:
  assumes "start_apply apply_id s = Ok m"
  obtains "dl_phase s = Apply" "dl_status s = StatusApproved"
    "m = s\<lparr>dl_apply_id := Some apply_id, dl_status := StatusApplying\<rparr>"
  using assms by (auto simp: start_apply_def guard_Ok_iff)

lemma finish_apply_Ok:
  assumes "finish_apply env apply_id status s = Ok m"
  obtains st oc where "dl_phase s = Apply" "dl_status s = StatusApplying" "stopped st oc s m"
    "(st, oc) \<in> {(Completed, OutcomeApplied), (StatusRolledBack, OutcomeRolledBack),
      (StatusFailed, OutcomeRollbackFailed), (StatusFailed, OutcomeRecoveryConflict)}"
proof -
  from assms have "dl_phase s = Apply" "dl_status s = StatusApplying"
    and "stopped Completed OutcomeApplied s m \<or> stopped StatusRolledBack OutcomeRolledBack s m \<or>
      stopped StatusFailed OutcomeRollbackFailed s m \<or> stopped StatusFailed OutcomeRecoveryConflict s m"
    unfolding finish_apply_def guard_Ok_iff
    by (auto simp: stopped_def dest: finish_with_Ok [unfolded stopped_def] split: change_apply_status.splits)
  then show thesis by (auto intro: that)
qed

lemma stop_transition_Ok:
  assumes "stop_transition st oc reason s = Ok m"
  obtains "dl_status s \<noteq> StatusApplying" "stopped st oc s m"
  using assms by (auto simp: stop_transition_def guard_Ok_iff stopped_def)

lemmas step_elims = complete_explore_Ok complete_implement_Ok complete_test_Ok complete_review_Ok complete_verify_Ok
  consume_repair_Ok approve_apply_Ok start_apply_Ok finish_apply_Ok stop_transition_Ok

text \<open>No transition changes the identity, the specification or the creation time.\<close>

definition same_frame :: "development_lifecycle \<Rightarrow> development_lifecycle \<Rightarrow> bool" where
  "same_frame s m \<longleftrightarrow> dl_id m = dl_id s \<and> dl_change_id m = dl_change_id s \<and> dl_source_snapshot m = dl_source_snapshot s \<and>
     dl_spec m = dl_spec s \<and> dl_generation m = dl_generation s \<and> dl_created m = dl_created s"

lemma apply_transition_same_frame: "apply_transition env t s = Ok m \<Longrightarrow> same_frame s m"
  by (cases t) (auto elim!: step_elims simp: stopped_def finish_terminal_def same_frame_def)

lemmas apply_transition_frame = apply_transition_same_frame [unfolded same_frame_def]

definition next_of :: "development_lifecycle \<Rightarrow> u64 \<Rightarrow> development_lifecycle" where
  "next_of m now = m\<lparr>dl_generation := dl_generation m + 1, dl_updated := now\<rparr>"

lemma transition_Ok_iff:
  "transition env s t now = Ok (s', e) \<longleftrightarrow>
     lifecycle_validate env s = Ok () \<and> \<not> terminal (dl_status s) \<and> \<not> now < dl_updated s \<and>
     \<not> dated_outside t (dl_created s) now \<and>
     (\<exists>m. apply_transition env t s = Ok m \<and> unat (dl_generation m) + 1 < 2 ^ 64 \<and> s' = next_of m now \<and>
        lifecycle_validate env s' = Ok () \<and> event_transitioned env s' (state_digest env s) t now = Ok e)"
  unfolding transition_def next_of_def
  by (auto simp: guard_Ok_iff Let_def checked_add_def split: if_splits)

text \<open>The event a transition writes.\<close>

lemma event_transitioned_fields:
  assumes "event_transitioned env s prior t now = Ok e"
  shows "ev_sequence e = dl_generation s" "ev_prior_state_digest e = Some prior" "ev_kind e = Transitioned t"
    "ev_created e = now" "ev_resulting_state_digest e = state_digest env s"
  using assms by (auto simp: event_transitioned_def Let_def)

lemma transition_event:
  assumes "transition env s t now = Ok (s', e)"
  shows "ev_sequence e = dl_generation s + 1" "ev_prior_state_digest e = Some (state_digest env s)"
    "ev_kind e = Transitioned t" "ev_created e = now" "ev_resulting_state_digest e = state_digest env s'"
  using assms by (auto simp: transition_Ok_iff next_of_def event_transitioned_fields dest: apply_transition_frame)

lemma transition_frame:
  assumes "transition env s t now = Ok (s', e)"
  shows "dl_id s' = dl_id s" "dl_change_id s' = dl_change_id s" "dl_source_snapshot s' = dl_source_snapshot s"
    "dl_spec s' = dl_spec s" "dl_created s' = dl_created s" "dl_updated s' = now" "dl_updated s \<le> now"
    "dl_generation s' = dl_generation s + 1"
  using assms by (auto simp: transition_Ok_iff next_of_def dest: apply_transition_frame)

lemma transition_valid:
  "transition env s t now = Ok (s', e) \<Longrightarrow> lifecycle_validate env s = Ok () \<and> lifecycle_validate env s' = Ok ()"
  by (auto simp: transition_Ok_iff)

section \<open>What validation gives\<close>

lemma lifecycle_validate_iff:
  "lifecycle_validate env s = Ok () \<longleftrightarrow>
     spec_validate (env_blake3 env) (dl_spec s) = Ok () \<and>
     dl_id s = lifecycle_id_compute (env_blake3 env) (dl_change_id s) (dl_source_snapshot s) (ls_profiles (dl_spec s)) \<and>
     \<not> dl_updated s < dl_created s \<and> usage_within (dl_usage s) (ls_budget (dl_spec s)) \<and>
     dl_generation s < MAX_LIFECYCLE_EVENTS \<and> terminal_fields_agree s \<and>
     \<not> (dl_repair_reserved s \<and> dl_repair_consumed s) \<and>
     validate_artifact_chain env s = Ok () \<and> validate_status_shape s = Ok () \<and>
     (\<exists>bytes. env_state_json env s = Some bytes \<and> length bytes \<le> MAX_LIFECYCLE_STATE_BYTES)"
  unfolding lifecycle_validate_def by (auto simp: guard_Ok_iff not_le not_less)

lemma validate_artifact_chain_iff:
  "validate_artifact_chain env s = Ok () \<longleftrightarrow>
     check_exploration s = Ok () \<and> check_patch s = Ok () \<and> check_results env s = Ok () \<and> check_review env s = Ok () \<and>
     check_verification s = Ok () \<and> check_approval env s = Ok () \<and> (dl_apply_id s \<noteq> None \<longrightarrow> dl_approval s \<noteq> None)"
  unfolding validate_artifact_chain_def by (auto simp: guard_Ok_iff)

lemma validate_status_shape_terminal:
  "terminal (dl_status s) \<Longrightarrow> validate_status_shape s = Ok () \<longleftrightarrow>
     valid_terminal (dl_status s) (dl_terminal_outcome s) \<and> \<not> dl_repair_reserved s \<and>
     (apply_outcome (dl_terminal_outcome s) \<longrightarrow> dl_phase s = Apply \<and> dl_apply_id s \<noteq> None)"
  by (simp add: validate_status_shape_def)

lemma validate_status_shape_live:
  "\<not> terminal (dl_status s) \<Longrightarrow> validate_status_shape s = Ok () \<longleftrightarrow>
     live_shape (dl_phase s) (dl_status s) s \<and> dl_terminal_outcome s = None \<and> dl_terminal_reason s = None"
  by (simp add: validate_status_shape_def)

section \<open>The abstract stage machine\<close>

text \<open>
  A lifecycle seen from outside is in one of these stages; the flag says whether the single
  repair has been used.
\<close>

datatype stage =
    Exploring | Implementing bool | Testing bool | Reviewing bool | Verifying bool | RepairPending
  | AwaitingDecision bool | Permitted bool | Writing bool | Done lifecycle_terminal_outcome

inductive stage_step :: "stage \<Rightarrow> stage \<Rightarrow> bool" where
  explored: "stage_step Exploring (Implementing False)"
| implemented: "stage_step (Implementing r) (Testing r)"
| tested: "stage_step (Testing r) (Reviewing r)"
| reviewed: "stage_step (Reviewing r) (Verifying r)"
| verified: "stage_step (Verifying r) (AwaitingDecision r)"
| repairable: "stage_step (Verifying False) RepairPending"
| repair: "stage_step RepairPending (Implementing True)"
| permitted: "stage_step (AwaitingDecision r) (Permitted r)"
| writing: "stage_step (Permitted r) (Writing r)"
| written: "oc \<in> {OutcomeApplied, OutcomeRolledBack, OutcomeRollbackFailed, OutcomeRecoveryConflict} \<Longrightarrow>
    stage_step (Writing r) (Done oc)"
| stopped_early: "(\<forall>r. g \<noteq> Writing r) \<Longrightarrow> (\<forall>oc. g \<noteq> Done oc) \<Longrightarrow>
    oc \<in> {OutcomeFailed, OutcomeCancelled, OutcomeInconclusive} \<Longrightarrow> stage_step g (Done oc)"

inductive_cases from_done: "stage_step (Done oc) g"
inductive_cases from_writing: "stage_step (Writing r) g"
inductive_cases from_permitted: "stage_step (Permitted r) g"

definition stage_of :: "development_lifecycle \<Rightarrow> stage" where
  "stage_of s =
     (case dl_terminal_outcome s of
        Some oc \<Rightarrow> Done oc
      | None \<Rightarrow>
          (case dl_phase s of
             Explore \<Rightarrow> Exploring
           | Implement \<Rightarrow> Implementing (dl_repair_consumed s)
           | Test \<Rightarrow> Testing (dl_repair_consumed s)
           | Review \<Rightarrow> Reviewing (dl_repair_consumed s)
           | Verify \<Rightarrow> if dl_status s = RepairReserved then RepairPending else Verifying (dl_repair_consumed s)
           | Apply \<Rightarrow>
               if dl_status s = StatusApproved then Permitted (dl_repair_consumed s)
               else if dl_status s = StatusApplying then Writing (dl_repair_consumed s)
               else AwaitingDecision (dl_repair_consumed s)))"

lemma stage_of_next [simp]: "stage_of (next_of m now) = stage_of m"
  by (simp add: stage_of_def next_of_def split: lifecycle_phase.split option.split)

lemma stage_of_stopped: "stopped st oc s m \<Longrightarrow> stage_of m = Done oc"
  by (auto simp: stopped_def finish_terminal_def stage_of_def)

text \<open>A valid live state has a phase and status that go together.\<close>

lemma live_shape_pairs:
  "live_shape p st s \<Longrightarrow> (p, st) \<in> {(Explore, Active), (Implement, Active), (Test, Active), (Review, Active),
     (Verify, Active), (Verify, RepairReserved), (Apply, AwaitingApproval), (Apply, StatusApproved), (Apply, StatusApplying)}"
  by (cases "(p, st, s)" rule: live_shape.cases) auto

lemma live_of_valid:
  assumes "lifecycle_validate env s = Ok ()" "\<not> terminal (dl_status s)"
  shows "live_shape (dl_phase s) (dl_status s) s" "dl_terminal_outcome s = None" "dl_terminal_reason s = None"
  using assms by (auto simp: lifecycle_validate_iff validate_status_shape_live)

lemma live_stage_stop:
  assumes "lifecycle_validate env s = Ok ()" "\<not> terminal (dl_status s)" "dl_status s \<noteq> StatusApplying"
    and "oc \<in> {OutcomeFailed, OutcomeCancelled, OutcomeInconclusive}"
  shows "stage_step (stage_of s) (Done oc)"
  using assms(3,4) live_of_valid(2) [OF assms(1,2)]
  by (intro stopped_early) (auto simp: stage_of_def split: lifecycle_phase.splits)

lemma explore_not_repaired:
  "lifecycle_validate env s = Ok () \<Longrightarrow> dl_phase s = Explore \<Longrightarrow> dl_status s = Active \<Longrightarrow> \<not> dl_repair_consumed s"
  using live_of_valid(1) [of env s] by auto

lemma apply_transition_stage:
  assumes v: "lifecycle_validate env s = Ok ()" and live: "\<not> terminal (dl_status s)"
    and t: "apply_transition env t s = Ok m"
  shows "stage_step (stage_of s) (stage_of m)"
proof -
  note none = live_of_valid(2) [OF v live]
  have stop: "stage_step (stage_of s) (stage_of m)"
    if "stopped st oc s' m" "dl_status s \<noteq> StatusApplying" "oc \<in> {OutcomeFailed, OutcomeCancelled, OutcomeInconclusive}"
    for st oc s'
    using live_stage_stop [OF v live that(2,3)] stage_of_stopped [OF that(1)] by simp
  show ?thesis
  proof (cases t)
    case (CompleteExplore w artifacts)
    with t none show ?thesis
      by (auto elim!: complete_explore_Ok simp: stage_of_def explore_not_repaired [OF v] intro: stage_step.intros)
  next
    case (CompleteImplement w patch)
    with t none show ?thesis by (auto elim!: complete_implement_Ok simp: stage_of_def intro: stage_step.intros)
  next
    case (CompleteTest w results)
    with t have "complete_test env w results s = Ok m" by simp
    then show ?thesis
      by (rule complete_test_Ok) (use none in \<open>auto simp: stopped_def finish_terminal_def stage_of_def intro: stage_step.intros\<close>)
  next
    case (CompleteReview w review)
    with t have "complete_review env w review s = Ok m" by simp
    then show ?thesis
      by (rule complete_review_Ok) (use none in \<open>auto simp: stopped_def finish_terminal_def stage_of_def intro: stage_step.intros\<close>)
  next
    case (CompleteVerify w v)
    with t have "complete_verify env w v s = Ok m" by simp
    then show ?thesis
      by (rule complete_verify_Ok) (use none in \<open>auto simp: stopped_def finish_terminal_def stage_of_def intro: stage_step.intros\<close>)
  next
    case ConsumeRepair
    with t none show ?thesis by (auto elim!: consume_repair_Ok simp: stage_of_def intro: stage_step.intros)
  next
    case (ApproveApply a)
    with t none show ?thesis by (auto elim!: approve_apply_Ok simp: stage_of_def intro: stage_step.intros)
  next
    case (StartApply i)
    with t none show ?thesis by (auto elim!: start_apply_Ok simp: stage_of_def intro: stage_step.intros)
  next
    case (FinishApply i status)
    with t none show ?thesis
      by (auto elim!: finish_apply_Ok simp: stage_of_stopped) (auto simp: stage_of_def intro: stage_step.intros)
  next
    case (Cancel r)
    with t show ?thesis by (auto elim!: stop_transition_Ok intro: stop)
  next
    case (Fail r)
    with t show ?thesis by (auto elim!: stop_transition_Ok intro: stop)
  qed
qed

lemma transition_refines: "transition env s t now = Ok (s', e) \<Longrightarrow> stage_step (stage_of s) (stage_of s')"
  by (auto simp: transition_Ok_iff dest: apply_transition_stage)

section \<open>Termination\<close>

fun stage_rank :: "stage \<Rightarrow> nat" where
  "stage_rank Exploring = 13"
| "stage_rank (Implementing r) = (if r then 7 else 12)"
| "stage_rank (Testing r) = (if r then 6 else 11)"
| "stage_rank (Reviewing r) = (if r then 5 else 10)"
| "stage_rank (Verifying r) = (if r then 4 else 9)"
| "stage_rank RepairPending = 8"
| "stage_rank (AwaitingDecision r) = 3"
| "stage_rank (Permitted r) = 2"
| "stage_rank (Writing r) = 1"
| "stage_rank (Done oc) = 0"

lemma stage_rank_pos: "(\<forall>oc. g \<noteq> Done oc) \<Longrightarrow> 0 < stage_rank g"
  by (cases g) auto

text \<open>
  The interface of a machine whose steps lower a rank: every run is at most as long as the rank of
  its first state, and no run is infinite.
\<close>

locale ranked_machine =
  fixes step :: "'s \<Rightarrow> 's \<Rightarrow> bool" and rank :: "'s \<Rightarrow> nat"
  assumes step_lowers: "step s s' \<Longrightarrow> rank s' < rank s"
begin

lemma run_bounded: "(step ^^ n) s s' \<Longrightarrow> n + rank s' \<le> rank s"
proof (induction n arbitrary: s')
  case (Suc n)
  then obtain m where "(step ^^ n) s m" "step m s'" by auto
  with Suc.IH [of m] step_lowers [of m s'] show ?case by linarith
qed simp

lemma no_infinite_run: "\<not> (\<forall>i. step (f i) (f (Suc i)))"
proof
  assume a: "\<forall>i. step (f i) (f (Suc i))"
  have "(step ^^ n) (f 0) (f n)" for n by (induction n) (use a in auto)
  from run_bounded [OF this [of "Suc (rank (f 0))"]] show False by simp
qed

end

interpretation stages: ranked_machine stage_step stage_rank
proof unfold_locales
  fix g g' assume "stage_step g g'"
  then show "stage_rank g' < stage_rank g"
    by cases (auto simp: stage_rank_pos)
qed

text \<open>The steps of the code inherit the rank through the refinement.\<close>

definition lifecycle_steps :: "lifecycle_env \<Rightarrow> development_lifecycle \<Rightarrow> development_lifecycle \<Rightarrow> bool" where
  "lifecycle_steps env s s' \<longleftrightarrow> (\<exists>t now e. transition env s t now = Ok (s', e))"

interpretation lifecycles: ranked_machine "lifecycle_steps env" "\<lambda>s. stage_rank (stage_of s)" for env
  by unfold_locales (auto simp: lifecycle_steps_def dest!: transition_refines stages.step_lowers)

section \<open>Reachable states and runs\<close>

inductive reachable :: "lifecycle_env \<Rightarrow> development_lifecycle \<Rightarrow> bool" for env where
  fresh: "lifecycle_new env change_id source_snapshot spec created = Ok s \<Longrightarrow> reachable env s"
| advance: "reachable env s \<Longrightarrow> transition env s t now = Ok (s', e) \<Longrightarrow> reachable env s'"

fun run :: "lifecycle_env \<Rightarrow> development_lifecycle \<Rightarrow> (lifecycle_transition \<times> u64) list \<Rightarrow>
    (development_lifecycle \<times> lifecycle_event list, lifecycle_error) result" where
  "run env s [] = Ok (s, [])"
| "run env s ((t, now) # steps) =
     rbind (transition env s t now) (\<lambda>(s', e). rbind (run env s' steps) (\<lambda>(f, es). Ok (f, e # es)))"

lemma run_Cons_Ok:
  "run env s ((t, now) # steps) = Ok (f, es) \<longleftrightarrow>
     (\<exists>s' e es'. transition env s t now = Ok (s', e) \<and> run env s' steps = Ok (f, es') \<and> es = e # es')"
  by auto

declare run.simps(2) [simp del]

lemma run_snoc_Ok:
  "run env s (steps @ [(t, now)]) = Ok (f, es) \<longleftrightarrow>
     (\<exists>m es' e. run env s steps = Ok (m, es') \<and> transition env m t now = Ok (f, e) \<and> es = es' @ [e])"
  by (induction steps arbitrary: s es) (auto simp: run_Cons_Ok)

lemma run_steps: "run env s steps = Ok (f, es) \<Longrightarrow> (lifecycle_steps env ^^ length steps) s f"
proof (induction steps arbitrary: s es)
  case (Cons x steps)
  then show ?case
    by (cases x) (auto simp: run_Cons_Ok lifecycle_steps_def relpowp_commute [symmetric] intro!: relcomppI)
qed simp

lemma run_reachable: "run env s steps = Ok (f, es) \<Longrightarrow> reachable env s \<Longrightarrow> reachable env f"
proof (induction steps arbitrary: s es)
  case (Cons x steps)
  then show ?case by (cases x) (metis run_Cons_Ok reachable.advance)
qed simp

text \<open>A new lifecycle.\<close>

lemma lifecycle_new_Ok:
  assumes "lifecycle_new env change_id source_snapshot spec created = Ok s"
  shows "lifecycle_validate env s = Ok ()" "dl_generation s = 0" "dl_usage s = usage_default" "stage_of s = Exploring"
    "dl_spec s = spec" "dl_approval s = None" "\<not> dl_repair_consumed s" "\<not> terminal (dl_status s)"
  using assms by (auto simp: lifecycle_new_def Let_def stage_of_def)

lemma reachable_valid: "reachable env s \<Longrightarrow> lifecycle_validate env s = Ok ()"
  by (induction rule: reachable.induct) (auto dest: lifecycle_new_Ok(1) transition_valid)

lemma valid_generation: "lifecycle_validate env s = Ok () \<Longrightarrow> unat (dl_generation s) < 16"
  by (auto simp: lifecycle_validate_iff MAX_LIFECYCLE_EVENTS_def word_less_nat_alt)

lemma transition_generation:
  "transition env s t now = Ok (s', e) \<Longrightarrow> unat (dl_generation s') = unat (dl_generation s) + 1"
  using transition_frame(8) [of env s t now s' e] transition_valid [of env s t now s' e]
    valid_generation [of env s] by (simp add: unat_word_ariths)

text \<open>Every transition uses up one unit of the rank, so the journal never reaches its bound of 16 events.\<close>

lemma reachable_generation: "reachable env s \<Longrightarrow> unat (dl_generation s) + stage_rank (stage_of s) \<le> 13"
proof (induction rule: reachable.induct)
  case (fresh change_id source_snapshot spec created s)
  then show ?case by (simp add: lifecycle_new_Ok)
next
  case (advance s t now s' e)
  have "stage_rank (stage_of s') < stage_rank (stage_of s)"
    using advance.hyps(2) by (intro lifecycles.step_lowers [of env]) (unfold lifecycle_steps_def, blast)
  with advance.IH transition_generation [OF advance.hyps(2)] show ?case by linarith
qed

lemma run_generation: "run env s steps = Ok (f, es) \<Longrightarrow> unat (dl_generation f) = unat (dl_generation s) + length steps"
  by (induction steps arbitrary: s es) (auto simp: run_Cons_Ok dest!: transition_generation)

section \<open>The single repair\<close>

definition repairs :: "(lifecycle_transition \<times> u64) list \<Rightarrow> nat" where
  "repairs steps = length (filter (\<lambda>step. fst step = ConsumeRepair) steps)"

lemma apply_transition_repair:
  "apply_transition env t s = Ok m \<Longrightarrow>
     (if t = ConsumeRepair then \<not> dl_repair_consumed s \<and> dl_repair_consumed m
      else dl_repair_consumed m = dl_repair_consumed s)"
  by (cases t) (auto elim!: step_elims simp: stopped_def finish_terminal_def)

lemma run_repairs:
  "run env s steps = Ok (f, es) \<Longrightarrow>
     of_bool (dl_repair_consumed f) = of_bool (dl_repair_consumed s) + repairs steps"
proof (induction steps arbitrary: s es)
  case (Cons x steps)
  obtain t now where x: "x = (t, now)" by force
  with Cons.prems obtain s' e es' where t: "transition env s t now = Ok (s', e)" and r: "run env s' steps = Ok (f, es')"
    by (auto simp: run_Cons_Ok)
  from t obtain m where "apply_transition env t s = Ok m" "s' = next_of m now" by (auto simp: transition_Ok_iff)
  with apply_transition_repair [of env t s m] Cons.IH [OF r] x show ?case
    by (auto simp: repairs_def next_of_def split: if_splits)
qed (simp add: repairs_def)

section \<open>Accounting of usage\<close>

definition spent :: "(lifecycle_usage \<Rightarrow> 'a::len word) \<Rightarrow> lifecycle_transition \<Rightarrow> nat" where
  "spent field t = (case transition_worker t of None \<Rightarrow> 0 | Some w \<Rightarrow> unat (field (lw_usage w)))"

lemma usage_checked_add_Ok:
  "usage_checked_add u d = Ok v \<Longrightarrow>
     unat (lu_worker_turns v) = unat (lu_worker_turns u) + unat (lu_worker_turns d) \<and>
     unat (lu_output_tokens v) = unat (lu_output_tokens u) + unat (lu_output_tokens d) \<and>
     unat (lu_cost_microusd v) = unat (lu_cost_microusd u) + unat (lu_cost_microusd d)"
  by (auto simp: usage_checked_add_def dest!: checked_add_Some)

lemma apply_transition_usage: "apply_transition env t s = Ok m \<Longrightarrow> usage_after t s (dl_usage m)"
  by (cases t) (auto elim!: step_elims simp: stopped_def finish_terminal_def usage_after_def)

lemma usage_after_spent:
  "usage_after t s v \<Longrightarrow>
     unat (lu_worker_turns v) = unat (lu_worker_turns (dl_usage s)) + spent lu_worker_turns t \<and>
     unat (lu_output_tokens v) = unat (lu_output_tokens (dl_usage s)) + spent lu_output_tokens t \<and>
     unat (lu_cost_microusd v) = unat (lu_cost_microusd (dl_usage s)) + spent lu_cost_microusd t"
  by (auto simp: usage_after_def spent_def dest!: usage_checked_add_Ok split: option.splits)

lemma run_usage:
  "run env s steps = Ok (f, es) \<Longrightarrow>
     unat (lu_worker_turns (dl_usage f)) = unat (lu_worker_turns (dl_usage s)) + (\<Sum>(t, _)\<leftarrow>steps. spent lu_worker_turns t) \<and>
     unat (lu_output_tokens (dl_usage f)) = unat (lu_output_tokens (dl_usage s)) + (\<Sum>(t, _)\<leftarrow>steps. spent lu_output_tokens t) \<and>
     unat (lu_cost_microusd (dl_usage f)) = unat (lu_cost_microusd (dl_usage s)) + (\<Sum>(t, _)\<leftarrow>steps. spent lu_cost_microusd t)"
proof (induction steps arbitrary: s es)
  case (Cons x steps)
  obtain t now where x: "x = (t, now)" by force
  with Cons.prems obtain s' e es' where t: "transition env s t now = Ok (s', e)" and r: "run env s' steps = Ok (f, es')"
    by (auto simp: run_Cons_Ok)
  from t obtain m where "apply_transition env t s = Ok m" "s' = next_of m now" by (auto simp: transition_Ok_iff)
  then have "usage_after t s (dl_usage s')" by (simp add: next_of_def apply_transition_usage)
  with Cons.IH [OF r] x show ?case by (auto dest!: usage_after_spent)
qed simp

lemma run_spec: "run env s steps = Ok (f, es) \<Longrightarrow> dl_spec f = dl_spec s"
  by (induction steps arbitrary: s es) (auto simp: run_Cons_Ok transition_frame(4))

section \<open>Replay\<close>

lemma replay_loop_Cons_iff:
  "replay_loop env s (e # es) = Ok f \<longleftrightarrow>
     (\<exists>t s'. transition env s t (ev_created e) = Ok (s', e) \<and> replay_loop env s' es = Ok f)" (is "?l \<longleftrightarrow> ?r")
proof
  assume ?l
  then show ?r by (cases "ev_kind e") (auto simp del: replay_loop.simps(1) split: if_splits)
next
  assume ?r
  then obtain t s' where t: "transition env s t (ev_created e) = Ok (s', e)" and r: "replay_loop env s' es = Ok f" by blast
  note ev = transition_event [OF t]
  show ?l using t r by (simp add: ev(1-3,5))
qed

lemma replay_loop_Ok_iff:
  "replay_loop env s es = Ok f \<longleftrightarrow> (\<exists>steps. run env s steps = Ok (f, es))"
proof (induction es arbitrary: s)
  case Nil
  have "run env s steps = Ok (f, []) \<longleftrightarrow> steps = [] \<and> f = s" for steps
    by (cases steps) (auto simp: run_Cons_Ok)
  then show ?case by auto
next
  case (Cons e es)
  have "replay_loop env s (e # es) = Ok f \<longleftrightarrow>
      (\<exists>t s'. transition env s t (ev_created e) = Ok (s', e) \<and> replay_loop env s' es = Ok f)"
    by (rule replay_loop_Cons_iff)
  also have "\<dots> \<longleftrightarrow> (\<exists>t now s'. transition env s t now = Ok (s', e) \<and> replay_loop env s' es = Ok f)"
    by (metis transition_event(4))
  also have "\<dots> \<longleftrightarrow> (\<exists>steps. run env s steps = Ok (f, e # es))"
  proof
    assume "\<exists>t now s'. transition env s t now = Ok (s', e) \<and> replay_loop env s' es = Ok f"
    then show "\<exists>steps. run env s steps = Ok (f, e # es)" using Cons.IH run_Cons_Ok by blast
  next
    assume "\<exists>steps. run env s steps = Ok (f, e # es)"
    then obtain steps where r: "run env s steps = Ok (f, e # es)" by blast
    then obtain t now rest where "steps = (t, now) # rest" by (cases steps) auto
    with r show "\<exists>t now s'. transition env s t now = Ok (s', e) \<and> replay_loop env s' es = Ok f"
      using Cons.IH by (auto simp: run_Cons_Ok)
  qed
  finally show ?case .
qed

lemma event_created_kind: "event_created env s = Ok e \<Longrightarrow> ev_kind e = Created s"
  by (auto simp: event_created_def Let_def)

lemma replay_Ok_iff:
  "lifecycle_replay env es = Ok f \<longleftrightarrow>
     (\<exists>s e rest steps. es = e # rest \<and> lifecycle_validate env s = Ok () \<and> event_created env s = Ok e \<and>
        run env s steps = Ok (f, rest))"
  by (cases es) (auto simp: replay_loop_Ok_iff event_created_kind split: lifecycle_event_kind.splits if_splits)

lemma run_valid: "run env s steps = Ok (f, es) \<Longrightarrow> lifecycle_validate env s = Ok () \<Longrightarrow> lifecycle_validate env f = Ok ()"
proof (induction steps arbitrary: s es)
  case (Cons x steps)
  then show ?case by (cases x) (metis run_Cons_Ok transition_valid)
qed simp

lemma run_replay_append:
  "run env s steps = Ok (f, es) \<Longrightarrow> replay_loop env s (es @ rest) = replay_loop env f rest"
proof (induction steps arbitrary: s es)
  case (Cons x steps)
  obtain t now where x: "x = (t, now)" by force
  with Cons.prems obtain s' e es' where t: "transition env s t now = Ok (s', e)" and r: "run env s' steps = Ok (f, es')"
    and es: "es = e # es'" by (auto simp: run_Cons_Ok)
  note ev = transition_event [OF t]
  show ?case using t Cons.IH [OF r] es by (simp add: ev)
qed simp

section \<open>Evidence behind an applied change\<close>

lemma valid_chain:
  assumes "lifecycle_validate env s = Ok ()"
  shows "check_patch s = Ok ()" "check_results env s = Ok ()" "check_review env s = Ok ()"
    "check_verification s = Ok ()" "check_approval env s = Ok ()" "dl_apply_id s \<noteq> None \<Longrightarrow> dl_approval s \<noteq> None"
  using assms by (auto simp: lifecycle_validate_iff validate_artifact_chain_iff)

lemma check_approval_Some:
  assumes "check_approval env s = Ok ()" "dl_approval s = Some a"
  obtains p v where "dl_patch s = Some p" "dl_verification s = Some v" "approval_is_canonical (env_blake3 env) a"
    "lv_verdict v = Verified" "ly_patch_id a = lp_patch_id p" "ly_verification_id a = lv_verification_id v"
  using assms by (auto simp: check_approval_def guard_Ok_iff)

lemma check_verification_Some:
  assumes "check_verification s = Ok ()" "dl_verification s = Some v" "dl_patch s = Some p"
  obtains r where "dl_review s = Some r" "ra_verdict r = ReviewApproved" "lv_patch_id v = lp_patch_id p"
  using assms by (auto simp: check_verification_def guard_Ok_iff)

lemma check_review_Some:
  assumes "check_review env s = Ok ()" "dl_review s = Some r" "dl_patch s = Some p"
  shows "\<forall>t \<in> set (dl_test_results s). lt_passed t" "length (dl_test_results s) = length (ls_test_plans (dl_spec s))"
    "review_is_canonical env r" "ra_change_id r = dl_change_id s" "ra_patch_id r = lp_patch_id p"
    "ra_reviewer_definition r = pv_definition_digest (wp_review (ls_profiles (dl_spec s)))"
  using assms by (auto simp: check_review_def guard_Ok_iff)

lemma validate_results_Ok:
  assumes "validate_results blake3 rs bs = Ok ()" "length rs = length bs"
  shows "list_all2 (\<lambda>r b. test_result_validate r = Ok () \<and> lt_plan_digest r = binding_plan_digest blake3 b \<and>
    lt_certificate_digest r = tb_certificate_digest b) rs bs"
  using assms(2,1) by (induction rs bs rule: list_induct2) (auto simp: guard_Ok_iff)

lemma passed_has_evidence: "test_result_validate r = Ok () \<Longrightarrow> lt_passed r \<Longrightarrow>
    lt_available r \<and> lt_executed r \<and> lt_evidence_id r \<noteq> None \<and> lt_failure_code r = None"
  by (auto simp: test_result_validate_def split: if_splits)

lemma canonical_approved_addressed: "review_is_canonical env r \<Longrightarrow> ra_verdict r = ReviewApproved \<Longrightarrow>
    ra_acceptance_coverage r \<noteq> [] \<and> (\<forall>c \<in> set (ra_acceptance_coverage r). lc_status c = Addressed)"
  by (auto simp: review_is_canonical_def is_ok_iff review_validate_material_def guard_Ok_iff)

text \<open>A state without a verification has no approval.\<close>

lemma unverified_unapproved:
  "lifecycle_validate env s = Ok () \<Longrightarrow> dl_verification s = None \<Longrightarrow> dl_approval s = None"
  by (cases "dl_approval s") (auto dest!: valid_chain(5) elim: check_approval_Some)

lemma unpatched_unverified: "lifecycle_validate env s = Ok () \<Longrightarrow> dl_patch s = None \<Longrightarrow> dl_verification s = None"
  by (auto dest!: valid_chain(1) simp: check_patch_def split: if_splits)

text \<open>Only a user's approval bound to the digest of the state before it creates an approval, and nothing
  changes the artifacts under it.\<close>

definition same_artifacts :: "development_lifecycle \<Rightarrow> development_lifecycle \<Rightarrow> bool" where
  "same_artifacts s m \<longleftrightarrow> dl_patch m = dl_patch s \<and> dl_test_results m = dl_test_results s \<and> dl_review m = dl_review s \<and>
     dl_verification m = dl_verification s"

lemma apply_transition_approval:
  assumes v: "lifecycle_validate env s = Ok ()" and live: "\<not> terminal (dl_status s)"
    and t: "apply_transition env t s = Ok m" and a: "dl_approval m = Some a"
  shows "same_artifacts s m \<and>
    (dl_approval s = Some a \<or>
     dl_status s = AwaitingApproval \<and> ly_decision_source a = WebUser \<and> ly_approved_state_digest a = state_digest env s)"
proof -
  note shape = live_of_valid(1) [OF v live]
  have un: "dl_approval s = None" if "dl_status s = Active"
    using shape that unverified_unapproved [OF v] unpatched_unverified [OF v] live_shape_pairs [OF shape] by auto
  show ?thesis using t a un
    by (cases t) (auto elim!: step_elims simp: stopped_def finish_terminal_def same_artifacts_def)
qed

lemma transition_approval:
  assumes "transition env s t now = Ok (s', e)" "dl_approval s' = Some a"
  shows "same_artifacts s s' \<and>
    (dl_approval s = Some a \<or>
     dl_status s = AwaitingApproval \<and> ly_decision_source a = WebUser \<and> ly_approved_state_digest a = state_digest env s)"
proof -
  from assms(1) obtain m where m: "lifecycle_validate env s = Ok ()" "\<not> terminal (dl_status s)"
    "apply_transition env t s = Ok m" "s' = next_of m now" by (auto simp: transition_Ok_iff)
  with assms(2) have "dl_approval m = Some a" by (simp add: next_of_def)
  from apply_transition_approval [OF m(1-3) this] m(4) show ?thesis by (simp add: next_of_def same_artifacts_def)
qed

definition approved_by_user :: "lifecycle_env \<Rightarrow> development_lifecycle \<Rightarrow> lifecycle_apply_approval \<Rightarrow> bool" where
  "approved_by_user env s a \<longleftrightarrow>
     ly_decision_source a = WebUser \<and>
     (\<exists>p. reachable env p \<and> dl_status p = AwaitingApproval \<and> ly_approved_state_digest a = state_digest env p \<and>
        same_artifacts p s)"

lemma reachable_approval: "reachable env s \<Longrightarrow> dl_approval s = Some a \<Longrightarrow> approved_by_user env s a"
proof (induction rule: reachable.induct)
  case (fresh change_id source_snapshot spec created s)
  then show ?case by (simp add: lifecycle_new_Ok)
next
  case (advance s t now s' e)
  from transition_approval [OF advance.hyps(2) advance.prems] have same: "same_artifacts s s'"
    and "dl_approval s = Some a \<or> dl_status s = AwaitingApproval \<and> ly_decision_source a = WebUser \<and>
      ly_approved_state_digest a = state_digest env s" by auto
  then show ?case
  proof (elim disjE)
    assume "dl_approval s = Some a"
    with advance.IH same show ?thesis by (auto simp: approved_by_user_def same_artifacts_def)
  qed (use advance.hyps(1) same in \<open>auto simp: approved_by_user_def\<close>)
qed

lemma applied_evidence_raw:
  assumes r: "reachable env s" and o: "dl_terminal_outcome s = Some OutcomeApplied"
  obtains patch review verification approval where
    "dl_patch s = Some patch" "dl_review s = Some review" "dl_verification s = Some verification"
    "dl_approval s = Some approval" "approved_by_user env s approval"
    "approval_is_canonical (env_blake3 env) approval"
    "list_all2 (\<lambda>t b. lt_passed t \<and> lt_executed t \<and> lt_evidence_id t \<noteq> None \<and>
        lt_plan_digest t = binding_plan_digest (env_blake3 env) b \<and> lt_certificate_digest t = tb_certificate_digest b)
      (dl_test_results s) (ls_test_plans (dl_spec s))"
    "review_is_canonical env review" "ra_verdict review = ReviewApproved" "ra_patch_id review = lp_patch_id patch"
    "\<forall>c \<in> set (ra_acceptance_coverage review). lc_status c = Addressed"
    "lv_verdict verification = Verified" "lv_patch_id verification = lp_patch_id patch"
    "ly_patch_id approval = lp_patch_id patch" "ly_verification_id approval = lv_verification_id verification"
proof -
  note v = reachable_valid [OF r]
  have "terminal (dl_status s)" using v o by (auto simp: lifecycle_validate_iff terminal_fields_agree_def)
  with v o have "dl_apply_id s \<noteq> None"
    by (auto simp: lifecycle_validate_iff validate_status_shape_terminal apply_outcome_def)
  then obtain a where a: "dl_approval s = Some a" using valid_chain(6) [OF v] by blast
  obtain p u where p: "dl_patch s = Some p" "dl_verification s = Some u" "approval_is_canonical (env_blake3 env) a"
    "lv_verdict u = Verified" "ly_patch_id a = lp_patch_id p" "ly_verification_id a = lv_verification_id u"
    by (rule check_approval_Some [OF valid_chain(5) [OF v] a])
  obtain w where w: "dl_review s = Some w" "ra_verdict w = ReviewApproved" "lv_patch_id u = lp_patch_id p"
    by (rule check_verification_Some [OF valid_chain(4) [OF v] p(2,1)])
  note rv = check_review_Some [OF valid_chain(3) [OF v] w(1) p(1)]
  have "validate_results (env_blake3 env) (dl_test_results s) (ls_test_plans (dl_spec s)) = Ok ()"
    using valid_chain(2) [OF v] rv(2) by (auto simp: check_results_def split: if_splits)
  from validate_results_Ok [OF this rv(2)]
  have "list_all2 (\<lambda>t b. lt_passed t \<and> lt_executed t \<and> lt_evidence_id t \<noteq> None \<and>
        lt_plan_digest t = binding_plan_digest (env_blake3 env) b \<and> lt_certificate_digest t = tb_certificate_digest b)
      (dl_test_results s) (ls_test_plans (dl_spec s))"
    by (rule list.rel_mono_strong) (use rv(1) passed_has_evidence in blast)
  with a p w rv reachable_approval [OF r a] canonical_approved_addressed [OF rv(3) w(2)] show thesis
    by (intro that [of p w u a]) auto
qed

section \<open>Cancelling\<close>

lemma chain_of_stopped:
  "validate_artifact_chain env (finish_terminal st oc reason s) = validate_artifact_chain env s"
  "validate_artifact_chain env (next_of s now) = validate_artifact_chain env s"
  by (simp_all add: validate_artifact_chain_def check_exploration_def check_patch_def check_results_def check_review_def
    check_verification_def check_approval_def expected_revision_def finish_terminal_def next_of_def
    cong: option.case_cong)

lemma valid_next_stopped:
  assumes v: "lifecycle_validate env s = Ok ()" and now: "dl_created s \<le> now" and g: "unat (dl_generation s) \<le> 13"
    and st: "terminal st" "valid_terminal st (Some oc)" "\<not> apply_outcome (Some oc)"
    and size: "env_state_json env (next_of (finish_terminal st oc (Some reason) s) now) = Some bytes"
      "length bytes \<le> MAX_LIFECYCLE_STATE_BYTES"
  shows "lifecycle_validate env (next_of (finish_terminal st oc (Some reason) s) now) = Ok ()"
proof -
  let ?m = "next_of (finish_terminal st oc (Some reason) s) now"
  have "unat (dl_generation s + 1) < 16" using g by (simp add: unat_word_ariths)
  then have "dl_generation ?m < MAX_LIFECYCLE_EVENTS"
    by (simp add: MAX_LIFECYCLE_EVENTS_def word_less_nat_alt next_of_def finish_terminal_def)
  moreover have "validate_status_shape ?m = Ok ()"
    using st by (simp add: validate_status_shape_def next_of_def finish_terminal_def)
  moreover have "terminal_fields_agree ?m"
    using st by (simp add: terminal_fields_agree_def next_of_def finish_terminal_def)
  moreover have "validate_artifact_chain env ?m = Ok ()"
    using v by (simp add: chain_of_stopped lifecycle_validate_iff)
  ultimately show ?thesis
    using v now size unfolding lifecycle_validate_iff by (simp add: next_of_def finish_terminal_def not_less)
qed

lemma created_le_updated: "lifecycle_validate env s = Ok () \<Longrightarrow> dl_created s \<le> dl_updated s"
  by (simp add: lifecycle_validate_iff not_less)

lemma stop_succeeds:
  assumes r: "reachable env s" and live: "\<not> terminal (dl_status s)" "dl_status s \<noteq> StatusApplying"
    and now: "dl_updated s \<le> now" and reason: "reason_validate reason = Ok ()"
    and m: "m = next_of (finish_terminal StatusCancelled OutcomeCancelled (Some reason) s) now"
    and size: "env_state_json env m = Some bytes" "length bytes \<le> MAX_LIFECYCLE_STATE_BYTES"
    and event: "event_transitioned env m (state_digest env s) (Cancel reason) now = Ok e"
  shows "transition env s (Cancel reason) now = Ok (m, e)"
proof -
  note v = reachable_valid [OF r]
  have g: "unat (dl_generation s) \<le> 13" using reachable_generation [OF r] by simp
  have "lifecycle_validate env m = Ok ()"
    unfolding m by (rule valid_next_stopped [OF v _ g])
      (use size now created_le_updated [OF v] in \<open>auto simp: m valid_terminal_def apply_outcome_def\<close>)
  moreover have "apply_transition env (Cancel reason) s = Ok (finish_terminal StatusCancelled OutcomeCancelled (Some reason) s)"
    using live reason by (simp add: stop_transition_def)
  moreover have "unat (dl_generation (finish_terminal StatusCancelled OutcomeCancelled (Some reason) s)) + 1 < 2 ^ 64"
    using g by (simp add: finish_terminal_def)
  ultimately show ?thesis using v live now event m unfolding transition_Ok_iff by (auto simp: not_less)
qed

end
