(* ===== verification/Lifecycle_Theorems.thy ===== *)
theory Lifecycle_Theorems
  imports Lifecycle_Machine "HOL-Library.Multiset"
begin

text \<open>
  The properties of the development lifecycle, with a concrete lifecycle (one test plan, a
  constant hash) that runs from its creation to an applied change and instantiates them.
\<close>

section \<open>A concrete lifecycle\<close>

definition demo_env :: lifecycle_env where
  "demo_env = \<lparr>env_blake3 = (\<lambda>_. Digest []), env_review_json = (\<lambda>_. Some []), env_state_json = (\<lambda>_. Some []),
     env_event_json = (\<lambda>_. Some [])\<rparr>"

definition demo_profile :: role_profile_provenance where
  "demo_profile = \<lparr>pv_profile_id = ''worker'', pv_revision = 1, pv_definition_digest = Digest [1]\<rparr>"

definition demo_plan :: test_plan where
  "demo_plan = \<lparr>tp_runner = ''cargo'', tp_argv = [''cargo'', ''test'', ''--lib'', ''plan::tests::merge''],
     tp_cwd_relative = ''.'', tp_identifier = ''plan::tests::merge'', tp_requires_approval = True,
     tp_execution_evidence = None\<rparr>"

definition demo_spec :: lifecycle_spec where
  "demo_spec = \<lparr>ls_worker_depth_limit = 1,
     ls_profiles = \<lparr>wp_explore = demo_profile, wp_implement = demo_profile, wp_test = demo_profile,
       wp_review = demo_profile, wp_verify = demo_profile\<rparr>,
     ls_budget = \<lparr>lb_max_worker_turns = 20, lb_max_output_tokens = 1000, lb_max_cost_microusd = 1000,
       lb_max_concurrent_workers = 1\<rparr>,
     ls_test_plans = [\<lparr>tb_plan = demo_plan, tb_certificate_digest = Digest [2]\<rparr>]\<rparr>"

definition demo_worker :: lifecycle_worker_completion where
  "demo_worker = \<lparr>lw_profile = demo_profile, lw_worker_depth = 1, lw_logical_worker_spawns = 1,
     lw_usage = \<lparr>lu_worker_turns = 1, lu_output_tokens = 10, lu_cost_microusd = 5\<rparr>\<rparr>"

definition demo_artifact :: lifecycle_artifact_ref where
  "demo_artifact = \<lparr>la_kind = Exploration, la_id = Digest [3], la_source_snapshot = Digest [4]\<rparr>"

definition demo_patch :: lifecycle_patch_ref where
  "demo_patch = \<lparr>lp_patch_id = Digest [5], lp_revision = 1\<rparr>"

definition demo_result :: lifecycle_test_result where
  "demo_result = \<lparr>lt_plan_digest = Digest [], lt_certificate_digest = Digest [2], lt_available = True,
     lt_executed = True, lt_passed = True, lt_evidence_id = Some ''run-1'', lt_failure_code = None\<rparr>"

definition demo_review :: review_artifact where
  "demo_review = \<lparr>ra_id = Digest [], ra_change_id = ''chg_1'', ra_patch_id = Digest [5], ra_verdict = ReviewApproved,
     ra_acceptance_coverage = [\<lparr>lc_criterion_digest = Digest [6], lc_status = Addressed, lc_evidence_digest = Digest [7]\<rparr>],
     ra_findings = [], ra_reviewer_definition = Digest [1], ra_created = 0\<rparr>"

definition demo_verification :: lifecycle_verification_ref where
  "demo_verification = \<lparr>lv_verification_id = Digest [8], lv_patch_id = Digest [5], lv_verdict = Verified\<rparr>"

definition demo_approval :: lifecycle_apply_approval where
  "demo_approval = approval_new (env_blake3 demo_env) (Digest []) (Digest [5]) (Digest [8]) WebUser 0"

definition demo_steps :: "(lifecycle_transition \<times> u64) list" where
  "demo_steps = [(CompleteExplore demo_worker [demo_artifact], 0), (CompleteImplement demo_worker demo_patch, 0),
     (CompleteTest demo_worker [demo_result], 0), (CompleteReview demo_worker demo_review, 0),
     (CompleteVerify demo_worker demo_verification, 0), (ApproveApply demo_approval, 0), (StartApply (Digest [9]), 0),
     (FinishApply (Digest [9]) Applied, 0)]"

lemma demo_hash [simp]: "env_blake3 demo_env = (\<lambda>_. Digest [])" "hasher_finish (\<lambda>_. Digest []) h = Digest []"
  "env_review_json demo_env r = Some []" "env_state_json demo_env s = Some []" "env_event_json demo_env e = Some []"
  by (simp_all add: demo_env_def hasher_finish_def)

lemma demo_digests [simp]: "state_digest demo_env s = Digest []" "binding_plan_digest (\<lambda>_. Digest []) b = Digest []"
  "lifecycle_id_compute (\<lambda>_. Digest []) c d p = Digest []" "review_compute_id demo_env r = Digest []"
  "approval_compute_id (\<lambda>_. Digest []) x y z src now = Digest []"
  by (simp_all add: state_digest_def binding_plan_digest_def plan_identity_digest_def lifecycle_id_compute_def
    review_compute_id_def approval_compute_id_def split: result.splits)

lemma demo_profile_valid: "provenance_validate demo_profile = Ok ()"
  by code_simp

lemma demo_binding_valid: "binding_validate \<lparr>tb_plan = demo_plan, tb_certificate_digest = Digest [2]\<rparr> = Ok ()"
  by code_simp

lemma demo_spec_valid [simp]: "spec_validate (\<lambda>_. Digest []) demo_spec = Ok ()"
  by (simp add: spec_validate_def demo_spec_def profiles_validate_def LIFECYCLE_PHASES_def demo_profile_valid
    budget_validate_def MAX_LIFECYCLE_TEST_PLANS_def MAX_VERIFIER_TEST_PLANS_def demo_binding_valid)
lemma demo_event_size [simp]: "event_validate_size demo_env e = Ok ()"
  by (simp add: event_validate_size_def)

definition demo_start :: development_lifecycle where
  "demo_start = \<lparr>dl_id = Digest [],
        dl_change_id = ''chg_1'', dl_source_snapshot = Digest [4], dl_spec = demo_spec, dl_phase = Explore,
        dl_status = Active, dl_terminal_outcome = None, dl_terminal_reason = None, dl_generation = 0,
        dl_usage = usage_default, dl_exploration_artifacts = [], dl_patch = None, dl_test_results = [],
        dl_review = None, dl_verification = None, dl_repair_reserved = False, dl_repair_consumed = False,
        dl_approval = None, dl_apply_id = None, dl_created = 0, dl_updated = 0\<rparr>"

lemmas chain_defs = validate_artifact_chain_def check_exploration_def check_patch_def check_results_def check_review_def
    check_verification_def check_approval_def expected_revision_def
lemmas bound_defs = MAX_LIFECYCLE_EVENTS_def MAX_LIFECYCLE_STATE_BYTES_def MAX_LIFECYCLE_ARTIFACT_REFS_def

lemma demo_new: "lifecycle_new demo_env ''chg_1'' (Digest [4]) demo_spec 0 = Ok demo_start"
  by (simp add: lifecycle_new_def lifecycle_validate_def chain_defs bound_defs validate_status_shape_def terminal_fields_agree_def
    demo_start_def usage_within_def usage_default_def)

lemma demo_review_canonical [simp]: "review_is_canonical demo_env demo_review"
  by (simp add: review_is_canonical_def review_validate_material_def demo_review_def MAX_LIFECYCLE_ARTIFACT_REFS_def
    MAX_LIFECYCLE_REVIEW_FINDINGS_def)

lemma demo_approval_canonical [simp]: "approval_is_canonical (\<lambda>_. Digest []) demo_approval"
  by (simp add: approval_is_canonical_def demo_approval_def approval_new_def)

lemma demo_result_valid [simp]: "test_result_validate demo_result = Ok ()"
  by code_simp

definition demo_explored :: development_lifecycle where
  "demo_explored = demo_start\<lparr>dl_phase := Implement, dl_status := Active, dl_exploration_artifacts := [demo_artifact], dl_generation := 1,
     dl_usage := \<lparr>lu_worker_turns = 1, lu_output_tokens = 10, lu_cost_microusd = 5\<rparr>\<rparr>"

definition demo_implemented :: development_lifecycle where
  "demo_implemented = demo_explored\<lparr>dl_phase := Test, dl_status := Active, dl_patch := Some demo_patch, dl_generation := 2,
     dl_usage := \<lparr>lu_worker_turns = 2, lu_output_tokens = 20, lu_cost_microusd = 10\<rparr>\<rparr>"

definition demo_tested :: development_lifecycle where
  "demo_tested = demo_implemented\<lparr>dl_phase := Review, dl_status := Active, dl_test_results := [demo_result], dl_generation := 3,
     dl_usage := \<lparr>lu_worker_turns = 3, lu_output_tokens = 30, lu_cost_microusd = 15\<rparr>\<rparr>"

definition demo_reviewed :: development_lifecycle where
  "demo_reviewed = demo_tested\<lparr>dl_phase := Verify, dl_status := Active, dl_review := Some demo_review, dl_generation := 4,
     dl_usage := \<lparr>lu_worker_turns = 4, lu_output_tokens = 40, lu_cost_microusd = 20\<rparr>\<rparr>"

definition demo_verified :: development_lifecycle where
  "demo_verified = demo_reviewed\<lparr>dl_phase := Apply, dl_status := AwaitingApproval, dl_verification := Some demo_verification, dl_generation := 5,
     dl_usage := \<lparr>lu_worker_turns = 5, lu_output_tokens = 50, lu_cost_microusd = 25\<rparr>\<rparr>"

definition demo_approved :: development_lifecycle where
  "demo_approved = demo_verified\<lparr>dl_phase := Apply, dl_status := StatusApproved, dl_approval := Some demo_approval, dl_generation := 6,
     dl_usage := \<lparr>lu_worker_turns = 5, lu_output_tokens = 50, lu_cost_microusd = 25\<rparr>\<rparr>"

definition demo_applying :: development_lifecycle where
  "demo_applying = demo_approved\<lparr>dl_phase := Apply, dl_status := StatusApplying, dl_apply_id := Some (Digest [9]), dl_generation := 7,
     dl_usage := \<lparr>lu_worker_turns = 5, lu_output_tokens = 50, lu_cost_microusd = 25\<rparr>\<rparr>"

definition demo_applied :: development_lifecycle where
  "demo_applied = demo_applying\<lparr>dl_phase := Apply, dl_status := Completed, dl_terminal_outcome := Some OutcomeApplied, dl_generation := 8,
     dl_usage := \<lparr>lu_worker_turns = 5, lu_output_tokens = 50, lu_cost_microusd = 25\<rparr>\<rparr>"

lemmas demo_states = demo_start_def demo_explored_def demo_implemented_def demo_tested_def demo_reviewed_def demo_verified_def demo_approved_def demo_applying_def demo_applied_def

lemmas demo_data = demo_spec_def demo_worker_def demo_artifact_def demo_patch_def demo_verification_def

lemma demo_fields [simp]:
  "ly_decision_source demo_approval = WebUser" "ly_approved_state_digest demo_approval = Digest []"
  "ly_patch_id demo_approval = Digest [5]" "ly_verification_id demo_approval = Digest [8]" "ly_decided demo_approval = 0"
  "ra_created demo_review = 0" "ra_verdict demo_review = ReviewApproved" "ra_change_id demo_review = ''chg_1''"
  "ra_patch_id demo_review = Digest [5]" "ra_reviewer_definition demo_review = Digest [1]"
  "lt_passed demo_result" "lt_available demo_result" "lt_executed demo_result" "lt_plan_digest demo_result = Digest []"
  "lt_certificate_digest demo_result = Digest [2]" "pv_definition_digest demo_profile = Digest [1]"
  by (simp_all add: demo_approval_def approval_new_def demo_review_def demo_result_def demo_profile_def)

lemma sixteen_one [simp]: "\<not> (16 :: u64) \<le> 1"
  by (simp add: word_le_nat_alt)

lemma demo_start_valid: "lifecycle_validate demo_env demo_start = Ok ()"
  unfolding lifecycle_validate_def
  by (simp add: demo_states demo_spec_valid [unfolded demo_spec_def] chain_defs bound_defs validate_status_shape_def
    terminal_fields_agree_def valid_terminal_def apply_outcome_def usage_within_def usage_default_def demo_data)

lemma demo_explored_valid: "lifecycle_validate demo_env demo_explored = Ok ()"
  unfolding lifecycle_validate_def
  by (simp add: demo_states demo_spec_valid [unfolded demo_spec_def] chain_defs bound_defs validate_status_shape_def
    terminal_fields_agree_def valid_terminal_def apply_outcome_def usage_within_def usage_default_def demo_data)

lemma demo_implemented_valid: "lifecycle_validate demo_env demo_implemented = Ok ()"
  unfolding lifecycle_validate_def
  by (simp add: demo_states demo_spec_valid [unfolded demo_spec_def] chain_defs bound_defs validate_status_shape_def
    terminal_fields_agree_def valid_terminal_def apply_outcome_def usage_within_def usage_default_def demo_data)

lemma demo_tested_valid: "lifecycle_validate demo_env demo_tested = Ok ()"
  unfolding lifecycle_validate_def
  by (simp add: demo_states demo_spec_valid [unfolded demo_spec_def] chain_defs bound_defs validate_status_shape_def
    terminal_fields_agree_def valid_terminal_def apply_outcome_def usage_within_def usage_default_def demo_data)

lemma demo_reviewed_valid: "lifecycle_validate demo_env demo_reviewed = Ok ()"
  unfolding lifecycle_validate_def
  by (simp add: demo_states demo_spec_valid [unfolded demo_spec_def] chain_defs bound_defs validate_status_shape_def
    terminal_fields_agree_def valid_terminal_def apply_outcome_def usage_within_def usage_default_def demo_data)

lemma demo_verified_valid: "lifecycle_validate demo_env demo_verified = Ok ()"
  unfolding lifecycle_validate_def
  by (simp add: demo_states demo_spec_valid [unfolded demo_spec_def] chain_defs bound_defs validate_status_shape_def
    terminal_fields_agree_def valid_terminal_def apply_outcome_def usage_within_def usage_default_def demo_data)

lemma demo_approved_valid: "lifecycle_validate demo_env demo_approved = Ok ()"
  unfolding lifecycle_validate_def
  by (simp add: demo_states demo_spec_valid [unfolded demo_spec_def] chain_defs bound_defs validate_status_shape_def
    terminal_fields_agree_def valid_terminal_def apply_outcome_def usage_within_def usage_default_def demo_data)

lemma demo_applying_valid: "lifecycle_validate demo_env demo_applying = Ok ()"
  unfolding lifecycle_validate_def
  by (simp add: demo_states demo_spec_valid [unfolded demo_spec_def] chain_defs bound_defs validate_status_shape_def
    terminal_fields_agree_def valid_terminal_def apply_outcome_def usage_within_def usage_default_def demo_data)

lemma demo_applied_valid: "lifecycle_validate demo_env demo_applied = Ok ()"
  unfolding lifecycle_validate_def
  by (simp add: demo_states demo_spec_valid [unfolded demo_spec_def] chain_defs bound_defs validate_status_shape_def
    terminal_fields_agree_def valid_terminal_def apply_outcome_def usage_within_def usage_default_def demo_data)

lemmas step_defs = complete_explore_def complete_implement_def complete_test_def complete_review_def
  complete_verify_def consume_repair_def approve_apply_def start_apply_def finish_apply_def accept_worker_def
  require_active_phase_def finish_with_def finish_terminal_def usage_checked_add_def checked_add_def Let_def

lemma demo_transition:
  assumes v: "lifecycle_validate demo_env s = Ok ()" "lifecycle_validate demo_env s' = Ok ()" and "\<not> terminal (dl_status s)"
    "\<not> now < dl_updated s" "\<not> dated_outside t (dl_created s) now"
    and "rbind (apply_transition demo_env t s) (\<lambda>m. Ok (next_of m now)) = (Ok s' :: lifecycle_result)"
  shows "\<exists>e. transition demo_env s t now = Ok (s', e)"
proof -
  from assms obtain m where m: "apply_transition demo_env t s = Ok m" "s' = next_of m now" by auto
  then have "unat (dl_generation m) + 1 < 2 ^ 64"
    using valid_generation [OF v(1)] apply_transition_frame [OF m(1)] by simp
  with assms m show ?thesis by (auto simp: transition_Ok_iff event_transitioned_def)
qed

lemma demo_explored_step: "\<exists>e. transition demo_env demo_start (CompleteExplore demo_worker [demo_artifact]) 0 = Ok (demo_explored, e)"
  by (rule demo_transition [OF demo_start_valid demo_explored_valid])
    (simp_all add: demo_states step_defs bound_defs expected_revision_def usage_within_def usage_default_def demo_data next_of_def)

lemma demo_implemented_step: "\<exists>e. transition demo_env demo_explored (CompleteImplement demo_worker demo_patch) 0 = Ok (demo_implemented, e)"
  by (rule demo_transition [OF demo_explored_valid demo_implemented_valid])
    (simp_all add: demo_states step_defs bound_defs expected_revision_def usage_within_def usage_default_def demo_data next_of_def)

lemma demo_tested_step: "\<exists>e. transition demo_env demo_implemented (CompleteTest demo_worker [demo_result]) 0 = Ok (demo_tested, e)"
  by (rule demo_transition [OF demo_implemented_valid demo_tested_valid])
    (simp_all add: demo_states step_defs bound_defs expected_revision_def usage_within_def usage_default_def demo_data next_of_def)

lemma demo_reviewed_step: "\<exists>e. transition demo_env demo_tested (CompleteReview demo_worker demo_review) 0 = Ok (demo_reviewed, e)"
  by (rule demo_transition [OF demo_tested_valid demo_reviewed_valid])
    (simp_all add: demo_states step_defs bound_defs expected_revision_def usage_within_def usage_default_def demo_data next_of_def)

lemma demo_verified_step: "\<exists>e. transition demo_env demo_reviewed (CompleteVerify demo_worker demo_verification) 0 = Ok (demo_verified, e)"
  by (rule demo_transition [OF demo_reviewed_valid demo_verified_valid])
    (simp_all add: demo_states step_defs bound_defs expected_revision_def usage_within_def usage_default_def demo_data next_of_def)

lemma demo_approved_step: "\<exists>e. transition demo_env demo_verified (ApproveApply demo_approval) 0 = Ok (demo_approved, e)"
  by (rule demo_transition [OF demo_verified_valid demo_approved_valid])
    (simp_all add: demo_states step_defs bound_defs expected_revision_def usage_within_def usage_default_def demo_data next_of_def)

lemma demo_applying_step: "\<exists>e. transition demo_env demo_approved (StartApply (Digest [9])) 0 = Ok (demo_applying, e)"
  by (rule demo_transition [OF demo_approved_valid demo_applying_valid])
    (simp_all add: demo_states step_defs bound_defs expected_revision_def usage_within_def usage_default_def demo_data next_of_def)

lemma demo_applied_step: "\<exists>e. transition demo_env demo_applying (FinishApply (Digest [9]) Applied) 0 = Ok (demo_applied, e)"
  by (rule demo_transition [OF demo_applying_valid demo_applied_valid])
    (simp_all add: demo_states step_defs bound_defs expected_revision_def usage_within_def usage_default_def demo_data next_of_def)

lemma demo_reachable:
  "reachable demo_env demo_start" "reachable demo_env demo_explored" "reachable demo_env demo_implemented"
  "reachable demo_env demo_tested" "reachable demo_env demo_reviewed" "reachable demo_env demo_verified"
  "reachable demo_env demo_approved" "reachable demo_env demo_applying" "reachable demo_env demo_applied"
  using reachable.fresh [OF demo_new] reachable.advance [of demo_env] demo_explored_step demo_implemented_step
    demo_tested_step demo_reviewed_step demo_verified_step demo_approved_step demo_applying_step demo_applied_step
  by blast+

lemma demo_run: "\<exists>es. run demo_env demo_start demo_steps = Ok (demo_applied, es)"
  using demo_explored_step demo_implemented_step demo_tested_step demo_reviewed_step demo_verified_step
    demo_approved_step demo_applying_step demo_applied_step
  unfolding demo_steps_def run_Cons_Ok by (auto simp: run_Cons_Ok)

lemma review_id_irrelevant:
  "review_validate_material (a\<lparr>ra_id := i\<rparr>) = review_validate_material a"
  "review_compute_id env (a\<lparr>ra_id := i\<rparr>) = review_compute_id env a"
  by (simp_all add: review_validate_material_def review_compute_id_def review_material_of_def cong: if_cong)

section \<open>Properties\<close>

text \<open>
  C4. Every accepted transition of the code is a step of the abstract stage machine: explore,
  implement, test, review, verify, approve, write, with one optional repair after verification,
  and no stop while the change is being written.
\<close>

theorem transition_refines_stages:
  "transition env s t now = Ok (s', e) \<Longrightarrow> stage_step (stage_of s) (stage_of s')"
  by (rule transition_refines)

theorem transition_refines_stages_witness: "stage_step (stage_of demo_verified) (stage_of demo_approved)"
  using demo_approved_step transition_refines_stages by blast

text \<open>
  C7. A lifecycle ends: every run from a new lifecycle has at most 13 transitions, at most one of
  them consumes a repair, and the generation counts them exactly, so the bound of 16 events is
  never reached and the counter never wraps.
\<close>

theorem lifecycle_run_bounded:
  assumes "lifecycle_new env change_id source_snapshot spec created = Ok s" and "run env s steps = Ok (f, es)"
  shows "length steps \<le> 13 \<and> unat (dl_generation f) = length steps \<and>
    length (filter (\<lambda>step. fst step = ConsumeRepair) steps) \<le> 1"
proof -
  note new = lifecycle_new_Ok [OF assms(1)]
  have "length steps + stage_rank (stage_of f) \<le> 13"
    using lifecycles.run_bounded [OF run_steps [OF assms(2)]] new(4) by simp
  moreover have "unat (dl_generation f) = length steps"
    using run_generation [OF assms(2)] new(2) by simp
  moreover have "repairs steps \<le> 1"
    using run_repairs [OF assms(2)] new(7) by (cases "dl_repair_consumed f") auto
  ultimately show ?thesis unfolding repairs_def by simp
qed

theorem lifecycle_run_bounded_witness: "length demo_steps \<le> 13 \<and> unat (dl_generation demo_applied) = length demo_steps"
  using lifecycle_run_bounded [OF demo_new] demo_run by blast

text \<open>
  C1. A change is applied only with complete evidence: a reachable lifecycle with outcome
  \<open>Applied\<close> has a passed, executed result with an evidence id for every test plan of its
  specification in order, a canonical approving review of the same patch that addresses every
  criterion, a \<open>Verified\<close> verification of the same patch, and an approval of exactly that patch and
  verification by the web user, bound to the digest of an earlier reachable state that awaited
  approval with the same patch, tests, review and verification.
\<close>

theorem applied_evidence:
  assumes "reachable env s" and "dl_terminal_outcome s = Some OutcomeApplied"
  shows "\<exists>patch review verification approval p.
    dl_patch s = Some patch \<and> dl_review s = Some review \<and> dl_verification s = Some verification \<and>
    dl_approval s = Some approval \<and>
    list_all2 (\<lambda>t b. lt_passed t \<and> lt_executed t \<and> lt_evidence_id t \<noteq> None \<and>
        lt_plan_digest t = binding_plan_digest (env_blake3 env) b \<and> lt_certificate_digest t = tb_certificate_digest b)
      (dl_test_results s) (ls_test_plans (dl_spec s)) \<and>
    review_is_canonical env review \<and> ra_verdict review = ReviewApproved \<and> ra_patch_id review = lp_patch_id patch \<and>
    (\<forall>c \<in> set (ra_acceptance_coverage review). lc_status c = Addressed) \<and>
    lv_verdict verification = Verified \<and> lv_patch_id verification = lp_patch_id patch \<and>
    approval_is_canonical (env_blake3 env) approval \<and> ly_decision_source approval = WebUser \<and>
    ly_patch_id approval = lp_patch_id patch \<and> ly_verification_id approval = lv_verification_id verification \<and>
    reachable env p \<and> dl_status p = AwaitingApproval \<and> ly_approved_state_digest approval = state_digest env p \<and>
    dl_patch p = dl_patch s \<and> dl_test_results p = dl_test_results s \<and> dl_review p = dl_review s \<and>
    dl_verification p = dl_verification s"
  using assms by (rule applied_evidence_raw) (auto simp: approved_by_user_def same_artifacts_def)

theorem applied_evidence_witness:
  "\<exists>approval. dl_approval demo_applied = Some approval \<and> ly_decision_source approval = WebUser"
proof -
  have "dl_terminal_outcome demo_applied = Some OutcomeApplied" by (simp add: demo_applied_def)
  from applied_evidence [OF demo_reachable(9) this] show ?thesis by blast
qed

text \<open>
  C36. Usage is accounted exactly: after any run from a new lifecycle the recorded turns, tokens and
  cost are the sums over the workers' completions as natural numbers (no wrap-around), and they are
  within the budget.
\<close>

theorem usage_accounted:
  assumes "lifecycle_new env change_id source_snapshot spec created = Ok s" and "run env s steps = Ok (f, es)"
  shows "unat (lu_worker_turns (dl_usage f)) = (\<Sum>(t, _)\<leftarrow>steps. spent lu_worker_turns t) \<and>
    unat (lu_output_tokens (dl_usage f)) = (\<Sum>(t, _)\<leftarrow>steps. spent lu_output_tokens t) \<and>
    unat (lu_cost_microusd (dl_usage f)) = (\<Sum>(t, _)\<leftarrow>steps. spent lu_cost_microusd t) \<and>
    usage_within (dl_usage f) (ls_budget spec)"
proof -
  note new = lifecycle_new_Ok [OF assms(1)]
  have "lifecycle_validate env f = Ok ()"
    using run_reachable [OF assms(2) reachable.fresh [OF assms(1)]] by (rule reachable_valid)
  then have "usage_within (dl_usage f) (ls_budget spec)"
    using run_spec [OF assms(2)] new(5) by (simp add: lifecycle_validate_iff)
  with run_usage [OF assms(2)] new(3) show ?thesis by (simp add: usage_default_def)
qed

theorem usage_accounted_witness: "usage_within (dl_usage demo_applied) (ls_budget demo_spec)"
  using usage_accounted [OF demo_new] demo_run by blast

text \<open>
  C6. Replay is exact: a journal replays to a state if and only if it is the creation event of a
  valid state followed by precisely the events that the transitions of some run from that state
  wrote, and the result is the final state of that run.
\<close>

theorem replay_iff_run:
  "lifecycle_replay env journal = Ok f \<longleftrightarrow>
     (\<exists>s e es steps. journal = e # es \<and> lifecycle_validate env s = Ok () \<and> event_created env s = Ok e \<and>
        run env s steps = Ok (f, es))"
  by (rule replay_Ok_iff)

text \<open>
  A terminal lifecycle is final: every transition of a valid terminal state is refused with
  \<open>Terminal\<close>, and a journal that replays to a terminal state cannot be extended by any event.
\<close>

theorem terminal_is_final:
  assumes "lifecycle_replay env journal = Ok f" and "terminal (dl_status f)"
  shows "transition env f t now = Err Terminal \<and> lifecycle_replay env (journal @ e # rest) \<noteq> Ok g"
proof -
  from assms(1) obtain s e0 es steps where j: "journal = e0 # es" "lifecycle_validate env s = Ok ()"
    "event_created env s = Ok e0" "run env s steps = Ok (f, es)" unfolding replay_Ok_iff by blast
  have f: "lifecycle_validate env f = Ok ()" using run_valid [OF j(4,2)] .
  then have stop: "transition env f t now = Err Terminal" for t now
    using assms(2) by (simp add: transition_def)
  have "lifecycle_replay env (journal @ e # rest) = replay_loop env s (es @ e # rest)"
    using j by (simp add: event_created_kind)
  also have "\<dots> = replay_loop env f (e # rest)" using run_replay_append [OF j(4)] .
  also have "\<dots> \<noteq> Ok g" by (simp only: replay_loop_Cons_iff stop) simp
  finally show ?thesis using stop by simp
qed

theorem terminal_is_final_witness:
  "\<exists>journal. lifecycle_replay demo_env journal = Ok demo_applied \<and>
     transition demo_env demo_applied ConsumeRepair 0 = Err Terminal"
proof -
  obtain es where es: "run demo_env demo_start demo_steps = Ok (demo_applied, es)" using demo_run by blast
  obtain e where "event_created demo_env demo_start = Ok e" by (auto simp: event_created_def)
  with es have j: "lifecycle_replay demo_env (e # es) = Ok demo_applied"
    unfolding replay_Ok_iff using demo_start_valid by blast
  have "terminal (dl_status demo_applied)" by (simp add: demo_applied_def)
  from terminal_is_final [OF j this] j show ?thesis by blast
qed

text \<open>
  C39. A lifecycle that is neither terminal nor writing can always be cancelled: with a valid reason,
  a time not before the last update and encodings within the byte bounds, the transition succeeds
  and the state is \<open>Cancelled\<close>.
\<close>

theorem cancel_succeeds:
  assumes "reachable env s" "\<not> terminal (dl_status s)" "dl_status s \<noteq> StatusApplying" "dl_updated s \<le> now"
    and "bounded_identifier (lr_code reason) MAX_LIFECYCLE_REASON_CODE_BYTES"
    and "m = s\<lparr>dl_repair_reserved := False, dl_status := StatusCancelled, dl_terminal_outcome := Some OutcomeCancelled,
      dl_terminal_reason := Some reason, dl_generation := dl_generation s + 1, dl_updated := now\<rparr>"
    and "env_state_json env m = Some bytes" "length bytes \<le> MAX_LIFECYCLE_STATE_BYTES"
    and "event_transitioned env m (state_digest env s) (Cancel reason) now = Ok e"
  shows "transition env s (Cancel reason) now = Ok (m, e)"
  using assms by (intro stop_succeeds) (auto simp: reason_validate_def next_of_def finish_terminal_def)

theorem cancel_succeeds_witness:
  "\<exists>m e. transition demo_env demo_explored (Cancel \<lparr>lr_code = ''user'', lr_detail_digest = Digest []\<rparr>) 7 = Ok (m, e)"
proof -
  let ?r = "\<lparr>lr_code = ''user'', lr_detail_digest = Digest []\<rparr>"
  have "bounded_identifier (lr_code ?r) MAX_LIFECYCLE_REASON_CODE_BYTES" by code_simp
  moreover have "\<exists>e. event_transitioned demo_env m (state_digest demo_env demo_explored) (Cancel ?r) 7 = Ok e" for m
    by (simp add: event_transitioned_def Let_def)
  ultimately show ?thesis
    using cancel_succeeds [OF demo_reachable(2), of 7 ?r _ "[]"] by (force simp: demo_explored_def demo_start_def)
qed


text \<open>
  \<open>ReviewArtifact::new\<close> makes canonical reviews that do not depend on the order in which the
  coverage and the findings are given: any reordering gives the same artifact with the same identity.
\<close>

theorem review_new_canonical:
  assumes "review_new env change_id patch_id verdict coverage findings reviewer created = Ok r"
    and "mset coverage' = mset coverage" "mset findings' = mset findings"
  shows "review_is_canonical env r \<and>
    review_new env change_id patch_id verdict coverage' findings' reviewer created = Ok r"
proof
  from assms(1) obtain a where a: "review_validate_material a = Ok ()" "r = a\<lparr>ra_id := review_compute_id env a\<rparr>"
    "ra_acceptance_coverage a = sort_key lc_criterion_digest coverage"
    unfolding review_new_def Let_def by auto
  then show "review_is_canonical env r" by (simp add: review_is_canonical_def review_id_irrelevant)
  have "distinct (map lc_criterion_digest (sort_key lc_criterion_digest coverage))"
    using a(1,3) by (auto simp: review_validate_material_def guard_Ok_iff)
  then have "inj_on lc_criterion_digest (set coverage')"
    using mset_eq_setD [OF assms(2)] by (simp add: distinct_map)
  then have "sort_key lc_criterion_digest coverage' = sort_key lc_criterion_digest coverage"
    by (intro sort_key_inj_key_eq) (simp_all add: assms(2))
  moreover have "sort_key finding_key findings' = sort_key finding_key findings"
    by (intro sort_key_inj_key_eq) (auto simp: assms(3) inj_on_def finding_key_def)
  ultimately show "review_new env change_id patch_id verdict coverage' findings' reviewer created = Ok r"
    using assms(1) by (simp add: review_new_def)
qed

theorem review_new_canonical_witness:
  "\<exists>r. review_is_canonical demo_env r \<and> ra_verdict r = ReviewApproved"
proof -
  let ?c = "ra_acceptance_coverage demo_review"
  have "review_new demo_env ''chg_1'' (Digest [5]) ReviewApproved ?c [] (Digest [1]) 0 = Ok demo_review"
    by (simp add: review_new_def review_validate_material_def demo_review_def MAX_LIFECYCLE_ARTIFACT_REFS_def
      MAX_LIFECYCLE_REVIEW_FINDINGS_def)
  from review_new_canonical [OF this refl refl] show ?thesis by (metis demo_fields(7))
qed

end
