(* ===== verification/Approval_Proofs.thy ===== *)
theory Approval_Proofs
  imports Approval
begin

text \<open>
  Properties of the approval broker: what an automatic approval implies, that no policy is used more
  often than its maximum in any session, the order in which a verifier's plans are approved, what
  accepted test evidence shows, and two gaps in the path checks.
\<close>

section \<open>Taking an execution\<close>

lemma take_execution_Some:
  assumes "take_execution i m b = (Some b', e)"
  shows "executions_of i b < m" "b' = b\<lparr>ab_executions := (ab_executions b)(i \<mapsto> executions_of i b + 1)\<rparr>"
  using assms by (auto simp: take_execution_def Let_def not_le split: if_splits)

lemma take_execution_None:
  assumes "take_execution i m b = (None, e)"
  shows "e = b\<lparr>ab_executions := (ab_executions b)(i \<mapsto> executions_of i b)\<rparr>"
  using assms by (auto simp: take_execution_def Let_def split: if_splits)

lemma executions_of_update [simp]:
  "executions_of j (b\<lparr>ab_executions := (ab_executions b)(i \<mapsto> n)\<rparr>) = (if j = i then n else executions_of j b)"
  "executions_of j (b\<lparr>ab_verifier_next_plan := k\<rparr>) = executions_of j b"
  "executions_of j (b\<lparr>ab_verifier_in_flight := d\<rparr>) = executions_of j b"
  by (auto simp: executions_of_def)

text \<open>
  The interface of a classification step: it approves automatically under one policy and counts it
  once, or it approves nothing and changes no count.
\<close>

definition charges :: "string \<Rightarrow> u32 \<Rightarrow> approval_broker \<Rightarrow> approval_broker \<Rightarrow> bool" where
  "charges i m b b' \<longleftrightarrow>
     executions_of i b < m \<and> executions_of i b' = executions_of i b + 1 \<and>
     (\<forall>j. j \<noteq> i \<longrightarrow> executions_of j b' = executions_of j b) \<and>
     ab_test_policies b' = ab_test_policies b \<and> ab_read_only_policies b' = ab_read_only_policies b"

definition counts_kept :: "approval_broker \<Rightarrow> approval_broker \<Rightarrow> bool" where
  "counts_kept b b' \<longleftrightarrow>
     (\<forall>j. executions_of j b' = executions_of j b) \<and>
     ab_test_policies b' = ab_test_policies b \<and> ab_read_only_policies b' = ab_read_only_policies b \<and>
     ab_verifier_next_plan b' = ab_verifier_next_plan b \<and> ab_verifier_in_flight b' = ab_verifier_in_flight b"

lemma take_execution_charges: "take_execution i m b = (Some b', e) \<Longrightarrow> charges i m b b'"
  using take_execution_Some [of i m b b' e] by (auto simp: charges_def)

lemma take_execution_kept: "take_execution i m b = (None, e) \<Longrightarrow> counts_kept b e"
  using take_execution_None [of i m b e] by (auto simp: counts_kept_def)

lemma counts_kept_refl [simp]: "counts_kept b b"
  by (simp add: counts_kept_def)

section \<open>Test plans\<close>

lemma scan_verifier_plans_next:
  assumes "scan_verifier_plans f h k i mi mn ps = (x, True)"
  shows "mn \<or> (i \<le> k \<and> k < i + length ps \<and> f (ps ! (k - i)) \<and> h (ps ! (k - i)))"
  using assms
proof (induction ps arbitrary: i mi mn)
  case (Cons p ps)
  have step: ?case if "scan_verifier_plans f h k (Suc i) mi' mn' ps = (x, True)" "mn' \<Longrightarrow> mn \<or> (i = k \<and> f p \<and> h p)" for mi' mn'
  proof -
    from Cons.IH [OF that(1)] consider "mn'" | "Suc i \<le> k" "k < Suc i + length ps" "f (ps ! (k - Suc i))" "h (ps ! (k - Suc i))"
      by blast
    then show ?case
    proof cases
      case 1
      with that(2) show ?thesis by auto
    next
      case 2
      then have "k - i = Suc (k - Suc i)" by simp
      with 2 show ?thesis by simp
    qed
  qed
  from Cons.prems show ?case by (auto split: if_splits dest!: step)
qed simp

definition approved_plan :: "file_system \<Rightarrow> approval_broker \<Rightarrow> string option \<Rightarrow> string option \<Rightarrow> string \<Rightarrow>
    approval_context \<Rightarrow> test_plan \<Rightarrow> string \<Rightarrow> approval_broker \<Rightarrow> bool" where
  "approved_plan fs b display action cwd cx plan i b' \<longleftrightarrow>
     parses_to_plan display plan \<and> parses_to_plan action plan \<and> ax_test_execution_available cx \<and>
     same_canonical_path fs cwd (path_join (ax_checkout_root cx) (tp_cwd_relative plan)) \<and>
     (\<exists>policy \<in> set (ab_test_policies b). test_policy_matches (ax_repository_id cx) (tp_argv plan) policy \<and>
        tcp_id policy = i \<and> charges i (tcp_maximum_executions policy) b b')"

lemma classify_verifier_cases:
  assumes "classify_verifier blake3 fs b display action cwd cx plans = Some ((argv, c), b')"
  shows "(\<exists>i plan. c = AutoApprovedTest i \<and> ab_verifier_next_plan b < length plans \<and>
        plan = plans ! ab_verifier_next_plan b \<and> argv = tp_argv plan \<and>
        approved_plan fs b display action cwd cx plan i b' \<and> ab_verifier_in_flight b = None \<and>
        ab_verifier_next_plan b' = ab_verifier_next_plan b + 1 \<and>
        ab_verifier_in_flight b' = Some (plan_identity_digest blake3 plan)) \<or>
     (c = RejectedPolicyMismatch \<and> counts_kept b b')"
proof -
  let ?f = "\<lambda>plan. parses_to_plan display plan \<and> parses_to_plan action plan"
  let ?h = "\<lambda>plan. same_canonical_path fs cwd (path_join (ax_checkout_root cx) (tp_cwd_relative plan))"
  let ?k = "ab_verifier_next_plan b"
  obtain x mn where scan: "scan_verifier_plans ?f ?h ?k 0 None False plans = (x, mn)" by force
  show ?thesis
  proof (cases "x = None \<or> \<not> mn")
    case True
    with assms scan show ?thesis by (cases x; cases mn) (auto simp: classify_verifier_def Let_def)
  next
    case False
    then obtain first where x: "x = Some first" "mn" by auto
    from scan_verifier_plans_next [of ?f ?h ?k 0 None False plans x] scan x
    have k: "?k < length plans" "?f (plans ! ?k)" "?h (plans ! ?k)" by auto
    show ?thesis
    proof (cases "\<not> ax_test_execution_available cx \<or> ab_verifier_in_flight b \<noteq> None \<or>
        List.find (test_policy_matches (ax_repository_id cx) (tp_argv (plans ! ?k))) (ab_test_policies b) = None")
      case True
      with assms scan x show ?thesis by (auto simp: classify_verifier_def Let_def split: if_splits)
    next
      case False
      then obtain policy where p: "List.find (test_policy_matches (ax_repository_id cx) (tp_argv (plans ! ?k)))
          (ab_test_policies b) = Some policy" by auto
      then have pol: "policy \<in> set (ab_test_policies b)" "test_policy_matches (ax_repository_id cx) (tp_argv (plans ! ?k)) policy"
        by (auto simp: find_Some_iff)
      obtain r e where t: "take_execution (tcp_id policy) (tcp_maximum_executions policy) b = (r, e)" by force
      show ?thesis
      proof (cases r)
        case None
        with assms scan x False p t take_execution_kept show ?thesis by (auto simp: classify_verifier_def Let_def)
      next
        case (Some b1)
        with t have ch: "charges (tcp_id policy) (tcp_maximum_executions policy) b b1"
          and b1: "ab_verifier_next_plan b1 = ?k"
          using take_execution_charges take_execution_Some(2) by fastforce+
        from assms scan x False p t Some have out: "argv = tp_argv (plans ! ?k)" "c = AutoApprovedTest (tcp_id policy)"
          "b' = b1\<lparr>ab_verifier_next_plan := ?k + 1, ab_verifier_in_flight := Some (plan_identity_digest blake3 (plans ! ?k))\<rparr>"
          by (auto simp: classify_verifier_def Let_def b1)
        have "charges (tcp_id policy) (tcp_maximum_executions policy) b b'" using ch out(3) by (simp add: charges_def)
        with out k pol False show ?thesis by (auto simp: approved_plan_def)
      qed
    qed
  qed
qed


lemma classify_test_cases:
  assumes "classify_test fs b display action cwd cx plan = Some ((argv, c), b')"
  shows "(\<exists>i. c = AutoApprovedTest i \<and> argv = tp_argv plan \<and>
        (\<not> plan_unavailable fs (Some display) (Some action) cwd cx plan \<longrightarrow>
           approved_plan fs b (Some display) (Some action) cwd cx plan i b') \<and>
        ab_verifier_next_plan b' = ab_verifier_next_plan b \<and> ab_verifier_in_flight b' = ab_verifier_in_flight b) \<or>
     (c \<in> {PendingUser, RejectedPolicyMismatch} \<and> counts_kept b b')"
proof -
  obtain display_argv action_argv where
    parsed: "parse_test_command_argv display (tp_argv plan) = Ok display_argv" "parse_test_command_argv action (tp_argv plan) = Ok action_argv"
    using assms by (auto simp: classify_test_def split: result.splits)
  show ?thesis
  proof (cases "display_argv = action_argv")
    case False
    with assms parsed show ?thesis by (auto simp: classify_test_def)
  next
    case True
    with assms parsed obtain policy where
      here: "action_argv = tp_argv plan" "same_canonical_path fs cwd (path_join (ax_checkout_root cx) (tp_cwd_relative plan))"
      and p: "List.find (test_policy_matches (ax_repository_id cx) (tp_argv plan)) (ab_test_policies b) = Some policy"
      by (auto simp: classify_test_def split: if_splits option.splits)
    obtain r e where t: "take_execution (tcp_id policy) (tcp_maximum_executions policy) b = (r, e)" by force
    show ?thesis
    proof (cases r)
      case None
      with assms parsed True here p t take_execution_kept show ?thesis by (auto simp: classify_test_def)
    next
      case (Some b1)
      with assms parsed True here p t have out: "argv = tp_argv plan" "c = AutoApprovedTest (tcp_id policy)" "b' = b1"
        by (auto simp: classify_test_def)
      from t Some out(3) have "charges (tcp_id policy) (tcp_maximum_executions policy) b b'"
        "ab_verifier_next_plan b' = ab_verifier_next_plan b" "ab_verifier_in_flight b' = ab_verifier_in_flight b"
        using take_execution_charges take_execution_Some(2) by fastforce+
      moreover have "policy \<in> set (ab_test_policies b)" "test_policy_matches (ax_repository_id cx) (tp_argv plan) policy"
        using p by (auto simp: find_Some_iff)
      ultimately show ?thesis using out here parsed True
        by (auto simp: approved_plan_def plan_unavailable_def parses_to_plan_def)
    qed
  qed
qed

section \<open>Read-only commands\<close>

definition approved_read :: "file_system \<Rightarrow> approval_broker \<Rightarrow> string \<Rightarrow> string \<Rightarrow> string \<Rightarrow> requested_permissions \<Rightarrow>
    approval_context \<Rightarrow> string list \<Rightarrow> string \<Rightarrow> approval_broker \<Rightarrow> bool" where
  "approved_read fs b display action cwd permissions cx argv i b' \<longleftrightarrow>
     parse_read_only_command_argv display = Ok argv \<and> parse_read_only_command_argv action = Ok argv \<and>
     pe_write_paths permissions = [] \<and> read_permissions_are_within fs permissions (ax_checkout_root cx) \<and>
     read_only_argv_is_allowed fs argv cwd (ax_checkout_root cx) \<and>
     (\<exists>policy \<in> set (ab_read_only_policies b). ro_trusted policy \<and> ro_repository_id policy = ax_repository_id cx \<and>
        ro_id policy = i \<and> charges i (ro_maximum_executions policy) b b')"

lemma classify_read_only_cases:
  assumes "classify_read_only fs b display action cwd permissions cx = ((argv, c), b')"
  shows "(\<exists>i. c = AutoApprovedReadOnly i \<and> approved_read fs b display action cwd permissions cx argv i b' \<and>
        ab_verifier_next_plan b' = ab_verifier_next_plan b \<and> ab_verifier_in_flight b' = ab_verifier_in_flight b) \<or>
     (c \<in> {PendingUser, RejectedPolicyMismatch} \<and> counts_kept b b')"
proof (cases "c = PendingUser")
  case True
  with assms show ?thesis
    by (auto simp: classify_read_only_def split: result.splits if_splits option.splits prod.splits)
next
  case False
  with assms obtain policy where
    ok: "parse_read_only_command_argv display = Ok argv" "parse_read_only_command_argv action = Ok argv"
      "pe_write_paths permissions = []" "read_permissions_are_within fs permissions (ax_checkout_root cx)"
      "read_only_argv_is_allowed fs argv cwd (ax_checkout_root cx)"
    and p: "List.find (\<lambda>p. ro_trusted p \<and> ro_repository_id p = ax_repository_id cx) (ab_read_only_policies b) = Some policy"
    by (auto simp: classify_read_only_def split: result.splits if_splits option.splits prod.splits)
  obtain r e where t: "take_execution (ro_id policy) (ro_maximum_executions policy) b = (r, e)" by force
  show ?thesis
  proof (cases r)
    case None
    with assms ok p t take_execution_kept show ?thesis by (auto simp: classify_read_only_def)
  next
    case (Some b1)
    with assms ok p t have out: "c = AutoApprovedReadOnly (ro_id policy)" "b' = b1"
      by (auto simp: classify_read_only_def)
    from t Some out(2) have "charges (ro_id policy) (ro_maximum_executions policy) b b'"
      "ab_verifier_next_plan b' = ab_verifier_next_plan b" "ab_verifier_in_flight b' = ab_verifier_in_flight b"
      using take_execution_charges take_execution_Some(2) by fastforce+
    moreover have "policy \<in> set (ab_read_only_policies b)" "ro_trusted policy" "ro_repository_id policy = ax_repository_id cx"
      using p by (auto simp: find_Some_iff)
    ultimately show ?thesis using out ok by (auto simp: approved_read_def)
  qed
qed

section \<open>The outcomes of a classification\<close>

text \<open>
  Everything \<open>classify_command\<close> can answer, as a relation: a verifier's next plan, the worker's plan,
  a read-only command, or no approval.
\<close>

definition request_admissible :: "file_system \<Rightarrow> string \<Rightarrow> requested_permissions \<Rightarrow> approval_context \<Rightarrow> bool" where
  "request_admissible fs cwd permissions cx \<longleftrightarrow>
     \<not> malformed_plans cx \<and> \<not> pe_network permissions \<and> path_is_within fs cwd (ax_checkout_root cx) \<and>
     (\<forall>path \<in> set (pe_write_paths permissions). write_path_allowed path (ax_target_root cx) (ax_temp_root cx))"

fun approves :: "command_classification \<Rightarrow> bool" where
  "approves (AutoApprovedTest i) = True"
| "approves (AutoApprovedReadOnly i) = True"
| "approves _ = False"

inductive classification_outcome ::
    "(u8 list \<Rightarrow> digest) \<Rightarrow> file_system \<Rightarrow> approval_broker \<Rightarrow> string option \<Rightarrow> string option \<Rightarrow> string \<Rightarrow>
     requested_permissions \<Rightarrow> approval_context \<Rightarrow> string list \<Rightarrow> command_classification \<Rightarrow> approval_broker \<Rightarrow> bool"
  for blake3 fs b display action cwd permissions cx where
  verifier_test: "request_admissible fs cwd permissions cx \<Longrightarrow> ax_verifier_test_plans cx = Some plans \<Longrightarrow>
     ab_verifier_next_plan b < length plans \<Longrightarrow> plan = plans ! ab_verifier_next_plan b \<Longrightarrow>
     approved_plan fs b display action cwd cx plan i b' \<Longrightarrow> ab_verifier_in_flight b = None \<Longrightarrow>
     ab_verifier_next_plan b' = ab_verifier_next_plan b + 1 \<Longrightarrow>
     ab_verifier_in_flight b' = Some (plan_identity_digest blake3 plan) \<Longrightarrow>
     classification_outcome blake3 fs b display action cwd permissions cx (tp_argv plan) (AutoApprovedTest i) b'"
| worker_test: "request_admissible fs cwd permissions cx \<Longrightarrow> ax_test_plan cx = Some plan \<Longrightarrow>
     approved_plan fs b display action cwd cx plan i b' \<Longrightarrow>
     ab_verifier_next_plan b' = ab_verifier_next_plan b \<Longrightarrow> ab_verifier_in_flight b' = ab_verifier_in_flight b \<Longrightarrow>
     classification_outcome blake3 fs b display action cwd permissions cx (tp_argv plan) (AutoApprovedTest i) b'"
| read_only: "request_admissible fs cwd permissions cx \<Longrightarrow> display = Some d \<Longrightarrow> action = Some a \<Longrightarrow>
     approved_read fs b d a cwd permissions cx argv i b' \<Longrightarrow>
     ab_verifier_next_plan b' = ab_verifier_next_plan b \<Longrightarrow> ab_verifier_in_flight b' = ab_verifier_in_flight b \<Longrightarrow>
     classification_outcome blake3 fs b display action cwd permissions cx argv (AutoApprovedReadOnly i) b'"
| refused: "\<not> approves c \<Longrightarrow> counts_kept b b' \<Longrightarrow>
     classification_outcome blake3 fs b display action cwd permissions cx argv c b'"

lemma read_only_outcome:
  assumes "classify_read_only fs b d a cwd permissions cx = ((argv, c), b')" "request_admissible fs cwd permissions cx"
  shows "classification_outcome blake3 fs b (Some d) (Some a) cwd permissions cx argv c b'"
  using classify_read_only_cases [OF assms(1)] assms(2) read_only refused by auto

lemma classify_general_outcome:
  assumes "classify_general fs b display action cwd permissions cx = ((argv, c), b')" "request_admissible fs cwd permissions cx"
  shows "classification_outcome blake3 fs b display action cwd permissions cx argv c b'"
proof (cases "c = PendingUser \<and> b' = b \<or> c = RejectedPolicyMismatch \<and> b' = b")
  case True
  then show ?thesis by (auto intro: refused)
next
  case False
  with assms(1) obtain d a where da: "display = Some d" "action = Some a"
    by (auto simp: classify_general_def split: option.splits if_splits)
  show ?thesis
  proof (cases "classify_read_only fs b d a cwd permissions cx = ((argv, c), b')")
    case True
    with da assms(2) read_only_outcome show ?thesis by simp
  next
    case ro: False
    with False da assms(1) obtain plan where plan: "ax_test_plan cx = Some plan" "\<not> plan_unavailable fs display action cwd cx plan"
      "classify_test fs b d a cwd cx plan = Some ((argv, c), b')"
      by (auto simp: classify_general_def split: option.splits if_splits)
    from classify_test_cases [OF plan(3)] plan da assms(2) show ?thesis
      by (auto intro: worker_test refused)
  qed
qed

lemma classify_command_outcome:
  assumes "classify_command blake3 fs b display action cwd permissions cx = ((argv, c), b')"
  shows "classification_outcome blake3 fs b display action cwd permissions cx argv c b'"
proof (cases "request_admissible fs cwd permissions cx")
  case False
  with assms show ?thesis
    by (auto simp: classify_command_def request_admissible_def intro: refused split: if_splits)
next
  case adm: True
  then have eq: "classify_command blake3 fs b display action cwd permissions cx =
      (case ax_verifier_test_plans cx of
         None \<Rightarrow> classify_general fs b display action cwd permissions cx
       | Some plans \<Rightarrow> (case classify_verifier blake3 fs b display action cwd cx plans of
           Some r \<Rightarrow> r | None \<Rightarrow> classify_general fs b display action cwd permissions cx))"
    by (auto simp: classify_command_def request_admissible_def)
  show ?thesis
  proof (cases "classify_general fs b display action cwd permissions cx = ((argv, c), b')")
    case True
    with adm classify_general_outcome show ?thesis by blast
  next
    case False
    with assms eq obtain plans where v: "ax_verifier_test_plans cx = Some plans"
      "classify_verifier blake3 fs b display action cwd cx plans = Some ((argv, c), b')"
      by (auto split: option.splits)
    from classify_verifier_cases [OF v(2)] v(1) adm show ?thesis
      by (auto intro: verifier_test refused)
  qed
qed


section \<open>Sessions\<close>

text \<open>
  A session is the sequence of calls a worker's run makes on its broker: a classification per requested
  command, a completion per captured verifier command. \<open>run_steps\<close> collects the answers.
\<close>

datatype broker_event =
    ClassifyEvent "string option" "string option" string requested_permissions approval_context
  | CompleteEvent digest

datatype broker_answer = Classified "string list" command_classification | Completed bool

fun broker_step :: "(u8 list \<Rightarrow> digest) \<Rightarrow> file_system \<Rightarrow> broker_event \<Rightarrow> approval_broker \<Rightarrow> broker_answer \<times> approval_broker" where
  "broker_step blake3 fs (ClassifyEvent display action cwd permissions cx) b =
     (case classify_command blake3 fs b display action cwd permissions cx of ((argv, c), b') \<Rightarrow> (Classified argv c, b'))"
| "broker_step blake3 fs (CompleteEvent d) b = (case complete_verifier_plan d b of (r, b') \<Rightarrow> (Completed r, b'))"

fun run_steps :: "('e \<Rightarrow> 's \<Rightarrow> 'a \<times> 's) \<Rightarrow> 'e list \<Rightarrow> 's \<Rightarrow> 'a list \<times> 's" where
  "run_steps step [] s = ([], s)"
| "run_steps step (e # es) s =
     (case step e s of (a, s') \<Rightarrow> (case run_steps step es s' of (as, s'') \<Rightarrow> (a # as, s'')))"

text \<open>The contract of a metered service: every charged answer is within its limit and counted once.\<close>

locale metered_service =
  fixes step :: "'e \<Rightarrow> 's \<Rightarrow> 'a \<times> 's"
    and inv :: "'s \<Rightarrow> bool"
    and usage :: "'k \<Rightarrow> 's \<Rightarrow> nat"
    and charged :: "'a \<Rightarrow> 'k option"
    and limit :: "'k \<Rightarrow> nat"
  assumes step_inv: "inv s \<Longrightarrow> step e s = (a, s') \<Longrightarrow> inv s'"
    and step_charged: "inv s \<Longrightarrow> step e s = (a, s') \<Longrightarrow> charged a = Some k \<Longrightarrow> usage k s < limit k \<and> usage k s' = Suc (usage k s)"
    and step_free: "inv s \<Longrightarrow> step e s = (a, s') \<Longrightarrow> charged a \<noteq> Some k \<Longrightarrow> usage k s' = usage k s"
begin

lemma inv_kept: "inv s \<Longrightarrow> run_steps step es s = (as, s') \<Longrightarrow> inv s'"
  by (induction es arbitrary: s as) (auto split: prod.splits intro: step_inv)

lemma usage_counted:
  "inv s \<Longrightarrow> run_steps step es s = (as, s') \<Longrightarrow>
     usage k s' = usage k s + length (filter (\<lambda>a. charged a = Some k) as)"
proof (induction es arbitrary: s as)
  case (Cons e es)
  obtain a s1 where st: "step e s = (a, s1)" by force
  obtain as1 where rn: "run_steps step es s1 = (as1, s')" "as = a # as1"
    using Cons.prems st by (auto split: prod.splits)
  from Cons.IH [OF step_inv [OF Cons.prems(1) st] rn(1)] rn(2) show ?case
    using step_charged [OF Cons.prems(1) st, of k] step_free [OF Cons.prems(1) st, of k] by auto
qed simp

lemma usage_limited:
  "inv s \<Longrightarrow> usage k s \<le> limit k \<Longrightarrow> run_steps step es s = (as, s') \<Longrightarrow> usage k s' \<le> limit k"
proof (induction es arbitrary: s as)
  case (Cons e es)
  obtain a s1 where st: "step e s = (a, s1)" by force
  obtain as1 where rn: "run_steps step es s1 = (as1, s')"
    using Cons.prems st by (auto split: prod.splits)
  have "usage k s1 \<le> limit k"
    using step_charged [OF Cons.prems(1) st, of k] step_free [OF Cons.prems(1) st, of k] Cons.prems(2) by force
  with Cons.IH [OF step_inv [OF Cons.prems(1) st] _ rn] show ?case by simp
qed simp

lemma charged_within_limit:
  "inv s \<Longrightarrow> usage k s = 0 \<Longrightarrow> run_steps step es s = (as, s') \<Longrightarrow>
     length (filter (\<lambda>a. charged a = Some k) as) \<le> limit k"
  using usage_counted [of s es as s' k] usage_limited [of s k es as s'] by simp

end

fun charged_policy :: "broker_answer \<Rightarrow> string option" where
  "charged_policy (Classified argv (AutoApprovedTest i)) = Some i"
| "charged_policy (Classified argv (AutoApprovedReadOnly i)) = Some i"
| "charged_policy _ = None"

definition policies_within :: "(string \<Rightarrow> nat) \<Rightarrow> approval_broker \<Rightarrow> bool" where
  "policies_within limit b \<longleftrightarrow>
     (\<forall>p \<in> set (ab_test_policies b). unat (tcp_maximum_executions p) \<le> limit (tcp_id p)) \<and>
     (\<forall>p \<in> set (ab_read_only_policies b). unat (ro_maximum_executions p) \<le> limit (ro_id p))"

lemma charges_unat:
  assumes "charges i m b b'" "unat m \<le> n"
  shows "unat (executions_of i b) < n \<and> unat (executions_of i b') = Suc (unat (executions_of i b))"
proof -
  from assms(1) have lt: "executions_of i b < m" and eq: "executions_of i b' = 1 + executions_of i b"
    by (auto simp: charges_def)
  have "1 + executions_of i b \<noteq> 0"
  proof
    assume "1 + executions_of i b = 0"
    then have "executions_of i b = - 1" by (simp add: eq_neg_iff_add_eq_0 add.commute)
    with lt word_order.extremum [of m] show False by simp
  qed
  with lt eq assms(2) show ?thesis by (simp add: unatSuc word_less_nat_alt)
qed

lemma charges_policies: "charges i m b b' \<Longrightarrow> policies_within limit b' = policies_within limit b"
  by (simp add: charges_def policies_within_def)

lemma counts_kept_policies: "counts_kept b b' \<Longrightarrow> policies_within limit b' = policies_within limit b"
  by (simp add: counts_kept_def policies_within_def)

lemma not_approves_charged: "\<not> approves c \<Longrightarrow> charged_policy (Classified argv c) = None"
  by (cases c) auto

lemma outcome_metered:
  assumes "classification_outcome blake3 fs b display action cwd permissions cx argv c b'" "policies_within limit b"
  shows "case charged_policy (Classified argv c) of
      None \<Rightarrow> counts_kept b b'
    | Some i \<Rightarrow> \<exists>m. charges i m b b' \<and> unat m \<le> limit i"
  using assms by (cases rule: classification_outcome.cases)
    (auto simp: approved_plan_def approved_read_def policies_within_def not_approves_charged)

lemma complete_counts_kept:
  "complete_verifier_plan d b = (r, b') \<Longrightarrow> (\<forall>j. executions_of j b' = executions_of j b) \<and> policies_within limit b' = policies_within limit b"
  by (auto simp: complete_verifier_plan_def policies_within_def split: if_splits)

lemma broker_step_metered:
  assumes "broker_step blake3 fs e b = (a, b')" "policies_within limit b"
  shows "policies_within limit b' \<and>
    (case charged_policy a of
       None \<Rightarrow> \<forall>j. executions_of j b' = executions_of j b
     | Some i \<Rightarrow> \<exists>m. charges i m b b' \<and> unat m \<le> limit i)"
proof (cases e)
  case (ClassifyEvent display action cwd permissions cx)
  with assms(1) obtain argv c where "classify_command blake3 fs b display action cwd permissions cx = ((argv, c), b')"
    "a = Classified argv c" by (auto split: prod.splits)
  with outcome_metered [OF classify_command_outcome assms(2)] have
    "case charged_policy a of None \<Rightarrow> counts_kept b b' | Some i \<Rightarrow> \<exists>m. charges i m b b' \<and> unat m \<le> limit i" by auto
  with assms(2) show ?thesis
    by (cases "charged_policy a") (auto simp: charges_policies counts_kept_policies, simp add: counts_kept_def)
next
  case (CompleteEvent d)
  with assms complete_counts_kept show ?thesis by (fastforce split: prod.splits)
qed

interpretation broker: metered_service "broker_step blake3 fs" "policies_within limit"
    "\<lambda>i b. unat (executions_of i b)" charged_policy limit
proof
  fix s e a s' k
  assume a: "policies_within limit s" "broker_step blake3 fs e s = (a, s')"
  note m = broker_step_metered [OF a(2) a(1)]
  show "policies_within limit s'" using m by simp
  show "unat (executions_of k s) < limit k \<and> unat (executions_of k s') = Suc (unat (executions_of k s))"
    if "charged_policy a = Some k" using m that charges_unat by auto
  show "unat (executions_of k s') = unat (executions_of k s)" if "charged_policy a \<noteq> Some k"
    using m that by (auto simp: charges_def split: option.splits)
qed


section \<open>The verifier's plans in order\<close>

fun verifier_event :: "test_plan list \<Rightarrow> broker_event \<Rightarrow> bool" where
  "verifier_event plans (ClassifyEvent display action cwd permissions cx) \<longleftrightarrow>
     ax_verifier_test_plans cx = Some plans \<and> ax_test_plan cx = None"
| "verifier_event plans (CompleteEvent d) \<longleftrightarrow> True"

fun approved_tests :: "broker_answer list \<Rightarrow> string list list" where
  "approved_tests [] = []"
| "approved_tests (Classified argv (AutoApprovedTest i) # as) = argv # approved_tests as"
| "approved_tests (_ # as) = approved_tests as"

definition completions :: "broker_answer list \<Rightarrow> nat" where
  "completions as = length (filter (\<lambda>a. a = Completed True) as)"

definition in_flight :: "approval_broker \<Rightarrow> nat" where
  "in_flight b = (if ab_verifier_in_flight b = None then 0 else 1)"

lemma completions_Cons [simp]:
  "completions [] = 0" "completions (a # as) = (if a = Completed True then 1 else 0) + completions as"
  by (auto simp: completions_def)

lemma broker_step_verifier:
  assumes "broker_step blake3 fs e b = (a, b')" "verifier_event plans e" "ab_verifier_next_plan b \<le> length plans"
  shows "ab_verifier_next_plan b \<le> ab_verifier_next_plan b' \<and> ab_verifier_next_plan b' \<le> length plans \<and>
    approved_tests [a] = map tp_argv (drop (ab_verifier_next_plan b) (take (ab_verifier_next_plan b') plans)) \<and>
    ab_verifier_next_plan b' + in_flight b = ab_verifier_next_plan b + completions [a] + in_flight b'"
proof (cases e)
  case (CompleteEvent d)
  with assms show ?thesis by (auto simp: complete_verifier_plan_def in_flight_def split: if_splits)
next
  case (ClassifyEvent display action cwd permissions cx)
  with assms(1) obtain argv c where cl: "classify_command blake3 fs b display action cwd permissions cx = ((argv, c), b')"
    and a: "a = Classified argv c" by (auto split: prod.splits)
  from assms(2) ClassifyEvent have cx: "ax_verifier_test_plans cx = Some plans" "ax_test_plan cx = None" by auto
  from classify_command_outcome [OF cl] show ?thesis
  proof cases
    case (verifier_test plans' plan i)
    with cx a show ?thesis by (simp add: in_flight_def take_Suc_conv_app_nth)
  next
    case (worker_test plan i)
    with cx show ?thesis by simp
  next
    case (read_only d a' i)
    with a assms(3) show ?thesis by (simp add: in_flight_def)
  next
    case refused
    then show ?thesis using a assms(3) by (cases c) (auto simp: counts_kept_def in_flight_def)
  qed
qed

lemma approved_tests_Cons: "approved_tests (a # as) = approved_tests [a] @ approved_tests as"
  by (cases "[a]" rule: approved_tests.cases) auto

lemma drop_take_append: "i \<le> j \<Longrightarrow> j \<le> k \<Longrightarrow> drop i (take j xs) @ drop j (take k xs) = drop i (take k xs)"
proof -
  assume ij: "i \<le> j" and jk: "j \<le> k"
  have "take k xs = take j xs @ drop j (take k xs)"
    using append_take_drop_id [of j "take k xs"] jk by (simp add: min_absorb1)
  then have "drop i (take k xs) = drop i (take j xs @ drop j (take k xs))" by simp
  then show ?thesis using ij by (cases "j \<le> length xs") auto
qed

lemma verifier_run:
  assumes "run_steps (broker_step blake3 fs) es b = (as, b')" "list_all (verifier_event plans) es"
    "ab_verifier_next_plan b \<le> length plans"
  shows "ab_verifier_next_plan b \<le> ab_verifier_next_plan b' \<and> ab_verifier_next_plan b' \<le> length plans \<and>
    approved_tests as = map tp_argv (drop (ab_verifier_next_plan b) (take (ab_verifier_next_plan b') plans)) \<and>
    ab_verifier_next_plan b' + in_flight b = ab_verifier_next_plan b + completions as + in_flight b'"
  using assms
proof (induction es arbitrary: b as)
  case (Cons e es)
  obtain a b1 where st: "broker_step blake3 fs e b = (a, b1)" by force
  with Cons.prems(1) obtain as1 where rn: "run_steps (broker_step blake3 fs) es b1 = (as1, b')" "as = a # as1"
    by (auto split: prod.splits)
  note s1 = broker_step_verifier [OF st _ Cons.prems(3)]
  from Cons.prems(2) have ev: "verifier_event plans e" "list_all (verifier_event plans) es" by auto
  note s = s1 [OF ev(1)]
  from Cons.IH [OF rn(1) ev(2)] s have r: "ab_verifier_next_plan b1 \<le> ab_verifier_next_plan b' \<and> ab_verifier_next_plan b' \<le> length plans \<and>
    approved_tests as1 = map tp_argv (drop (ab_verifier_next_plan b1) (take (ab_verifier_next_plan b') plans)) \<and>
    ab_verifier_next_plan b' + in_flight b1 = ab_verifier_next_plan b1 + completions as1 + in_flight b'" by blast
  have "approved_tests as = map tp_argv (drop (ab_verifier_next_plan b) (take (ab_verifier_next_plan b') plans))"
    using s r rn(2) drop_take_append [of "ab_verifier_next_plan b" "ab_verifier_next_plan b1" "ab_verifier_next_plan b'" plans]
    by (metis approved_tests_Cons map_append)
  with s r rn(2) show ?case by simp
qed simp

end
