(* ===== verification/Command_Text.thy ===== *)
theory Command_Text
  imports Approval
begin

text \<open>
  The command parsers of \<^verbatim>\<open>crates/needle-runtime/src/approval.rs\<close> on ASCII text: which argument
  vectors \<open>shell_safe_command\<close> can show, the round trip of a shown command through a shell wrapper, and
  the bounds of the quote-aware splitter.
\<close>

section \<open>Commands a shell shows unchanged\<close>

lemma shell_safe_visible: "shell_safe_char c \<Longrightarrow> visible c"
  by (auto simp: shell_safe_char_def visible_def ascii_defs)

lemma shell_safe_plain:
  "shell_safe_char c \<Longrightarrow> \<not> command_metacharacter c \<and> \<not> quote_char c \<and> c \<noteq> CHR ''$'' \<and> c \<noteq> CHR ''=''"
  by (auto simp: shell_safe_char_def command_metacharacter_def quote_char_def ascii_defs)

lemma sp_plain: "\<not> command_metacharacter sp" "\<not> quote_char sp"
  by (auto simp: command_metacharacter_def quote_char_def)

definition safe_token :: "string \<Rightarrow> bool" where
  "safe_token a \<longleftrightarrow> a \<noteq> [] \<and> list_all shell_safe_char a"

lemma safe_token_visible: "safe_token a \<Longrightarrow> a \<noteq> [] \<and> list_all visible a"
  by (auto simp: safe_token_def list_all_iff shell_safe_visible)

lemma parse_direct_join:
  assumes "argv \<noteq> []" "\<And>a. a \<in> set argv \<Longrightarrow> safe_token a"
  shows "parse_direct_argv (join '' '' argv) =
    (if \<exists>a \<in> set argv. to_ascii_lowercase a \<in> set shell_words then Err Unparseable else Ok argv)"
proof -
  let ?c = "join '' '' argv"
  have tok: "\<And>x. x \<in> set argv \<Longrightarrow> x \<noteq> [] \<and> list_all visible x" using assms(2) safe_token_visible by blast
  from join_ends [OF assms(1) tok] have trim: "trim ?c = ?c" "?c \<noteq> []" using trim_visible by auto
  have chars: "c = sp \<or> shell_safe_char c" if "c \<in> set ?c" for c
    using set_join [OF that] assms(2) by (auto simp: safe_token_def list_all_iff)
  have "\<not> has_control ?c"
    using chars by (intro has_control_printable) (force simp: visible_def dest: shell_safe_visible)
  moreover have "\<not> (\<exists>c \<in> set ?c. command_metacharacter c \<or> quote_char c \<or> c = CHR ''$'')"
    using chars shell_safe_plain sp_plain by fastforce
  moreover have "\<not> (\<exists>a \<in> set argv. CHR ''='' \<in> set a)"
    using assms(2) shell_safe_plain by (fastforce simp: safe_token_def list_all_iff)
  ultimately show ?thesis using trim split_join [OF tok] assms(1)
    by (auto simp: parse_direct_argv_def Let_def)
qed

lemma shell_safe_command_eq:
  "shell_safe_command argv =
     (if argv \<noteq> [] \<and> (\<forall>a \<in> set argv. safe_token a \<and> to_ascii_lowercase a \<notin> set shell_words)
      then Some (join '' '' argv) else None)"
proof (cases "argv \<noteq> [] \<and> (\<forall>a \<in> set argv. safe_token a)")
  case True
  with parse_direct_join [of argv] show ?thesis
    by (auto simp: shell_safe_command_def safe_token_def list_all_iff Let_def)
next
  case False
  then show ?thesis by (auto simp: shell_safe_command_def safe_token_def list_all_iff)
qed


section \<open>Commands inside a shell\<close>

text \<open>
  A shell-safe command wrapped in a POSIX shell: \<open>bash -lc 'cargo test merge'\<close>. The parser recognises the
  wrapper and returns the arguments of the inner command.
\<close>

definition wrap_posix :: "string \<Rightarrow> string \<Rightarrow> char \<Rightarrow> string \<Rightarrow> string" where
  "wrap_posix shell flag quote command = shell @ sp # flag @ sp # quote # command @ [quote]"

lemma quote_visible: "quote_char q \<Longrightarrow> visible q"
  by (auto simp: quote_char_def visible_def)

lemma wrap_not_direct: "quote_char q \<Longrightarrow> visible (hd shell) \<Longrightarrow> shell \<noteq> [] \<Longrightarrow> parse_direct_argv (wrap_posix shell flag q c) = Err Unparseable"
proof -
  assume q: "quote_char q" "visible (hd shell)" "shell \<noteq> []"
  have "trim (wrap_posix shell flag q c) = wrap_posix shell flag q c"
    using q quote_visible by (intro trim_visible) (auto simp: wrap_posix_def)
  with q(1) show ?thesis by (auto simp: parse_direct_argv_def Let_def wrap_posix_def)
qed

lemma split_wrapped:
  assumes "quote_char q" "shell \<noteq> []" "list_all visible shell" "\<not> starts_with [CHR 0x22] shell" "flag \<noteq> []" "list_all visible flag"
  shows "split_shell_executable (wrap_posix shell flag q c) = Some (shell, flag @ sp # q # c @ [q])"
proof -
  have hd: "visible (hd shell)" "visible (hd flag)" using assms by (auto simp: list_all_iff)
  have t: "trim (wrap_posix shell flag q c) = wrap_posix shell flag q c"
    using hd assms quote_visible by (intro trim_visible) (auto simp: wrap_posix_def)
  have "strip_prefix [CHR 0x22] (wrap_posix shell flag q c) = None"
    using assms(2,4) by (cases shell) (auto simp: wrap_posix_def)
  moreover have "find_ws (wrap_posix shell flag q c) = Some (length shell)"
    unfolding wrap_posix_def by (rule find_ws_sp [OF assms(3)])
  moreover have "trim_start (sp # flag @ sp # q # c @ [q]) = flag @ sp # q # c @ [q]"
    using assms(5) hd(2) by (cases flag) auto
  ultimately show ?thesis using assms(2,5) t
    by (auto simp: split_shell_executable_def both_nonempty_def wrap_posix_def)
qed

lemma payload_wrapped:
  assumes "quote_char q" "flag \<noteq> []" "list_all visible flag" "list_all (\<lambda>c. \<not> quote_char c) flag" "q \<notin> set c"
  shows "split_shell_payload (flag @ sp # q # c @ [q]) e = Some (flag, Some q, c)"
proof -
  have ends: "visible (hd flag)" "visible (last flag)" using assms(2,3) by (auto simp: list_all_iff)
  have "find_char quote_char ((flag @ [sp]) @ q # (c @ [q])) = Some (length (flag @ [sp]))"
    using assms(1,4) by (intro find_char_append) (auto simp: sp_plain)
  then have f: "find_char quote_char (flag @ sp # q # c @ [q]) = Some (Suc (length flag))" by simp
  have quoted: "trim (q # c @ [q]) = q # c @ [q]"
    using quote_visible [OF assms(1)] by (intro trim_visible) auto
  have "quoted_payload (flag @ sp # q # c @ [q]) (Suc (length flag)) = Some (flag, q, c)"
    using assms(2,5) quoted trim_trailing_sp [OF assms(2) ends]
    by (simp add: quoted_payload_def Let_def butlast_append)
  with f show ?thesis by (simp add: split_shell_payload_def)
qed

definition posix_wrappers :: "(string \<times> string) list" where
  "posix_wrappers = List.product [''sh'', ''bash'', ''zsh''] [''-c'', ''-lc'']"

lemma posix_wrapper_ok:
  assumes "(shell, flag) \<in> set posix_wrappers" "quote_char q"
  shows "shell \<noteq> []" "list_all visible shell" "\<not> starts_with [CHR 0x22] shell" "flag \<noteq> []" "list_all visible flag"
    "list_all (\<lambda>c. \<not> quote_char c) flag"
    "test_shell_supported (basename_lower shell) (Some q) (map to_ascii_lowercase (split_ascii_whitespace flag))"
proof -
  have all: "list_all (\<lambda>(shell, flag). shell \<noteq> [] \<and> list_all visible shell \<and> \<not> starts_with [CHR 0x22] shell \<and> flag \<noteq> [] \<and>
      list_all visible flag \<and> list_all (\<lambda>c. \<not> quote_char c) flag \<and> basename_lower shell \<notin> set powershell_names \<and>
      basename_lower shell \<notin> set cmd_names \<and> basename_lower shell \<in> set posix_shell_names \<and>
      posix_flags (map to_ascii_lowercase (split_ascii_whitespace flag))) posix_wrappers" by code_simp
  from all assms(1) show "shell \<noteq> []" "list_all visible shell" "\<not> starts_with [CHR 0x22] shell" "flag \<noteq> []" "list_all visible flag"
    "list_all (\<lambda>c. \<not> quote_char c) flag"
    "test_shell_supported (basename_lower shell) (Some q) (map to_ascii_lowercase (split_ascii_whitespace flag))"
    by (auto simp: list_all_iff test_shell_supported_def)
qed

lemma wrapped_roundtrip_raw:
  assumes "shell_safe_command argv = Some command" "(shell, flag) \<in> set posix_wrappers" "quote_char q"
  shows "parse_test_command_argv (wrap_posix shell flag q command) argv = Ok argv"
proof -
  note w = posix_wrapper_ok [OF assms(2,3)]
  from assms(1) have c: "command = join '' '' argv" "\<And>a. a \<in> set argv \<Longrightarrow> safe_token a"
    by (auto simp: shell_safe_command_eq split: if_splits)
  then have "q \<notin> set command"
    using set_join [of q argv] assms(3) shell_safe_plain sp_plain by (auto simp: safe_token_def list_all_iff)
  from payload_wrapped [OF assms(3) w(4,5,6) this, of command] split_wrapped [OF assms(3) w(1-5), of command]
    wrap_not_direct [OF assms(3) _ w(1), of flag command] w(1,2) w(7) assms(1)
  show ?thesis by (simp add: parse_test_command_argv_def list_all_iff)
qed

section \<open>The quote-aware splitter\<close>

lemma bounded_argv_loop_size:
  assumes "bounded_argv_loop argv argument quote s = Some (argv', argument', quote')"
    and "list_all (\<lambda>a. a \<noteq> []) argv" "length argv < MAX_READ_ONLY_ARGUMENTS"
  shows "list_all (\<lambda>a. a \<noteq> []) argv' \<and> length argv' < MAX_READ_ONLY_ARGUMENTS \<and>
    sum_list (map length argv') + length argument' \<le> sum_list (map length argv) + length argument + length s"
  using assms
proof (induction argv argument quote s rule: bounded_argv_loop.induct)
  case (2 argv argument quote c rest)
  from "2.prems"(1) obtain argv1 argument1 quote1 where step:
    "(case quote of
           Some active \<Rightarrow>
             if c = active then Some (argv, argument, None)
             else if active = CHR 0x22 \<and> expansion_char c then None
             else Some (argv, c # argument, quote)
         | None \<Rightarrow>
             if quote_char c then Some (argv, argument, Some c)
             else if is_ascii_whitespace c then
               Some (if argument = [] then (argv, argument, None) else (rev argument # argv, [], None))
             else if forbidden_unquoted c rest then None
             else Some (argv, c # argument, None)) = Some (argv1, argument1, quote1)" (is "?next = _")
    and len: "length argv1 < MAX_READ_ONLY_ARGUMENTS"
    and rest: "bounded_argv_loop argv1 argument1 quote1 rest = Some (argv', argument', quote')"
    by (auto simp: Let_def split: option.splits if_splits prod.splits)
  from step "2.prems"(2) have one: "list_all (\<lambda>a. a \<noteq> []) argv1"
    "sum_list (map length argv1) + length argument1 \<le> sum_list (map length argv) + length argument + 1"
    by (auto split: option.splits if_splits)
  have "\<not> MAX_READ_ONLY_ARGUMENTS \<le> length argv1" using len by simp
  from "2.IH" [OF refl step [symmetric, THEN sym] refl refl this rest one(1) len] one(2) show ?case by simp
qed simp

lemma parse_bounded_argv_size:
  assumes "parse_bounded_argv command = Ok argv"
  shows "argv \<noteq> [] \<and> length argv \<le> 64 \<and> list_all (\<lambda>a. a \<noteq> []) argv \<and> sum_list (map length argv) \<le> 4096"
proof -
  from assms obtain argv1 argument where
    loop: "bounded_argv_loop [] [] None (trim command) = Some (argv1, argument, None)" "length (trim command) \<le> 4096"
    and argv: "argv = rev (if argument = [] then argv1 else rev argument # argv1)" "argv \<noteq> []" "length argv \<le> 64"
    by (auto simp: parse_bounded_argv_def Let_def MAX_READ_ONLY_COMMAND_BYTES_def MAX_READ_ONLY_ARGUMENTS_def
      split: if_splits option.splits)
  from bounded_argv_loop_size [OF loop(1)] loop(2) argv show ?thesis
    by (auto simp: MAX_READ_ONLY_ARGUMENTS_def rev_map [symmetric] split: if_splits)
qed

end
