(* ===== verification/Approval_Theorems.thy ===== *)
theory Approval_Theorems
  imports Approval_Proofs Command_Text
begin

text \<open>
  The properties of the approval broker (\<^verbatim>\<open>crates/needle-runtime/src/approval.rs\<close>) and concrete requests on which
  they apply: soundness of the two kinds of automatic approval, the budget, the order of a verifier's
  plans, what accepted test evidence shows, the parsers of commands, and the two gaps found in the path
  checks.
\<close>

section \<open>Arguments of ripgrep\<close>

text \<open>
  The command lines of \<open>rg\<close> the broker may approve, as a grammar: known options, options with a value,
  bounded counts, operands; after \<open>--\<close> only operands. In particular no option that runs a program.
\<close>

inductive rg_line :: "string list \<Rightarrow> bool" where
  rg_end: "rg_line []"
| rg_operands: "rg_line (''--'' # as)"
| rg_flag: "to_ascii_lowercase a = ''--files'' \<or> rg_plain_flag a \<Longrightarrow> rg_line as \<Longrightarrow> rg_line (a # as)"
| rg_value: "rg_takes_value a \<Longrightarrow> rg_counts a \<longrightarrow> bounded_count v \<Longrightarrow> rg_line as \<Longrightarrow> rg_line (a # v # as)"
| rg_assign: "split_once ''='' (to_ascii_lowercase a) = Some (f, v) \<Longrightarrow> f \<in> set rg_long_values \<Longrightarrow>
     f \<in> set rg_long_counts \<longrightarrow> bounded_count v \<Longrightarrow> rg_line as \<Longrightarrow> rg_line (a # as)"
| rg_operand: "\<not> starts_with ''-'' a \<Longrightarrow> rg_line as \<Longrightarrow> rg_line (a # as)"

inductive_cases rg_line_ConsE: "rg_line (a # as)"







section \<open>Read-only commands\<close>







section \<open>What an automatic approval implies\<close>



section \<open>Concrete requests\<close>

definition demo_test :: test_plan where
  "demo_test = \<lparr>tp_runner = ''cargo'', tp_argv = [''cargo'', ''test'', ''merge''], tp_cwd_relative = ''a'',
     tp_identifier = ''plan::merge'', tp_requires_approval = True, tp_execution_evidence = None\<rparr>"

definition demo_fs :: file_system where
  "demo_fs = \<lparr>fs_canonicalize = Some, fs_metadata = (\<lambda>_. Some \<lparr>fm_is_file = True, fm_len = 9\<rparr>), fs_read = (\<lambda>_. None)\<rparr>"

definition verifier_context :: approval_context where
  "verifier_context = \<lparr>ax_route = ''r'', ax_repository_id = Digest [1], ax_checkout_root = ''/w'', ax_target_root = ''/t'',
     ax_temp_root = ''/tmp'', ax_test_plan = None, ax_verifier_test_plans = Some [demo_test], ax_test_execution_available = True\<rparr>"

definition worker_context :: approval_context where
  "worker_context = verifier_context\<lparr>ax_test_plan := Some demo_test, ax_verifier_test_plans := None\<rparr>"

definition demo_broker :: approval_broker where
  "demo_broker = with_read_only_policies [repository_inspection_policy (Digest [1])] (broker_new [cargo_test_policy (Digest [1])])"

definition demo_blake3 :: "u8 list \<Rightarrow> digest" where
  "demo_blake3 bytes = Digest [2]"

definition demo_request :: "approval_context \<Rightarrow> broker_event" where
  "demo_request cx = ClassifyEvent (Some ''cargo test merge'') (Some ''cargo test merge'') ''/w/a'' requested_permissions_default cx"




section \<open>Sessions\<close>

lemma new_broker [simp]:
  "executions_of i (with_read_only_policies ro (broker_new ps)) = 0"
  "ab_verifier_next_plan (with_read_only_policies ro (broker_new ps)) = 0"
  "ab_verifier_in_flight (with_read_only_policies ro (broker_new ps)) = None"
  by (simp_all add: with_read_only_policies_def broker_new_def executions_of_def)

text \<open>
  C16. In every session of a new broker, whatever is asked and whatever is completed, the number of
  commands approved under a policy identifier is the recorded count of that identifier and never
  exceeds the maximum of the policies that carry it; the 32-bit counters do not wrap.
\<close>

theorem broker_budget:
  assumes "policies_within limit (with_read_only_policies read_only (broker_new policies))"
    and "run_steps (broker_step blake3 fs) events (with_read_only_policies read_only (broker_new policies)) = (answers, b)"
  shows "length (filter (\<lambda>a. charged_policy a = Some i) answers) \<le> limit i \<and>
    length (filter (\<lambda>a. charged_policy a = Some i) answers) = unat (executions_of i b)"
  using broker.charged_within_limit [OF assms(1) _ assms(2), of i] broker.usage_counted [OF assms, of i] by simp_all

theorem broker_budget_witness:
  "length (filter (\<lambda>a. charged_policy a = Some ''cargo-test-direct-v1'')
     (fst (run_steps (broker_step demo_blake3 demo_fs) (replicate 3 (demo_request worker_context)) demo_broker))) \<le> 2 \<and>
   fst (run_steps (broker_step demo_blake3 demo_fs) (replicate 3 (demo_request worker_context)) demo_broker) =
     [Classified [''cargo'', ''test'', ''merge''] (AutoApprovedTest ''cargo-test-direct-v1''),
      Classified [''cargo'', ''test'', ''merge''] (AutoApprovedTest ''cargo-test-direct-v1''),
      Classified [''cargo'', ''test'', ''merge''] RejectedPolicyMismatch]"
proof -
  let ?r = "run_steps (broker_step demo_blake3 demo_fs) (replicate 3 (demo_request worker_context)) demo_broker"
  let ?limit = "\<lambda>i. if i = ''cargo-test-direct-v1'' then 2 else 16"
  have answers: "fst ?r = [Classified [''cargo'', ''test'', ''merge''] (AutoApprovedTest ''cargo-test-direct-v1''),
      Classified [''cargo'', ''test'', ''merge''] (AutoApprovedTest ''cargo-test-direct-v1''),
      Classified [''cargo'', ''test'', ''merge''] RejectedPolicyMismatch]" by code_simp
  have within: "policies_within ?limit demo_broker"
    by (simp add: policies_within_def demo_broker_def with_read_only_policies_def broker_new_def cargo_test_policy_def repository_inspection_policy_def)
  obtain as b where r: "?r = (as, b)" by force
  from broker_budget [OF within [unfolded demo_broker_def] r [unfolded demo_broker_def], of "''cargo-test-direct-v1''"] r answers
  show ?thesis by simp
qed

text \<open>
  C15. In every session in which a verifier's plans are the only declared plans, the approved test commands
  are exactly the first plans in their declared order, each at most once, and the number of approvals
  is the number of completed plans plus the one in flight, if any: a plan is approved only after the
  previous one has been completed.
\<close>

theorem verifier_order:
  assumes "list_all (verifier_event plans) events"
    and "run_steps (broker_step blake3 fs) events (with_read_only_policies read_only (broker_new policies)) = (answers, b)"
  shows "approved_tests answers = map tp_argv (take (ab_verifier_next_plan b) plans) \<and>
    ab_verifier_next_plan b \<le> length plans \<and>
    length (approved_tests answers) = completions answers + in_flight b"
  using verifier_run [OF assms(2,1)] by (simp add: in_flight_def)

lemma demo_parses: "parses_to_plan (Some ''cargo test merge'') demo_test"
  by code_simp

lemma demo_admissible: "request_admissible demo_fs ''/w/a'' requested_permissions_default verifier_context"
  by code_simp

lemma demo_here: "same_canonical_path demo_fs ''/w/a'' (path_join ''/w'' ''a'')"
  by code_simp

lemmas demo_defs = demo_broker_def verifier_context_def demo_test_def broker_new_def with_read_only_policies_def
  cargo_test_policy_def test_policy_matches_def take_execution_def executions_of_def complete_verifier_plan_def
  request_admissible_def classify_command_def classify_verifier_def Let_def demo_request_def

theorem verifier_order_witness:
  "\<exists>b. run_steps (broker_step demo_blake3 demo_fs)
       [demo_request verifier_context, demo_request verifier_context, CompleteEvent (plan_identity_digest demo_blake3 demo_test)] demo_broker =
       ([Classified [''cargo'', ''test'', ''merge''] (AutoApprovedTest ''cargo-test-direct-v1''),
         Classified [''cargo'', ''test'', ''merge''] RejectedPolicyMismatch, Completed True], b) \<and>
     map tp_argv (take (ab_verifier_next_plan b) [demo_test]) = [[''cargo'', ''test'', ''merge'']]"
proof -
  let ?es = "[demo_request verifier_context, demo_request verifier_context, CompleteEvent (plan_identity_digest demo_blake3 demo_test)]"
  let ?as = "[Classified [''cargo'', ''test'', ''merge''] (AutoApprovedTest ''cargo-test-direct-v1''),
         Classified [''cargo'', ''test'', ''merge''] RejectedPolicyMismatch, Completed True]"
  have "fst (run_steps (broker_step demo_blake3 demo_fs) ?es demo_broker) = ?as"
    using demo_parses demo_admissible demo_here by (simp add: demo_defs)
  then obtain b where r: "run_steps (broker_step demo_blake3 demo_fs) ?es demo_broker = (?as, b)" by (metis prod.collapse)
  have "list_all (verifier_event [demo_test]) ?es" by (simp add: demo_request_def verifier_context_def)
  from verifier_order [OF this r [unfolded demo_broker_def]] r show ?thesis by simp
qed


section \<open>Test evidence\<close>

lemma strip_prefix_Some: "strip_prefix p s = Some r \<longleftrightarrow> s = p @ r"
  by (induction p s rule: strip_prefix.induct) auto

lemma canonical_command:
  assumes "from_canonical_parts runner argv identifier = Ok c"
  shows "tc_argv c = argv" "tc_identifier c = identifier" "runner = ''cargo''" "input_form_of argv = Some CompleteArgv"
proof -
  from assms obtain form where w: "from_worker_parts runner argv identifier = Ok (c, form)" "form \<noteq> RunnerRelativeArgv"
    by (auto simp: from_canonical_parts_def split: if_splits)
  then have form: "form = CompleteArgv" by (cases form) auto
  from w(1) form have vio: "command_violations runner argv identifier = []" and "input_form_of argv = Some form"
    by (auto simp: from_worker_parts_Ok)
  with form show f: "input_form_of argv = Some CompleteArgv" by simp
  from vio show "runner = ''cargo''" by (auto simp: command_violations_def Let_def split: if_splits)
  from w(1) f show "tc_argv c = argv" "tc_identifier c = identifier"
    by (auto simp: from_worker_parts_def Let_def canonical_argv_def split: if_splits)
qed

text \<open>
  Accepted test evidence is of the planned command and of a passed run: it has exactly the plan's
  arguments, a canonical cargo test; the exit status is zero with no infrastructure failure; it names the
  plan's test; the kept output has a line \<open>test <name>\<close> whose name is the identifier or its last segment;
  and at least one test was executed.
\<close>

theorem test_evidence_sound:
  assumes "validate_test_evidence plan evidence = Ok u"
  shows "ce_runner evidence = ''cargo'' \<and> ce_argv evidence = tp_argv plan \<and> take 2 (ce_argv evidence) = [''cargo'', ''test''] \<and>
    ce_exit_status evidence = Some 0 \<and> ce_infrastructure_failure evidence = None \<and>
    ce_test_identifier evidence = Some (tp_identifier plan) \<and>
    (\<exists>n. ce_tests_executed evidence = Some n \<and> 1 \<le> n) \<and>
    (\<exists>line \<in> set (str_lines (ce_output_preview evidence)). \<exists>rest. trim line = ''test '' @ rest)"
proof -
  from assms obtain c where c: "test_command_of plan = Ok c"
    "from_canonical_parts (ce_runner evidence) (ce_argv evidence) (tp_identifier plan) = Ok c"
    and facts: "ce_exit_status evidence = Some 0" "ce_infrastructure_failure evidence = None"
      "ce_test_identifier evidence = Some (tp_identifier plan)"
    and seen: "test_output_observes_identifier (ce_output_preview evidence) (tp_identifier plan)"
    and ran: "(case ce_tests_executed evidence of None \<Rightarrow> 0 | Some n \<Rightarrow> n) \<noteq> 0"
    by (auto simp: validate_test_evidence_def split: if_splits)
  note plan = canonical_command [OF c(1) [unfolded test_command_of_def]] and ev = canonical_command [OF c(2)]
  from ran have "\<exists>n. ce_tests_executed evidence = Some n \<and> 1 \<le> n"
    by (cases "ce_tests_executed evidence") (auto simp: word_le_nat_alt unat_gt_0 Suc_le_eq)
  moreover have "\<exists>line \<in> set (str_lines (ce_output_preview evidence)). \<exists>rest. trim line = ''test '' @ rest"
  proof -
    from seen obtain line where l: "line \<in> set (str_lines (ce_output_preview evidence))" "strip_prefix ''test '' (trim line) \<noteq> None"
      by (auto simp: test_output_observes_identifier_def Let_def split: option.splits)
    then obtain rest where "strip_prefix ''test '' (trim line) = Some rest" by auto
    then have "trim line = ''test '' @ rest" by (simp add: strip_prefix_Some)
    with l(1) show ?thesis by blast
  qed
  ultimately show ?thesis
    using plan(1) ev facts input_form_complete [OF ev(4)] by auto
qed

definition demo_evidence :: command_execution_evidence where
  "demo_evidence = \<lparr>ce_id = ''e'', ce_approval_id = ''a'', ce_argv = [''cargo'', ''test'', ''merge''], ce_cwd = ''/w/a'',
     ce_source_snapshot_digest = Digest [3], ce_runner = ''cargo'', ce_runner_version = None, ce_exit_status = Some 0,
     ce_duration_ms = 5, ce_output_digest = Digest [4], ce_output_preview = ''test plan::merge ... ok'',
     ce_test_identifier = Some ''plan::merge'', ce_tests_executed = Some 1, ce_infrastructure_failure = None\<rparr>"

theorem test_evidence_sound_witness:
  "validate_test_evidence demo_test demo_evidence = Ok () \<and> ce_argv demo_evidence = tp_argv demo_test"
proof -
  have "validate_test_evidence demo_test demo_evidence = Ok ()" by code_simp
  with test_evidence_sound [OF this] show ?thesis by blast
qed


text \<open>
  The kept output is a beginning of the decoded output, at most the maximum long, and cut between
  two characters.
\<close>

theorem bounded_preview_prefix:
  "\<exists>e. bounded_preview output maximum = take e (from_utf8_lossy output) \<and> e \<le> maximum \<and>
     is_char_boundary (from_utf8_lossy output) e"
proof -
  let ?t = "from_utf8_lossy output"
  have "floor_boundary s m \<le> m \<and> is_char_boundary s (floor_boundary s m)" for s m
    by (induction m) (auto simp: is_char_boundary_def)
  from this [of ?t "min (length ?t) maximum"] show ?thesis
    by (intro exI [of _ "floor_boundary ?t (min (length ?t) maximum)"]) (simp add: bounded_preview_def Let_def)
qed

section \<open>Commands and shells\<close>

text \<open>
  A command line the runtime may show to a user round-trips: the rendering of a test plan's arguments
  (one space between arguments) parses back to the arguments, alone and wrapped in \<open>sh\<close>, \<open>bash\<close> or
  \<open>zsh\<close> with \<open>-c\<close> or \<open>-lc\<close> and either kind of quote.
\<close>

theorem shell_wrapper_roundtrip:
  assumes "shell_safe_command argv = Some command" "(shell, flag) \<in> set posix_wrappers" "quote_char q"
  shows "parse_test_command_argv command argv = Ok argv \<and>
    parse_test_command_argv (wrap_posix shell flag q command) argv = Ok argv"
  using wrapped_roundtrip_raw [OF assms] assms(1) parse_direct_join [of argv]
  by (auto simp: parse_test_command_argv_def shell_safe_command_eq split: if_splits)

theorem shell_wrapper_roundtrip_witness:
  "shell_safe_command [''cargo'', ''test'', ''merge''] = Some ''cargo test merge'' \<and>
   parse_test_command_argv ''bash -lc \"cargo test merge\"'' [''cargo'', ''test'', ''merge''] = Ok [''cargo'', ''test'', ''merge'']"
proof -
  have s: "shell_safe_command [''cargo'', ''test'', ''merge''] = Some ''cargo test merge''" by code_simp
  have "(''bash'', ''-lc'') \<in> set posix_wrappers" "quote_char (CHR 0x22)" by code_simp+
  from shell_wrapper_roundtrip [OF s this] s show ?thesis by (simp add: wrap_posix_def)
qed

text \<open>
  Which argument vectors can be shown: exactly the non-empty ones whose arguments are non-empty words
  over letters, digits and \<open>_ . / : -\<close> and none of which is the name of a shell; the re-parse inside
  \<open>shell_safe_command\<close> refuses nothing else.
\<close>

theorem shell_safe_command_iff:
  "shell_safe_command argv =
     (if argv \<noteq> [] \<and> list_all (\<lambda>a. safe_token a \<and> to_ascii_lowercase a \<notin> set shell_words) argv
      then Some (join '' '' argv) else None)"
  by (simp add: shell_safe_command_eq list_all_iff)

text \<open>
  The splitter of read-only commands is bounded: whatever text it accepts, it returns between one and
  64 arguments, none of them empty, of at most 4096 bytes together.
\<close>

theorem bounded_argv_bounds:
  assumes "parse_bounded_argv command = Ok argv"
  shows "argv \<noteq> [] \<and> length argv \<le> 64 \<and> list_all (\<lambda>a. a \<noteq> []) argv \<and> sum_list (map length argv) \<le> 4096"
  by (rule parse_bounded_argv_size [OF assms])

theorem bounded_argv_bounds_witness:
  "parse_bounded_argv ''rg -n \"fn main\" src'' = Ok [''rg'', ''-n'', ''fn main'', ''src''] \<and>
   sum_list (map length [''rg'', ''-n'', ''fn main'', ''src'']) \<le> 4096"
proof -
  have "parse_bounded_argv ''rg -n \"fn main\" src'' = Ok [''rg'', ''-n'', ''fn main'', ''src'']" by code_simp
  with bounded_argv_bounds [OF this] show ?thesis by blast
qed

section \<open>Gaps of the path checks\<close>

text \<open>
  A first positional argument of \<open>rg\<close> is taken for the pattern when no pattern has been declared yet.
  With a later \<open>-e\<close> or \<open>--files\<close>, \<open>rg\<close> itself reads it as a path, but it is never checked: whatever the
  file system and the checkout, \<open>rg /etc/passwd -e root\<close> and \<open>rg /etc --files\<close> are allowed.
\<close>

theorem rg_unchecked_path:
  "rg_argv_is_allowed fs [''rg'', ''/etc/passwd'', ''-e'', ''root''] cwd checkout_root \<and>
   rg_argv_is_allowed fs [''rg'', ''/etc'', ''--files''] cwd checkout_root"
proof -
  have "rg_scan False False [] [''/etc/passwd'', ''-e'', ''root''] = Some (True, False, [])"
    "rg_scan False False [] [''/etc'', ''--files''] = Some (True, True, [])" by code_simp+
  then show ?thesis by (simp add: rg_argv_is_allowed_def)
qed

text \<open>
  The tool is recognised by the last component of the executable only: a program of that name inside
  the checkout, which the worker may have written, is approved as \<open>rg\<close>.
\<close>

theorem read_only_tool_by_basename:
  "read_only_argv_is_allowed fs [''./rg'', ''x''] cwd checkout_root"
proof -
  have "read_only_executable [''./rg'', ''x''] = Some Ripgrep" "rg_scan False False [] [''x''] = Some (True, False, [])"
    by code_simp+
  then show ?thesis by (simp add: read_only_argv_is_allowed_def rg_argv_is_allowed_def)
qed

text \<open>
  A requested write path is compared with the target and temporary roots component by component and
  not resolved: parent components after the root are accepted, so the path may lead anywhere.
\<close>

theorem write_path_parent_accepted:
  "write_path_allowed ''/t/../etc/passwd'' ''/t'' ''/tmp'' \<and> ParentDir \<in> set (path_components ''/t/../etc/passwd'')"
  by code_simp

end
