(* ===== verification/Claims.thy ===== *)
theory Claims
  imports Semantic
begin

text \<open>
  \<^verbatim>\<open>crates/needle-core/src/claim.rs\<close> and the location, flow and dependency types of \<^verbatim>\<open>crates/needle-core/src/artifact.rs\<close>:
  claims extracted from artifacts, their relations, the certificates that validate one claim, and the
  certificate of a set of claims, with the constructors, the canonical form and the identities.
\<close>

section \<open>Locations, flow steps and dependencies\<close>

datatype location_role = Primary | Supporting

record semantic_location =
  lo_role :: location_role
  lo_path :: string
  lo_symbol :: "string option"
  lo_start :: "u64 option"
  lo_end :: "u64 option"

datatype flow_step_role = Producer | Carrier | Transformation | Precedence | Consumer

record semantic_flow_step =
  fl_role :: flow_step_role
  fl_location :: semantic_location
  fl_description :: string

record dependency =
  dp_path :: string
  dp_content :: digest
  dp_start :: "u64 option"
  dp_end :: "u64 option"
  dp_claims :: "string list"

section \<open>Claims\<close>

definition MAX_CLAIMS_PER_ARTIFACT :: nat where "MAX_CLAIMS_PER_ARTIFACT = 32"
definition MAX_CLAIM_CANDIDATES :: nat where "MAX_CLAIM_CANDIDATES = 64"
definition MAX_SELECTED_CLAIMS :: nat where "MAX_SELECTED_CLAIMS = 16"
definition MAX_CLAIM_ORIGINS :: nat where "MAX_CLAIM_ORIGINS = 8"

lemmas claim_bounds = MAX_CLAIMS_PER_ARTIFACT_def MAX_CLAIM_CANDIDATES_def MAX_SELECTED_CLAIMS_def MAX_CLAIM_ORIGINS_def

datatype claim_kind = LocationClaim | FlowStepClaim | FocusedTestClaim

fun claim_kind_str :: "claim_kind \<Rightarrow> string" where
  "claim_kind_str LocationClaim = ''implementation-location''"
| "claim_kind_str FlowStepClaim = ''runtime-flow-step''"
| "claim_kind_str FocusedTestClaim = ''focused-test''"

definition claim_kind_parse :: "string \<Rightarrow> claim_kind option" where
  "claim_kind_parse value =
     (if value = ''implementation-location'' then Some LocationClaim
      else if value = ''runtime-flow-step'' then Some FlowStepClaim
      else if value = ''focused-test'' then Some FocusedTestClaim
      else None)"

fun claim_kind_tag :: "claim_kind \<Rightarrow> u8" where
  "claim_kind_tag LocationClaim = 0"
| "claim_kind_tag FlowStepClaim = 1"
| "claim_kind_tag FocusedTestClaim = 2"

record focused_test_payload =
  ft_runner :: string
  ft_argv :: "string list"
  ft_cwd :: string
  ft_identifier :: string
  ft_selection :: string
  ft_evidence :: "string list"

datatype claim_payload =
    LocationPayload semantic_location
  | FlowStepPayload string digest semantic_flow_step
  | FocusedTestPayload focused_test_payload

fun payload_kind :: "claim_payload \<Rightarrow> claim_kind" where
  "payload_kind (LocationPayload location) = LocationClaim"
| "payload_kind (FlowStepPayload scenario anchor step) = FlowStepClaim"
| "payload_kind (FocusedTestPayload test) = FocusedTestClaim"

definition hash_optional_u64 :: "u64 option \<Rightarrow> hasher \<Rightarrow> hasher" where
  "hash_optional_u64 value h =
     (case value of Some v \<Rightarrow> field_bytes (u64_le v) (field_u8 1 h) | None \<Rightarrow> field_u8 0 h)"

fun location_role_tag :: "location_role \<Rightarrow> u8" where
  "location_role_tag Primary = 0"
| "location_role_tag Supporting = 1"

fun flow_role_tag :: "flow_step_role \<Rightarrow> u8" where
  "flow_role_tag Producer = 0"
| "flow_role_tag Carrier = 1"
| "flow_role_tag Transformation = 2"
| "flow_role_tag Precedence = 3"
| "flow_role_tag Consumer = 4"

definition hash_location :: "semantic_location \<Rightarrow> hasher \<Rightarrow> hasher" where
  "hash_location location h =
     (let h = field_u8 (location_role_tag (lo_role location)) h;
          h = field_str (lo_path location) h;
          h = (case lo_symbol location of Some symbol \<Rightarrow> field_str symbol (field_u8 1 h) | None \<Rightarrow> field_u8 0 h);
          h = hash_optional_u64 (lo_start location) h
      in hash_optional_u64 (lo_end location) h)"

definition hash_flow_step :: "semantic_flow_step \<Rightarrow> hasher \<Rightarrow> hasher" where
  "hash_flow_step step h =
     field_str (fl_description step) (hash_location (fl_location step) (field_u8 (flow_role_tag (fl_role step)) h))"

definition runtime_flow_anchor :: "(u8 list \<Rightarrow> digest) \<Rightarrow> string \<Rightarrow> semantic_flow_step list \<Rightarrow> digest option" where
  "runtime_flow_anchor blake3 scenario steps =
     (if scenario = [] \<or> steps = [] \<or> length steps > MAX_CLAIMS_PER_ARTIFACT then None
      else Some (hasher_finish blake3 (fold hash_flow_step steps (field_str scenario (hasher_new ''runtime-flow-anchor'')))))"

record claim =
  cl_id :: digest
  cl_kind :: claim_kind
  cl_contract :: digest
  cl_payload :: claim_payload

fun payload_fields :: "claim_payload \<Rightarrow> hasher \<Rightarrow> hasher option" where
  "payload_fields (LocationPayload location) h = Some (hash_location location h)"
| "payload_fields (FlowStepPayload scenario anchor step) h =
     Some (hash_flow_step step (field_digest anchor (field_str scenario h)))"
| "payload_fields (FocusedTestPayload t) h =
     (if length (ft_argv t) > 16 \<or> length (ft_evidence t) > 8 then None
      else Some (fold field_str (sort (ft_evidence t))
        (field_str (ft_selection t) (field_str (ft_identifier t) (field_str (ft_cwd t)
        (fold field_str (ft_argv t) (field_str (ft_runner t) h)))))))"

definition compute_claim_id :: "(u8 list \<Rightarrow> digest) \<Rightarrow> claim_kind \<Rightarrow> digest \<Rightarrow> claim_payload \<Rightarrow> digest option" where
  "compute_claim_id blake3 kind contract_definition payload =
     (if kind \<noteq> payload_kind payload then None
      else map_option (hasher_finish blake3)
        (payload_fields payload (field_digest contract_definition (field_u8 (claim_kind_tag kind) (hasher_new ''semantic-claim'')))))"

fun canonicalize_claim_payload :: "claim_payload \<Rightarrow> claim_payload option" where
  "canonicalize_claim_payload (FocusedTestPayload t) =
     (if length (ft_argv t) > 16 \<or> length (ft_evidence t) > 8 then None
      else let evidence = sort_dedup (ft_evidence t) in
        if evidence = [] then None else Some (FocusedTestPayload (t\<lparr>ft_evidence := evidence\<rparr>)))"
| "canonicalize_claim_payload payload = Some payload"

fun claim_payload_is_canonical :: "claim_payload \<Rightarrow> bool" where
  "claim_payload_is_canonical (FocusedTestPayload t) \<longleftrightarrow>
     length (ft_argv t) \<le> 16 \<and> ft_evidence t \<noteq> [] \<and> length (ft_evidence t) \<le> 8 \<and> successively (<) (ft_evidence t)"
| "claim_payload_is_canonical payload \<longleftrightarrow> True"

definition claim_new :: "(u8 list \<Rightarrow> digest) \<Rightarrow> digest \<Rightarrow> claim_payload \<Rightarrow> claim option" where
  "claim_new blake3 contract_definition payload =
     (case canonicalize_claim_payload payload of
        None \<Rightarrow> None
      | Some payload \<Rightarrow>
          map_option (\<lambda>i. \<lparr>cl_id = i, cl_kind = payload_kind payload, cl_contract = contract_definition, cl_payload = payload\<rparr>)
            (compute_claim_id blake3 (payload_kind payload) contract_definition payload))"

definition claim_is_canonical :: "(u8 list \<Rightarrow> digest) \<Rightarrow> claim \<Rightarrow> bool" where
  "claim_is_canonical blake3 c \<longleftrightarrow>
     cl_kind c = payload_kind (cl_payload c) \<and> claim_payload_is_canonical (cl_payload c) \<and>
     compute_claim_id blake3 (cl_kind c) (cl_contract c) (cl_payload c) = Some (cl_id c)"

record claim_origin =
  og_claim :: digest
  og_artifact :: digest
  og_validation :: digest
  og_subject :: digest
  og_world :: digest
  og_ordinal :: u16
  og_created :: u64

section \<open>Relations\<close>

datatype claim_relation_kind = Precedes

fun relation_kind_str :: "claim_relation_kind \<Rightarrow> string" where
  "relation_kind_str Precedes = ''precedes''"

fun relation_kind_tag :: "claim_relation_kind \<Rightarrow> u8" where
  "relation_kind_tag Precedes = 0"

record claim_relation =
  rl_id :: digest
  rl_from :: digest
  rl_to :: digest
  rl_kind :: claim_relation_kind

definition claim_relation_new :: "(u8 list \<Rightarrow> digest) \<Rightarrow> digest \<Rightarrow> digest \<Rightarrow> claim_relation_kind \<Rightarrow> claim_relation" where
  "claim_relation_new blake3 from_claim to_claim kind =
     \<lparr>rl_id = hasher_finish blake3 (field_u8 (relation_kind_tag kind) (field_digest to_claim (field_digest from_claim (hasher_new ''claim-relation'')))),
      rl_from = from_claim, rl_to = to_claim, rl_kind = kind\<rparr>"

definition claim_relation_is_canonical :: "(u8 list \<Rightarrow> digest) \<Rightarrow> claim_relation \<Rightarrow> bool" where
  "claim_relation_is_canonical blake3 r \<longleftrightarrow> rl_id (claim_relation_new blake3 (rl_from r) (rl_to r) (rl_kind r)) = rl_id r"

section \<open>Certificates of one claim\<close>

record claim_certificate =
  cc_id :: digest
  cc_claim :: digest
  cc_artifact :: digest
  cc_validation :: digest
  cc_subject :: digest
  cc_world :: digest
  cc_validator :: digest
  cc_dependencies :: "dependency list"
  cc_obligations :: "obligation list"
  cc_issued :: u64

definition dependency_key :: "dependency \<Rightarrow> string \<times> digest \<times> u64 option \<times> u64 option" where
  "dependency_key d = (dp_path d, dp_content d, dp_start d, dp_end d)"

definition dependency_fields :: "dependency \<Rightarrow> hasher \<Rightarrow> hasher" where
  "dependency_fields d h =
     hash_optional_u64 (dp_end d) (hash_optional_u64 (dp_start d) (field_digest (dp_content d) (field_str (dp_path d) h)))"

definition compute_claim_validation_certificate_id ::
    "(u8 list \<Rightarrow> digest) \<Rightarrow> digest \<Rightarrow> digest \<Rightarrow> digest \<Rightarrow> digest \<Rightarrow> digest \<Rightarrow> digest \<Rightarrow> dependency list \<Rightarrow> obligation list \<Rightarrow> digest" where
  "compute_claim_validation_certificate_id blake3 claim artifact validation subj world validator dependencies obligations =
     (let h = hasher_new ''claim-validation-certificate'';
          h = fold field_digest [claim, artifact, validation, subj, world, validator] h;
          h = fold dependency_fields dependencies h
      in hasher_finish blake3 (fold (\<lambda>ob. field_digest (ob_id ob)) obligations h))"

definition claim_certificate_new ::
    "(u8 list \<Rightarrow> digest) \<Rightarrow> digest \<Rightarrow> digest \<Rightarrow> digest \<Rightarrow> digest \<Rightarrow> digest \<Rightarrow> digest \<Rightarrow> dependency list \<Rightarrow> obligation list \<Rightarrow> u64 \<Rightarrow>
     claim_certificate option" where
  "claim_certificate_new blake3 claim artifact validation subj world validator dependencies obligations issued =
     (if dependencies = [] \<or> length dependencies > MAX_CLAIMS_PER_ARTIFACT then None
      else
        let dependencies = map (\<lambda>d. d\<lparr>dp_claims := []\<rparr>) dependencies;
            dependencies = dedup_by_key dependency_key (sort_key dependency_key dependencies);
            obligations = dedup_by_key ob_id (sort_key ob_id obligations) in
        if obligations = [] \<or> length obligations > 16 then None
        else Some
          \<lparr>cc_id = compute_claim_validation_certificate_id blake3 claim artifact validation subj world validator dependencies obligations,
           cc_claim = claim, cc_artifact = artifact, cc_validation = validation, cc_subject = subj, cc_world = world,
           cc_validator = validator, cc_dependencies = dependencies, cc_obligations = obligations, cc_issued = issued\<rparr>)"

definition obligation_is_canonical :: "(u8 list \<Rightarrow> digest) \<Rightarrow> obligation \<Rightarrow> bool" where
  "obligation_is_canonical blake3 ob \<longleftrightarrow> obligation_new blake3 (ob_predicate ob) (ob_subject ob) (ob_facets ob) = ob"

definition claim_certificate_is_canonical :: "(u8 list \<Rightarrow> digest) \<Rightarrow> claim_certificate \<Rightarrow> bool" where
  "claim_certificate_is_canonical blake3 c \<longleftrightarrow>
     (\<forall>d \<in> set (cc_dependencies c). dp_claims d = []) \<and>
     successively (\<lambda>a b. dependency_key a < dependency_key b) (cc_dependencies c) \<and>
     successively (\<lambda>a b. ob_id a < ob_id b) (cc_obligations c) \<and>
     (\<forall>ob \<in> set (cc_obligations c). obligation_is_canonical blake3 ob) \<and>
     compute_claim_validation_certificate_id blake3 (cc_claim c) (cc_artifact c) (cc_validation c) (cc_subject c) (cc_world c)
       (cc_validator c) (cc_dependencies c) (cc_obligations c) = cc_id c"

section \<open>Certificates of a set of claims\<close>

record claim_set_certificate =
  cs_id :: digest
  cs_need :: digest
  cs_claims :: "digest list"
  cs_validations :: "digest list"
  cs_obligations :: "digest list"
  cs_world :: digest
  cs_engine :: digest
  cs_created :: u64

definition compute_claim_set_certificate_id ::
    "(u8 list \<Rightarrow> digest) \<Rightarrow> digest \<Rightarrow> digest list \<Rightarrow> digest list \<Rightarrow> digest list \<Rightarrow> digest \<Rightarrow> digest \<Rightarrow> digest" where
  "compute_claim_set_certificate_id blake3 need_id claims validations obligations world engine =
     (let h = hasher_new ''claim-set-certificate'';
          h = fold field_digest [need_id, world, engine] h;
          h = fold (\<lambda>(c, v) h. field_digest v (field_digest c h)) (zip claims validations) h
      in hasher_finish blake3 (fold field_digest obligations h))"

definition claim_set_certificate_new ::
    "(u8 list \<Rightarrow> digest) \<Rightarrow> digest \<Rightarrow> (digest \<times> digest) list \<Rightarrow> digest list \<Rightarrow> digest \<Rightarrow> digest \<Rightarrow> u64 \<Rightarrow> claim_set_certificate option" where
  "claim_set_certificate_new blake3 need_id members obligations world engine created =
     (let members = sort members; obligations = sort obligations in
      if members = [] \<or> length members > MAX_SELECTED_CLAIMS \<or> obligations = [] \<or> length obligations > 16 \<or>
         \<not> successively (\<lambda>a b. fst a \<noteq> fst b) members \<or> \<not> successively (\<noteq>) obligations
      then None
      else Some
        \<lparr>cs_id = compute_claim_set_certificate_id blake3 need_id (map fst members) (map snd members) obligations world engine,
         cs_need = need_id, cs_claims = map fst members, cs_validations = map snd members, cs_obligations = obligations,
         cs_world = world, cs_engine = engine, cs_created = created\<rparr>)"

definition claim_set_certificate_is_canonical :: "(u8 list \<Rightarrow> digest) \<Rightarrow> claim_set_certificate \<Rightarrow> bool" where
  "claim_set_certificate_is_canonical blake3 c \<longleftrightarrow>
     (if cs_claims c = [] \<or> length (cs_claims c) > MAX_SELECTED_CLAIMS \<or> length (cs_claims c) \<noteq> length (cs_validations c) \<or>
         cs_obligations c = [] \<or> length (cs_obligations c) > 16 \<or>
         \<not> successively (<) (cs_claims c) \<or> \<not> successively (<) (cs_obligations c)
      then False
      else compute_claim_set_certificate_id blake3 (cs_need c) (cs_claims c) (cs_validations c) (cs_obligations c) (cs_world c)
        (cs_engine c) = cs_id c)"

datatype proof_component = ArtifactComponent digest digest | ClaimComponent digest digest

section \<open>Canonical form\<close>

lemma length_sort_dedup: "length (sort_dedup xs) \<le> length xs"
  using remdups_adj_length [of "sort xs"] by (simp add: sort_dedup_def)

lemma claim_new_canonical:
  assumes "claim_new blake3 contract payload = Some c"
  shows "claim_is_canonical blake3 c \<and> cl_contract c = contract"
proof -
  from assms obtain p i where p: "canonicalize_claim_payload payload = Some p"
    "compute_claim_id blake3 (payload_kind p) contract p = Some i"
    and c: "c = \<lparr>cl_id = i, cl_kind = payload_kind p, cl_contract = contract, cl_payload = p\<rparr>"
    by (auto simp: claim_new_def split: option.splits)
  from p(1) have "claim_payload_is_canonical p"
    by (cases payload rule: canonicalize_claim_payload.cases)
      (auto simp: Let_def successively_less not_less intro: order_trans [OF length_sort_dedup] split: if_splits)
  with p(2) c show ?thesis by (simp add: claim_is_canonical_def)
qed

lemma sorted_key_successively:
  "sorted (map f xs) \<Longrightarrow> successively (\<lambda>a b. f a < f b) (dedup_by_key f xs)"
  using dedup_by_key_strict [of f xs] by (simp add: successively_less_key)

lemma claim_certificate_new_canonical:
  assumes "claim_certificate_new blake3 claim artifact validation subj world validator dependencies obligations issued = Some c"
    and "\<And>ob. ob \<in> set obligations \<Longrightarrow> obligation_is_canonical blake3 ob"
  shows "claim_certificate_is_canonical blake3 c"
proof -
  let ?ds = "dedup_by_key dependency_key (sort_key dependency_key (map (\<lambda>d. d\<lparr>dp_claims := []\<rparr>) dependencies))"
  let ?os = "dedup_by_key ob_id (sort_key ob_id obligations)"
  from assms(1) have c: "c = \<lparr>cc_id = compute_claim_validation_certificate_id blake3 claim artifact validation subj world validator ?ds ?os,
      cc_claim = claim, cc_artifact = artifact, cc_validation = validation, cc_subject = subj, cc_world = world,
      cc_validator = validator, cc_dependencies = ?ds, cc_obligations = ?os, cc_issued = issued\<rparr>"
    by (simp add: claim_certificate_new_def Let_def split: if_splits)
  have "dp_claims d = []" if "d \<in> set ?ds" for d
    using dedup_by_key_subset [OF that] by auto
  moreover have "obligation_is_canonical blake3 ob" if "ob \<in> set ?os" for ob
    using dedup_by_key_subset [OF that] assms(2) by simp
  ultimately show ?thesis by (simp add: c claim_certificate_is_canonical_def sorted_key_successively)
qed

lemma claim_set_certificate_new_canonical:
  assumes "claim_set_certificate_new blake3 need_id members obligations world engine created = Some c"
  shows "claim_set_certificate_is_canonical blake3 c \<and> set (cs_obligations c) = set obligations \<and>
    set (zip (cs_claims c) (cs_validations c)) = set members"
proof -
  have fsts: "sorted (map fst ms) \<and> (successively (\<lambda>a b. fst a \<noteq> fst b) ms \<longrightarrow> successively (<) (map fst ms))"
    if "sorted ms" for ms :: "(digest \<times> digest) list"
    using that by (induction ms rule: induct_list012) (auto simp: less_eq_prod_def)
  have strict: "successively (\<noteq>) xs \<Longrightarrow> sorted xs \<Longrightarrow> successively (<) xs" for xs :: "digest list"
    by (induction xs rule: induct_list012) auto
  from assms fsts [of "sort members"] strict [of "sort obligations"] show ?thesis
    by (auto simp: claim_set_certificate_new_def claim_set_certificate_is_canonical_def Let_def zip_map_fst_snd split: if_splits)
qed

end
