(* ===== verification/Claim_Proof.thy ===== *)
theory Claim_Proof
  imports Claims Need_Compiler Paths
begin

text \<open>
  \<^verbatim>\<open>crates/needle-runtime/src/claim_proof.rs\<close>: a need is answered from validated claims. The material is validated against
  the need, for every obligation a fresh claim is selected (for a runtime flow a whole chain of steps), and
  the selection becomes a claim-set certificate that can be replayed. Freshness of a dependency, from
  \<^verbatim>\<open>crates/needle-runtime/src/semantic_validation.rs\<close>, reads the repository through the file-system parameter.
\<close>

section \<open>Freshness of evidence\<close>

definition evidence_path_unsafe :: "string \<Rightarrow> bool" where
  "evidence_path_unsafe relative \<longleftrightarrow>
     \<not> is_relative relative \<or> (\<exists>c \<in> set (path_components relative). c = ParentDir \<or> c = RootDir)"

definition read_evidence_from_root :: "file_system \<Rightarrow> string \<Rightarrow> string \<Rightarrow> u8 list option" where
  "read_evidence_from_root fs root relative =
     (if evidence_path_unsafe relative then None
      else case fs_canonicalize fs (path_join root relative) of
        None \<Rightarrow> None
      | Some path \<Rightarrow>
          if \<not> path_starts_with path root \<or> \<not> (case fs_metadata fs path of None \<Rightarrow> False | Some m \<Rightarrow> fm_is_file m) then None
          else fs_read fs path)"

definition read_evidence :: "file_system \<Rightarrow> string \<Rightarrow> string \<Rightarrow> u8 list option" where
  "read_evidence fs repository_root relative =
     (case fs_canonicalize fs repository_root of None \<Rightarrow> None | Some root \<Rightarrow> read_evidence_from_root fs root relative)"

definition dependency_is_fresh :: "(u8 list \<Rightarrow> digest) \<Rightarrow> file_system \<Rightarrow> string \<Rightarrow> dependency \<Rightarrow> bool" where
  "dependency_is_fresh blake3 fs repository_root d =
     (case read_evidence fs repository_root (dp_path d) of
        None \<Rightarrow> False
      | Some bytes \<Rightarrow>
          (case (dp_start d, dp_end d) of
             (None, None) \<Rightarrow> True
           | (Some s, Some e) \<Rightarrow> s < e \<and> unat e \<le> length bytes
           | _ \<Rightarrow> False) \<and>
          blake3 bytes = dp_content d)"

section \<open>Definitions of contracts and validators\<close>

definition SEMANTIC_ARTIFACT_RESULT_SCHEMA_ID :: string where
  "SEMANTIC_ARTIFACT_RESULT_SCHEMA_ID = ''needle.artifact-result/2''"
definition SEMANTIC_VALIDATOR_REVISION :: u32 where "SEMANTIC_VALIDATOR_REVISION = 12"
definition CLAIM_PROOF_ENGINE_REVISION :: u32 where "CLAIM_PROOF_ENGINE_REVISION = 1"

definition code_location_kind :: string where "code_location_kind = ''code-location''"
definition behavior_trace_kind :: string where "behavior_trace_kind = ''behavior-trace''"
definition test_plan_kind :: string where "test_plan_kind = ''test-plan''"

definition validator_definition_for ::
    "(u8 list \<Rightarrow> digest) \<Rightarrow> string \<Rightarrow> predicate_kind \<Rightarrow> predicate_contract list \<Rightarrow> digest" where
  "validator_definition_for blake3 kind predicate contracts =
     (let h = field_str kind (field_u32 SEMANTIC_VALIDATOR_REVISION
            (field_str SEMANTIC_ARTIFACT_RESULT_SCHEMA_ID (hasher_new ''semantic-validator-definition''))) in
      hasher_finish blake3
        (case List.find (\<lambda>c. pc_predicate c = predicate) contracts of None \<Rightarrow> h | Some c \<Rightarrow> field_digest (pc_definition c) h))"

definition validator_definition :: "(u8 list \<Rightarrow> digest) \<Rightarrow> string \<Rightarrow> digest" where
  "validator_definition blake3 kind =
     (let contracts = built_in_predicate_contracts blake3 in
      if kind = code_location_kind then validator_definition_for blake3 code_location_kind ImplementationLocation contracts
      else if kind = behavior_trace_kind then validator_definition_for blake3 behavior_trace_kind RuntimeFlow contracts
      else validator_definition_for blake3 test_plan_kind FocusedTests contracts)"

fun predicate_for_claim_kind :: "claim_kind \<Rightarrow> predicate_kind" where
  "predicate_for_claim_kind LocationClaim = ImplementationLocation"
| "predicate_for_claim_kind FlowStepClaim = RuntimeFlow"
| "predicate_for_claim_kind FocusedTestClaim = FocusedTests"

text \<open>The table is filled from the built-in contracts, the last one of a predicate wins.\<close>

definition current_contract_definition :: "(u8 list \<Rightarrow> digest) \<Rightarrow> claim_kind \<Rightarrow> digest" where
  "current_contract_definition blake3 kind =
     foldl (\<lambda>d c. if pc_predicate c = predicate_for_claim_kind kind then pc_definition c else d)
       (blake3 (as_bytes ''missing-contract'')) (built_in_predicate_contracts blake3)"

fun current_validator_definition :: "(u8 list \<Rightarrow> digest) \<Rightarrow> claim_kind \<Rightarrow> digest" where
  "current_validator_definition blake3 LocationClaim = validator_definition blake3 code_location_kind"
| "current_validator_definition blake3 FlowStepClaim = validator_definition blake3 behavior_trace_kind"
| "current_validator_definition blake3 FocusedTestClaim = validator_definition blake3 test_plan_kind"

definition claim_kinds :: "claim_kind list" where
  "claim_kinds = [LocationClaim, FlowStepClaim, FocusedTestClaim]"

definition claim_proof_engine_definition :: "(u8 list \<Rightarrow> digest) \<Rightarrow> digest" where
  "claim_proof_engine_definition blake3 =
     hasher_finish blake3
       (fold field_digest (map (current_contract_definition blake3) claim_kinds @ map (current_validator_definition blake3) claim_kinds)
         (field_u32 CLAIM_PROOF_ENGINE_REVISION (hasher_new ''claim-proof-engine-definition'')))"

section \<open>Material\<close>

record claim_proof_material =
  cm_claims :: "claim list"
  cm_relations :: "claim_relation list"
  cm_certificates :: "claim_certificate list"

datatype claim_proof_error =
    ClaimBound | ClaimNonCanonical | ClaimStale | ClaimIncompatible | ClaimInsufficient string | ClaimReplayMismatch

type_synonym member = "digest \<times> digest"

record selected_claim_proof =
  sl_members :: "member list"
  sl_obligations :: "digest list"

definition need_is_canonical :: "(u8 list \<Rightarrow> digest) \<Rightarrow> need \<Rightarrow> bool" where
  "need_is_canonical blake3 n \<longleftrightarrow>
     nd_subjects n \<noteq> [] \<and> length (nd_subjects n) \<le> 8 \<and>
     (\<forall>s \<in> set (nd_subjects n). subject_is_canonical blake3 s \<and> sj_lineage s = sw_lineage (nd_world n)) \<and>
     (\<forall>ob \<in> set (nd_required n). (\<exists>s \<in> set (nd_subjects n). sj_id s = ob_subject ob) \<and> obligation_is_canonical blake3 ob)"

definition material_out_of_bounds :: "need \<Rightarrow> claim_proof_material \<Rightarrow> bool" where
  "material_out_of_bounds n m \<longleftrightarrow>
     nd_required n = [] \<or> length (nd_required n) > 16 \<or>
     (case nd_residual n of None \<Rightarrow> False | Some r \<Rightarrow> ri_mandatory r) \<or>
     cm_claims m = [] \<or> length (cm_claims m) > MAX_CLAIM_CANDIDATES \<or>
     cm_certificates m = [] \<or> length (cm_certificates m) > MAX_CLAIM_CANDIDATES \<or>
     length (cm_relations m) > MAX_CLAIM_CANDIDATES"

fun validate_claims :: "(u8 list \<Rightarrow> digest) \<Rightarrow> claim list \<Rightarrow> claim list \<Rightarrow> (unit, claim_proof_error) result" where
  "validate_claims blake3 before [] = Ok ()"
| "validate_claims blake3 before (c # cs) =
     (if \<not> claim_is_canonical blake3 c \<or> (\<exists>b \<in> set before. cl_id b = cl_id c) \<or>
         current_contract_definition blake3 (cl_kind c) \<noteq> cl_contract c
      then Err ClaimNonCanonical else validate_claims blake3 (c # before) cs)"

fun validate_certificates ::
    "(u8 list \<Rightarrow> digest) \<Rightarrow> need \<Rightarrow> claim list \<Rightarrow> claim_certificate list \<Rightarrow> claim_certificate list \<Rightarrow> (unit, claim_proof_error) result" where
  "validate_certificates blake3 n claims before [] = Ok ()"
| "validate_certificates blake3 n claims before (k # ks) =
     (case List.find (\<lambda>c. cl_id c = cc_claim k) claims of
        None \<Rightarrow> Err ClaimNonCanonical
      | Some c \<Rightarrow>
          if \<not> claim_certificate_is_canonical blake3 k \<or> (\<exists>b \<in> set before. cc_id b = cc_id k) \<or>
             cc_world k \<noteq> world_id blake3 (nd_world n) \<or> \<not> (\<exists>s \<in> set (nd_subjects n). sj_id s = cc_subject k) \<or>
             cc_validator k \<noteq> current_validator_definition blake3 (cl_kind c) \<or>
             (\<exists>ob \<in> set (cc_obligations k). ob_subject ob \<noteq> cc_subject k \<or> predicate_for_claim_kind (cl_kind c) \<noteq> ob_predicate ob)
          then Err ClaimIncompatible else validate_certificates blake3 n claims (k # before) ks)"

fun validate_relations ::
    "(u8 list \<Rightarrow> digest) \<Rightarrow> claim list \<Rightarrow> claim_relation list \<Rightarrow> claim_relation list \<Rightarrow> (unit, claim_proof_error) result" where
  "validate_relations blake3 claims before [] = Ok ()"
| "validate_relations blake3 claims before (r # rs) =
     (if \<not> claim_relation_is_canonical blake3 r \<or> (\<exists>b \<in> set before. rl_id b = rl_id r) \<or>
         \<not> (\<exists>c \<in> set claims. cl_id c = rl_from r) \<or> \<not> (\<exists>c \<in> set claims. cl_id c = rl_to r)
      then Err ClaimNonCanonical else validate_relations blake3 claims (r # before) rs)"

definition validate_material :: "(u8 list \<Rightarrow> digest) \<Rightarrow> need \<Rightarrow> claim_proof_material \<Rightarrow> (unit, claim_proof_error) result" where
  "validate_material blake3 n m =
     (if \<not> need_is_canonical blake3 n then Err ClaimNonCanonical
      else if material_out_of_bounds n m then Err ClaimBound
      else rbind (validate_claims blake3 [] (cm_claims m)) (\<lambda>_.
           rbind (validate_certificates blake3 n (cm_claims m) [] (cm_certificates m)) (\<lambda>_.
           validate_relations blake3 (cm_claims m) [] (cm_relations m))))"

section \<open>Selecting claims\<close>

definition certificate_covers :: "claim_certificate \<Rightarrow> obligation \<Rightarrow> bool" where
  "certificate_covers k ob \<longleftrightarrow> (\<exists>provided \<in> set (cc_obligations k). satisfies provided ob)"

definition claim_validation_certificate_is_fresh :: "(u8 list \<Rightarrow> digest) \<Rightarrow> file_system \<Rightarrow> string \<Rightarrow> claim_certificate \<Rightarrow> bool" where
  "claim_validation_certificate_is_fresh blake3 fs root k \<longleftrightarrow> (\<forall>d \<in> set (cc_dependencies k). dependency_is_fresh blake3 fs root d)"

text \<open>\<open>Iterator::min_by_key\<close> and \<open>min\<close>: the first of the least elements.\<close>

fun min_by_key :: "('a \<Rightarrow> 'k::linorder) \<Rightarrow> 'a list \<Rightarrow> 'a option" where
  "min_by_key f [] = None"
| "min_by_key f (x # xs) = (case min_by_key f xs of None \<Rightarrow> Some x | Some y \<Rightarrow> if f y < f x then Some y else Some x)"

definition certificate_satisfying ::
    "(u8 list \<Rightarrow> digest) \<Rightarrow> file_system \<Rightarrow> string \<Rightarrow> claim_proof_material \<Rightarrow> digest \<Rightarrow> obligation \<Rightarrow> claim_certificate option" where
  "certificate_satisfying blake3 fs root m claim_id ob =
     min_by_key cc_id
       (filter (claim_validation_certificate_is_fresh blake3 fs root)
         (filter (\<lambda>k. certificate_covers k ob) (filter (\<lambda>k. cc_claim k = claim_id) (cm_certificates m))))"

definition push_member :: "member \<Rightarrow> member list \<Rightarrow> (member list, claim_proof_error) result" where
  "push_member member selected =
     (if \<exists>candidate \<in> set selected. fst candidate = fst member then Ok selected
      else if length selected < MAX_SELECTED_CLAIMS then Ok (selected @ [member]) else Err ClaimBound)"

fun push_members :: "member list \<Rightarrow> member list \<Rightarrow> (member list, claim_proof_error) result" where
  "push_members [] selected = Ok selected"
| "push_members (x # xs) selected = rbind (push_member x selected) (push_members xs)"

definition select_single_claim ::
    "(u8 list \<Rightarrow> digest) \<Rightarrow> file_system \<Rightarrow> string \<Rightarrow> claim_proof_material \<Rightarrow> obligation \<Rightarrow> claim_kind \<Rightarrow> (claim \<Rightarrow> bool) \<Rightarrow>
     member list \<Rightarrow> (member list, claim_proof_error) result" where
  "select_single_claim blake3 fs root m ob kind predicate selected =
     (let eligible = filter (\<lambda>c. cl_kind c = kind \<and> predicate c) (cm_claims m);
          matching = length (concat (map (\<lambda>c. filter (\<lambda>k. cc_claim k = cl_id c \<and> certificate_covers k ob) (cm_certificates m)) eligible));
          candidate = min_by_key (\<lambda>x. x)
            (List.map_filter (\<lambda>c. map_option (\<lambda>k. (cl_id c, cc_id k)) (certificate_satisfying blake3 fs root m (cl_id c) ob)) eligible) in
      case candidate of
        None \<Rightarrow> Err (if matching = 0 then ClaimInsufficient (predicate_str (ob_predicate ob)) else ClaimStale)
      | Some candidate \<Rightarrow> push_member candidate selected)"

section \<open>Connected flows\<close>

text \<open>The claims of one anchor: a second scenario ends the search (\<open>Some None\<close>).\<close>

fun flow_members ::
    "(claim \<Rightarrow> claim_certificate option) \<Rightarrow> digest \<Rightarrow> claim list \<Rightarrow> member list \<Rightarrow> flow_step_role set \<Rightarrow> string option \<Rightarrow>
     ((member list \<times> flow_step_role set) option, claim_proof_error) result" where
  "flow_members certificate anchor [] members roles scenario = Ok (Some (members, roles))"
| "flow_members certificate anchor (c # cs) members roles scenario =
     (case cl_payload c of
        FlowStepPayload candidate_scenario flow_anchor step \<Rightarrow>
          if flow_anchor \<noteq> anchor then flow_members certificate anchor cs members roles scenario
          else (case certificate c of
              None \<Rightarrow> flow_members certificate anchor cs members roles scenario
            | Some k \<Rightarrow>
                if (case scenario of None \<Rightarrow> False | Some value \<Rightarrow> value \<noteq> candidate_scenario) then Ok None
                else if length members < MAX_SELECTED_CLAIMS then
                  flow_members certificate anchor cs (members @ [(cl_id c, cc_id k)]) (insert (fl_role step) roles) (Some candidate_scenario)
                else Err ClaimBound)
      | _ \<Rightarrow> flow_members certificate anchor cs members roles scenario)"

definition flow_roles :: "flow_step_role set" where
  "flow_roles = {Producer, Carrier, Transformation, Precedence, Consumer}"

fun position :: "('a \<Rightarrow> bool) \<Rightarrow> 'a list \<Rightarrow> nat option" where
  "position P [] = None"
| "position P (x # xs) = (if P x then Some 0 else map_option Suc (position P xs))"

text \<open>The degrees, the successor of every member and the number of edges.\<close>

record flow_graph =
  fg_in :: "u8 list"
  fg_out :: "u8 list"
  fg_next :: "nat option list"
  fg_edges :: nat

definition flow_edge :: "member list \<Rightarrow> claim_relation \<Rightarrow> (nat \<times> nat) option" where
  "flow_edge members r =
     (if rl_kind r \<noteq> Precedes then None
      else case position (\<lambda>x. fst x = rl_from r) members of
        None \<Rightarrow> None
      | Some f \<Rightarrow> (case position (\<lambda>x. fst x = rl_to r) members of None \<Rightarrow> None | Some t \<Rightarrow> Some (f, t)))"

definition add_edge :: "nat \<times> nat \<Rightarrow> flow_graph \<Rightarrow> flow_graph" where
  "add_edge e g =
     (case e of (f, t) \<Rightarrow>
        \<lparr>fg_in = (fg_in g)[t := saturating_add (fg_in g ! t) 1], fg_out = (fg_out g)[f := saturating_add (fg_out g ! f) 1],
         fg_next = (fg_next g)[f := Some t], fg_edges = fg_edges g + 1\<rparr>)"

definition empty_graph :: flow_graph where
  "empty_graph = \<lparr>fg_in = replicate MAX_SELECTED_CLAIMS 0, fg_out = replicate MAX_SELECTED_CLAIMS 0,
     fg_next = replicate MAX_SELECTED_CLAIMS None, fg_edges = 0\<rparr>"

definition build_graph :: "member list \<Rightarrow> claim_relation list \<Rightarrow> flow_graph" where
  "build_graph members relations = fold add_edge (List.map_filter (flow_edge members) relations) empty_graph"

fun walk :: "nat option list \<Rightarrow> nat \<Rightarrow> nat \<Rightarrow> bool list \<Rightarrow> bool list option" where
  "walk next_of 0 cursor visited = Some visited"
| "walk next_of (Suc n) cursor visited =
     (if visited ! cursor then None
      else
        let visited = visited[cursor := True] in
        case next_of ! cursor of None \<Rightarrow> Some visited | Some following \<Rightarrow> walk next_of n following visited)"

definition flow_shape :: "nat \<Rightarrow> flow_graph \<Rightarrow> bool" where
  "flow_shape n g \<longleftrightarrow>
     \<not> (fg_edges g + 1 \<noteq> n \<or>
        length (filter (\<lambda>d. d = 0) (take n (fg_in g))) \<noteq> 1 \<or>
        length (filter (\<lambda>d. d = 0) (take n (fg_out g))) \<noteq> 1 \<or>
        (\<exists>d \<in> set (take n (fg_in g)). d > 1) \<or> (\<exists>d \<in> set (take n (fg_out g)). d > 1))"

text \<open>
  The start of the walk is the only member without a predecessor: after \<open>flow_shape\<close> the \<open>unwrap\<close> of its
  position cannot fail, and the branch for \<open>None\<close> is unreachable.
\<close>

definition connected_flow ::
    "(claim \<Rightarrow> claim_certificate option) \<Rightarrow> claim_proof_material \<Rightarrow> digest \<Rightarrow> (member list option, claim_proof_error) result" where
  "connected_flow certificate m anchor =
     rbind (flow_members certificate anchor (cm_claims m) [] {} None) (\<lambda>found.
       case found of
         None \<Rightarrow> Ok None
       | Some (members, roles) \<Rightarrow>
           if length members < 5 \<or> roles \<noteq> flow_roles then Ok None
           else
             let n = length members; g = build_graph members (cm_relations m) in
             if \<not> flow_shape n g then Ok None
             else case position (\<lambda>d. d = 0) (take n (fg_in g)) of
               None \<Rightarrow> Ok None
             | Some cursor \<Rightarrow>
                 (case walk (fg_next g) n cursor (replicate MAX_SELECTED_CLAIMS False) of
                    None \<Rightarrow> Ok None
                  | Some visited \<Rightarrow> if \<exists>seen \<in> set (take n visited). \<not> seen then Ok None else Ok (Some members)))"


text \<open>The scan over the flow claims: whether one matches, whether one is fresh, and the anchors found.\<close>

fun flow_anchors ::
    "(u8 list \<Rightarrow> digest) \<Rightarrow> file_system \<Rightarrow> string \<Rightarrow> claim_proof_material \<Rightarrow> obligation \<Rightarrow> claim list \<Rightarrow> bool \<Rightarrow> bool \<Rightarrow> digest list \<Rightarrow>
     (bool \<times> bool \<times> digest list, claim_proof_error) result" where
  "flow_anchors blake3 fs root m ob [] matching fresh anchors = Ok (matching, fresh, anchors)"
| "flow_anchors blake3 fs root m ob (c # cs) matching fresh anchors =
     (case cl_payload c of
        FlowStepPayload scenario flow_anchor step \<Rightarrow>
          let matching = (matching \<or> (\<exists>k \<in> set (cm_certificates m). cc_claim k = cl_id c \<and> certificate_covers k ob)) in
          if certificate_satisfying blake3 fs root m (cl_id c) ob = None then flow_anchors blake3 fs root m ob cs matching fresh anchors
          else if flow_anchor \<in> set anchors then flow_anchors blake3 fs root m ob cs matching True anchors
          else if length anchors < MAX_CLAIM_CANDIDATES then flow_anchors blake3 fs root m ob cs matching True (anchors @ [flow_anchor])
          else Err ClaimBound
      | _ \<Rightarrow> flow_anchors blake3 fs root m ob cs matching fresh anchors)"

fun first_flow :: "(digest \<Rightarrow> (member list option, claim_proof_error) result) \<Rightarrow> digest list \<Rightarrow> (member list option, claim_proof_error) result" where
  "first_flow flow [] = Ok None"
| "first_flow flow (a # as) =
     (case flow a of Err e \<Rightarrow> Err e | Ok (Some members) \<Rightarrow> Ok (Some members) | Ok None \<Rightarrow> first_flow flow as)"

definition select_runtime_flow ::
    "(u8 list \<Rightarrow> digest) \<Rightarrow> file_system \<Rightarrow> string \<Rightarrow> claim_proof_material \<Rightarrow> obligation \<Rightarrow> member list \<Rightarrow> (member list, claim_proof_error) result" where
  "select_runtime_flow blake3 fs root m ob selected =
     rbind (flow_anchors blake3 fs root m ob (cm_claims m) False False []) (\<lambda>(matching, fresh, anchors).
     rbind (first_flow (connected_flow (\<lambda>c. certificate_satisfying blake3 fs root m (cl_id c) ob) m) (sort anchors)) (\<lambda>found.
       case found of
         Some members \<Rightarrow> push_members members selected
       | None \<Rightarrow> Err (if matching \<and> \<not> fresh then ClaimStale else ClaimInsufficient (predicate_str (ob_predicate ob)))))"

section \<open>The proof\<close>

definition primary_location :: "claim \<Rightarrow> bool" where
  "primary_location c = (case cl_payload c of LocationPayload location \<Rightarrow> lo_role location = Primary | _ \<Rightarrow> False)"

definition focused_test :: "claim \<Rightarrow> bool" where
  "focused_test c = (case cl_payload c of FocusedTestPayload t \<Rightarrow> True | _ \<Rightarrow> False)"

definition select_obligation ::
    "(u8 list \<Rightarrow> digest) \<Rightarrow> file_system \<Rightarrow> string \<Rightarrow> claim_proof_material \<Rightarrow> obligation \<Rightarrow> member list \<Rightarrow> (member list, claim_proof_error) result" where
  "select_obligation blake3 fs root m ob selected =
     (case ob_predicate ob of
        ImplementationLocation \<Rightarrow> select_single_claim blake3 fs root m ob LocationClaim primary_location selected
      | FocusedTests \<Rightarrow> select_single_claim blake3 fs root m ob FocusedTestClaim focused_test selected
      | RuntimeFlow \<Rightarrow> select_runtime_flow blake3 fs root m ob selected)"

fun select_obligations ::
    "(u8 list \<Rightarrow> digest) \<Rightarrow> file_system \<Rightarrow> string \<Rightarrow> claim_proof_material \<Rightarrow> obligation list \<Rightarrow> member list \<Rightarrow> digest list \<Rightarrow>
     (member list \<times> digest list, claim_proof_error) result" where
  "select_obligations blake3 fs root m [] members obligations = Ok (members, obligations)"
| "select_obligations blake3 fs root m (ob # obs) members obligations =
     rbind (select_obligation blake3 fs root m ob members) (\<lambda>members.
       if length obligations < 16 then select_obligations blake3 fs root m obs members (obligations @ [ob_id ob]) else Err ClaimBound)"

fun validate_selected_members ::
    "(u8 list \<Rightarrow> digest) \<Rightarrow> file_system \<Rightarrow> string \<Rightarrow> claim_proof_material \<Rightarrow> member list \<Rightarrow> digest list \<Rightarrow> (unit, claim_proof_error) result" where
  "validate_selected_members blake3 fs root m [] origins = Ok ()"
| "validate_selected_members blake3 fs root m ((claim_id, certificate_id) # members) origins =
     (case List.find (\<lambda>k. cc_id k = certificate_id) (cm_certificates m) of
        None \<Rightarrow> Err ClaimNonCanonical
      | Some k \<Rightarrow>
          if \<not> claim_validation_certificate_is_fresh blake3 fs root k then Err ClaimStale
          else if cc_artifact k \<in> set origins then validate_selected_members blake3 fs root m members origins
          else if length origins < MAX_CLAIM_ORIGINS then validate_selected_members blake3 fs root m members (origins @ [cc_artifact k])
          else Err ClaimBound)"

definition select_claim_proof ::
    "(u8 list \<Rightarrow> digest) \<Rightarrow> file_system \<Rightarrow> string \<Rightarrow> need \<Rightarrow> obligation list \<Rightarrow> claim_proof_material \<Rightarrow> (selected_claim_proof, claim_proof_error) result" where
  "select_claim_proof blake3 fs root n obligations m =
     rbind (validate_material blake3 n m) (\<lambda>_.
     if obligations = [] \<or> length obligations > 16 then Err ClaimBound
     else rbind (select_obligations blake3 fs root m obligations [] []) (\<lambda>(members, ids).
       let members = sort members; ids = sort ids in
       if \<not> successively (\<lambda>a b. fst a \<noteq> fst b) members \<or> \<not> successively (\<noteq>) ids then Err ClaimNonCanonical
       else rbind (validate_selected_members blake3 fs root m members []) (\<lambda>_.
         Ok \<lparr>sl_members = members, sl_obligations = ids\<rparr>)))"

definition build_claim_component_certificate ::
    "(u8 list \<Rightarrow> digest) \<Rightarrow> file_system \<Rightarrow> string \<Rightarrow> need \<Rightarrow> obligation list \<Rightarrow> claim_proof_material \<Rightarrow> u64 \<Rightarrow> (claim_set_certificate, claim_proof_error) result" where
  "build_claim_component_certificate blake3 fs root n obligations m created =
     rbind (select_claim_proof blake3 fs root n obligations m) (\<lambda>selected.
       ok_or ClaimNonCanonical
         (claim_set_certificate_new blake3 (nd_id n) (sl_members selected) (sl_obligations selected) (world_id blake3 (nd_world n))
           (claim_proof_engine_definition blake3) created))"

definition build_claim_set_certificate ::
    "(u8 list \<Rightarrow> digest) \<Rightarrow> file_system \<Rightarrow> string \<Rightarrow> need \<Rightarrow> claim_proof_material \<Rightarrow> u64 \<Rightarrow> (claim_set_certificate, claim_proof_error) result" where
  "build_claim_set_certificate blake3 fs root n m created =
     build_claim_component_certificate blake3 fs root n (nd_required n) m created"

fun replay_obligations :: "need \<Rightarrow> digest list \<Rightarrow> obligation list \<Rightarrow> (obligation list, claim_proof_error) result" where
  "replay_obligations n [] obligations = Ok obligations"
| "replay_obligations n (i # is) obligations =
     (case List.find (\<lambda>ob. ob_id ob = i) (nd_required n) of
        None \<Rightarrow> Err ClaimReplayMismatch
      | Some ob \<Rightarrow> if length obligations < 16 then replay_obligations n is (obligations @ [ob]) else Err ClaimBound)"

definition replay_claim_set_certificate ::
    "(u8 list \<Rightarrow> digest) \<Rightarrow> file_system \<Rightarrow> string \<Rightarrow> claim_set_certificate \<Rightarrow> need \<Rightarrow> claim_proof_material \<Rightarrow> (unit, claim_proof_error) result" where
  "replay_claim_set_certificate blake3 fs root c n m =
     (if \<not> claim_set_certificate_is_canonical blake3 c \<or> cs_need c \<noteq> nd_id n \<or> cs_world c \<noteq> world_id blake3 (nd_world n) \<or>
         cs_engine c \<noteq> claim_proof_engine_definition blake3
      then Err ClaimReplayMismatch
      else
        rbind (replay_obligations n (cs_obligations c) []) (\<lambda>obligations.
        rbind (select_claim_proof blake3 fs root n obligations m) (\<lambda>selected.
          if cs_claims c \<noteq> map fst (sl_members selected) \<or> cs_validations c \<noteq> map snd (sl_members selected) \<or>
             cs_obligations c \<noteq> sl_obligations selected
          then Err ClaimReplayMismatch else Ok ())))"

end
