(* ===== verification/Flow_Chain.thy ===== *)
theory Flow_Chain
  imports Claim_Proof "HOL-Library.Multiset"
begin

text \<open>
  The graph check of \<open>connected_flow\<close>: degree counts and a walk over the successor table accept a set of
  edges exactly when they are the consecutive pairs of one path through all the members.
\<close>

section \<open>The tables of a list of edges\<close>

definition edges_below :: "nat \<Rightarrow> (nat \<times> nat) list \<Rightarrow> bool" where
  "edges_below n es \<longleftrightarrow> n \<le> MAX_SELECTED_CLAIMS \<and> (\<forall>(f, t) \<in> set es. f < n \<and> t < n)"

abbreviation graph_of :: "(nat \<times> nat) list \<Rightarrow> flow_graph" where
  "graph_of es \<equiv> fold add_edge es empty_graph"

lemma graph_of_snoc: "graph_of (es @ [e]) = add_edge e (graph_of es)"
  by simp

lemma unat_saturating_succ: "unat (saturating_add (a :: u8) 1) = min 255 (Suc (unat a))"
  using unat_saturating_add [of a 1] by simp

lemma graph_of_tables:
  assumes "edges_below n es"
  shows "length (fg_in (graph_of es)) = MAX_SELECTED_CLAIMS \<and> length (fg_out (graph_of es)) = MAX_SELECTED_CLAIMS \<and>
    length (fg_next (graph_of es)) = MAX_SELECTED_CLAIMS \<and> fg_edges (graph_of es) = length es \<and>
    (\<forall>i < n. unat (fg_in (graph_of es) ! i) = min 255 (length (filter (\<lambda>e. snd e = i) es))) \<and>
    (\<forall>i < n. unat (fg_out (graph_of es) ! i) = min 255 (length (filter (\<lambda>e. fst e = i) es))) \<and>
    (\<forall>i < n. case fg_next (graph_of es) ! i of None \<Rightarrow> i \<notin> fst ` set es | Some t \<Rightarrow> (i, t) \<in> set es)"
  using assms
proof (induction es rule: rev_induct)
  case Nil
  then show ?case by (simp add: empty_graph_def edges_below_def)
next
  case (snoc e es)
  obtain f t where e: "e = (f, t)" by force
  from snoc.prems have below: "edges_below n es" "f < n" "t < n" "n \<le> MAX_SELECTED_CLAIMS"
    by (auto simp: edges_below_def e)
  note IH = snoc.IH [OF below(1)]
  let ?g = "graph_of es"
  have eq: "graph_of (es @ [e]) = \<lparr>fg_in = (fg_in ?g)[t := saturating_add (fg_in ?g ! t) 1], fg_out = (fg_out ?g)[f := saturating_add (fg_out ?g ! f) 1],
      fg_next = (fg_next ?g)[f := Some t], fg_edges = fg_edges ?g + 1\<rparr>"
    by (simp add: e add_edge_def)
  have ins: "unat (fg_in (graph_of (es @ [e])) ! i) = min 255 (length (filter (\<lambda>e. snd e = i) (es @ [e])))" if "i < n" for i
    using IH below that unfolding eq by (auto simp: nth_list_update e unat_saturating_succ)
  have outs: "unat (fg_out (graph_of (es @ [e])) ! i) = min 255 (length (filter (\<lambda>e. fst e = i) (es @ [e])))" if "i < n" for i
    using IH below that unfolding eq by (auto simp: nth_list_update e unat_saturating_succ)
  have nexts: "case fg_next (graph_of (es @ [e])) ! i of None \<Rightarrow> i \<notin> fst ` set (es @ [e]) | Some t \<Rightarrow> (i, t) \<in> set (es @ [e])" if "i < n" for i
    using IH below that unfolding eq by (auto simp: nth_list_update e split: option.splits)
  have lens: "length (fg_in (graph_of (es @ [e]))) = MAX_SELECTED_CLAIMS \<and> length (fg_out (graph_of (es @ [e]))) = MAX_SELECTED_CLAIMS \<and>
    length (fg_next (graph_of (es @ [e]))) = MAX_SELECTED_CLAIMS \<and> fg_edges (graph_of (es @ [e])) = length (es @ [e])"
    using IH unfolding eq by simp
  show ?case using lens ins outs nexts by blast
qed

lemma graph_of_next:
  assumes "edges_below n es" "i < n"
  shows "fg_next (graph_of es) ! i = None \<Longrightarrow> i \<notin> fst ` set es" "fg_next (graph_of es) ! i = Some t \<Longrightarrow> (i, t) \<in> set es"
  using graph_of_tables [OF assms(1)] assms(2) by (auto split: option.splits dest: spec [where x = i])

section \<open>The walk\<close>

fun next_chain :: "nat option list \<Rightarrow> nat list \<Rightarrow> bool" where
  "next_chain nx (i # j # p) \<longleftrightarrow> nx ! i = Some j \<and> next_chain nx (j # p)"
| "next_chain nx _ \<longleftrightarrow> True"

definition mark :: "nat list \<Rightarrow> bool list \<Rightarrow> bool list" where
  "mark p visited = fold (\<lambda>i v. v[i := True]) p visited"

lemma length_mark [simp]: "length (mark p v) = length v"
  by (induction p arbitrary: v) (auto simp: mark_def)

lemma nth_mark: "i < length v \<Longrightarrow> mark p v ! i \<longleftrightarrow> v ! i \<or> i \<in> set p"
proof (induction p arbitrary: v)
  case (Cons a p)
  then show ?case using Cons.IH [of "v[a := True]"] by (cases "a = i") (auto simp: mark_def)
qed (simp add: mark_def)

lemma walk_path:
  assumes "walk nx n c visited = Some visited'" "\<forall>i < k. \<forall>j. nx ! i = Some j \<longrightarrow> j < k" "c < k" "k \<le> length visited"
  shows "\<exists>p. distinct p \<and> set p \<subseteq> {..<k} \<and> (\<forall>i \<in> set p. \<not> visited ! i) \<and> length p \<le> n \<and> next_chain nx p \<and>
    (n > 0 \<longrightarrow> p \<noteq> [] \<and> hd p = c) \<and> visited' = mark p visited"
  using assms
proof (induction nx n c visited rule: walk.induct)
  case (1 nx c visited)
  then show ?case by (intro exI [of _ "[]"]) (simp add: mark_def)
next
  case (2 nx n c visited)
  let ?v = "visited[c := True]"
  from "2.prems" have new: "\<not> visited ! c" and rest: "(case nx ! c of None \<Rightarrow> Some ?v | Some j \<Rightarrow> walk nx n j ?v) = Some visited'"
    by (auto simp: Let_def split: if_splits)
  show ?case
  proof (cases "nx ! c")
    case None
    with rest new "2.prems" show ?thesis by (intro exI [of _ "[c]"]) (auto simp: mark_def)
  next
    case (Some j)
    with rest have w: "walk nx n j ?v = Some visited'" by simp
    have "j < k" "k \<le> length ?v" using "2.prems"(2,3,4) Some by auto
    from "2.IH" [OF new refl Some w "2.prems"(2) this]
    obtain p where p: "distinct p" "set p \<subseteq> {..<k}" "\<forall>i \<in> set p. \<not> ?v ! i" "length p \<le> n" "next_chain nx p"
      "n > 0 \<longrightarrow> p \<noteq> [] \<and> hd p = j" "visited' = mark p ?v"
      by auto
    have "c \<notin> set p" using p(3) "2.prems"(3,4) by fastforce
    moreover have "\<not> visited ! i" if "i \<in> set p" for i
      using p(3) that \<open>c \<notin> set p\<close> by (metis nth_list_update_neq)
    moreover have "next_chain nx (c # p)"
      using p(4,5,6) Some by (cases p) auto
    ultimately show ?thesis using p new "2.prems"(3)
      by (intro exI [of _ "c # p"]) (auto simp: mark_def)
  qed
qed

lemma walk_follows:
  assumes "next_chain nx p" "p \<noteq> []" "distinct p" "\<And>i. i \<in> set p \<Longrightarrow> i < length visited \<and> \<not> visited ! i" "nx ! last p = None"
  shows "walk nx (length p) (hd p) visited = Some (mark p visited)"
  using assms
proof (induction p arbitrary: visited rule: next_chain.induct)
  case (1 nx i j p)
  have "walk nx (length (j # p)) (hd (j # p)) (visited[i := True]) = Some (mark (j # p) (visited[i := True]))"
    using "1.prems" by (intro "1.IH") (auto simp: nth_list_update)
  with "1.prems" show ?case by (simp add: mark_def Let_def)
qed (auto simp: mark_def)

section \<open>Chains\<close>

definition chain_edges :: "nat list \<Rightarrow> (nat \<times> nat) list" where
  "chain_edges p = zip p (tl p)"

lemma chain_edges_Cons [simp]: "chain_edges (i # j # p) = (i, j) # chain_edges (j # p)" "chain_edges [i] = []" "chain_edges [] = []"
  by (simp_all add: chain_edges_def)

lemma length_chain_edges [simp]: "length (chain_edges p) = length p - 1"
  by (simp add: chain_edges_def)

lemma distinct_chain_edges: "distinct p \<Longrightarrow> distinct (chain_edges p)"
  by (simp add: chain_edges_def distinct_zipI1)

lemma fst_chain_edges: "map fst (chain_edges p) = butlast p"
  by (cases p) (simp_all add: chain_edges_def map_fst_zip_take butlast_conv_take)

lemma snd_chain_edges: "map snd (chain_edges p) = tl p"
  by (cases p) (simp_all add: chain_edges_def map_snd_zip_take)

lemma next_chain_edges:
  assumes "edges_below n es" "set p \<subseteq> {..<n}"
  shows "next_chain (fg_next (graph_of es)) p \<Longrightarrow> set (chain_edges p) \<subseteq> set es"
  using assms(2) graph_of_next(2) [OF assms(1)] by (induction p rule: induct_list012) auto

lemma chain_found:
  assumes "edges_below n es" "flow_shape n (graph_of es)" "c < n"
    and "walk (fg_next (graph_of es)) n c (replicate MAX_SELECTED_CLAIMS False) = Some visited" "\<forall>seen \<in> set (take n visited). seen"
  shows "\<exists>p. distinct p \<and> set p = {..<n} \<and> mset es = mset (chain_edges p)"
proof -
  have n: "n \<le> MAX_SELECTED_CLAIMS" using assms(1) by (simp add: edges_below_def)
  have bound: "j < n" if "i < n" "fg_next (graph_of es) ! i = Some j" for i j
    using graph_of_next(2) [OF assms(1) that] assms(1) by (auto simp: edges_below_def)
  from bound have closed: "\<forall>i < n. \<forall>j. fg_next (graph_of es) ! i = Some j \<longrightarrow> j < n" by blast
  from walk_path [OF assms(4) closed assms(3)] n obtain p where p: "distinct p" "set p \<subseteq> {..<n}"
    "next_chain (fg_next (graph_of es)) p" "visited = mark p (replicate MAX_SELECTED_CLAIMS False)" by auto
  have "i \<in> set p" if "i < n" for i
  proof -
    have "take n visited ! i \<in> set (take n visited)" using that n p(4) by (intro nth_mem) simp
    then have "visited ! i" using assms(5) that by auto
    with p(4) n that show ?thesis by (simp add: nth_mark)
  qed
  with p(2) have set_p: "set p = {..<n}" by auto
  then have len: "length p = n" using p(1) distinct_card by fastforce
  have sub: "set (chain_edges p) \<subseteq> set es" by (rule next_chain_edges [OF assms(1) p(2,3)])
  have "length es = n - 1" using assms(2) graph_of_tables [OF assms(1)] by (auto simp: flow_shape_def)
  then have card: "card (set es) \<le> card (set (chain_edges p))"
    using card_length [of es] distinct_card [OF distinct_chain_edges [OF p(1)]] len by simp
  then have eq: "set es = set (chain_edges p)" using card_seteq [OF finite_set sub] by simp
  then have "card (set es) = length es"
    using distinct_card [OF distinct_chain_edges [OF p(1)]] \<open>length es = n - 1\<close> len by simp
  then have "distinct es" by (rule card_distinct)
  with eq distinct_chain_edges [OF p(1)] have "mset es = mset (chain_edges p)" by (simp add: set_eq_iff_mset_eq_distinct)
  with p(1) set_p show ?thesis by blast
qed


lemma length_filter_count: "length (filter (\<lambda>e. f e = i) es) = count (mset (map f es)) i"
  by (induction es) auto

lemma position_Some:
  "position P xs = Some i \<longleftrightarrow> i < length xs \<and> P (xs ! i) \<and> (\<forall>j < i. \<not> P (xs ! j))"
proof (induction xs arbitrary: i)
  case (Cons x xs)
  show ?case
  proof (cases "P x")
    case True
    then show ?thesis by (cases i) auto
  next
    case False
    with Cons show ?thesis by (cases i) (auto simp: less_Suc_eq_0_disj)
  qed
qed simp

lemma position_unique: "i < length xs \<Longrightarrow> P (xs ! i) \<Longrightarrow> (\<And>j. j < length xs \<Longrightarrow> P (xs ! j) \<Longrightarrow> j = i) \<Longrightarrow> position P xs = Some i"
proof -
  assume i: "i < length xs" "P (xs ! i)" and uniq: "\<And>j. j < length xs \<Longrightarrow> P (xs ! j) \<Longrightarrow> j = i"
  have "\<not> P (xs ! j)" if "j < i" for j
    using uniq [of j] i(1) that by (auto dest: less_trans)
  with i show ?thesis by (simp add: position_Some)
qed

lemma chain_degrees:
  assumes "edges_below n es" "distinct p" "mset es = mset (chain_edges p)" "i < n"
  shows "fg_in (graph_of es) ! i = of_bool (i \<in> set (tl p))" "fg_out (graph_of es) ! i = of_bool (i \<in> set (butlast p))"
proof -
  have counts: "length (filter (\<lambda>e. snd e = i) es) = of_bool (i \<in> set (tl p))" "length (filter (\<lambda>e. fst e = i) es) = of_bool (i \<in> set (butlast p))"
  proof -
    have "mset (map f es) = mset (map f (chain_edges p))" for f :: "nat \<times> nat \<Rightarrow> nat"
      using assms(3) by simp
    moreover have "count (mset (tl p)) i = of_bool (i \<in> set (tl p))" "count (mset (butlast p)) i = of_bool (i \<in> set (butlast p))"
      using distinct_tl [OF assms(2)] distinct_butlast [OF assms(2)] by (simp_all add: distinct_count_atmost_1)
    ultimately show "length (filter (\<lambda>e. snd e = i) es) = of_bool (i \<in> set (tl p))"
      "length (filter (\<lambda>e. fst e = i) es) = of_bool (i \<in> set (butlast p))"
      by (simp_all add: length_filter_count snd_chain_edges fst_chain_edges del: mset_map)
  qed
  then show "fg_in (graph_of es) ! i = of_bool (i \<in> set (tl p))" "fg_out (graph_of es) ! i = of_bool (i \<in> set (butlast p))"
    using graph_of_tables [OF assms(1)] assms(4) by (simp_all add: word_unat_eq_iff)
qed


lemma zero_count:
  assumes "n \<le> length ds" "\<And>i. i < n \<Longrightarrow> ds ! i = of_bool (i \<in> A)" "{..<n} - A = {z}"
  shows "length (filter (\<lambda>d. d = 0) (take n ds)) = 1" "\<forall>d \<in> set (take n ds). d \<le> (1 :: u8)"
    "position (\<lambda>d. d = 0) (take n ds) = Some z"
proof -
  have "{i. i < length (take n ds) \<and> take n ds ! i = 0} = {..<n} - A" using assms(1,2) by auto
  then show "length (filter (\<lambda>d. d = 0) (take n ds)) = 1" by (simp add: length_filter_conv_card assms(3))
  show "\<forall>d \<in> set (take n ds). d \<le> 1" using assms(1,2) by (auto simp: in_set_conv_nth)
  have z: "z < n" "z \<notin> A" using assms(3) by auto
  show "position (\<lambda>d. d = 0) (take n ds) = Some z"
  proof (rule position_unique)
    show "j = z" if "j < length (take n ds)" "take n ds ! j = 0" for j
      using that assms by (metis DiffI lessThan_iff length_take min_less_iff_conj nth_take of_bool_eq_0_iff singletonD)
  qed (use z assms in auto)
qed

lemma chain_accepted:
  assumes "edges_below n es" "distinct p" "set p = {..<n}" "p \<noteq> []" "mset es = mset (chain_edges p)"
  shows "flow_shape n (graph_of es)" "position (\<lambda>d. d = 0) (take n (fg_in (graph_of es))) = Some (hd p)"
    "\<exists>visited. walk (fg_next (graph_of es)) n (hd p) (replicate MAX_SELECTED_CLAIMS False) = Some visited \<and> (\<forall>seen \<in> set (take n visited). seen)"
proof -
  let ?g = "graph_of es"
  have n: "n \<le> MAX_SELECTED_CLAIMS" using assms(1) by (simp add: edges_below_def)
  have len: "length p = n" using assms(2,3) distinct_card by fastforce
  note tables = graph_of_tables [OF assms(1)] and degrees = chain_degrees [OF assms(1,2,5)]
  have starts: "{..<n} - set (tl p) = {hd p}" using assms(2,3,4) by (cases p) auto
  have ends: "{..<n} - set (butlast p) = {last p}"
    using assms(2,3,4) by (cases p rule: rev_cases) auto
  have lens: "n \<le> length (fg_in ?g)" "n \<le> length (fg_out ?g)" using tables n by simp_all
  note zin = zero_count [OF lens(1) degrees(1) starts] and zout = zero_count [OF lens(2) degrees(2) ends]
  have "length es = n - 1" using assms(5) len by (metis length_chain_edges size_mset)
  then have edges: "fg_edges ?g + 1 = n" using tables len assms(4) by (cases p) auto
  show "flow_shape n ?g" using edges zin zout by (auto simp: flow_shape_def not_less)
  show "position (\<lambda>d. d = 0) (take n (fg_in ?g)) = Some (hd p)" by (rule zin)
  have set_es: "set es = set (chain_edges p)" using assms(5) by (rule mset_eq_setD)
  have fun_edges: "j = k" if "(i, j) \<in> set (chain_edges p)" "(i, k) \<in> set (chain_edges p)" for i j k
    using that distinct_butlast [OF assms(2)] fst_chain_edges [of p] by (metis eq_key_imp_eq_value)
  have follow: "fg_next ?g ! i = Some j" if "(i, j) \<in> set (chain_edges p)" "i < n" for i j
    using graph_of_next [OF assms(1) that(2)] that fun_edges set_es by (cases "fg_next ?g ! i") force+
  have sub_chain: "next_chain (fg_next ?g) q" if "set (chain_edges q) \<subseteq> set (chain_edges p)" "set q \<subseteq> {..<n}" for q
    using that follow by (induction q rule: induct_list012) auto
  have "last p \<notin> fst ` set es"
  proof -
    have "fst ` set es = set (butlast p)" unfolding set_es set_map [symmetric] fst_chain_edges ..
    then show ?thesis using assms(2,4) by (cases p rule: rev_cases) auto
  qed
  moreover have "last p < n" using assms(3,4) last_in_set by blast
  ultimately have stop: "fg_next ?g ! last p = None"
    using graph_of_next(2) [OF assms(1), of "last p"] by (cases "fg_next ?g ! last p") force+
  have "walk (fg_next ?g) (length p) (hd p) (replicate MAX_SELECTED_CLAIMS False) = Some (mark p (replicate MAX_SELECTED_CLAIMS False))"
    using sub_chain [of p] assms n stop by (intro walk_follows) auto
  moreover have "\<forall>seen \<in> set (take n (mark p (replicate MAX_SELECTED_CLAIMS False))). seen"
  proof
    fix seen assume "seen \<in> set (take n (mark p (replicate MAX_SELECTED_CLAIMS False)))"
    then obtain i where i: "i < n" "i < MAX_SELECTED_CLAIMS" "seen = mark p (replicate MAX_SELECTED_CLAIMS False) ! i"
      by (auto simp: in_set_conv_nth)
    with assms(3) show seen by (simp add: nth_mark)
  qed
  ultimately show "\<exists>visited. walk (fg_next ?g) n (hd p) (replicate MAX_SELECTED_CLAIMS False) = Some visited \<and> (\<forall>seen \<in> set (take n visited). seen)"
    using len by auto
qed

text \<open>The check of \<open>connected_flow\<close> as a whole.\<close>

definition chain_check :: "nat \<Rightarrow> flow_graph \<Rightarrow> bool" where
  "chain_check n g \<longleftrightarrow>
     flow_shape n g \<and>
     (case position (\<lambda>d. d = 0) (take n (fg_in g)) of
        None \<Rightarrow> False
      | Some cursor \<Rightarrow>
          (case walk (fg_next g) n cursor (replicate MAX_SELECTED_CLAIMS False) of
             None \<Rightarrow> False | Some visited \<Rightarrow> \<forall>seen \<in> set (take n visited). seen))"

lemma chain_check_iff:
  assumes "edges_below n es" "n > 0"
  shows "chain_check n (graph_of es) \<longleftrightarrow> (\<exists>p. distinct p \<and> set p = {..<n} \<and> mset es = mset (chain_edges p))"
proof
  assume "chain_check n (graph_of es)"
  then obtain c visited where shape: "flow_shape n (graph_of es)" and
    pos: "position (\<lambda>d. d = 0) (take n (fg_in (graph_of es))) = Some c" and
    w: "walk (fg_next (graph_of es)) n c (replicate MAX_SELECTED_CLAIMS False) = Some visited" "\<forall>seen \<in> set (take n visited). seen"
    by (auto simp: chain_check_def split: option.splits)
  from pos have "c < n" by (auto simp: position_Some)
  from chain_found [OF assms(1) shape this w] show "\<exists>p. distinct p \<and> set p = {..<n} \<and> mset es = mset (chain_edges p)" .
next
  assume "\<exists>p. distinct p \<and> set p = {..<n} \<and> mset es = mset (chain_edges p)"
  then obtain p where p: "distinct p" "set p = {..<n}" "mset es = mset (chain_edges p)" by blast
  have "p \<noteq> []" using p(2) assms(2) by (metis empty_iff empty_set lessThan_iff)
  from chain_accepted [OF assms(1) p(1,2) this p(3)] show "chain_check n (graph_of es)" by (auto simp: chain_check_def)
qed


section \<open>Chains of claims\<close>

definition member_edges :: "member list \<Rightarrow> claim_relation list \<Rightarrow> (digest \<times> digest) list" where
  "member_edges members relations =
     map (\<lambda>r. (rl_from r, rl_to r)) (filter (\<lambda>r. rl_from r \<in> fst ` set members \<and> rl_to r \<in> fst ` set members) relations)"

text \<open>The relations between the members are the consecutive pairs of one path through all of them.\<close>

definition flow_chain :: "member list \<Rightarrow> claim_relation list \<Rightarrow> digest list \<Rightarrow> bool" where
  "flow_chain members relations path \<longleftrightarrow>
     distinct path \<and> set path = fst ` set members \<and> mset (member_edges members relations) = mset (zip path (tl path))"

definition member_id :: "member list \<Rightarrow> nat \<Rightarrow> digest" where
  "member_id members i = fst (members ! i)"

definition member_index :: "member list \<Rightarrow> digest \<Rightarrow> nat" where
  "member_index members d = the (position (\<lambda>x. fst x = d) members)"

lemma position_None: "position P xs = None \<longleftrightarrow> (\<forall>x \<in> set xs. \<not> P x)"
  by (induction xs) auto

lemma position_member: "distinct (map fst members) \<Longrightarrow> i < length members \<Longrightarrow> position (\<lambda>x. fst x = member_id members i) members = Some i"
  using nth_eq_iff_index_eq [of "map fst members"] by (intro position_unique) (auto simp: member_id_def)

lemma member_index_id [simp]: "distinct (map fst members) \<Longrightarrow> i < length members \<Longrightarrow> member_index members (member_id members i) = i"
  by (simp add: member_index_def position_member)

lemma member_id_image: "member_id members ` {..<length members} = fst ` set members"
  by (force simp: member_id_def in_set_conv_nth)

lemma flow_edge_member:
  "flow_edge members r =
     (if rl_from r \<in> fst ` set members \<and> rl_to r \<in> fst ` set members
      then Some (member_index members (rl_from r), member_index members (rl_to r)) else None)"
proof -
  have "position (\<lambda>x. fst x = d) members = (if d \<in> fst ` set members then Some (member_index members d) else None)" for d
  proof (cases "position (\<lambda>x. fst x = d) members")
    case None
    then show ?thesis by (auto simp: position_None)
  next
    case (Some i)
    then have "d \<in> fst ` set members" by (auto simp: position_Some)
    with Some show ?thesis by (simp add: member_index_def)
  qed
  moreover have "rl_kind r = Precedes" by (cases "rl_kind r")
  ultimately show ?thesis by (simp add: flow_edge_def)
qed

lemma flow_edges_eq:
  "List.map_filter (flow_edge members) relations = map (\<lambda>(a, b). (member_index members a, member_index members b)) (member_edges members relations)"
  by (induction relations) (auto simp: flow_edge_member member_edges_def List.map_filter_simps)

lemma member_id_index: "d \<in> fst ` set members \<Longrightarrow> member_id members (member_index members d) = d \<and> member_index members d < length members"
proof -
  assume "d \<in> fst ` set members"
  then obtain i where "position (\<lambda>x. fst x = d) members = Some i"
    by (cases "position (\<lambda>x. fst x = d) members") (auto simp: position_None)
  moreover from this have "i < length members" "fst (members ! i) = d" by (simp_all add: position_Some)
  ultimately show ?thesis by (simp add: member_index_def member_id_def)
qed

lemma flow_edges_below:
  "length members \<le> MAX_SELECTED_CLAIMS \<Longrightarrow> edges_below (length members) (List.map_filter (flow_edge members) relations)"
  using member_id_index by (auto simp: edges_below_def flow_edges_eq member_edges_def)

lemma zip_tl_map: "zip (map f p) (tl (map f p)) = map (\<lambda>(a, b). (f a, f b)) (zip p (tl p))"
  by (simp add: map_tl [symmetric] zip_map_map)

lemma flow_chain_iff:
  assumes "distinct (map fst members)"
  shows "(\<exists>p. distinct p \<and> set p = {..<length members} \<and> mset (List.map_filter (flow_edge members) relations) = mset (chain_edges p)) \<longleftrightarrow>
    (\<exists>path. flow_chain members relations path)"
proof
  let ?ix = "member_index members" and ?ids = "member_id members" and ?es = "member_edges members relations"
  have undo: "map (\<lambda>(a, b). (?ids a, ?ids b)) (map (\<lambda>(a, b). (?ix a, ?ix b)) ?es) = ?es"
    using member_id_index by (intro map_idI trans [OF map_map]) (auto simp: member_edges_def)
  have inj: "inj_on ?ids {..<length members}" using member_index_id [OF assms] by (metis inj_onI lessThan_iff)
  assume "\<exists>p. distinct p \<and> set p = {..<length members} \<and> mset (List.map_filter (flow_edge members) relations) = mset (chain_edges p)"
  then obtain p where p: "distinct p" "set p = {..<length members}" "mset (map (\<lambda>(a, b). (?ix a, ?ix b)) ?es) = mset (chain_edges p)"
    by (auto simp: flow_edges_eq)
  have "mset ?es = image_mset (\<lambda>(a, b). (?ids a, ?ids b)) (mset (map (\<lambda>(a, b). (?ix a, ?ix b)) ?es))"
    using undo by (metis mset_map)
  also have "\<dots> = mset (zip (map ?ids p) (tl (map ?ids p)))" unfolding p(3) zip_tl_map chain_edges_def by simp
  finally have "flow_chain members relations (map ?ids p)"
    using p(1,2) inj by (simp add: flow_chain_def distinct_map member_id_image)
  then show "\<exists>path. flow_chain members relations path" by blast
next
  let ?ix = "member_index members" and ?es = "member_edges members relations"
  assume "\<exists>path. flow_chain members relations path"
  then obtain path where path: "distinct path" "set path = fst ` set members" "mset ?es = mset (zip path (tl path))"
    by (auto simp: flow_chain_def)
  have inj: "inj_on ?ix (set path)" using member_id_index path(2) by (metis inj_onI)
  have "?ix ` set path = {..<length members}"
  proof
    show "?ix ` set path \<subseteq> {..<length members}" using member_id_index path(2) by auto
    show "{..<length members} \<subseteq> ?ix ` set path"
    proof
      fix i assume "i \<in> {..<length members}"
      then have "i < length members" by simp
      moreover from this have "member_id members i \<in> set path" unfolding path(2) member_id_image [symmetric] by simp
      ultimately show "i \<in> ?ix ` set path" using member_index_id [OF assms] by (metis imageI)
    qed
  qed
  moreover have "mset (map (\<lambda>(a, b). (?ix a, ?ix b)) ?es) = mset (chain_edges (map ?ix path))"
    unfolding chain_edges_def zip_tl_map mset_map path(3) ..
  ultimately show "\<exists>p. distinct p \<and> set p = {..<length members} \<and> mset (List.map_filter (flow_edge members) relations) = mset (chain_edges p)"
    using path(1) inj by (intro exI [of _ "map ?ix path"]) (simp add: distinct_map flow_edges_eq)
qed

lemma chain_check_members:
  assumes "distinct (map fst members)" "members \<noteq> []" "length members \<le> MAX_SELECTED_CLAIMS"
  shows "chain_check (length members) (build_graph members relations) \<longleftrightarrow> (\<exists>path. flow_chain members relations path)"
  using chain_check_iff [OF flow_edges_below [OF assms(3)], of relations] flow_chain_iff [OF assms(1)] assms(2)
  by (simp add: build_graph_def)

section \<open>The members of a flow\<close>

definition flow_claim :: "(claim \<Rightarrow> claim_certificate option) \<Rightarrow> digest \<Rightarrow> claim \<Rightarrow> bool" where
  "flow_claim certificate anchor c \<longleftrightarrow>
     certificate c \<noteq> None \<and> (case cl_payload c of FlowStepPayload scenario flow_anchor step \<Rightarrow> flow_anchor = anchor | _ \<Rightarrow> False)"

fun claim_scenario :: "claim_payload \<Rightarrow> string" where
  "claim_scenario (FlowStepPayload scenario flow_anchor step) = scenario"
| "claim_scenario _ = []"

fun claim_role :: "claim_payload \<Rightarrow> flow_step_role" where
  "claim_role (FlowStepPayload scenario flow_anchor step) = fl_role step"
| "claim_role _ = Producer"

lemma flow_members_Some:
  assumes "flow_members certificate anchor cs members roles scenario = Ok (Some (members', roles'))"
    and "length members \<le> MAX_SELECTED_CLAIMS"
  shows "members' = members @ map (\<lambda>c. (cl_id c, cc_id (the (certificate c)))) (filter (flow_claim certificate anchor) cs) \<and>
    roles' = roles \<union> (\<lambda>c. claim_role (cl_payload c)) ` set (filter (flow_claim certificate anchor) cs) \<and>
    length members' \<le> MAX_SELECTED_CLAIMS \<and>
    (\<exists>s. (scenario = None \<or> scenario = Some s) \<and> (\<forall>c \<in> set cs. flow_claim certificate anchor c \<longrightarrow> claim_scenario (cl_payload c) = s))"
  using assms
proof (induction cs arbitrary: members roles scenario)
  case Nil
  then show ?case by (cases scenario) auto
next
  case (Cons c cs)
  show ?case
  proof (cases "flow_claim certificate anchor c")
    case False
    with Cons.prems(1) have "flow_members certificate anchor cs members roles scenario = Ok (Some (members', roles'))"
      by (auto simp: flow_claim_def split: claim_payload.splits if_splits option.splits)
    from Cons.IH [OF this Cons.prems(2)] False show ?thesis by auto
  next
    case True
    then obtain s step k where c: "cl_payload c = FlowStepPayload s anchor step" "certificate c = Some k"
      by (auto simp: flow_claim_def split: claim_payload.splits)
    with Cons.prems(1) have sc: "scenario = None \<or> scenario = Some s" and len: "length members < MAX_SELECTED_CLAIMS"
      and rest: "flow_members certificate anchor cs (members @ [(cl_id c, cc_id k)]) (insert (fl_role step) roles) (Some s) = Ok (Some (members', roles'))"
      by (auto split: if_splits option.splits)
    from Cons.IH [OF rest] len c sc True show ?thesis by auto
  qed
qed

end
