(* ===== verification/Claim_Lemmas.thy ===== *)
theory Claim_Lemmas
  imports Flow_Chain
begin

text \<open>
  The steps of \<^verbatim>\<open>claim_proof.rs\<close>: the flow check as the existence of a chain, what validated material
  guarantees, and what each selection step adds to the members of a proof.
\<close>

section \<open>Connected flows\<close>

lemma connected_flow_eq:
  assumes "flow_members certificate anchor (cm_claims m) [] {} None = Ok (Some (members, roles))"
  shows "connected_flow certificate m anchor =
    Ok (if 5 \<le> length members \<and> roles = flow_roles \<and> chain_check (length members) (build_graph members (cm_relations m))
        then Some members else None)"
proof (cases "length members < 5 \<or> roles \<noteq> flow_roles \<or> \<not> flow_shape (length members) (build_graph members (cm_relations m))")
  case True
  then show ?thesis using assms by (simp add: connected_flow_def chain_check_def Let_def) linarith
next
  case False
  let ?g = "build_graph members (cm_relations m)"
  show ?thesis
  proof (cases "position (\<lambda>d. d = 0) (take (length members) (fg_in ?g))")
    case None
    with False assms show ?thesis by (simp add: connected_flow_def chain_check_def Let_def)
  next
    case (Some cursor)
    with False assms show ?thesis
      by (cases "walk (fg_next ?g) (length members) cursor (replicate MAX_SELECTED_CLAIMS False)")
        (simp_all add: connected_flow_def chain_check_def Let_def)
  qed
qed

lemma connected_flow_check:
  "connected_flow certificate m anchor = Ok (Some members) \<longleftrightarrow>
     flow_members certificate anchor (cm_claims m) [] {} None = Ok (Some (members, flow_roles)) \<and>
     5 \<le> length members \<and> chain_check (length members) (build_graph members (cm_relations m))"
proof (cases "\<exists>ms roles. flow_members certificate anchor (cm_claims m) [] {} None = Ok (Some (ms, roles))")
  case True
  then obtain ms roles where f: "flow_members certificate anchor (cm_claims m) [] {} None = Ok (Some (ms, roles))" by blast
  show ?thesis unfolding connected_flow_eq [OF f] by (auto simp: f)
next
  case False
  then have "connected_flow certificate m anchor \<noteq> Ok (Some members)"
    by (cases "flow_members certificate anchor (cm_claims m) [] {} None") (auto simp: connected_flow_def split: option.splits)
  with False show ?thesis by auto
qed

lemma card_flow_roles: "card flow_roles = 5"
  by (simp add: flow_roles_def)

lemma flow_members_facts:
  assumes "flow_members certificate anchor (cm_claims m) [] {} None = Ok (Some (members, roles))" "distinct (map cl_id (cm_claims m))"
  shows "distinct (map fst members)" "length members \<le> MAX_SELECTED_CLAIMS" "card roles \<le> length members"
proof -
  let ?cs = "filter (flow_claim certificate anchor) (cm_claims m)"
  from flow_members_Some [OF assms(1)] have m: "members = map (\<lambda>c. (cl_id c, cc_id (the (certificate c)))) ?cs"
    "roles = (\<lambda>c. claim_role (cl_payload c)) ` set ?cs" and len: "length members \<le> MAX_SELECTED_CLAIMS" by auto
  show "length members \<le> MAX_SELECTED_CLAIMS" by (rule len)
  show "distinct (map fst members)" using assms(2) by (simp add: m distinct_map_filter comp_def)
  have "card roles \<le> card (set ?cs)" unfolding m(2) by (rule card_image_le) simp
  also have "\<dots> \<le> length members" using card_length [of ?cs] by (simp add: m)
  finally show "card roles \<le> length members" .
qed

lemma connected_flow_chain:
  assumes "distinct (map cl_id (cm_claims m))"
  shows "connected_flow certificate m anchor = Ok (Some members) \<longleftrightarrow>
    flow_members certificate anchor (cm_claims m) [] {} None = Ok (Some (members, flow_roles)) \<and>
    (\<exists>path. flow_chain members (cm_relations m) path)"
proof (cases "flow_members certificate anchor (cm_claims m) [] {} None = Ok (Some (members, flow_roles))")
  case True
  note f = flow_members_facts [OF True assms]
  then have "5 \<le> length members" by (simp add: card_flow_roles)
  moreover from this have "members \<noteq> []" by auto
  ultimately show ?thesis using chain_check_members [OF f(1) _ f(2)] True by (auto simp: connected_flow_check)
next
  case False
  then show ?thesis by (auto simp: connected_flow_check)
qed

section \<open>Validated material\<close>

lemma validate_claims_Ok:
  "validate_claims blake3 before cs = Ok u \<Longrightarrow>
     (\<forall>c \<in> set cs. claim_is_canonical blake3 c \<and> cl_contract c = current_contract_definition blake3 (cl_kind c)) \<and>
     distinct (map cl_id cs) \<and> cl_id ` set cs \<inter> cl_id ` set before = {}"
proof (induction cs arbitrary: before)
  case (Cons c cs)
  then show ?case using Cons.IH [of "c # before"] by (auto split: if_splits)
qed simp

lemma validate_certificates_Ok:
  "validate_certificates blake3 n claims before ks = Ok u \<Longrightarrow> k \<in> set ks \<Longrightarrow>
     claim_certificate_is_canonical blake3 k \<and> cc_world k = world_id blake3 (nd_world n) \<and>
     (\<exists>s \<in> set (nd_subjects n). sj_id s = cc_subject k)"
  by (induction ks arbitrary: before) (auto split: if_splits option.splits)

definition material_valid :: "(u8 list \<Rightarrow> digest) \<Rightarrow> need \<Rightarrow> claim_proof_material \<Rightarrow> bool" where
  "material_valid blake3 n m \<longleftrightarrow>
     distinct (map cl_id (cm_claims m)) \<and>
     (\<forall>c \<in> set (cm_claims m). claim_is_canonical blake3 c \<and> cl_contract c = current_contract_definition blake3 (cl_kind c)) \<and>
     (\<forall>k \<in> set (cm_certificates m). claim_certificate_is_canonical blake3 k \<and> cc_world k = world_id blake3 (nd_world n) \<and>
        (\<exists>s \<in> set (nd_subjects n). sj_id s = cc_subject k))"

lemma validate_material_Ok: "validate_material blake3 n m = Ok u \<Longrightarrow> material_valid blake3 n m"
  using validate_claims_Ok [of blake3 "[]" "cm_claims m"] validate_certificates_Ok [of blake3 n "cm_claims m" "[]" "cm_certificates m"]
  by (auto simp: validate_material_def material_valid_def split: if_splits)

section \<open>Selection\<close>

lemma min_by_key_mem: "min_by_key f xs = Some x \<Longrightarrow> x \<in> set xs"
  by (induction xs arbitrary: x) (auto split: option.splits if_splits)

text \<open>A member is a claim of the material with a fresh certificate of the need's world that covers the obligation.\<close>

definition member_supports ::
    "(u8 list \<Rightarrow> digest) \<Rightarrow> file_system \<Rightarrow> string \<Rightarrow> need \<Rightarrow> claim_proof_material \<Rightarrow> obligation \<Rightarrow> claim \<Rightarrow> member \<Rightarrow> bool" where
  "member_supports blake3 fs root n m ob c x \<longleftrightarrow>
     c \<in> set (cm_claims m) \<and> claim_is_canonical blake3 c \<and> cl_contract c = current_contract_definition blake3 (cl_kind c) \<and>
     (\<exists>k \<in> set (cm_certificates m). x = (cl_id c, cc_id k) \<and> cc_claim k = cl_id c \<and>
        cc_world k = world_id blake3 (nd_world n) \<and> (\<exists>s \<in> set (nd_subjects n). sj_id s = cc_subject k) \<and>
        certificate_covers k ob \<and> claim_validation_certificate_is_fresh blake3 fs root k)"

lemma certificate_satisfying_supports:
  assumes "certificate_satisfying blake3 fs root m (cl_id c) ob = Some k" "c \<in> set (cm_claims m)" "material_valid blake3 n m"
  shows "member_supports blake3 fs root n m ob c (cl_id c, cc_id k)"
  using min_by_key_mem [OF assms(1) [unfolded certificate_satisfying_def]] assms(2,3)
  by (auto simp: member_supports_def material_valid_def)

text \<open>How a list of members answers an obligation; a runtime flow needs the whole chain of one scenario.\<close>

definition answers_flow ::
    "(u8 list \<Rightarrow> digest) \<Rightarrow> file_system \<Rightarrow> string \<Rightarrow> need \<Rightarrow> claim_proof_material \<Rightarrow> obligation \<Rightarrow> member set \<Rightarrow> bool" where
  "answers_flow blake3 fs root n m ob members \<longleftrightarrow>
     (\<exists>cs ms scenario anchor path. set ms \<subseteq> members \<and> list_all2 (member_supports blake3 fs root n m ob) cs ms \<and>
        list_all (\<lambda>c. \<exists>step. cl_payload c = FlowStepPayload scenario anchor step) cs \<and>
        (\<lambda>c. claim_role (cl_payload c)) ` set cs = flow_roles \<and> flow_chain ms (cm_relations m) path)"

definition answers ::
    "(u8 list \<Rightarrow> digest) \<Rightarrow> file_system \<Rightarrow> string \<Rightarrow> need \<Rightarrow> claim_proof_material \<Rightarrow> obligation \<Rightarrow> member set \<Rightarrow> bool" where
  "answers blake3 fs root n m ob members =
     (case ob_predicate ob of
        ImplementationLocation \<Rightarrow> \<exists>c x. x \<in> members \<and> member_supports blake3 fs root n m ob c x \<and> primary_location c
      | FocusedTests \<Rightarrow> \<exists>c x. x \<in> members \<and> member_supports blake3 fs root n m ob c x \<and> focused_test c
      | RuntimeFlow \<Rightarrow> answers_flow blake3 fs root n m ob members)"

lemma answers_mono: "answers blake3 fs root n m ob members \<Longrightarrow> members \<subseteq> members' \<Longrightarrow> answers blake3 fs root n m ob members'"
proof -
  assume a: "answers blake3 fs root n m ob members" and sub: "members \<subseteq> members'"
  have "answers_flow blake3 fs root n m ob members \<Longrightarrow> answers_flow blake3 fs root n m ob members'"
    using sub unfolding answers_flow_def by (meson order_trans)
  with a sub show ?thesis by (cases "ob_predicate ob") (auto simp: answers_def)
qed

lemma push_member_Ok:
  "push_member x selected = Ok selected' \<Longrightarrow> set selected \<subseteq> set selected' \<and> set selected' \<subseteq> insert x (set selected) \<and>
     (fst x \<notin> fst ` set selected \<longrightarrow> x \<in> set selected')"
proof -
  assume p: "push_member x selected = Ok selected'"
  show ?thesis
  proof (cases "\<exists>candidate \<in> set selected. fst candidate = fst x")
    case True
    then have "fst x \<in> fst ` set selected" by (metis imageI)
    with True p show ?thesis by (auto simp: push_member_def)
  next
    case False
    with p show ?thesis by (auto simp: push_member_def split: if_splits)
  qed
qed

lemma push_members_Ok:
  "push_members xs selected = Ok selected' \<Longrightarrow> set selected \<subseteq> set selected' \<and> set selected' \<subseteq> set xs \<union> set selected \<and>
     (distinct (map fst xs) \<and> fst ` set xs \<inter> fst ` set selected = {} \<longrightarrow> set xs \<subseteq> set selected')"
proof (induction xs arbitrary: selected)
  case (Cons x xs)
  then obtain s1 where s1: "push_member x selected = Ok s1" "push_members xs s1 = Ok selected'" by auto
  note p = push_member_Ok [OF s1(1)] and IH = Cons.IH [OF s1(2)]
  have "set (x # xs) \<subseteq> set selected'" if d: "distinct (map fst (x # xs))" "fst ` set (x # xs) \<inter> fst ` set selected = {}"
  proof -
    have s1x: "x \<in> set s1" using p d(2) by auto
    have sub: "fst ` set s1 \<subseteq> insert (fst x) (fst ` set selected)" using p by auto
    have apart: "fst x \<notin> fst ` set xs" "fst ` set xs \<inter> fst ` set selected = {}" using d by auto
    have "fst ` set xs \<inter> fst ` set s1 \<subseteq> fst ` set xs \<inter> insert (fst x) (fst ` set selected)" by (rule Int_mono [OF order_refl sub])
    also have "\<dots> = {}" using apart by (simp add: Int_insert_right)
    finally have s1d: "fst ` set xs \<inter> fst ` set s1 = {}" by simp
    have "distinct (map fst xs)" using d(1) by simp
    with IH s1d have "set xs \<subseteq> set selected'" by blast
    with IH s1x show ?thesis by auto
  qed
  with p IH show ?case by auto
qed simp

lemma first_flow_Some: "first_flow flow as = Ok (Some members) \<Longrightarrow> \<exists>a \<in> set as. flow a = Ok (Some members)"
  by (induction as) (auto split: result.splits option.splits)

lemma connected_flow_answers:
  assumes "connected_flow (\<lambda>c. certificate_satisfying blake3 fs root m (cl_id c) ob) m anchor = Ok (Some ms)" "material_valid blake3 n m"
  shows "answers_flow blake3 fs root n m ob (set ms)" "distinct (map fst ms)"
    "\<And>x. x \<in> set ms \<Longrightarrow> \<exists>c \<in> set (cm_claims m). cl_id c = fst x \<and> cl_kind c = FlowStepClaim"
proof -
  let ?cert = "\<lambda>c. certificate_satisfying blake3 fs root m (cl_id c) ob"
  let ?cs = "filter (flow_claim ?cert anchor) (cm_claims m)"
  have ids: "distinct (map cl_id (cm_claims m))" using assms(2) by (simp add: material_valid_def)
  from connected_flow_chain [OF ids] assms(1) obtain path where
    fm: "flow_members ?cert anchor (cm_claims m) [] {} None = Ok (Some (ms, flow_roles))" and chain: "flow_chain ms (cm_relations m) path" by auto
  from flow_members_Some [OF fm] obtain s where ms: "ms = map (\<lambda>c. (cl_id c, cc_id (the (?cert c)))) ?cs"
    and roles: "flow_roles = (\<lambda>c. claim_role (cl_payload c)) ` set ?cs"
    and s: "\<forall>c \<in> set (cm_claims m). flow_claim ?cert anchor c \<longrightarrow> claim_scenario (cl_payload c) = s" by auto
  have step: "\<exists>step. cl_payload c = FlowStepPayload s anchor step" if "c \<in> set ?cs" for c
    using s that by (cases "cl_payload c") (auto simp: flow_claim_def)
  have sup: "member_supports blake3 fs root n m ob c (cl_id c, cc_id (the (?cert c)))" if "c \<in> set ?cs" for c
    using that certificate_satisfying_supports [OF _ _ assms(2)] by (auto simp: flow_claim_def)
  have "list_all2 (member_supports blake3 fs root n m ob) ?cs ms"
    using sup by (simp add: ms list_all2_map2 list_all2_same)
  with step roles chain show "answers_flow blake3 fs root n m ob (set ms)"
    unfolding answers_flow_def by (intro exI [of _ ?cs] exI [of _ ms] exI [of _ s] exI [of _ anchor] exI [of _ path]) (auto simp: list_all_iff)
  show "distinct (map fst ms)" by (rule flow_members_facts(1) [OF fm ids])
  show "\<exists>c \<in> set (cm_claims m). cl_id c = fst x \<and> cl_kind c = FlowStepClaim" if "x \<in> set ms" for x
  proof -
    from that obtain c where c: "c \<in> set ?cs" "fst x = cl_id c" by (auto simp: ms)
    with step [OF c(1)] assms(2) show ?thesis
      by (intro bexI [of _ c]) (auto simp: material_valid_def claim_is_canonical_def)
  qed
qed


lemma kind_of_predicate: "predicate_for_claim_kind k = ImplementationLocation \<longleftrightarrow> k = LocationClaim"
  "predicate_for_claim_kind k = RuntimeFlow \<longleftrightarrow> k = FlowStepClaim" "predicate_for_claim_kind k = FocusedTests \<longleftrightarrow> k = FocusedTestClaim"
  by (cases k; simp)+

text \<open>The claims selected so far belong to the given predicates.\<close>

definition selected_within :: "claim_proof_material \<Rightarrow> predicate_kind set \<Rightarrow> member list \<Rightarrow> bool" where
  "selected_within m ps selected \<longleftrightarrow>
     (\<forall>x \<in> set selected. \<exists>c \<in> set (cm_claims m). cl_id c = fst x \<and> predicate_for_claim_kind (cl_kind c) \<in> ps)"

lemma selected_within_apart:
  assumes "selected_within m ps selected" "material_valid blake3 n m" "c \<in> set (cm_claims m)" "predicate_for_claim_kind (cl_kind c) \<notin> ps"
  shows "cl_id c \<notin> fst ` set selected"
proof
  assume "cl_id c \<in> fst ` set selected"
  with assms(1) obtain d where "d \<in> set (cm_claims m)" "cl_id d = cl_id c" "predicate_for_claim_kind (cl_kind d) \<in> ps"
    by (auto simp: selected_within_def)
  with assms(2,3,4) show False by (auto simp: material_valid_def distinct_map dest: inj_onD)
qed

lemma select_single_answers:
  assumes "select_single_claim blake3 fs root m ob kind P selected = Ok selected'" "material_valid blake3 n m"
    "selected_within m ps selected" "predicate_for_claim_kind kind = ob_predicate ob" "ob_predicate ob \<notin> ps"
  shows "set selected \<subseteq> set selected' \<and> selected_within m (insert (ob_predicate ob) ps) selected' \<and>
    (\<exists>c x. x \<in> set selected' \<and> member_supports blake3 fs root n m ob c x \<and> P c)"
proof -
  from assms(1) obtain x where min: "min_by_key (\<lambda>x. x) (List.map_filter (\<lambda>c. map_option (\<lambda>k. (cl_id c, cc_id k))
      (certificate_satisfying blake3 fs root m (cl_id c) ob)) (filter (\<lambda>c. cl_kind c = kind \<and> P c) (cm_claims m))) = Some x"
    and push: "push_member x selected = Ok selected'"
    by (auto simp: select_single_claim_def Let_def split: option.splits)
  from min_by_key_mem [OF min] obtain c k where c: "c \<in> set (cm_claims m)" "cl_kind c = kind" "P c"
    "certificate_satisfying blake3 fs root m (cl_id c) ob = Some k" "x = (cl_id c, cc_id k)"
    by (auto simp: List.map_filter_def)
  have sup: "member_supports blake3 fs root n m ob c x"
    using certificate_satisfying_supports [OF c(4,1) assms(2)] c(5) by simp
  have "fst x \<notin> fst ` set selected"
    using selected_within_apart [OF assms(3,2) c(1)] assms(4,5) c(2,5) by simp
  with push_member_Ok [OF push] have ps: "set selected \<subseteq> set selected'" "set selected' \<subseteq> insert x (set selected)" "x \<in> set selected'" by auto
  have "selected_within m (insert (ob_predicate ob) ps) selected'"
    using assms(3,4) ps(2) c(1,2,5) unfolding selected_within_def by fastforce
  with ps sup c(3) show ?thesis by blast
qed

lemma select_flow_answers:
  assumes "select_runtime_flow blake3 fs root m ob selected = Ok selected'" "material_valid blake3 n m"
    "selected_within m ps selected" "ob_predicate ob = RuntimeFlow" "RuntimeFlow \<notin> ps"
  shows "set selected \<subseteq> set selected' \<and> selected_within m (insert RuntimeFlow ps) selected' \<and>
    answers_flow blake3 fs root n m ob (set selected')"
proof -
  from assms(1) obtain anchors ms where
    "first_flow (connected_flow (\<lambda>c. certificate_satisfying blake3 fs root m (cl_id c) ob) m) (sort anchors) = Ok (Some ms)"
    and push: "push_members ms selected = Ok selected'"
    by (auto simp: select_runtime_flow_def split: option.splits)
  then obtain anchor where flow: "connected_flow (\<lambda>c. certificate_satisfying blake3 fs root m (cl_id c) ob) m anchor = Ok (Some ms)"
    using first_flow_Some by blast
  note f = connected_flow_answers [OF flow assms(2)]
  have "fst ` set ms \<inter> fst ` set selected = {}"
  proof -
    have "fst x \<notin> fst ` set selected" if "x \<in> set ms" for x
      using f(3) [OF that] selected_within_apart [OF assms(3,2)] assms(5) kind_of_predicate(2) by metis
    then show ?thesis by blast
  qed
  with push_members_Ok [OF push] f(2) have sub: "set selected \<subseteq> set selected'" "set selected' \<subseteq> set ms \<union> set selected" "set ms \<subseteq> set selected'"
    by auto
  have "selected_within m (insert RuntimeFlow ps) selected'"
    unfolding selected_within_def
  proof
    fix x assume "x \<in> set selected'"
    with sub(2) consider "x \<in> set ms" | "x \<in> set selected" by blast
    then show "\<exists>c \<in> set (cm_claims m). cl_id c = fst x \<and> predicate_for_claim_kind (cl_kind c) \<in> insert RuntimeFlow ps"
    proof cases
      case 1
      then show ?thesis using f(3) by fastforce
    next
      case 2
      then show ?thesis using assms(3) unfolding selected_within_def by blast
    qed
  qed
  moreover have "answers_flow blake3 fs root n m ob (set selected')"
    using f(1) sub(3) unfolding answers_flow_def by (meson order_trans)
  ultimately show ?thesis using sub(1) by blast
qed

lemma select_obligation_answers:
  assumes "select_obligation blake3 fs root m ob selected = Ok selected'" "material_valid blake3 n m"
    "selected_within m ps selected" "ob_predicate ob \<notin> ps"
  shows "set selected \<subseteq> set selected' \<and> selected_within m (insert (ob_predicate ob) ps) selected' \<and> answers blake3 fs root n m ob (set selected')"
proof (cases "ob_predicate ob")
  case ImplementationLocation
  with assms(1) have "select_single_claim blake3 fs root m ob LocationClaim primary_location selected = Ok selected'"
    by (simp add: select_obligation_def)
  from select_single_answers [OF this assms(2,3) _ assms(4)] ImplementationLocation show ?thesis by (simp add: answers_def)
next
  case RuntimeFlow
  with assms(1) have "select_runtime_flow blake3 fs root m ob selected = Ok selected'" by (simp add: select_obligation_def)
  from select_flow_answers [OF this assms(2,3) RuntimeFlow] assms(4) RuntimeFlow show ?thesis by (simp add: answers_def)
next
  case FocusedTests
  with assms(1) have "select_single_claim blake3 fs root m ob FocusedTestClaim focused_test selected = Ok selected'"
    by (simp add: select_obligation_def)
  from select_single_answers [OF this assms(2,3) _ assms(4)] FocusedTests show ?thesis by (simp add: answers_def)
qed

lemma select_obligations_answers:
  assumes "select_obligations blake3 fs root m obs selected ids = Ok (selected', ids')" "material_valid blake3 n m"
    "selected_within m ps selected" "distinct (map ob_predicate obs)" "ob_predicate ` set obs \<inter> ps = {}"
  shows "set selected \<subseteq> set selected' \<and> (\<forall>ob \<in> set obs. answers blake3 fs root n m ob (set selected'))"
  using assms
proof (induction obs arbitrary: selected ids ps)
  case (Cons ob obs)
  from Cons.prems(1) obtain s1 where s1: "select_obligation blake3 fs root m ob selected = Ok s1"
    "select_obligations blake3 fs root m obs s1 (ids @ [ob_id ob]) = Ok (selected', ids')"
    by (auto split: if_splits)
  have "ob_predicate ob \<notin> ps" using Cons.prems(5) by auto
  from select_obligation_answers [OF s1(1) Cons.prems(2,3) this] have one: "set selected \<subseteq> set s1"
    "selected_within m (insert (ob_predicate ob) ps) s1" "answers blake3 fs root n m ob (set s1)" by auto
  from Cons.IH [OF s1(2) Cons.prems(2) one(2)] Cons.prems(4,5) have rest: "set s1 \<subseteq> set selected'"
    "\<forall>ob \<in> set obs. answers blake3 fs root n m ob (set selected')" by auto
  from rest one answers_mono [OF one(3) rest(1)] show ?case by auto
qed simp

lemma select_obligations_ids:
  "select_obligations blake3 fs root m obs selected ids = Ok (selected', ids') \<Longrightarrow> ids' = ids @ map ob_id obs"
  by (induction obs arbitrary: selected ids) (fastforce split: if_splits)+

lemma claim_set_new_fields:
  assumes "claim_set_certificate_new blake3 need_id members obligations world engine created = Some c"
  shows "cs_need c = need_id" "cs_world c = world" "cs_engine c = engine" "cs_claims c = map fst (sort members)"
    "cs_validations c = map snd (sort members)" "cs_obligations c = sort obligations" "cs_created c = created"
  using assms by (auto simp: claim_set_certificate_new_def Let_def split: if_splits)

end
