(* ===== verification/Claim_Theorems.thy ===== *)
theory Claim_Theorems
  imports Claim_Lemmas
begin

text \<open>
  What a claim-set certificate shows: every obligation is answered by fresh, validated claims, issued
  certificates replay, the flow check accepts exactly the chains; and where the identities of
  \<^verbatim>\<open>claim.rs\<close> are ambiguous.
\<close>

section \<open>Certificates\<close>

lemma select_claim_proof_Ok:
  assumes "select_claim_proof blake3 fs root n obligations m = Ok selected"
  shows "material_valid blake3 n m" "sorted (sl_members selected)" "sl_obligations selected = sort (map ob_id obligations)" "length obligations \<le> 16"
    "distinct (map ob_predicate obligations) \<Longrightarrow> ob \<in> set obligations \<Longrightarrow> answers blake3 fs root n m ob (set (sl_members selected))"
proof -
  from assms obtain u members ids where v: "validate_material blake3 n m = Ok u" and len: "length obligations \<le> 16"
    and sel: "select_obligations blake3 fs root m obligations [] [] = Ok (members, ids)"
    and out: "sl_members selected = sort members" "sl_obligations selected = sort ids"
    by (auto simp: select_claim_proof_def Let_def split: if_splits)
  show mv: "material_valid blake3 n m" by (rule validate_material_Ok [OF v])
  show "length obligations \<le> 16" by (rule len)
  show "sorted (sl_members selected)" by (simp add: out)
  show "sl_obligations selected = sort (map ob_id obligations)" using select_obligations_ids [OF sel] by (simp add: out)
  show "answers blake3 fs root n m ob (set (sl_members selected))" if "distinct (map ob_predicate obligations)" "ob \<in> set obligations"
  proof -
    have "selected_within m {} []" by (simp add: selected_within_def)
    from select_obligations_answers [OF sel mv this that(1)] that(2) show ?thesis by (simp add: out)
  qed
qed

lemma build_Ok:
  assumes "build_claim_component_certificate blake3 fs root n obligations m created = Ok cert"
  obtains selected where "select_claim_proof blake3 fs root n obligations m = Ok selected"
    "claim_set_certificate_new blake3 (nd_id n) (sl_members selected) (sl_obligations selected) (world_id blake3 (nd_world n))
       (claim_proof_engine_definition blake3) created = Some cert"
  using assms by (auto simp: build_claim_component_certificate_def)

text \<open>
  C21. A claim-set certificate is a proof of its obligations. When
  \<open>build_claim_component_certificate\<close> succeeds on obligations of different predicates (as the compiler produces them), the certificate is
  canonical, bound to the need, its world and the proof engine, lists exactly the given obligations, and
  its claims answer every one of them: a primary location, a focused test, or the complete chain of a
  runtime flow, each a canonical claim of the current contract with a certificate of the need's world
  and subjects that covers the obligation and whose evidence is unchanged in the repository.
\<close>

theorem claim_certificate_sound:
  assumes "build_claim_component_certificate blake3 fs root n obligations m created = Ok cert"
    and "distinct (map ob_predicate obligations)"
  shows "claim_set_certificate_is_canonical blake3 cert \<and> cs_need cert = nd_id n \<and> cs_world cert = world_id blake3 (nd_world n) \<and>
    cs_engine cert = claim_proof_engine_definition blake3 \<and> set (cs_obligations cert) = ob_id ` set obligations \<and>
    list_all (\<lambda>ob. answers blake3 fs root n m ob (set (zip (cs_claims cert) (cs_validations cert)))) obligations"
proof -
  from build_Ok [OF assms(1)] obtain selected where sel: "select_claim_proof blake3 fs root n obligations m = Ok selected"
    and new: "claim_set_certificate_new blake3 (nd_id n) (sl_members selected) (sl_obligations selected) (world_id blake3 (nd_world n))
       (claim_proof_engine_definition blake3) created = Some cert" .
  note s = select_claim_proof_Ok [OF sel]
  from claim_set_certificate_new_canonical [OF new] claim_set_new_fields(1-3) [OF new] s(3) s(5) [OF assms(2)]
  show ?thesis by (simp add: list_all_iff)
qed

lemma replay_obligations_Ok:
  assumes "distinct (map ob_id (nd_required n))" "set obs \<subseteq> set (nd_required n)" "length before + length obs \<le> 16"
  shows "replay_obligations n (map ob_id obs) before = Ok (before @ obs)"
  using assms(2,3)
proof (induction obs arbitrary: before)
  case (Cons ob obs)
  have "List.find (\<lambda>x. ob_id x = ob_id ob) (nd_required n) = Some ob"
  proof -
    from Cons.prems(1) obtain x where x: "List.find (\<lambda>x. ob_id x = ob_id ob) (nd_required n) = Some x"
      by (cases "List.find (\<lambda>x. ob_id x = ob_id ob) (nd_required n)") (auto simp: find_None_iff)
    then have "x \<in> set (nd_required n)" "ob_id x = ob_id ob" by (auto simp: find_Some_iff)
    with assms(1) Cons.prems(1) have "x = ob" by (auto simp: distinct_map dest: inj_onD)
    with x show ?thesis by simp
  qed
  with Cons show ?case by simp
qed simp

text \<open>
  C22. Issued claim-set certificates replay: a certificate built for obligations of the need, in the order
  of their identities, is accepted by \<open>replay_claim_set_certificate\<close> against the same material and the same
  repository contents.
\<close>

theorem claim_certificate_replays:
  assumes "build_claim_component_certificate blake3 fs root n obligations m created = Ok cert"
    and "set obligations \<subseteq> set (nd_required n)" "sorted (map ob_id obligations)" "distinct (map ob_id (nd_required n))"
  shows "replay_claim_set_certificate blake3 fs root cert n m = Ok ()"
proof -
  from build_Ok [OF assms(1)] obtain selected where sel: "select_claim_proof blake3 fs root n obligations m = Ok selected"
    and new: "claim_set_certificate_new blake3 (nd_id n) (sl_members selected) (sl_obligations selected) (world_id blake3 (nd_world n))
       (claim_proof_engine_definition blake3) created = Some cert" .
  note s = select_claim_proof_Ok [OF sel] and f = claim_set_new_fields [OF new]
  have ids: "sl_obligations selected = map ob_id obligations" using s(3) assms(3) by (simp add: sorted_sort_id)
  then have obs: "cs_obligations cert = map ob_id obligations" using f(6) assms(3) by (simp add: sorted_sort_id)
  have "replay_obligations n (map ob_id obligations) [] = Ok obligations"
    using replay_obligations_Ok [OF assms(4,2)] s(4) by simp
  with claim_set_certificate_new_canonical [OF new] f s(2) sel obs ids show ?thesis
    by (simp add: replay_claim_set_certificate_def sorted_sort_id)
qed

text \<open>
  C23. The flow check is exact: over claims with different identities, \<open>connected_flow\<close> returns the fresh
  claims of an anchor exactly when they belong to one scenario, show all five roles, and the relations
  between them are the consecutive pairs of a single path through all of them.
\<close>

theorem connected_flow_iff:
  assumes "distinct (map cl_id (cm_claims m))"
  shows "connected_flow certificate m anchor = Ok (Some members) \<longleftrightarrow>
    flow_members certificate anchor (cm_claims m) [] {} None = Ok (Some (members, flow_roles)) \<and>
    (\<exists>path. flow_chain members (cm_relations m) path)"
  by (rule connected_flow_chain [OF assms])

section \<open>Ambiguous identities\<close>

text \<open>
  The identity of a focused test hashes the arguments, three texts and the evidence paths one after the
  other without their number: arguments and evidence can be shifted against each other, and two
  different canonical claims get one identity, whatever the hash.
\<close>

definition shifted_test :: "nat \<Rightarrow> claim_payload" where
  "shifted_test k =
     FocusedTestPayload \<lparr>ft_runner = ''cargo'', ft_argv = take k [''a'', ''b''], ft_cwd = [''a'', ''b'', ''c''] ! k,
       ft_identifier = [''b'', ''c'', ''d''] ! k, ft_selection = [''c'', ''d'', ''e''] ! k, ft_evidence = drop k [''d'', ''e'', ''f'']\<rparr>"

theorem focused_test_claims_collide:
  "\<exists>c d. claim_new blake3 contract (shifted_test 1) = Some c \<and> claim_new blake3 contract (shifted_test 2) = Some d \<and>
     cl_id c = cl_id d \<and> cl_payload c \<noteq> cl_payload d"
proof -
  have "canonicalize_claim_payload (shifted_test 1) = Some (shifted_test 1)" "canonicalize_claim_payload (shifted_test 2) = Some (shifted_test 2)"
    by code_simp+
  moreover have "payload_kind (shifted_test k) = FocusedTestClaim" for k by (simp add: shifted_test_def)
  moreover have "payload_fields (shifted_test 1) h = payload_fields (shifted_test 2) h" "payload_fields (shifted_test 2) h \<noteq> None" for h
    by (simp_all add: shifted_test_def)
  moreover have "shifted_test 1 \<noteq> shifted_test 2" by (simp add: shifted_test_def)
  moreover from calculation(5) obtain out where
    "payload_fields (shifted_test 2) (field_digest contract (field_u8 2 (hasher_new ''semantic-claim''))) = Some out" by blast
  ultimately show ?thesis by (simp add: claim_new_def compute_claim_id_def)
qed

text \<open>
  A claim-set certificate hashes its members and its obligations one after the other without their
  numbers: a member can be read as two obligations, and different canonical certificates get one identity.
\<close>

theorem claim_set_certificates_collide:
  assumes "claim1 < claim2" "claim2 < validation2" "validation2 < obligation"
  shows "\<exists>c d. claim_set_certificate_new blake3 need_id [(claim1, validation1), (claim2, validation2)] [obligation] world engine created = Some c \<and>
    claim_set_certificate_new blake3 need_id [(claim1, validation1)] [claim2, validation2, obligation] world engine created = Some d \<and>
    cs_id c = cs_id d \<and> cs_claims c \<noteq> cs_claims d"
proof -
  have le: "claim1 \<le> claim2" "claim2 \<le> validation2" "validation2 \<le> obligation" "claim2 \<le> obligation"
    and ne: "claim1 \<noteq> claim2" "claim2 \<noteq> validation2" "validation2 \<noteq> obligation" using assms by auto
  have "sort [(claim1, validation1), (claim2, validation2)] = [(claim1, validation1), (claim2, validation2)]"
    "sort [claim2, validation2, obligation] = [claim2, validation2, obligation]"
    "sort [(claim1, validation1)] = [(claim1, validation1)]" "sort [obligation] = [obligation]"
    using le assms(1) by (simp_all add: less_eq_prod_def)
  with ne show ?thesis
    by (simp add: claim_set_certificate_new_def Let_def claim_bounds compute_claim_set_certificate_id_def del: sort_key_simps)
qed


section \<open>A concrete proof\<close>

definition flat_hash :: "u8 list \<Rightarrow> digest" where
  "flat_hash bytes = Digest [7]"

definition proof_subject :: subject where
  "proof_subject = \<lparr>sj_id = Digest [7], sj_kind = Symbol, sj_name = ''answer'', sj_lineage = Digest [1]\<rparr>"

definition proof_obligation :: obligation where
  "proof_obligation = \<lparr>ob_id = Digest [7], ob_predicate = ImplementationLocation, ob_subject = Digest [7], ob_facets = []\<rparr>"

definition proof_need :: need where
  "proof_need = \<lparr>nd_id = Digest [9], nd_subjects = [proof_subject], nd_required = [proof_obligation], nd_preferred = [], nd_constraints = [],
     nd_world = \<lparr>sw_lineage = Digest [1], sw_source = ''current'', sw_platform = ''current'', sw_features = ''default'', sw_configuration = None, sw_toolchain = None\<rparr>,
     nd_inputs = [], nd_residual = None, nd_body_digest = Digest [2], nd_format_revision = 1\<rparr>"

definition proof_claim :: claim where
  "proof_claim = \<lparr>cl_id = Digest [7], cl_kind = LocationClaim, cl_contract = Digest [7],
     cl_payload = LocationPayload \<lparr>lo_role = Primary, lo_path = ''a.rs'', lo_symbol = None, lo_start = None, lo_end = None\<rparr>\<rparr>"

definition proof_material :: claim_proof_material where
  "proof_material = \<lparr>cm_claims = [proof_claim], cm_relations = [],
     cm_certificates = [\<lparr>cc_id = Digest [7], cc_claim = Digest [7], cc_artifact = Digest [3], cc_validation = Digest [4], cc_subject = Digest [7],
       cc_world = Digest [7], cc_validator = Digest [7],
       cc_dependencies = [\<lparr>dp_path = ''a.rs'', dp_content = Digest [7], dp_start = None, dp_end = None, dp_claims = []\<rparr>],
       cc_obligations = [proof_obligation], cc_issued = 0\<rparr>]\<rparr>"

definition proof_fs :: file_system where
  "proof_fs = \<lparr>fs_canonicalize = Some, fs_metadata = (\<lambda>_. Some \<lparr>fm_is_file = True, fm_len = 1\<rparr>), fs_read = (\<lambda>_. Some [0])\<rparr>"

definition proof_certificate :: claim_set_certificate where
  "proof_certificate = \<lparr>cs_id = Digest [7], cs_need = Digest [9], cs_claims = [Digest [7]], cs_validations = [Digest [7]],
     cs_obligations = [Digest [7]], cs_world = Digest [7], cs_engine = Digest [7], cs_created = 5\<rparr>"

lemma flat_finish [simp]: "hasher_finish flat_hash h = Digest [7]"
  by (simp add: hasher_finish_def flat_hash_def)

lemma flat_definitions [simp]:
  "world_id flat_hash w = Digest [7]" "claim_proof_engine_definition flat_hash = Digest [7]"
  "validator_definition flat_hash kind = Digest [7]"
  "current_contract_definition flat_hash LocationClaim = Digest [7]" "current_validator_definition flat_hash LocationClaim = Digest [7]"
  by (simp_all add: world_id_def claim_proof_engine_definition_def current_contract_definition_def built_in_predicate_contracts_def
    predicate_contract_new_def validator_definition_def validator_definition_for_def Let_def)

lemma proof_obligation_canonical: "obligation_is_canonical flat_hash proof_obligation"
  by (simp add: obligation_is_canonical_def obligation_new_def proof_obligation_def sort_facets_def)

lemma proof_material_valid: "validate_material flat_hash proof_need proof_material = Ok ()"
  using proof_obligation_canonical
  by (simp add: validate_material_def need_is_canonical_def material_out_of_bounds_def proof_need_def proof_material_def proof_subject_def
    claim_bounds subject_is_canonical_def subject_hash_def claim_is_canonical_def compute_claim_id_def proof_claim_def
    claim_certificate_is_canonical_def compute_claim_validation_certificate_id_def Let_def)
    (simp add: proof_obligation_def)

lemma proof_evidence_fresh: "dependency_is_fresh flat_hash proof_fs ''/r'' \<lparr>dp_path = ''a.rs'', dp_content = Digest [7], dp_start = None, dp_end = None, dp_claims = []\<rparr>"
  by code_simp

lemma proof_built:
  "build_claim_component_certificate flat_hash proof_fs ''/r'' proof_need [proof_obligation] proof_material 5 = Ok proof_certificate"
  using proof_material_valid proof_evidence_fresh
  by (simp add: build_claim_component_certificate_def select_claim_proof_def select_obligation_def select_single_claim_def
    certificate_satisfying_def certificate_covers_def claim_validation_certificate_is_fresh_def push_member_def claim_bounds
    claim_set_certificate_new_def compute_claim_set_certificate_id_def Let_def List.map_filter_def proof_need_def proof_material_def
    proof_claim_def primary_location_def proof_certificate_def proof_obligation_def)

theorem claim_certificate_sound_witness:
  "build_claim_component_certificate flat_hash proof_fs ''/r'' proof_need [proof_obligation] proof_material 5 = Ok proof_certificate \<and>
   answers flat_hash proof_fs ''/r'' proof_need proof_material proof_obligation {(Digest [7], Digest [7])}"
proof -
  have zip: "set (zip (cs_claims proof_certificate) (cs_validations proof_certificate)) = {(Digest [7], Digest [7])}"
    by (simp add: proof_certificate_def)
  from claim_certificate_sound [OF proof_built, unfolded zip] proof_built show ?thesis by auto
qed

theorem claim_certificate_replays_witness:
  "build_claim_component_certificate flat_hash proof_fs ''/r'' proof_need [proof_obligation] proof_material 5 = Ok proof_certificate \<and>
   replay_claim_set_certificate flat_hash proof_fs ''/r'' proof_certificate proof_need proof_material = Ok ()"
  using claim_certificate_replays [OF proof_built] proof_built by (simp add: proof_need_def)

text \<open>Five steps in one chain.\<close>

definition step_claim :: "nat \<Rightarrow> flow_step_role \<Rightarrow> claim" where
  "step_claim i role = \<lparr>cl_id = Digest [word_of_nat i], cl_kind = FlowStepClaim, cl_contract = Digest [],
     cl_payload = FlowStepPayload ''default'' (Digest [9]) \<lparr>fl_role = role,
       fl_location = \<lparr>lo_role = Primary, lo_path = ''a.rs'', lo_symbol = None, lo_start = None, lo_end = None\<rparr>, fl_description = []\<rparr>\<rparr>"

definition step_certificate :: "claim \<Rightarrow> claim_certificate option" where
  "step_certificate c = Some \<lparr>cc_id = cl_id c, cc_claim = cl_id c, cc_artifact = Digest [], cc_validation = Digest [], cc_subject = Digest [],
     cc_world = Digest [], cc_validator = Digest [], cc_dependencies = [], cc_obligations = [], cc_issued = 0\<rparr>"

definition flow_material :: claim_proof_material where
  "flow_material = \<lparr>cm_claims = [step_claim 0 Consumer, step_claim 1 Producer, step_claim 2 Carrier, step_claim 3 Transformation, step_claim 4 Precedence],
     cm_relations = map (\<lambda>(a, b). \<lparr>rl_id = Digest [], rl_from = Digest [a], rl_to = Digest [b], rl_kind = Precedes\<rparr>) [(1, 2), (2, 3), (3, 4), (4, 0)],
     cm_certificates = []\<rparr>"

theorem connected_flow_iff_witness:
  "distinct (map cl_id (cm_claims flow_material)) \<and>
   connected_flow step_certificate flow_material (Digest [9]) = Ok (Some (map (\<lambda>i. (Digest [i], Digest [i])) [0, 1, 2, 3, 4])) \<and>
   (\<exists>path. flow_chain (map (\<lambda>i. (Digest [i], Digest [i])) [0, 1, 2, 3, 4]) (cm_relations flow_material) path)"
proof -
  have d: "distinct (map cl_id (cm_claims flow_material))" by (simp add: flow_material_def step_claim_def)
  have "connected_flow step_certificate flow_material (Digest [9]) = Ok (Some (map (\<lambda>i. (Digest [i], Digest [i])) [0, 1, 2, 3, 4]))" by code_simp
  with connected_flow_iff [OF d] d show ?thesis by blast
qed

end
