(* ===== verification/Claim_Advisory.thy ===== *)
theory Claim_Advisory
  imports Planner_Proofs Claim_Lemmas
begin

text \<open>
  The claim advisory of \<^verbatim>\<open>crates/needle-runtime/src/proof.rs\<close>: when the valid selection of the planner uses candidates that
  carry claims, \<open>plan_claim_advisory\<close> names the claims, issues a claim-set certificate for the obligations
  they cover and prices the plan; \<open>replay_claim_advisory\<close> recomputes it from the recorded fields.
\<close>

section \<open>Definitions\<close>

datatype claim_advisory_resolution = ClaimHit | ClaimCompositeHit | ClaimPartialHit

fun advisory_tag :: "claim_advisory_resolution \<Rightarrow> u8" where
  "advisory_tag ClaimHit = 0"
| "advisory_tag ClaimCompositeHit = 1"
| "advisory_tag ClaimPartialHit = 2"

fun advisory_name :: "claim_advisory_resolution \<Rightarrow> string" where
  "advisory_name ClaimHit = ''ClaimHit''"
| "advisory_name ClaimCompositeHit = ''ClaimCompositeHit''"
| "advisory_name ClaimPartialHit = ''PartialHit''"

record claim_advisory_plan =
  ad_resolution :: claim_advisory_resolution
  ad_selected :: selected_plan
  ad_certificate :: claim_set_certificate
  ad_bits :: u64

record semantic_cost_estimates =
  ce_fresh :: "u64 option"
  ce_artifact_reuse :: "u64 option"
  ce_claim_reuse :: "u64 option"
  ce_claim_partial_reuse :: "u64 option"

text \<open>\<open>members.entry(claim).and_modify(min).or_insert(certificate)\<close>.\<close>

definition merge_claim :: "digest \<times> digest \<Rightarrow> (digest \<times> digest) list \<Rightarrow> (digest \<times> digest) list" where
  "merge_claim x members =
     (case x of (claim_id, certificate) \<Rightarrow>
        btree_insert claim_id
          (case map_of members claim_id of Some current \<Rightarrow> min current certificate | None \<Rightarrow> certificate) members)"

fun claim_members ::
    "proof_candidate list \<Rightarrow> (digest \<times> digest) list \<Rightarrow> digest list \<Rightarrow> ((digest \<times> digest) list \<times> digest list, proof_error) result" where
  "claim_members [] members components = Ok (members, sort_dedup components)"
| "claim_members (c # cs) members components =
     (if length (cd_claim_ids c) \<noteq> length (cd_claim_validations c) then Err ClaimCertificate
      else claim_members cs (fold merge_claim (zip (cd_claim_ids c) (cd_claim_validations c)) members)
        (case cd_claim_set c of Some certificate \<Rightarrow> certificate # components | None \<Rightarrow> components))"

definition advisory_resolution :: "u16 \<Rightarrow> proof_candidate list \<Rightarrow> proof_candidate list \<Rightarrow> claim_advisory_resolution" where
  "advisory_resolution missing_mask selected claim_candidates =
     (if missing_mask \<noteq> 0 then ClaimPartialHit
      else if length selected - length claim_candidates = 0 \<and> length claim_candidates = 1 then ClaimHit
      else ClaimCompositeHit)"

definition claim_obligations :: "need \<Rightarrow> proof_candidate list \<Rightarrow> digest list" where
  "claim_obligations n claim_candidates =
     map ob_id (filter (\<lambda>requested. \<exists>c \<in> set claim_candidates. \<exists>provided \<in> set (cd_coverage c). satisfies provided requested) (nd_required n))"

fun advisory_cost :: "semantic_cost_estimates \<Rightarrow> claim_advisory_resolution \<Rightarrow> u64 option" where
  "advisory_cost costs ClaimPartialHit = ce_claim_partial_reuse costs"
| "advisory_cost costs ClaimHit = ce_claim_reuse costs"
| "advisory_cost costs ClaimCompositeHit = ce_claim_reuse costs"

definition advisory_plan_of ::
    "(u8 list \<Rightarrow> digest) \<Rightarrow> need \<Rightarrow> validity_selection \<Rightarrow> proof_candidate list \<Rightarrow> proof_candidate list \<Rightarrow> (digest \<times> digest) list \<Rightarrow> digest list \<Rightarrow>
     claim_set_certificate \<Rightarrow> u64 \<Rightarrow> semantic_cost_estimates \<Rightarrow> proof_budget \<Rightarrow> claim_advisory_plan" where
  "advisory_plan_of blake3 n validity selected claim_candidates members components certificate overhead costs budget =
     (let full_mask = word_of_nat (2 ^ length (nd_required n) - 1);
          missing_mask = full_mask XOR vs_covered validity;
          resolution = advisory_resolution missing_mask selected claim_candidates;
          artifacts = sort_dedup (map cd_artifact selected);
          claim_ids = map fst members;
          selected_cost = advisory_cost costs resolution in
      \<lparr>ad_resolution = resolution,
       ad_selected =
         \<lparr>sp_id = hasher_finish blake3 (field_u8 (advisory_tag resolution)
            (fold field_digest claim_ids (fold field_digest artifacts
            (field_u16 missing_mask (field_u16 (vs_covered validity) (field_digest (nd_id n) (hasher_new ''selected-claim-advisory-plan'')))))))
          , sp_need = nd_id n, sp_artifacts = artifacts, sp_claims = claim_ids, sp_claim_validations = map snd members,
          sp_claim_sets = sort_dedup (components @ [cs_id certificate]), sp_covered = vs_covered validity, sp_missing = missing_mask,
          sp_economics = \<lparr>ec_fresh = ce_fresh costs, ec_selected = selected_cost, ec_overhead = overhead,
            ec_net = expected_net (ce_fresh costs) selected_cost\<rparr>,
          sp_budget = budget, sp_reason = ''Advisory::'' @ advisory_name resolution\<rparr>,
       ad_certificate = certificate, ad_bits = vs_selected validity\<rparr>)"

definition advisory_of_validity ::
    "(u8 list \<Rightarrow> digest) \<Rightarrow> need \<Rightarrow> validity_selection \<Rightarrow> proof_candidate list \<Rightarrow> u64 \<Rightarrow> semantic_cost_estimates \<Rightarrow> proof_budget \<Rightarrow> u64 \<Rightarrow>
     (claim_advisory_plan option, proof_error) result" where
  "advisory_of_validity blake3 n validity candidates overhead costs budget created =
     (if vs_selected validity = 0 then Ok None
      else
        let selected = selected_by (vs_selected validity) candidates;
            claim_candidates = filter (\<lambda>c. cd_claim_ids c \<noteq> []) selected in
        if claim_candidates = [] then Ok None
        else rbind (claim_members claim_candidates [] []) (\<lambda>(members, components).
          rbind (ok_or ClaimCertificate
            (claim_set_certificate_new blake3 (nd_id n) members (claim_obligations n claim_candidates) (world_id blake3 (nd_world n))
              (claim_proof_engine_definition blake3) created)) (\<lambda>certificate.
          Ok (Some (advisory_plan_of blake3 n validity selected claim_candidates members components certificate overhead costs budget)))))"

definition plan_claim_advisory ::
    "(u8 list \<Rightarrow> digest) \<Rightarrow> proof_planner \<Rightarrow> need \<Rightarrow> proof_candidate list \<Rightarrow> u64 \<Rightarrow> semantic_cost_estimates \<Rightarrow> proof_budget \<Rightarrow> u64 \<Rightarrow>
     (claim_advisory_plan option, proof_error) result \<times> proof_planner" where
  "plan_claim_advisory blake3 planner n candidates overhead costs budget created =
     (case plan_validity planner n candidates budget of
        (Err e, planner) \<Rightarrow> (Err e, planner)
      | (Ok validity, planner) \<Rightarrow> (advisory_of_validity blake3 n validity candidates overhead costs budget created, planner))"

definition replay_claim_advisory ::
    "(u8 list \<Rightarrow> digest) \<Rightarrow> proof_planner \<Rightarrow> need \<Rightarrow> claim_advisory_plan \<Rightarrow> proof_candidate list \<Rightarrow> bool \<times> proof_planner" where
  "replay_claim_advisory blake3 planner n advisory candidates =
     (let economics = sp_economics (ad_selected advisory) in
      case plan_claim_advisory blake3 planner n candidates (ec_overhead economics)
          \<lparr>ce_fresh = ec_fresh economics, ce_artifact_reuse = None, ce_claim_reuse = ec_selected economics,
           ce_claim_partial_reuse = ec_selected economics\<rparr>
          (sp_budget (ad_selected advisory)) (cs_created (ad_certificate advisory)) of
        (Ok replayed, planner) \<Rightarrow> (replayed = Some advisory, planner)
      | (Err e, planner) \<Rightarrow> (False, planner))"

section \<open>Members\<close>

lemma btree_merge_claim: "btree m \<Longrightarrow> btree (merge_claim x m)"
  by (cases x) (simp add: merge_claim_def btree_btree_insert)

lemma btree_fold_merge: "btree m \<Longrightarrow> btree (fold merge_claim xs m)"
  by (induction xs arbitrary: m) (simp_all add: btree_merge_claim)

lemma keys_merge_claim [simp]: "fst ` set (merge_claim x m) = insert (fst x) (fst ` set m)"
  by (cases x) (simp add: merge_claim_def)

lemma keys_fold_merge: "fst ` set (fold merge_claim xs m) = fst ` set xs \<union> fst ` set m"
  by (induction xs arbitrary: m) auto

lemma map_of_fold_merge:
  "map_of (fold merge_claim xs m) k = Some v \<Longrightarrow> (k, v) \<in> set xs \<or> map_of m k = Some v"
  by (induction xs arbitrary: m) (fastforce simp: merge_claim_def min_def split: prod.splits option.splits if_splits)+

lemma claim_members_btree:
  assumes "claim_members cs members components = Ok (ms, ks)" and "btree members"
  shows "btree ms" "fst ` set ms = fst ` set members \<union> (\<Union>c \<in> set cs. set (cd_claim_ids c))"
proof -
  have "btree ms \<and> fst ` set ms = fst ` set members \<union> (\<Union>c \<in> set cs. set (cd_claim_ids c))"
    using assms
  proof (induction cs members components rule: claim_members.induct)
    case (2 c cs members components)
    let ?z = "zip (cd_claim_ids c) (cd_claim_validations c)"
    from 2(2) have len: "length (cd_claim_ids c) = length (cd_claim_validations c)" by (simp split: if_splits)
    have "btree ms \<and> fst ` set ms = fst ` set (fold merge_claim ?z members) \<union> (\<Union>c \<in> set cs. set (cd_claim_ids c))"
      using 2 len by (simp add: btree_fold_merge)
    moreover have "fst ` set ?z = set (cd_claim_ids c)" using len by (metis list.set_map map_fst_zip)
    ultimately show ?case by (auto simp: keys_fold_merge)
  qed simp
  then show "btree ms" "fst ` set ms = fst ` set members \<union> (\<Union>c \<in> set cs. set (cd_claim_ids c))" by blast+
qed

definition certified_by :: "proof_candidate list \<Rightarrow> digest \<times> digest \<Rightarrow> bool" where
  "certified_by cs x \<longleftrightarrow> (\<exists>c \<in> set cs. x \<in> set (zip (cd_claim_ids c) (cd_claim_validations c)))"

lemma btree_map_of_iff: "btree m \<Longrightarrow> map_of m k = Some v \<longleftrightarrow> (k, v) \<in> set m"
  by (simp add: map_of_eq_Some_iff strict_sorted_iff)

lemma claim_members_certified:
  assumes "claim_members cs members components = Ok (ms, ks)" and "btree members" and "x \<in> set ms"
  shows "certified_by cs x \<or> x \<in> set members"
  using assms
proof (induction cs members components rule: claim_members.induct)
  case (2 c cs members components)
  let ?m = "fold merge_claim (zip (cd_claim_ids c) (cd_claim_validations c)) members"
  have "btree ?m" by (rule btree_fold_merge [OF 2(3)])
  with 2 have "certified_by cs x \<or> x \<in> set ?m" by (auto split: if_splits option.splits)
  then show ?case
  proof
    assume "x \<in> set ?m"
    with \<open>btree ?m\<close> have "map_of ?m (fst x) = Some (snd x)" by (simp add: btree_map_of_iff)
    from map_of_fold_merge [OF this] show ?thesis using 2(3) by (auto simp: certified_by_def btree_map_of_iff)
  qed (auto simp: certified_by_def)
qed simp

section \<open>What an advisory shows\<close>

lemma plan_claim_advisory_Some:
  assumes "plan_claim_advisory blake3 p n cs overhead costs budget created = (Ok (Some a), p')"
  obtains v members components where "plan_validity p n cs budget = (Ok v, p')"
    "claim_members (filter (\<lambda>c. cd_claim_ids c \<noteq> []) (selected_by (vs_selected v) cs)) [] [] = Ok (members, components)"
    "claim_set_certificate_new blake3 (nd_id n) members
       (claim_obligations n (filter (\<lambda>c. cd_claim_ids c \<noteq> []) (selected_by (vs_selected v) cs)))
       (world_id blake3 (nd_world n)) (claim_proof_engine_definition blake3) created = Some (ad_certificate a)"
    "a = advisory_plan_of blake3 n v (selected_by (vs_selected v) cs) (filter (\<lambda>c. cd_claim_ids c \<noteq> []) (selected_by (vs_selected v) cs))
       members components (ad_certificate a) overhead costs budget"
    "advisory_of_validity blake3 n v cs overhead costs budget created = Ok (Some a)"
proof -
  from assms obtain v where v: "plan_validity p n cs budget = (Ok v, p')"
    and adv: "advisory_of_validity blake3 n v cs overhead costs budget created = Ok (Some a)"
    by (auto simp: plan_claim_advisory_def split: prod.splits result.splits)
  from adv obtain members components cert where
    m: "claim_members (filter (\<lambda>c. cd_claim_ids c \<noteq> []) (selected_by (vs_selected v) cs)) [] [] = Ok (members, components)" and
    c: "claim_set_certificate_new blake3 (nd_id n) members
       (claim_obligations n (filter (\<lambda>c. cd_claim_ids c \<noteq> []) (selected_by (vs_selected v) cs)))
       (world_id blake3 (nd_world n)) (claim_proof_engine_definition blake3) created = Some cert" and
    a: "a = advisory_plan_of blake3 n v (selected_by (vs_selected v) cs) (filter (\<lambda>c. cd_claim_ids c \<noteq> []) (selected_by (vs_selected v) cs))
       members components cert overhead costs budget"
    by (auto simp: advisory_of_validity_def Let_def split: if_splits prod.splits)
  from a have cert: "cert = ad_certificate a" by (simp add: advisory_plan_of_def Let_def)
  show thesis by (rule that [OF v m c [unfolded cert] a [unfolded cert] adv])
qed

lemma advisory_plan_fields:
  assumes "a = advisory_plan_of blake3 n v S C members components cert overhead costs budget"
  defines "r \<equiv> advisory_resolution (word_of_nat (2 ^ length (nd_required n) - 1) XOR vs_covered v) S C"
  shows "ad_bits a = vs_selected v" "sp_covered (ad_selected a) = vs_covered v" "cs_id cert \<in> set (sp_claim_sets (ad_selected a))"
    "ad_resolution a = r" "ec_overhead (sp_economics (ad_selected a)) = overhead" "ec_fresh (sp_economics (ad_selected a)) = ce_fresh costs"
    "ec_selected (sp_economics (ad_selected a)) = advisory_cost costs r" "sp_budget (ad_selected a) = budget"
  using assms by (simp_all add: advisory_plan_of_def Let_def)

lemma xor_nonzero_iff: "x XOR y \<noteq> 0 \<longleftrightarrow> (\<exists>b. bit x b \<noteq> bit y b)" for x y :: u16
proof
  assume "x XOR y \<noteq> 0"
  then obtain b where "bit (x XOR y) b" by (metis bit_eqI bit_0_eq bot_apply bot_bool_def)
  then show "\<exists>b. bit x b \<noteq> bit y b" by (auto simp: bit_xor_iff)
next
  assume "\<exists>b. bit x b \<noteq> bit y b"
  then obtain b where "bit (x XOR y) b" by (auto simp: bit_xor_iff)
  then show "x XOR y \<noteq> 0" by auto
qed

lemma missing_mask_iff:
  assumes "plan_validity p n cs budget = (Ok v, p')"
  shows "word_of_nat (2 ^ length (nd_required n) - 1) XOR vs_covered v \<noteq> 0 \<longleftrightarrow>
    (\<exists>ob \<in> set (nd_required n). \<forall>c \<in> set (selected_by (vs_selected v) cs). \<not> covers c ob)"
proof -
  from plan_validity_Ok [OF assms] have "validity_bounds n cs budget = Ok ()" by blast
  note full = full_mask_bit [OF validity_bounds_Ok(2) [OF this]]
  from plan_validity_sound_raw [OF assms] have "bit (vs_covered v) b \<longleftrightarrow>
      b < length (nd_required n) \<and> (\<exists>c \<in> set (selected_by (vs_selected v) cs). covers c (nd_required n ! b))" for b by blast
  then show ?thesis unfolding xor_nonzero_iff full by (metis in_set_conv_nth)
qed

lemma certified_by_filter: "certified_by (filter P cs) x \<Longrightarrow> certified_by cs x"
  by (auto simp: certified_by_def)

text \<open>
  C25. A claim advisory reports its evidence exactly. The selection stays within the artifact budget, the
  covered mask has the bits of the obligations that a selected candidate covers, and the resolution is
  partial exactly when some required obligation is left uncovered. The claim-set certificate is canonical
  and bound to the need, its world and the claim proof engine; it lists the obligations covered by
  claim-carrying candidates and all claims of the selection, each with a certificate that a selected
  candidate supplies for it, and the plan records the certificate.
\<close>

theorem claim_advisory_sound:
  assumes "plan_claim_advisory blake3 p n cs overhead costs budget created = (Ok (Some a), p')"
  shows "length (selected_by (ad_bits a) cs) \<le> unat (pb_max_artifacts budget) \<and>
    (\<forall>b. bit (sp_covered (ad_selected a)) b \<longleftrightarrow>
       b < length (nd_required n) \<and> (\<exists>c \<in> set (selected_by (ad_bits a) cs). covers c (nd_required n ! b))) \<and>
    (ad_resolution a = ClaimPartialHit \<longleftrightarrow>
       (\<exists>ob \<in> set (nd_required n). \<forall>c \<in> set (selected_by (ad_bits a) cs). \<not> covers c ob)) \<and>
    claim_set_certificate_is_canonical blake3 (ad_certificate a) \<and> cs_need (ad_certificate a) = nd_id n \<and>
    cs_world (ad_certificate a) = world_id blake3 (nd_world n) \<and> cs_engine (ad_certificate a) = claim_proof_engine_definition blake3 \<and>
    set (cs_obligations (ad_certificate a)) =
      {ob_id ob | ob. ob \<in> set (nd_required n) \<and> (\<exists>c \<in> set (selected_by (ad_bits a) cs). cd_claim_ids c \<noteq> [] \<and> covers c ob)} \<and>
    set (cs_claims (ad_certificate a)) = (\<Union>c \<in> set (selected_by (ad_bits a) cs). set (cd_claim_ids c)) \<and>
    list_all (certified_by (selected_by (ad_bits a) cs)) (zip (cs_claims (ad_certificate a)) (cs_validations (ad_certificate a))) \<and>
    cs_id (ad_certificate a) \<in> set (sp_claim_sets (ad_selected a))"
  using assms
proof (rule plan_claim_advisory_Some)
  fix v :: validity_selection and members components
  let ?S = "selected_by (vs_selected v) cs"
  let ?C = "filter (\<lambda>c. cd_claim_ids c \<noteq> []) ?S"
  assume v: "plan_validity p n cs budget = (Ok v, p')"
    and mem: "claim_members ?C [] [] = Ok (members, components)"
    and new: "claim_set_certificate_new blake3 (nd_id n) members (claim_obligations n ?C)
       (world_id blake3 (nd_world n)) (claim_proof_engine_definition blake3) created = Some (ad_certificate a)"
    and a: "a = advisory_plan_of blake3 n v ?S ?C members components (ad_certificate a) overhead costs budget"
  note f = claim_set_new_fields [OF new] and bt = claim_members_btree [OF mem]
  note bits = advisory_plan_fields [OF a]
  have res: "ad_resolution a = ClaimPartialHit \<longleftrightarrow> (\<exists>ob \<in> set (nd_required n). \<forall>c \<in> set ?S. \<not> covers c ob)"
    unfolding bits(4) advisory_resolution_def missing_mask_iff [OF v] by simp
  have obs: "set (cs_obligations (ad_certificate a)) =
      {ob_id ob | ob. ob \<in> set (nd_required n) \<and> (\<exists>c \<in> set ?S. cd_claim_ids c \<noteq> [] \<and> covers c ob)}"
    by (auto simp: f(6) claim_obligations_def covers_def)
  have claims: "set (cs_claims (ad_certificate a)) = (\<Union>c \<in> set ?S. set (cd_claim_ids c))"
    using bt(2) by (auto simp: f(4) image_iff)
  have "certified_by ?S x" if "x \<in> set members" for x
    using claim_members_certified [OF mem _ that] by (auto dest: certified_by_filter)
  then have cert: "list_all (certified_by ?S) (zip (cs_claims (ad_certificate a)) (cs_validations (ad_certificate a)))"
    by (simp add: f(4,5) zip_map_fst_snd list_all_iff)
  from plan_validity_sound_raw [OF v] res obs claims cert claim_set_certificate_new_canonical [OF new] f(1-3) bits(3)
  show ?thesis unfolding bits(1,2) by simp
qed

lemma replay_costs:
  assumes "r = advisory_resolution (word_of_nat (2 ^ length (nd_required n) - 1) XOR vs_covered v) S C"
  shows "advisory_plan_of blake3 n v S C members components cert overhead
     \<lparr>ce_fresh = ce_fresh costs, ce_artifact_reuse = None, ce_claim_reuse = advisory_cost costs r,
      ce_claim_partial_reuse = advisory_cost costs r\<rparr> budget =
   advisory_plan_of blake3 n v S C members components cert overhead costs budget"
  unfolding advisory_plan_of_def Let_def assms [symmetric] by (cases r) simp_all

text \<open>
  Advisories replay: a claim advisory that any planner issued is reproduced, field by field, by
  \<open>replay_claim_advisory\<close> on every planner whose lock is not poisoned, whatever its scratch tables hold and
  whatever cost estimates the advisory was priced with.
\<close>

theorem claim_advisory_replays:
  assumes "plan_claim_advisory blake3 p n cs overhead costs budget created = (Ok (Some a), p')" and "\<not> pp_poisoned q"
  shows "fst (replay_claim_advisory blake3 q n a cs)"
  using assms(1)
proof (rule plan_claim_advisory_Some)
  fix v :: validity_selection and members components
  let ?S = "selected_by (vs_selected v) cs"
  let ?C = "filter (\<lambda>c. cd_claim_ids c \<noteq> []) ?S"
  define r where "r = advisory_resolution (word_of_nat (2 ^ length (nd_required n) - 1) XOR vs_covered v) ?S ?C"
  assume v: "plan_validity p n cs budget = (Ok v, p')"
    and mem: "claim_members ?C [] [] = Ok (members, components)"
    and new: "claim_set_certificate_new blake3 (nd_id n) members (claim_obligations n ?C)
       (world_id blake3 (nd_world n)) (claim_proof_engine_definition blake3) created = Some (ad_certificate a)"
    and a: "a = advisory_plan_of blake3 n v ?S ?C members components (ad_certificate a) overhead costs budget"
    and adv: "advisory_of_validity blake3 n v cs overhead costs budget created = Ok (Some a)"
  from plan_validity_Ok [OF v] have vb: "validity_bounds n cs budget = Ok ()" "\<not> pp_poisoned p" by blast+
  from plan_validity_table [OF vb] plan_validity_table [OF vb(1) assms(2)] v
  obtain q' where q: "plan_validity q n cs budget = (Ok v, q')" by (metis fst_conv prod.collapse)
  note fields = advisory_plan_fields(5-8) [OF a, folded r_def] and created = claim_set_new_fields(7) [OF new]
  have "advisory_of_validity blake3 n v cs overhead \<lparr>ce_fresh = ce_fresh costs, ce_artifact_reuse = None,
      ce_claim_reuse = advisory_cost costs r, ce_claim_partial_reuse = advisory_cost costs r\<rparr> budget created = Ok (Some a)"
    using adv mem new by (simp add: advisory_of_validity_def Let_def replay_costs [OF r_def] split: if_splits)
  then show ?thesis
    unfolding replay_claim_advisory_def Let_def plan_claim_advisory_def fields created q by simp
qed

section \<open>A concrete advisory\<close>

definition claim_candidate :: proof_candidate where
  "claim_candidate = single_candidate\<lparr>cd_claim_ids := [Digest [4]], cd_claim_validations := [Digest [5]]\<rparr>"

abbreviation sample_costs :: semantic_cost_estimates where
  "sample_costs \<equiv> \<lparr>ce_fresh = Some 90, ce_artifact_reuse = None, ce_claim_reuse = Some 10, ce_claim_partial_reuse = None\<rparr>"

lemma sample_advisory:
  obtains a p' where "plan_claim_advisory constant_hash (planner_new constant_hash) single_need [claim_candidate] 3 sample_costs
      default_proof_budget 77 = (Ok (Some a), p')"
    "ad_bits a = 1" "ad_resolution a = ClaimHit"
proof -
  have nr: "\<not> mandatory_residual single_need" "length (nd_required single_need) = 1"
    "nd_required single_need = [sample_obligation RuntimeFlow]"
    by (simp_all add: mandatory_residual_def single_need_def sample_need_def)
  have cc: "cd_claim_ids claim_candidate = [Digest [4]]" "cd_claim_validations claim_candidate = [Digest [5]]"
    "cd_claim_set claim_candidate = None" "cd_coverage claim_candidate = [sample_obligation RuntimeFlow]"
    by (simp_all add: claim_candidate_def single_candidate_def sample_candidate_def)
  have "validity_bounds single_need [single_candidate] default_proof_budget = Ok ()"
    by (simp add: validity_bounds_def single_need_def default_proof_budget_def semantic_bounds)
  from plan_validity_table [OF this, of "planner_new constant_hash"]
  have "fst (plan_validity (planner_new constant_hash) single_need [single_candidate] default_proof_budget) =
      Ok \<lparr>vs_covered = 1, vs_selected = 1, vs_count = 1\<rparr>"
    using single_stage(1) by (simp add: default_proof_budget_def table_selection_def nr planner_new_def)
  moreover have "fst (plan_validity (planner_new constant_hash) single_need [claim_candidate] default_proof_budget) =
      fst (plan_validity (planner_new constant_hash) single_need [single_candidate] default_proof_budget)"
    by (rule plan_validity_price_independent) (simp_all add: claim_candidate_def)
  ultimately obtain p' where pv: "plan_validity (planner_new constant_hash) single_need [claim_candidate] default_proof_budget =
      (Ok \<lparr>vs_covered = 1, vs_selected = 1, vs_count = 1\<rparr>, p')" by (metis prod.collapse)
  have sel: "selected_by 1 [claim_candidate] = [claim_candidate]" by (simp add: selected_by_def)
  have obs: "claim_obligations single_need [claim_candidate] = [ob_id (sample_obligation RuntimeFlow)]"
    by (simp add: claim_obligations_def nr cc satisfies_def) (simp add: sample_obligation_def)
  have mem: "claim_members [claim_candidate] [] [] = Ok ([(Digest [4], Digest [5])], [])"
    by (simp add: cc merge_claim_def sort_dedup_def)
  obtain cert where cert: "claim_set_certificate_new constant_hash (nd_id single_need) [(Digest [4], Digest [5])]
      [ob_id (sample_obligation RuntimeFlow)] (world_id constant_hash (nd_world single_need))
      (claim_proof_engine_definition constant_hash) 77 = Some cert"
    by (simp add: claim_set_certificate_new_def MAX_SELECTED_CLAIMS_def Let_def)
  define v :: validity_selection where "v = \<lparr>vs_covered = 1, vs_selected = 1, vs_count = 1\<rparr>"
  define a where "a = advisory_plan_of constant_hash single_need v [claim_candidate] [claim_candidate]
      [(Digest [4], Digest [5])] [] cert 3 sample_costs default_proof_budget"
  have "plan_claim_advisory constant_hash (planner_new constant_hash) single_need [claim_candidate] 3 sample_costs
      default_proof_budget 77 = (Ok (Some a), p')"
    by (simp add: plan_claim_advisory_def pv advisory_of_validity_def sel mem obs cert cc(1) a_def v_def Let_def del: claim_members.simps)
  moreover have "ad_bits a = 1" "ad_resolution a = ClaimHit"
    by (simp_all add: a_def v_def advisory_plan_of_def advisory_resolution_def nr Let_def)
  ultimately show thesis by (rule that)
qed

theorem claim_advisory_sound_witness:
  "\<exists>a p'. plan_claim_advisory constant_hash (planner_new constant_hash) single_need [claim_candidate] 3 sample_costs
      default_proof_budget 77 = (Ok (Some a), p') \<and>
    set (cs_claims (ad_certificate a)) = {Digest [4]} \<and> claim_set_certificate_is_canonical constant_hash (ad_certificate a)"
proof -
  obtain a p' where a: "plan_claim_advisory constant_hash (planner_new constant_hash) single_need [claim_candidate] 3 sample_costs
      default_proof_budget 77 = (Ok (Some a), p')" and bits: "ad_bits a = 1" by (rule sample_advisory)
  note sound = claim_advisory_sound [OF a]
  have "set (cs_claims (ad_certificate a)) = (\<Union>c \<in> set (selected_by (ad_bits a) [claim_candidate]). set (cd_claim_ids c))"
    using sound by (elim conjE)
  then have "set (cs_claims (ad_certificate a)) = {Digest [4]}" by (simp add: bits selected_by_def claim_candidate_def)
  moreover have "claim_set_certificate_is_canonical constant_hash (ad_certificate a)" using sound by (elim conjE)
  ultimately show ?thesis using a by blast
qed

theorem claim_advisory_replays_witness:
  "\<exists>a p'. plan_claim_advisory constant_hash (planner_new constant_hash) single_need [claim_candidate] 3 sample_costs
      default_proof_budget 77 = (Ok (Some a), p') \<and> fst (replay_claim_advisory constant_hash p' single_need a [claim_candidate])"
proof -
  obtain a p' where a: "plan_claim_advisory constant_hash (planner_new constant_hash) single_need [claim_candidate] 3 sample_costs
      default_proof_budget 77 = (Ok (Some a), p')" by (rule sample_advisory)
  from plan_claim_advisory_Some [OF a] have "\<not> pp_poisoned p'" by (metis plan_validity_Ok)
  from claim_advisory_replays [OF a this] a show ?thesis by blast
qed

end
