(* ===== verification/Multi_Need.thy ===== *)
theory Multi_Need
  imports Need_Compiler Role_Profile
begin

text \<open>
  \<^verbatim>\<open>crates/needle-core/src/multi_need.rs\<close>: the limits of a task with several needs, the record of its steps, and
  how a later need relates to an earlier one. The relation compares obligations by the facets they have in
  common; the theorem reads this as the existence of an answer that satisfies both.
\<close>

section \<open>Definitions\<close>

definition DEFAULT_MAX_NEEDS_PER_TASK :: u8 where "DEFAULT_MAX_NEEDS_PER_TASK = 3"
definition DEFAULT_MAX_WORKERS_PER_TASK :: u8 where "DEFAULT_MAX_WORKERS_PER_TASK = 3"
definition HARD_MAX_WORKERS_PER_TASK :: u8 where "HARD_MAX_WORKERS_PER_TASK = 8"

datatype need_coordination = WaitResponse | ContinueWorking

definition need_coordination_parse :: "string \<Rightarrow> need_coordination option" where
  "need_coordination_parse value =
     (if value = ''wait-response'' then Some WaitResponse
      else if value = ''continue-working'' then Some ContinueWorking else None)"

fun need_coordination_str :: "need_coordination \<Rightarrow> string" where
  "need_coordination_str WaitResponse = ''wait-response''"
| "need_coordination_str ContinueWorking = ''continue-working''"

datatype pending_main_tools = AllowAndTaint

record multi_need_policy =
  mp_multi_need :: bool
  mp_continue_working :: bool
  mp_max_needs :: u8
  mp_max_workers :: u8
  mp_pending_tools :: pending_main_tools
  mp_concurrency :: u8

definition multi_need_policy_default :: multi_need_policy where
  "multi_need_policy_default =
     \<lparr>mp_multi_need = True, mp_continue_working = True, mp_max_needs = DEFAULT_MAX_NEEDS_PER_TASK,
      mp_max_workers = DEFAULT_MAX_WORKERS_PER_TASK, mp_pending_tools = AllowAndTaint, mp_concurrency = 1\<rparr>"

definition multi_need_policy_validate :: "multi_need_policy \<Rightarrow> bool" where
  "multi_need_policy_validate p \<longleftrightarrow>
     mp_max_needs p > 0 \<and> mp_max_needs p \<le> HARD_MAX_NEEDS_PER_TASK \<and>
     mp_max_workers p > 0 \<and> mp_max_workers p \<le> HARD_MAX_WORKERS_PER_TASK \<and> mp_concurrency p = 1"

text \<open>\<open>serde_json\<close> is a parameter.\<close>

definition multi_need_policy_digest :: "(u8 list \<Rightarrow> digest) \<Rightarrow> (multi_need_policy \<Rightarrow> u8 list) \<Rightarrow> multi_need_policy \<Rightarrow> digest" where
  "multi_need_policy_digest blake3 to_json p = blake3 (to_json p)"

datatype need_step_relation =
    StepRepeat | StepResidual | StepExtension | StepOverlap | StepIndependent | StepIncompatible

datatype need_step_state =
    StepRequested | StepQueued | StepResolving | StepResolved | StepDelivered | StepNativeFallback | StepFailed | StepCancelled

datatype need_delivery = TurnStart | TurnSteer | AlreadySatisfied | DeliveryNativeFallback

record need_step =
  ns_id :: digest
  ns_ordinal :: u8
  ns_turn :: string
  ns_need :: digest
  ns_coordination :: need_coordination
  ns_relation :: need_step_relation
  ns_state :: need_step_state
  ns_required :: "digest list"
  ns_satisfied :: "digest list"
  ns_missing :: "digest list"
  ns_artifacts :: "digest list"
  ns_proof :: "digest option"
  ns_delivery :: "need_delivery option"
  ns_worker_avoided :: bool
  ns_tainted :: bool

datatype main_turn_outcome = TurnNeed need_step | TurnFinal string | TurnCancelled

record need_sequence =
  nq_session :: string
  nq_steps :: "need_step list"

definition next_ordinal :: "need_sequence \<Rightarrow> u8 option" where
  "next_ordinal s = (if length (nq_steps s) \<le> 255 then checked_add (word_of_nat (length (nq_steps s))) 1 else None)"

definition polarity :: "obligation \<Rightarrow> string option" where
  "polarity ob = map_option fc_value (List.find (\<lambda>f. fc_key f = ''polarity'') (ob_facets ob))"

definition obligations_contradict :: "obligation \<Rightarrow> obligation \<Rightarrow> bool" where
  "obligations_contradict left right =
     (if ob_predicate left \<noteq> ob_predicate right \<or> ob_subject left \<noteq> ob_subject right then False
      else case (polarity left, polarity right) of (Some l, Some r) \<Rightarrow> l \<noteq> r | _ \<Rightarrow> False)"

definition facets_agree :: "facet list \<Rightarrow> facet list \<Rightarrow> bool" where
  "facets_agree left right \<longleftrightarrow>
     (\<forall>f \<in> set left. case List.find (\<lambda>g. fc_key g = fc_key f) right of None \<Rightarrow> True | Some g \<Rightarrow> fc_value g = fc_value f)"

definition obligations_compatible :: "obligation \<Rightarrow> obligation \<Rightarrow> bool" where
  "obligations_compatible left right \<longleftrightarrow>
     ob_predicate left = ob_predicate right \<and> ob_subject left = ob_subject right \<and>
     facets_agree (ob_facets left) (ob_facets right) \<and> facets_agree (ob_facets right) (ob_facets left)"

definition classify_need_step :: "need \<Rightarrow> need \<Rightarrow> digest list \<Rightarrow> need_step_relation" where
  "classify_need_step previous current previously_satisfied =
     (if nd_id previous = nd_id current then StepRepeat
      else if nd_world previous \<noteq> nd_world current then StepIncompatible
      else if sort_dedup (map sj_id (nd_subjects previous)) \<noteq> sort_dedup (map sj_id (nd_subjects current)) then StepIndependent
      else if \<exists>l \<in> set (nd_required previous). \<exists>r \<in> set (nd_required current). obligations_contradict l r then StepIncompatible
      else
        let covered = (\<forall>c \<in> set (nd_required current). \<exists>p \<in> set (nd_required previous). obligations_compatible p c);
            unsatisfied = (\<exists>c \<in> set (nd_required current). \<not> (\<exists>p \<in> set (nd_required previous).
              ob_id p \<in> set previously_satisfied \<and> obligations_compatible p c)) in
        if covered \<and> unsatisfied then StepResidual
        else if \<forall>p \<in> set (nd_required previous). \<exists>c \<in> set (nd_required current). obligations_compatible p c then StepExtension
        else if \<exists>p \<in> set (nd_required previous). \<exists>c \<in> set (nd_required current). obligations_compatible p c then StepOverlap
        else StepIndependent)"

section \<open>Joint answers\<close>

text \<open>One obligation, with one value per facet key, that satisfies both.\<close>

definition jointly_satisfiable :: "obligation \<Rightarrow> obligation \<Rightarrow> bool" where
  "jointly_satisfiable a b \<longleftrightarrow>
     (\<exists>ob. distinct (map fc_key (ob_facets ob)) \<and> satisfies ob a \<and> satisfies ob b)"

definition functional_facets :: "obligation \<Rightarrow> bool" where
  "functional_facets ob \<longleftrightarrow> distinct (map fc_key (ob_facets ob))"

lemma find_key:
  assumes "distinct (map fc_key fs)"
  shows "List.find (\<lambda>g. fc_key g = k) fs = Some g \<longleftrightarrow> g \<in> set fs \<and> fc_key g = k"
  using assms by (induction fs) (auto simp: image_iff)

lemma facet_value_unique:
  assumes "distinct (map fc_key fs)" "(f :: facet) \<in> set fs" "g \<in> set fs" "fc_key f = fc_key g"
  shows "f = g"
  using assms by (auto simp: distinct_map dest: inj_onD)

lemma facets_agree_iff:
  assumes "distinct (map fc_key fs')"
  shows "facets_agree fs fs' \<longleftrightarrow> (\<forall>f \<in> set fs. \<forall>g \<in> set fs'. fc_key g = fc_key f \<longrightarrow> fc_value g = fc_value f)"
proof -
  have "(case List.find (\<lambda>g. fc_key g = fc_key f) fs' of None \<Rightarrow> True | Some g \<Rightarrow> fc_value g = fc_value f) \<longleftrightarrow>
      (\<forall>g \<in> set fs'. fc_key g = fc_key f \<longrightarrow> fc_value g = fc_value f)" for f :: facet
  proof (cases "List.find (\<lambda>g. fc_key g = fc_key f) fs'")
    case None
    then have "\<forall>g \<in> set fs'. fc_key g \<noteq> fc_key f" by (simp add: find_None_iff)
    with None show ?thesis by simp
  next
    case (Some g)
    then have g: "g \<in> set fs'" "fc_key g = fc_key f" using find_key [OF assms] by blast+
    have "h = g" if "h \<in> set fs'" "fc_key h = fc_key f" for h using facet_value_unique [OF assms that(1) g(1)] that g by simp
    with g have "fc_value g = fc_value f \<longleftrightarrow> (\<forall>h \<in> set fs'. fc_key h = fc_key f \<longrightarrow> fc_value h = fc_value f)" by blast
    with Some show ?thesis by simp
  qed
  then show ?thesis by (simp add: facets_agree_def)
qed

lemma compatible_iff_joint:
  assumes "functional_facets a" "functional_facets b"
  shows "obligations_compatible a b \<longleftrightarrow> jointly_satisfiable a b"
proof
  assume c: "obligations_compatible a b"
  let ?extra = "filter (\<lambda>f. fc_key f \<notin> fc_key ` set (ob_facets a)) (ob_facets b)"
  let ?ob = "a\<lparr>ob_facets := ob_facets a @ ?extra\<rparr>"
  have "distinct (map fc_key (ob_facets ?ob))"
    using assms by (auto simp: functional_facets_def distinct_map intro: inj_on_subset) (metis image_eqI)
  moreover have "satisfies ?ob a" by (auto simp: satisfies_def)
  moreover have "satisfies ?ob b"
  proof -
    have agree: "fc_value g = fc_value f" if "f \<in> set (ob_facets a)" "g \<in> set (ob_facets b)" "fc_key g = fc_key f" for f g
      using that c assms facets_agree_iff [of "ob_facets b" "ob_facets a"]
      unfolding obligations_compatible_def functional_facets_def by blast
    have "\<exists>f \<in> set (ob_facets ?ob). fc_key f = fc_key g \<and> fc_value f = fc_value g" if "g \<in> set (ob_facets b)" for g
    proof (cases "fc_key g \<in> fc_key ` set (ob_facets a)")
      case True
      then obtain f where "f \<in> set (ob_facets a)" "fc_key f = fc_key g" by (metis imageE)
      with agree [OF _ that] show ?thesis by force
    next
      case False
      with that show ?thesis by auto
    qed
    with c show ?thesis by (simp add: satisfies_def obligations_compatible_def)
  qed
  ultimately show "jointly_satisfiable a b" unfolding jointly_satisfiable_def by blast
next
  assume "jointly_satisfiable a b"
  then obtain ob where ob: "distinct (map fc_key (ob_facets ob))" "satisfies ob a" "satisfies ob b"
    unfolding jointly_satisfiable_def by blast
  have "fc_value g = fc_value f" if "f \<in> set (ob_facets a)" "g \<in> set (ob_facets b)" "fc_key g = fc_key f" for f g
    using that ob facet_value_unique [OF ob(1)] unfolding satisfies_def by metis
  with ob assms show "obligations_compatible a b"
    by (auto simp: obligations_compatible_def satisfies_def facets_agree_iff functional_facets_def)
qed

lemma contradict_not_joint:
  assumes "functional_facets a" "functional_facets b" "obligations_contradict a b"
  shows "\<not> jointly_satisfiable a b"
proof -
  from assms(3) obtain f g where "List.find (\<lambda>f. fc_key f = ''polarity'') (ob_facets a) = Some f"
    "List.find (\<lambda>f. fc_key f = ''polarity'') (ob_facets b) = Some g" "fc_value f \<noteq> fc_value g"
    by (auto simp: obligations_contradict_def polarity_def split: if_splits option.splits)
  with assms have "\<not> obligations_compatible a b"
    by (auto simp: find_key functional_facets_def obligations_compatible_def facets_agree_iff)
  with compatible_iff_joint [OF assms(1,2)] show ?thesis by simp
qed

lemma jointly_satisfiable_sym: "jointly_satisfiable a b = jointly_satisfiable b a"
  unfolding jointly_satisfiable_def by blast

text \<open>
  C34. How a step relates to an earlier one, for needs whose obligations have one value per facet key. A repeat
  is the same identity. For different needs of one world and the same subjects without contradicting
  polarity: a residual step asks only for answers that can be shared with the earlier need, one of which is
  still open; an extension shares an answer for every earlier obligation; an overlap shares at least one; and
  an independent step shares none.
\<close>

theorem need_step_relation_sound:
  assumes "list_all functional_facets (nd_required previous)" "list_all functional_facets (nd_required current)"
    and "classify_need_step previous current satisfied = r"
  shows "(r = StepRepeat \<longleftrightarrow> nd_id previous = nd_id current) \<and>
    (r = StepResidual \<longrightarrow>
      (\<forall>c \<in> set (nd_required current). \<exists>p \<in> set (nd_required previous). jointly_satisfiable p c) \<and>
      (\<exists>c \<in> set (nd_required current). \<forall>p \<in> set (nd_required previous). ob_id p \<in> set satisfied \<longrightarrow> \<not> jointly_satisfiable p c)) \<and>
    (r = StepExtension \<longrightarrow> (\<forall>p \<in> set (nd_required previous). \<exists>c \<in> set (nd_required current). jointly_satisfiable p c)) \<and>
    (r = StepOverlap \<longrightarrow> (\<exists>p \<in> set (nd_required previous). \<exists>c \<in> set (nd_required current). jointly_satisfiable p c)) \<and>
    (r \<in> {StepResidual, StepExtension, StepOverlap} \<longrightarrow>
      nd_world previous = nd_world current \<and> sj_id ` set (nd_subjects previous) = sj_id ` set (nd_subjects current)) \<and>
    (r = StepIndependent \<and> sj_id ` set (nd_subjects previous) = sj_id ` set (nd_subjects current) \<longrightarrow>
      (\<forall>p \<in> set (nd_required previous). \<forall>c \<in> set (nd_required current). \<not> jointly_satisfiable p c)) \<and>
    (r = StepIncompatible \<and> nd_world previous = nd_world current \<longrightarrow>
      (\<exists>p \<in> set (nd_required previous). \<exists>c \<in> set (nd_required current). \<not> jointly_satisfiable p c))"
proof -
  have joint: "obligations_compatible p c \<longleftrightarrow> jointly_satisfiable p c"
    if "p \<in> set (nd_required previous)" "c \<in> set (nd_required current)" for p c
    using that assms(1,2) by (simp add: list_all_iff compatible_iff_joint)
  have contra: "\<not> jointly_satisfiable p c"
    if "p \<in> set (nd_required previous)" "c \<in> set (nd_required current)" "obligations_contradict p c" for p c
    using that assms(1,2) by (simp add: list_all_iff contradict_not_joint)
  have subj: "sort_dedup (map sj_id (nd_subjects previous)) = sort_dedup (map sj_id (nd_subjects current)) \<longleftrightarrow>
      sj_id ` set (nd_subjects previous) = sj_id ` set (nd_subjects current)"
    by (simp add: sort_dedup_eq_iff)
  have c: "(\<forall>c \<in> set (nd_required current). \<exists>p \<in> set (nd_required previous). obligations_compatible p c) \<longleftrightarrow>
      (\<forall>c \<in> set (nd_required current). \<exists>p \<in> set (nd_required previous). jointly_satisfiable p c)"
    "(\<exists>c \<in> set (nd_required current). \<not> (\<exists>p \<in> set (nd_required previous). ob_id p \<in> set satisfied \<and> obligations_compatible p c)) \<longleftrightarrow>
      (\<exists>c \<in> set (nd_required current). \<forall>p \<in> set (nd_required previous). ob_id p \<in> set satisfied \<longrightarrow> \<not> jointly_satisfiable p c)"
    "(\<forall>p \<in> set (nd_required previous). \<exists>c \<in> set (nd_required current). obligations_compatible p c) \<longleftrightarrow>
      (\<forall>p \<in> set (nd_required previous). \<exists>c \<in> set (nd_required current). jointly_satisfiable p c)"
    "(\<exists>p \<in> set (nd_required previous). \<exists>c \<in> set (nd_required current). obligations_compatible p c) \<longleftrightarrow>
      (\<exists>p \<in> set (nd_required previous). \<exists>c \<in> set (nd_required current). jointly_satisfiable p c)"
    using joint by blast+
  note r = assms(3) [symmetric, unfolded classify_need_step_def Let_def subj c]
  show ?thesis
  proof (intro conjI)
    show "r = StepIncompatible \<and> nd_world previous = nd_world current \<longrightarrow>
        (\<exists>p \<in> set (nd_required previous). \<exists>c \<in> set (nd_required current). \<not> jointly_satisfiable p c)"
    proof (intro impI)
      assume "r = StepIncompatible \<and> nd_world previous = nd_world current"
      then have "\<exists>l \<in> set (nd_required previous). \<exists>r \<in> set (nd_required current). obligations_contradict l r"
        using r by (simp split: if_splits)
      then show "\<exists>p \<in> set (nd_required previous). \<exists>c \<in> set (nd_required current). \<not> jointly_satisfiable p c"
        using contra by blast
    qed
  qed (simp_all add: r)
qed

definition asking :: "u8 \<Rightarrow> predicate_kind list \<Rightarrow> need" where
  "asking k ps =
     \<lparr>nd_id = Digest [k], nd_subjects = [],
      nd_required = map (\<lambda>p. \<lparr>ob_id = Digest [predicate_tag p], ob_predicate = p, ob_subject = Digest [], ob_facets = []\<rparr>) ps,
      nd_preferred = [], nd_constraints = [],
      nd_world = \<lparr>sw_lineage = Digest [], sw_source = ''current'', sw_platform = ''current'',
        sw_features = ''default'', sw_configuration = None, sw_toolchain = None\<rparr>,
      nd_inputs = [], nd_residual = None, nd_body_digest = Digest [], nd_format_revision = 1\<rparr>"

theorem need_step_relation_sound_witness:
  "classify_need_step (asking 1 [ImplementationLocation]) (asking 2 [ImplementationLocation, FocusedTests]) [] = StepExtension \<and>
   (\<exists>p \<in> set (nd_required (asking 1 [ImplementationLocation])).
      \<exists>c \<in> set (nd_required (asking 2 [ImplementationLocation, FocusedTests])). jointly_satisfiable p c)"
proof -
  have r: "classify_need_step (asking 1 [ImplementationLocation]) (asking 2 [ImplementationLocation, FocusedTests]) [] = StepExtension"
    by (simp add: classify_need_step_def asking_def obligations_contradict_def polarity_def obligations_compatible_def facets_agree_def Let_def)
  have f: "list_all functional_facets (nd_required (asking 1 [ImplementationLocation]))"
    "list_all functional_facets (nd_required (asking 2 [ImplementationLocation, FocusedTests]))"
    by (simp_all add: asking_def functional_facets_def)
  have "\<forall>p \<in> set (nd_required (asking 1 [ImplementationLocation])).
      \<exists>c \<in> set (nd_required (asking 2 [ImplementationLocation, FocusedTests])). jointly_satisfiable p c"
    using need_step_relation_sound [OF f r] by blast
  moreover have "set (nd_required (asking 1 [ImplementationLocation])) \<noteq> {}" by (simp add: asking_def)
  ultimately show ?thesis using r by (metis ex_in_conv)
qed

end
