(* ===== verification/Routing.thy ===== *)
theory Routing
  imports Digests Role_Profile "HOL-Library.Multiset" "HOL-Library.Sublist"
begin

text \<open>
  Which route serves a need (\<^verbatim>\<open>crates/needle-runtime/src/router.rs\<close> over the routes of \<^verbatim>\<open>crates/needle-core/src/domain.rs\<close>), and
  which worker profiles are tried in which order (\<^verbatim>\<open>crates/needle-runtime/src/model_ladder.rs\<close> over the model policies of
  \<^verbatim>\<open>crates/needle-core/src/artifact.rs\<close>).
\<close>

section \<open>Routes\<close>

record route_matcher =
  rm_platform :: string
  rm_model :: string
  rm_need_key :: string
  rm_repository :: string

record route =
  rt_id :: string
  rt_enabled :: bool
  rt_priority :: "32 word"
  rt_matcher :: route_matcher
  rt_preset :: string
  rt_definition :: digest

text \<open>The decimal text of an \<open>i32\<close> (\<open>Display for i32\<close>).\<close>

definition signed_decimal :: "32 word \<Rightarrow> string" where
  "signed_decimal x = (if sint x < 0 then CHR ''-'' # decimal (nat (- sint x)) else decimal (nat (sint x)))"

definition route_definition_digest ::
    "(u8 list \<Rightarrow> digest) \<Rightarrow> string \<Rightarrow> 32 word \<Rightarrow> route_matcher \<Rightarrow> string \<Rightarrow> digest" where
  "route_definition_digest blake3 i priority m preset =
     blake3 (as_bytes (unlines [''needle-route'', i, signed_decimal priority, rm_platform m, rm_model m, rm_need_key m,
       rm_repository m, preset]))"

definition route_new ::
    "(u8 list \<Rightarrow> digest) \<Rightarrow> string \<Rightarrow> 32 word \<Rightarrow> route_matcher \<Rightarrow> string \<Rightarrow> route" where
  "route_new blake3 i priority m preset =
     \<lparr>rt_id = i, rt_enabled = True, rt_priority = priority, rt_matcher = m, rt_preset = preset,
      rt_definition = route_definition_digest blake3 i priority m preset\<rparr>"

definition route_has_valid_digest :: "(u8 list \<Rightarrow> digest) \<Rightarrow> route \<Rightarrow> bool" where
  "route_has_valid_digest blake3 r \<longleftrightarrow>
     rt_definition r = route_definition_digest blake3 (rt_id r) (rt_priority r) (rt_matcher r) (rt_preset r)"

text \<open>\<open>normalize_line_endings\<close> (\<^verbatim>\<open>crates/needle-core/src/lib.rs\<close>): a carriage return, with a following line feed or alone, becomes a line feed.\<close>

fun normalize_line_endings :: "string \<Rightarrow> string" where
  "normalize_line_endings [] = []"
| "normalize_line_endings (c # cs) =
     (if c = CHR 0x0D then
        CHR 0x0A # (case cs of d # ds \<Rightarrow> if d = CHR 0x0A then normalize_line_endings ds else normalize_line_endings cs | [] \<Rightarrow> [])
      else c # normalize_line_endings cs)"

record preset =
  pt_id :: string
  pt_name :: string
  pt_system_prompt :: string
  pt_definition :: digest

definition preset_definition_digest :: "(u8 list \<Rightarrow> digest) \<Rightarrow> string \<Rightarrow> string \<Rightarrow> string \<Rightarrow> digest" where
  "preset_definition_digest blake3 i name system_prompt = blake3 (as_bytes (unlines [''needle-preset'', i, name, system_prompt]))"

definition preset_new :: "(u8 list \<Rightarrow> digest) \<Rightarrow> string \<Rightarrow> string \<Rightarrow> string \<Rightarrow> preset" where
  "preset_new blake3 i name system_prompt =
     (let system_prompt = normalize_line_endings system_prompt in
      \<lparr>pt_id = i, pt_name = name, pt_system_prompt = system_prompt,
       pt_definition = preset_definition_digest blake3 i name system_prompt\<rparr>)"

definition preset_has_valid_digest :: "(u8 list \<Rightarrow> digest) \<Rightarrow> preset \<Rightarrow> bool" where
  "preset_has_valid_digest blake3 p \<longleftrightarrow> pt_definition p = preset_definition_digest blake3 (pt_id p) (pt_name p) (pt_system_prompt p)"

lemma normalize_no_cr: "CHR 0x0D \<notin> set (normalize_line_endings s)"
  by (induction s rule: normalize_line_endings.induct) (auto split: list.splits)

lemma normalize_id: "CHR 0x0D \<notin> set s \<Longrightarrow> normalize_line_endings s = s"
  by (induction s) auto

lemma normalize_idem [simp]: "normalize_line_endings (normalize_line_endings s) = normalize_line_endings s"
  by (rule normalize_id [OF normalize_no_cr])

text \<open>
  The digest of a preset joins its texts with line feeds, which a prompt may contain: two presets that
  divide the same text differently between name and prompt have the same definition digest, whatever the hash.
\<close>

theorem preset_digest_ambiguous:
  "let p = preset_new blake3 ''trace'' ''Trace'' [CHR ''a'', CHR 0x0A, CHR ''b''];
       q = preset_new blake3 ''trace'' (''Trace'' @ [CHR 0x0A, CHR ''a'']) ''b'' in
   p \<noteq> q \<and> pt_definition p = pt_definition q \<and> preset_has_valid_digest blake3 p \<and> preset_has_valid_digest blake3 q"
  by (simp add: preset_new_def preset_definition_digest_def unlines_def preset_has_valid_digest_def)

section \<open>Selecting a route\<close>

datatype route_error = Conflict string string

definition selector_score :: "string \<Rightarrow> string \<Rightarrow> u8 option" where
  "selector_score selector actual = (if selector = ''*'' then Some 0 else if selector = actual then Some 1 else None)"

text \<open>The scores by which two routes are compared: repository, platform, model, priority.\<close>

type_synonym rank = "int \<times> int \<times> int \<times> int"

definition route_rank :: "string \<Rightarrow> string \<Rightarrow> string \<Rightarrow> string \<Rightarrow> route \<Rightarrow> rank option" where
  "route_rank platform main_model repository need_key r =
     (if rt_enabled r \<and> rm_need_key (rt_matcher r) = need_key then
        (case (selector_score (rm_platform (rt_matcher r)) platform, selector_score (rm_model (rt_matcher r)) main_model,
               selector_score (rm_repository (rt_matcher r)) repository) of
           (Some ps, Some ms, Some rs) \<Rightarrow> Some (uint rs, uint ps, uint ms, sint (rt_priority r))
         | _ \<Rightarrow> None)
      else None)"

definition route_key :: "rank \<times> route \<Rightarrow> (int \<times> int \<times> int \<times> int) \<times> string" where
  "route_key x = (case x of ((rs, ps, ms, priority), r) \<Rightarrow> ((- rs, - ps, - ms, - priority), rt_id r))"

definition select_route :: "route list \<Rightarrow> string \<Rightarrow> string \<Rightarrow> string \<Rightarrow> string \<Rightarrow> (route option, route_error) result" where
  "select_route routes platform main_model repository need_key =
     (case sort_key route_key
         (List.map_filter (\<lambda>r. map_option (\<lambda>k. (k, r)) (route_rank platform main_model repository need_key r)) routes) of
        [] \<Rightarrow> Ok None
      | [best] \<Rightarrow> Ok (Some (snd best))
      | best # second # rest \<Rightarrow>
          if fst best = fst second \<and>
             (rt_preset (snd best) \<noteq> rt_preset (snd second) \<or> rt_definition (snd best) \<noteq> rt_definition (snd second))
          then Err (Conflict (rt_id (snd best)) (rt_id (snd second))) else Ok (Some (snd best)))"

section \<open>Model ladder\<close>

datatype model_policy =
    FixedOrder "worker_profile list" bool bool
  | CheapestValidatedFirst "worker_profile list" bool

datatype 'a ladder_attempt = AttemptValidated 'a | AttemptInvalid string | AttemptInfrastructureFailure string

record ladder_record =
  la_profile :: digest
  la_repair :: bool
  la_status :: string

datatype 'a ladder_outcome =
    LadderValidated 'a worker_profile bool "ladder_record list"
  | LadderFallback "ladder_record list"

datatype ladder_error = LadderEmpty | UnpromotedProfile | LadderExhausted

definition ladder_new :: "model_policy \<Rightarrow> digest set \<Rightarrow> (model_policy, ladder_error) result" where
  "ladder_new policy promoted =
     (case policy of
        FixedOrder profiles repair_once native_fallback \<Rightarrow> if profiles = [] then Err LadderEmpty else Ok policy
      | CheapestValidatedFirst profiles native_fallback \<Rightarrow>
          if \<exists>p \<in> set profiles. wp_definition p \<notin> promoted then Err UnpromotedProfile
          else if profiles = [] then Err LadderEmpty else Ok policy)"

definition ladder_record_of :: "worker_profile \<Rightarrow> bool \<Rightarrow> string \<Rightarrow> ladder_record" where
  "ladder_record_of p repair status = \<lparr>la_profile = wp_definition p, la_repair = repair, la_status = status\<rparr>"

lemma ladder_record_sel [simp]:
  "la_profile (ladder_record_of p repair status) = wp_definition p" "la_repair (ladder_record_of p repair status) = repair"
  "la_status (ladder_record_of p repair status) = status"
  by (simp_all add: ladder_record_of_def)

text \<open>
  The executor is an \<open>FnMut\<close>: its state is threaded through the calls. The loop returns either the
  outcome of a validated attempt or, when every profile failed, the records.
\<close>

fun ladder_loop ::
    "('s \<Rightarrow> worker_profile \<Rightarrow> bool \<Rightarrow> 'a ladder_attempt \<times> 's) \<Rightarrow> bool \<Rightarrow> worker_profile list \<Rightarrow> ladder_record list \<Rightarrow> 's \<Rightarrow>
     ('a ladder_outcome option \<times> ladder_record list) \<times> 's" where
  "ladder_loop execute repair_once [] records s = ((None, records), s)"
| "ladder_loop execute repair_once (p # ps) records s =
     (case execute s p False of
        (AttemptValidated v, s) \<Rightarrow>
          let records = records @ [ladder_record_of p False ''validated''] in ((Some (LadderValidated v p False records), records), s)
      | (AttemptInvalid _, s) \<Rightarrow>
          let records = records @ [ladder_record_of p False ''invalid''] in
          if repair_once then
            (case execute s p True of
               (AttemptValidated v, s) \<Rightarrow>
                 let records = records @ [ladder_record_of p True ''validated''] in ((Some (LadderValidated v p True records), records), s)
             | (AttemptInvalid _, s) \<Rightarrow>
                 ladder_loop execute repair_once ps (records @ [ladder_record_of p True ''invalid'']) s
             | (AttemptInfrastructureFailure _, s) \<Rightarrow>
                 ladder_loop execute repair_once ps (records @ [ladder_record_of p True ''infrastructure_failure'']) s)
          else ladder_loop execute repair_once ps records s
      | (AttemptInfrastructureFailure _, s) \<Rightarrow>
          ladder_loop execute repair_once ps (records @ [ladder_record_of p False ''infrastructure_failure'']) s)"

fun ladder_settings :: "model_policy \<Rightarrow> worker_profile list \<times> bool \<times> bool" where
  "ladder_settings (FixedOrder profiles repair_once native_fallback) = (profiles, repair_once, native_fallback)"
| "ladder_settings (CheapestValidatedFirst profiles native_fallback) = (profiles, False, native_fallback)"

definition ladder_run ::
    "model_policy \<Rightarrow> ('s \<Rightarrow> worker_profile \<Rightarrow> bool \<Rightarrow> 'a ladder_attempt \<times> 's) \<Rightarrow> 's \<Rightarrow> ('a ladder_outcome, ladder_error) result \<times> 's" where
  "ladder_run policy execute s =
     (case ladder_settings policy of (profiles, repair_once, native_fallback) \<Rightarrow>
        (case ladder_loop execute repair_once profiles [] s of
           ((Some outcome, records), s) \<Rightarrow> (Ok outcome, s)
         | ((None, records), s) \<Rightarrow> (if native_fallback then Ok (LadderFallback records) else Err LadderExhausted, s)))"

section \<open>Route selection\<close>

lemma sort_key_mset_unique:
  fixes f :: "'a \<Rightarrow> 'k::linorder"
  assumes "mset xs = mset ys" "distinct (map f xs)"
  shows "sort_key f xs = sort_key f ys"
proof -
  have d: "distinct (map f (sort_key f xs))" "distinct (map f (sort_key f ys))"
    using assms by (metis distinct_map distinct_sort mset_eq_imp_distinct_iff mset_eq_setD mset_map set_sort mset_sort)+
  have "map f (sort_key f xs) = map f (sort_key f ys)"
    by (rule sorted_distinct_set_unique) (use d assms in \<open>auto dest: mset_eq_setD\<close>)
  moreover have "inj_on f (set (sort_key f xs) \<union> set (sort_key f ys))"
    using d(1) mset_eq_setD [OF assms(1)] by (simp add: distinct_map)
  ultimately show ?thesis by (metis map_inj_on)
qed

definition ranked_routes :: "string \<Rightarrow> string \<Rightarrow> string \<Rightarrow> string \<Rightarrow> route list \<Rightarrow> (rank \<times> route) list" where
  "ranked_routes platform main_model repository need_key routes =
     List.map_filter (\<lambda>r. map_option (\<lambda>k. (k, r)) (route_rank platform main_model repository need_key r)) routes"

lemma set_ranked: "(k, r) \<in> set (ranked_routes platform main_model repository need_key routes) \<longleftrightarrow>
    r \<in> set routes \<and> route_rank platform main_model repository need_key r = Some k"
  by (induction routes) (auto simp: ranked_routes_def map_filter_simps split: option.splits)

lemma ranked_distinct:
  assumes "distinct (map rt_id routes)"
  shows "distinct (map route_key (ranked_routes platform main_model repository need_key routes))"
proof -
  have "distinct (map (rt_id \<circ> snd) (ranked_routes platform main_model repository need_key routes))"
    using assms by (induction routes) (auto simp: ranked_routes_def map_filter_def)
  moreover have "rt_id \<circ> snd = snd \<circ> route_key" by (auto simp: route_key_def fun_eq_iff split: prod.splits)
  ultimately have "distinct (map snd (map route_key (ranked_routes platform main_model repository need_key routes)))" by simp
  then show ?thesis by (simp only: distinct_map)
qed

lemma ranked_mset:
  "mset routes = mset routes' \<Longrightarrow>
   mset (ranked_routes platform main_model repository need_key routes) = mset (ranked_routes platform main_model repository need_key routes')"
  by (simp add: ranked_routes_def map_filter_def)

lemma route_key_le: "route_key (k, r) \<le> route_key (k', r') \<Longrightarrow> k' \<le> k"
  by (cases k; cases k') (auto simp: route_key_def less_eq_prod_def)

definition most_specific :: "string \<Rightarrow> string \<Rightarrow> string \<Rightarrow> string \<Rightarrow> route list \<Rightarrow> route \<Rightarrow> bool" where
  "most_specific platform main_model repository need_key routes r \<longleftrightarrow>
     r \<in> set routes \<and> (\<exists>k. route_rank platform main_model repository need_key r = Some k \<and>
       (\<forall>q \<in> set routes. \<forall>k'. route_rank platform main_model repository need_key q = Some k' \<longrightarrow> k' \<le> k))"

text \<open>
  C32. Routing is determined by the configuration, not by its order. For routes with different ids:
  \<open>select_route\<close> finds nothing exactly when no enabled route matches; a selected route is one of them and no
  matching route is more specific (repository before platform before model before priority); a reported
  conflict names two different routes that tie for the most specific; and any reordering of the routes gives
  the same answer.
\<close>

theorem select_route_spec:
  assumes "distinct (map rt_id routes)"
  shows "(select_route routes platform main_model repository need_key = Ok None \<longleftrightarrow>
       (\<forall>r \<in> set routes. route_rank platform main_model repository need_key r = None)) \<and>
    (\<forall>r. select_route routes platform main_model repository need_key = Ok (Some r) \<longrightarrow>
       most_specific platform main_model repository need_key routes r) \<and>
    (\<forall>a b. select_route routes platform main_model repository need_key = Err (Conflict a b) \<longrightarrow>
       (\<exists>r r'. rt_id r = a \<and> rt_id r' = b \<and> r \<noteq> r' \<and> most_specific platform main_model repository need_key routes r \<and>
          most_specific platform main_model repository need_key routes r')) \<and>
    (\<forall>routes'. mset routes' = mset routes \<longrightarrow>
       select_route routes' platform main_model repository need_key = select_route routes platform main_model repository need_key)"
proof -
  let ?rr = "ranked_routes platform main_model repository need_key"
  let ?rank = "route_rank platform main_model repository need_key"
  let ?best = "most_specific platform main_model repository need_key routes"
  let ?s = "sort_key route_key (?rr routes)"
  have d: "distinct (map route_key ?s)"
    using ranked_distinct [OF assms] by (metis distinct_map distinct_sort set_sort)
  have mem: "(k, r) \<in> set ?s \<longleftrightarrow> r \<in> set routes \<and> ?rank r = Some k" for k r by (simp add: set_ranked)
  have top: "?best r" "\<And>x. x \<in> set rest \<Longrightarrow> fst x = k \<Longrightarrow> ?best (snd x) \<and> snd x \<noteq> r" if s: "?s = (k, r) # rest" for k r rest
  proof -
    have "sorted (map route_key ?s)" by simp
    then have "\<forall>x \<in> set ?s. route_key (k, r) \<le> route_key x" unfolding s by auto
    then have max: "\<forall>q \<in> set routes. \<forall>k'. ?rank q = Some k' \<longrightarrow> k' \<le> k" using mem route_key_le by blast
    moreover have "(k, r) \<in> set ?s" by (simp add: s)
    ultimately show "?best r" using mem unfolding most_specific_def by blast
    fix x assume x: "x \<in> set rest" "fst x = k"
    then have "(k, snd x) \<in> set ?s" by (auto simp: s)
    moreover have "(k, snd x) \<noteq> (k, r)" using d x unfolding s by (metis distinct.simps(2) image_eqI list.set_map list.simps(9) prod.collapse)
    ultimately show "?best (snd x) \<and> snd x \<noteq> r" using mem max unfolding most_specific_def by blast
  qed
  have none: "?s = [] \<longleftrightarrow> (\<forall>r \<in> set routes. ?rank r = None)"
  proof
    assume "\<forall>r \<in> set routes. ?rank r = None"
    then have "x \<notin> set ?s" for x using mem [of "fst x" "snd x"] by auto
    then show "?s = []" by (metis ex_in_conv set_empty)
  next
    assume "?s = []"
    then have "\<not> (r \<in> set routes \<and> ?rank r = Some k)" for r k using mem by (metis empty_iff list.set(1))
    then show "\<forall>r \<in> set routes. ?rank r = None" by (meson not_Some_eq)
  qed
  have perm: "select_route routes' platform main_model repository need_key = select_route routes platform main_model repository need_key"
    if "mset routes' = mset routes" for routes'
    using sort_key_mset_unique [OF ranked_mset [OF that [symmetric]] ranked_distinct [OF assms]]
    by (simp add: select_route_def ranked_routes_def)
  show ?thesis
  proof (intro conjI allI impI)
    show "select_route routes platform main_model repository need_key = Ok None \<longleftrightarrow> (\<forall>r \<in> set routes. ?rank r = None)"
      unfolding none [symmetric] by (auto simp: select_route_def ranked_routes_def split: list.splits if_splits)
  next
    fix r assume "select_route routes platform main_model repository need_key = Ok (Some r)"
    then obtain k rest where "?s = (k, r) # rest"
      by (auto simp: select_route_def ranked_routes_def split: list.splits if_splits)
    then show "?best r" by (rule top)
  next
    fix a b assume "select_route routes platform main_model repository need_key = Err (Conflict a b)"
    then obtain k r r' rest where s: "?s = (k, r) # (k, r') # rest" and i: "rt_id r = a" "rt_id r' = b"
      by (auto simp: select_route_def ranked_routes_def split: list.splits if_splits)
    from top(1) [OF s] top(2) [OF s, of "(k, r')"] i
    show "\<exists>r r'. rt_id r = a \<and> rt_id r' = b \<and> r \<noteq> r' \<and> ?best r \<and> ?best r'" by auto
  next
    fix routes' assume "mset routes' = mset routes"
    then show "select_route routes' platform main_model repository need_key = select_route routes platform main_model repository need_key" by (rule perm)
  qed
qed

lemma select_route_first:
  assumes "sort_key route_key (ranked_routes platform main_model repository need_key routes) = (k, r) # (k', r') # rest" and "k \<noteq> k'"
  shows "select_route routes platform main_model repository need_key = Ok (Some r)"
  using assms by (simp add: select_route_def ranked_routes_def)

text \<open>Two routes for one key: the repository's own beats the general one, in either order.\<close>

definition demo_route :: "string \<Rightarrow> string \<Rightarrow> route" where
  "demo_route i repository =
     \<lparr>rt_id = i, rt_enabled = True, rt_priority = 0,
      rt_matcher = \<lparr>rm_platform = ''*'', rm_model = ''*'', rm_need_key = ''locate'', rm_repository = repository\<rparr>,
      rt_preset = i, rt_definition = Digest []\<rparr>"

theorem select_route_spec_witness:
  "select_route [demo_route ''a'' ''*'', demo_route ''b'' ''repo''] ''codex'' ''m'' ''repo'' ''locate'' = Ok (Some (demo_route ''b'' ''repo'')) \<and>
   select_route [demo_route ''b'' ''repo'', demo_route ''a'' ''*''] ''codex'' ''m'' ''repo'' ''locate'' = Ok (Some (demo_route ''b'' ''repo''))"
proof -
  let ?rs = "[demo_route ''a'' ''*'', demo_route ''b'' ''repo'']"
  have d: "distinct (map rt_id ?rs)" by (simp add: demo_route_def)
  have ranked: "ranked_routes ''codex'' ''m'' ''repo'' ''locate'' ?rs =
      [((0, 0, 0, 0), demo_route ''a'' ''*''), ((1, 0, 0, 0), demo_route ''b'' ''repo'')]"
    by (simp add: ranked_routes_def route_rank_def selector_score_def demo_route_def map_filter_simps)
  have "sort_key route_key (ranked_routes ''codex'' ''m'' ''repo'' ''locate'' ?rs) =
      [((1, 0, 0, 0), demo_route ''b'' ''repo''), ((0, 0, 0, 0), demo_route ''a'' ''*'')]"
    by (simp add: ranked route_key_def)
  then have e: "select_route ?rs ''codex'' ''m'' ''repo'' ''locate'' = Ok (Some (demo_route ''b'' ''repo''))"
    by (rule select_route_first) simp
  have "\<forall>rs'. mset rs' = mset ?rs \<longrightarrow>
      select_route rs' ''codex'' ''m'' ''repo'' ''locate'' = select_route ?rs ''codex'' ''m'' ''repo'' ''locate''"
    using select_route_spec [OF d, of "''codex''" "''m''" "''repo''" "''locate''"] by (elim conjE)
  moreover have "mset [demo_route ''b'' ''repo'', demo_route ''a'' ''*''] = mset ?rs" by (simp add: add_mset_commute)
  ultimately show ?thesis using e by metis
qed

section \<open>Ladder attempts\<close>

text \<open>An executor that also writes down every call it receives and how it ended.\<close>

fun attempt_status :: "'a ladder_attempt \<Rightarrow> string" where
  "attempt_status (AttemptValidated v) = ''validated''"
| "attempt_status (AttemptInvalid reason) = ''invalid''"
| "attempt_status (AttemptInfrastructureFailure reason) = ''infrastructure_failure''"

definition logged ::
    "('s \<Rightarrow> worker_profile \<Rightarrow> bool \<Rightarrow> 'a ladder_attempt \<times> 's) \<Rightarrow> 's \<times> ladder_record list \<Rightarrow> worker_profile \<Rightarrow> bool \<Rightarrow>
     'a ladder_attempt \<times> ('s \<times> ladder_record list)" where
  "logged execute x p repair =
     (case execute (fst x) p repair of (a, s) \<Rightarrow> (a, (s, snd x @ [ladder_record_of p repair (attempt_status a)])))"

lemma logged_eq:
  "execute s p repair = (a, s') \<Longrightarrow>
   logged execute (s, log) p repair = (a, (s', log @ [ladder_record_of p repair (attempt_status a)]))"
  by (simp add: logged_def)

definition slots :: "worker_profile list \<Rightarrow> (digest \<times> bool) list" where
  "slots ps = concat (map (\<lambda>p. [(wp_definition p, False), (wp_definition p, True)]) ps)"

abbreviation slot_of :: "ladder_record \<Rightarrow> digest \<times> bool" where
  "slot_of l \<equiv> (la_profile l, la_repair l)"

definition failed :: "ladder_record list \<Rightarrow> bool" where
  "failed = list_all (\<lambda>l. la_status l \<noteq> ''validated'')"

definition ladder_result :: "worker_profile list \<Rightarrow> bool \<Rightarrow> 'a ladder_outcome option \<Rightarrow> ladder_record list \<Rightarrow> ladder_record list \<Rightarrow> bool" where
  "ladder_result ps repair_once out before new \<longleftrightarrow>
     subseq (map slot_of new) (slots ps) \<and>
     (case out of
        None \<Rightarrow> failed new \<and> list_all (\<lambda>p. \<exists>l \<in> set new. la_profile l = wp_definition p) ps
      | Some (LadderValidated v p repair records) \<Rightarrow>
          records = before @ new \<and> p \<in> set ps \<and> (repair \<longrightarrow> repair_once) \<and>
          (\<exists>rest. new = rest @ [ladder_record_of p repair ''validated''] \<and> failed rest)
      | Some (LadderFallback records) \<Rightarrow> False)"

lemma ladder_result_step:
  assumes "ladder_result ps repair_once out (before @ tries) new" and "tries \<noteq> []" and "failed tries"
    and "subseq (map slot_of tries) [(wp_definition p, False), (wp_definition p, True)]"
    and "\<forall>l \<in> set tries. la_profile l = wp_definition p"
  shows "ladder_result (p # ps) repair_once out before (tries @ new)"
proof -
  have "subseq (map slot_of (tries @ new)) (slots (p # ps))"
    using list_emb_append_mono [OF assms(4), of "map slot_of new" "slots ps"] assms(1)
    by (simp add: ladder_result_def slots_def)
  moreover have "\<exists>l \<in> set tries. la_profile l = wp_definition p" using assms(2,5) by (cases tries) auto
  ultimately show ?thesis
    using assms(1,3) unfolding ladder_result_def
    by (cases out) (auto simp: failed_def list_all_iff split: ladder_outcome.splits)
qed

lemma ladder_loop_logged:
  assumes "ladder_loop (logged execute) repair_once ps records (s, records) = ((out, records'), (s', log))"
  shows "records' = log \<and> (\<exists>new. log = records @ new \<and> ladder_result ps repair_once out records new) \<and>
    ladder_loop execute repair_once ps records s = ((out, records'), s')"
  using assms
proof (induction ps arbitrary: records s)
  case Nil
  then show ?case by (auto simp: ladder_result_def slots_def failed_def)
next
  case (Cons p ps)
  note step = ladder_result_step [where p = p and ps = ps and before = records]
  obtain a s1 where e1: "execute s p False = (a, s1)" by fastforce
  note l1 = logged_eq [where execute = execute, OF e1]
  let ?r1 = "ladder_record_of p False (attempt_status a)"
  show ?case
  proof (cases a)
    case (AttemptValidated v)
    with Cons.prems e1 show ?thesis
      by (auto simp: l1 ladder_result_def slots_def failed_def Let_def)
  next
    case (AttemptInvalid x)
    show ?thesis
    proof (cases repair_once)
      case False
      with AttemptInvalid Cons.prems e1
      have "ladder_loop (logged execute) repair_once ps (records @ [?r1]) (s1, records @ [?r1]) = ((out, records'), (s', log))"
        by (simp add: l1)
      from Cons.IH [OF this] AttemptInvalid False e1 step [where tries = "[?r1]"] show ?thesis
        by (auto simp: failed_def)
    next
      case True
      obtain b s2 where e2: "execute s1 p True = (b, s2)" by fastforce
      note l2 = logged_eq [where execute = execute, OF e2]
      let ?r2 = "ladder_record_of p True (attempt_status b)"
      show ?thesis
      proof (cases "\<exists>v. b = AttemptValidated v")
        case valid: True
        with AttemptInvalid True Cons.prems e1 e2 show ?thesis
          by (auto simp: l1 l2 ladder_result_def slots_def failed_def Let_def)
      next
        case False
        with AttemptInvalid True Cons.prems e1 e2
        have "ladder_loop (logged execute) repair_once ps (records @ [?r1, ?r2]) (s2, records @ [?r1, ?r2]) = ((out, records'), (s', log))"
          by (cases b) (simp_all add: l1 l2)
        from Cons.IH [OF this] obtain new where new: "records' = log" "log = records @ [?r1, ?r2] @ new"
          "ladder_result ps repair_once out (records @ [?r1, ?r2]) new"
          "ladder_loop execute repair_once ps (records @ [?r1, ?r2]) s2 = ((out, records'), s')" by auto
        have "attempt_status b \<noteq> ''validated''" using False by (cases b) simp_all
        with AttemptInvalid have "ladder_result (p # ps) repair_once out records ([?r1, ?r2] @ new)"
          by (intro step new(3)) (simp_all add: failed_def)
        moreover have "ladder_loop execute repair_once (p # ps) records s = ((out, records'), s')"
          using new(4) AttemptInvalid True False e1 e2 by (cases b) simp_all
        ultimately show ?thesis using new(1,2) by blast
      qed
    qed
  next
    case (AttemptInfrastructureFailure x)
    with Cons.prems e1
    have "ladder_loop (logged execute) repair_once ps (records @ [?r1]) (s1, records @ [?r1]) = ((out, records'), (s', log))"
      by (simp add: l1)
    from Cons.IH [OF this] AttemptInfrastructureFailure e1 step [where tries = "[?r1]"] show ?thesis
      by (auto simp: failed_def)
  qed
qed

text \<open>
  C33. The ladder reports exactly what it ran. Whatever the executor does, the calls it receives are at most one
  attempt and one repair for each profile, in the order of the policy; a validated outcome names the profile
  of the last call, all earlier calls failed, and its attempts are the calls; the ladder falls back or reports
  exhaustion only after every profile was tried and failed, the former with the calls as its record; a repair
  only happens when the policy allows it; and under \<open>CheapestValidatedFirst\<close> only promoted profiles are run.
\<close>

theorem ladder_attempts_exact:
  assumes "ladder_new policy promoted = Ok ladder" and "ladder_settings ladder = (profiles, repair_once, native_fallback)"
    and "ladder_run ladder (logged execute) (s, []) = (result, (s', log))"
  shows "ladder_run ladder execute s = (result, s') \<and> subseq (map slot_of log) (slots profiles) \<and>
    (\<forall>v p repair records. result = Ok (LadderValidated v p repair records) \<longrightarrow>
       records = log \<and> p \<in> set profiles \<and> (repair \<longrightarrow> repair_once) \<and>
       (\<exists>rest. log = rest @ [ladder_record_of p repair ''validated''] \<and> failed rest)) \<and>
    (\<forall>records. result = Ok (LadderFallback records) \<longrightarrow> native_fallback \<and> records = log) \<and>
    (\<forall>e. result = Err e \<longrightarrow> \<not> native_fallback \<and> e = LadderExhausted) \<and>
    ((\<exists>records. result = Ok (LadderFallback records)) \<or> (\<exists>e. result = Err e) \<longrightarrow>
       failed log \<and> list_all (\<lambda>p. \<exists>l \<in> set log. la_profile l = wp_definition p) profiles) \<and>
    (\<forall>ps fallback. policy = CheapestValidatedFirst ps fallback \<longrightarrow> la_profile ` set log \<subseteq> promoted \<and> \<not> repair_once)"
proof -
  obtain out records' where loop: "ladder_loop (logged execute) repair_once profiles [] (s, []) = ((out, records'), (s', log))"
    and result: "result = (case out of Some oc \<Rightarrow> Ok oc | None \<Rightarrow> if native_fallback then Ok (LadderFallback records') else Err LadderExhausted)"
    using assms(3) unfolding ladder_run_def assms(2) by (auto split: prod.splits option.splits)
  from ladder_loop_logged [OF loop] have log: "records' = log" and res: "ladder_result profiles repair_once out [] log"
    and run: "ladder_loop execute repair_once profiles [] s = ((out, log), s')" by auto
  have plain: "ladder_run ladder execute s = (result, s')"
    unfolding ladder_run_def assms(2) using run result log by (auto split: option.splits)
  have slots: "subseq (map slot_of log) (slots profiles)" using res by (simp add: ladder_result_def)
  have sub: "la_profile ` set log \<subseteq> wp_definition ` set profiles"
  proof -
    have "set (map slot_of log) \<subseteq> set (slots profiles)" using list_emb_set [OF slots] by blast
    then show ?thesis by (auto simp: slots_def)
  qed
  have cheap: "la_profile ` set log \<subseteq> promoted \<and> \<not> repair_once" if "policy = CheapestValidatedFirst ps fallback" for ps fallback
    using that assms(1,2) sub by (auto simp: ladder_new_def split: if_splits)
  show ?thesis
  proof (cases out)
    case None
    then show ?thesis using plain slots res result log cheap by (simp add: ladder_result_def split: if_splits)
  next
    case (Some oc)
    then show ?thesis using plain slots res result log cheap by (cases oc) (simp_all add: ladder_result_def)
  qed
qed

text \<open>A policy with two profiles: the first fails and is repaired in vain, the second succeeds.\<close>

definition demo_profile :: "string \<Rightarrow> u8 \<Rightarrow> worker_profile" where
  "demo_profile m k = \<lparr>wp_platform = ''codex'', wp_model = m, wp_reasoning = ''medium'', wp_service_tier = None, wp_definition = Digest [k]\<rparr>"

definition demo_execute :: "nat \<Rightarrow> worker_profile \<Rightarrow> bool \<Rightarrow> string ladder_attempt \<times> nat" where
  "demo_execute calls p repair = ((if wp_model p = ''strong'' then AttemptValidated ''brief'' else AttemptInvalid ''semantic''), calls + 1)"

theorem ladder_attempts_exact_witness:
  "\<exists>records. ladder_run (FixedOrder [demo_profile ''cheap'' 1, demo_profile ''strong'' 2] True False) demo_execute 0 =
      (Ok (LadderValidated ''brief'' (demo_profile ''strong'' 2) False records), 3) \<and> length records = 3"
proof -
  let ?p = "FixedOrder [demo_profile ''cheap'' 1, demo_profile ''strong'' 2] True False"
  have n: "ladder_new ?p {} = Ok ?p" "ladder_settings ?p = ([demo_profile ''cheap'' 1, demo_profile ''strong'' 2], True, False)"
    by (simp_all add: ladder_new_def)
  obtain records where r: "ladder_run ?p (logged demo_execute) (0, []) =
      (Ok (LadderValidated ''brief'' (demo_profile ''strong'' 2) False records), (3, records))" and len: "length records = 3"
    by (simp add: ladder_run_def logged_def demo_execute_def demo_profile_def Let_def)
  from ladder_attempts_exact [OF n r] len show ?thesis by blast
qed

end
