(* ===== verification/Need_Parser.thy ===== *)
theory Need_Parser
  imports Need_Compiler Multi_Need Text_Ops Routing
begin

text \<open>
  The marker parsers: the legacy block \<open>@@need:<route>\<close> of \<^verbatim>\<open>crates/needle-core/src/lib.rs\<close> and the typed block \<open>@@need\<close> of
  \<^verbatim>\<open>crates/needle-core/src/semantic.rs\<close> with its headers, subjects, obligations and quoted names, and the interrupt that
  combines them. Definitions; the properties are in \<open>Parser_Theorems\<close>.
\<close>

section \<open>Lines\<close>

abbreviation LF :: char where "LF \<equiv> CHR 0x0A"
abbreviation CR :: char where "CR \<equiv> CHR 0x0D"

text \<open>\<open>split_inclusive('\n')\<close>, a segment without its line ending, and \<open>str::find\<close> of a text.\<close>

fun split_inclusive :: "string \<Rightarrow> string list" where
  "split_inclusive [] = []"
| "split_inclusive (c # cs) =
     (if c = LF then [c] # split_inclusive cs
      else case split_inclusive cs of [] \<Rightarrow> [[c]] | l # ls \<Rightarrow> (c # l) # ls)"

definition strip_last :: "char \<Rightarrow> string \<Rightarrow> string" where
  "strip_last c s = (if s \<noteq> [] \<and> last s = c then butlast s else s)"

definition segment_line :: "string \<Rightarrow> string" where
  "segment_line segment = strip_last CR (strip_last LF segment)"

fun str_find :: "string \<Rightarrow> string \<Rightarrow> nat option" where
  "str_find pat [] = (if pat = [] then Some 0 else None)"
| "str_find pat (c # cs) = (if starts_with pat (c # cs) then Some 0 else map_option Suc (str_find pat cs))"

definition strip_prefix :: "string \<Rightarrow> string \<Rightarrow> string option" where
  "strip_prefix pat s = (if starts_with pat s then Some (drop (length pat) s) else None)"

text \<open>The offset of the only line \<open>@@end\<close>; a second one is an error.\<close>

fun closing_marker :: "'e \<Rightarrow> string list \<Rightarrow> nat \<Rightarrow> nat option \<Rightarrow> (nat option, 'e) result" where
  "closing_marker e [] cursor closing = Ok closing"
| "closing_marker e (segment # segments) cursor closing =
     (if segment_line segment = ''@@end'' then
        (if closing \<noteq> None then Err e else closing_marker e segments (cursor + length segment) (Some cursor))
      else closing_marker e segments (cursor + length segment) closing)"

section \<open>Legacy requests\<close>

definition MAX_REQUEST_BYTES :: nat where "MAX_REQUEST_BYTES = 2048"

datatype need_parse_error =
    OpeningLine | MissingBody | NeedParseKey need_key_error | NeedClosingMarker | NeedTrailingText | NeedNestedMarker | BodyBounds

record need_request =
  nr_key :: string
  nr_body :: string

definition need_request_digest :: "(u8 list \<Rightarrow> digest) \<Rightarrow> need_request \<Rightarrow> digest" where
  "need_request_digest blake3 r = blake3 (as_bytes (nr_key r @ [LF] @ normalize_line_endings (nr_body r)))"

definition pop_line_ending :: "string \<Rightarrow> string" where
  "pop_line_ending body = (if body \<noteq> [] \<and> last body = LF then strip_last CR (butlast body) else body)"

definition legacy_opening :: "string \<Rightarrow> (string, need_parse_error) result" where
  "legacy_opening line =
     (case strip_prefix ''@@need:'' (strip_last CR line) of
        None \<Rightarrow> Err OpeningLine
      | Some key \<Rightarrow>
          if key = [] \<or> find_ws key \<noteq> None then Err (NeedParseKey (KeyCharacter 0))
          else (case need_key_new key of Err e \<Rightarrow> Err (NeedParseKey e) | Ok k \<Rightarrow> Ok k))"

definition legacy_marker_check :: "string \<Rightarrow> nat option \<Rightarrow> (unit, need_parse_error) result" where
  "legacy_marker_check rest closing =
     (if ends_with ''@@end'' rest then Ok ()
      else case str_find ''@@end'' rest of
        None \<Rightarrow> Ok ()
      | Some position \<Rightarrow>
          (case closing of
             None \<Rightarrow> Err NeedTrailingText
           | Some start \<Rightarrow> if position \<noteq> start then Err NeedClosingMarker else Ok ()))"

definition legacy_body :: "string \<Rightarrow> nat \<Rightarrow> (string, need_parse_error) result" where
  "legacy_body rest start =
     (if trim (drop (start + 5) rest) \<noteq> [] then Err NeedTrailingText
      else
        let body = pop_line_ending (take start rest) in
        if str_contains ''@@need:'' body \<or> str_contains ''@@end'' body then Err NeedNestedMarker
        else if body = [] \<or> trim body = [] \<or> length body > MAX_REQUEST_BYTES then Err BodyBounds
        else Ok body)"

definition parse_need_request :: "string \<Rightarrow> (need_request option, need_parse_error) result" where
  "parse_need_request message =
     (let trimmed = trim_start message in
      if \<not> starts_with ''@@need:'' trimmed then Ok None
      else case find_char (\<lambda>c. c = LF) trimmed of
        None \<Rightarrow> Err OpeningLine
      | Some newline \<Rightarrow>
          rbind (legacy_opening (take newline trimmed)) (\<lambda>key.
            let rest = drop (newline + 1) trimmed in
            rbind (closing_marker NeedClosingMarker (split_inclusive rest) 0 None) (\<lambda>closing.
            rbind (legacy_marker_check rest closing) (\<lambda>_.
            rbind (ok_or NeedClosingMarker closing) (\<lambda>start.
            rbind (legacy_body rest start) (\<lambda>body.
              Ok (Some \<lparr>nr_key = key, nr_body = body\<rparr>)))))))"

section \<open>Typed needs\<close>

datatype need_ir_parse_error =
    InputBounds | OpeningMarker | ClosingMarker | TrailingText | NestedMarker | Header string | DuplicateHeader string
  | CollectionBound string | RequiredFields | QuotedValue

record borrowed_subject =
  bs_kind :: string
  bs_value :: string
  bs_quoted :: bool

record borrowed_obligation =
  bo_predicate :: string
  bo_facets :: "facet list"

record borrowed_need_ir =
  bi_coordination :: "need_coordination option"
  bi_route_hint :: "string option"
  bi_subjects :: "borrowed_subject list"
  bi_required :: "borrowed_obligation list"
  bi_preferred :: "borrowed_obligation list"
  bi_constraints :: "string list"
  bi_world :: "facet list"
  bi_inputs :: "string list"
  bi_projection :: "facet list"
  bi_body :: string

definition empty_need_ir :: borrowed_need_ir where
  "empty_need_ir = \<lparr>bi_coordination = None, bi_route_hint = None, bi_subjects = [], bi_required = [], bi_preferred = [],
     bi_constraints = [], bi_world = [], bi_inputs = [], bi_projection = [], bi_body = []\<rparr>"

definition push_bounded :: "nat \<Rightarrow> 'a list \<Rightarrow> 'a \<Rightarrow> string \<Rightarrow> ('a list, need_ir_parse_error) result" where
  "push_bounded capacity target value label = (if length target < capacity then Ok (target @ [value]) else Err (CollectionBound label))"

text \<open>
  Quoted names. A control character is a byte below 32, 127, or the two-byte code of U+0080 to U+009F;
  the other bytes of UTF-8 sequences are never mistaken for one.
\<close>

definition control_head :: "string \<Rightarrow> bool" where
  "control_head s =
     (case s of [] \<Rightarrow> False
      | c # t \<Rightarrow> char_code c < 32 \<or> char_code c = 127 \<or>
          (char_code c = 194 \<and> (case t of [] \<Rightarrow> False | d # u \<Rightarrow> 128 \<le> char_code d \<and> char_code d \<le> 159)))"

fun validate_quoted :: "string \<Rightarrow> (unit, need_ir_parse_error) result" where
  "validate_quoted [] = Ok ()"
| "validate_quoted (c # s) =
     (if control_head (c # s) \<or> c = CHR ''\"'' then Err QuotedValue
      else if c = CHR 0x5C then
        (case s of d # t \<Rightarrow> if d = CHR 0x5C \<or> d = CHR ''\"'' then validate_quoted t else Err QuotedValue | [] \<Rightarrow> Err QuotedValue)
      else validate_quoted s)"

fun unescape :: "string \<Rightarrow> (string, need_ir_parse_error) result" where
  "unescape [] = Ok []"
| "unescape (c # s) =
     (if c \<noteq> CHR 0x5C then rbind (unescape s) (\<lambda>r. Ok (c # r))
      else case s of
        d # t \<Rightarrow> if d = CHR 0x5C \<or> d = CHR ''\"'' then rbind (unescape t) (\<lambda>r. Ok (d # r)) else Err QuotedValue
      | [] \<Rightarrow> Err QuotedValue)"

definition inner :: "string \<Rightarrow> string" where
  "inner value = take (length value - 2) (drop 1 value)"

definition unquote :: "string \<Rightarrow> bool \<Rightarrow> (string, need_ir_parse_error) result" where
  "unquote value quoted =
     (if \<not> quoted then Ok value
      else if CHR 0x5C \<notin> set (inner value) then Ok (inner value)
      else unescape (inner value))"

definition parse_subject :: "string \<Rightarrow> (borrowed_subject, need_ir_parse_error) result" where
  "parse_subject value =
     (case split_once '':'' value of
        None \<Rightarrow> Err (Header ''@subject'')
      | Some (kind, value) \<Rightarrow>
          if kind = [] \<or> value = [] then Err (Header ''@subject'')
          else
            let quoted = starts_with ''\"'' value in
            rbind (if quoted then
                     (if \<not> ends_with ''\"'' value \<or> length value < 2 then Err QuotedValue else validate_quoted (inner value))
                   else if find_ws value \<noteq> None \<or> has_control value \<or> CHR ''\"'' \<in> set value \<or> CHR 0x5C \<in> set value
                   then Err QuotedValue else Ok ())
              (\<lambda>_. Ok \<lparr>bs_kind = kind, bs_value = value, bs_quoted = quoted\<rparr>))"

fun push_facets ::
    "(string \<Rightarrow> string) \<Rightarrow> string \<Rightarrow> string list \<Rightarrow> facet list \<Rightarrow> (facet list, need_ir_parse_error) result" where
  "push_facets name label [] target = Ok target"
| "push_facets name label (part # parts) target =
     (case split_once ''='' part of
        None \<Rightarrow> Err (Header (name part))
      | Some (key, value) \<Rightarrow>
          rbind (push_bounded MAX_OBLIGATION_FACETS target \<lparr>fc_key = key, fc_value = value\<rparr> label)
            (push_facets name label parts))"

definition parse_obligation :: "string \<Rightarrow> (borrowed_obligation, need_ir_parse_error) result" where
  "parse_obligation value =
     (case split_ascii_whitespace value of
        [] \<Rightarrow> Err (Header ''@require'')
      | predicate # parts \<Rightarrow>
          rbind (push_facets (\<lambda>_. predicate) ''obligation facets'' parts []) (\<lambda>facets.
            Ok \<lparr>bo_predicate = predicate, bo_facets = facets\<rparr>))"

definition parse_facets :: "string \<Rightarrow> facet list \<Rightarrow> (facet list, need_ir_parse_error) result" where
  "parse_facets value target =
     (if target \<noteq> [] then Err (DuplicateHeader ''facet group'')
      else push_facets (\<lambda>part. part) ''facets'' (split_ascii_whitespace value) target)"

definition parse_header :: "string \<Rightarrow> borrowed_need_ir \<Rightarrow> (borrowed_need_ir, need_ir_parse_error) result" where
  "parse_header line ir =
     (case split_once '' '' line of
        None \<Rightarrow> Err (Header line)
      | Some (header, value) \<Rightarrow>
          let value = trim value in
          if value = [] then Err (Header header)
          else if header = ''@route'' then
            (if bi_route_hint ir \<noteq> None then Err (DuplicateHeader header) else Ok (ir\<lparr>bi_route_hint := Some value\<rparr>))
          else if header = ''@coordination'' then
            (if bi_coordination ir \<noteq> None then Err (DuplicateHeader header)
             else rbind (ok_or (Header header) (need_coordination_parse value)) (\<lambda>c. Ok (ir\<lparr>bi_coordination := Some c\<rparr>)))
          else if header = ''@subject'' then
            rbind (parse_subject value) (\<lambda>s. rbind (push_bounded MAX_NEED_SUBJECTS (bi_subjects ir) s ''subjects'') (\<lambda>ss.
              Ok (ir\<lparr>bi_subjects := ss\<rparr>)))
          else if header = ''@require'' then
            rbind (parse_obligation value) (\<lambda>ob. rbind (push_bounded MAX_REQUIRED_OBLIGATIONS (bi_required ir) ob ''required obligations'') (\<lambda>obs.
              Ok (ir\<lparr>bi_required := obs\<rparr>)))
          else if header = ''@prefer'' then
            rbind (parse_obligation value) (\<lambda>ob. rbind (push_bounded MAX_PREFERRED_OBLIGATIONS (bi_preferred ir) ob ''preferred obligations'') (\<lambda>obs.
              Ok (ir\<lparr>bi_preferred := obs\<rparr>)))
          else if header = ''@constraint'' then
            rbind (push_bounded MAX_SEMANTIC_CONSTRAINTS (bi_constraints ir) value ''semantic constraints'') (\<lambda>cs. Ok (ir\<lparr>bi_constraints := cs\<rparr>))
          else if header = ''@world'' then rbind (parse_facets value (bi_world ir)) (\<lambda>fs. Ok (ir\<lparr>bi_world := fs\<rparr>))
          else if header = ''@input'' then
            rbind (push_bounded MAX_NEED_INPUTS (bi_inputs ir) value ''input artifacts'') (\<lambda>xs. Ok (ir\<lparr>bi_inputs := xs\<rparr>))
          else if header = ''@project'' then rbind (parse_facets value (bi_projection ir)) (\<lambda>fs. Ok (ir\<lparr>bi_projection := fs\<rparr>))
          else Err (Header header))"

text \<open>The headers up to the first empty line, and the offset of the body.\<close>

fun parse_headers :: "string list \<Rightarrow> nat \<Rightarrow> borrowed_need_ir \<Rightarrow> (borrowed_need_ir \<times> nat option, need_ir_parse_error) result" where
  "parse_headers [] offset ir = Ok (ir, None)"
| "parse_headers (segment # segments) offset ir =
     (if segment_line segment = [] then Ok (ir, Some (offset + length segment))
      else rbind (parse_header (segment_line segment) ir) (parse_headers segments (offset + length segment)))"

definition trim_line_ends :: "string \<Rightarrow> string" where
  "trim_line_ends s = rev (dropWhile (\<lambda>c. c = CR \<or> c = LF) (rev s))"

definition parse_semantic :: "string \<Rightarrow> (borrowed_need_ir, need_ir_parse_error) result" where
  "parse_semantic semantic =
     rbind (parse_headers (split_inclusive semantic) 0 empty_need_ir) (\<lambda>(ir, body_start).
       case body_start of
         None \<Rightarrow> Err RequiredFields
       | Some start \<Rightarrow>
           let body = trim_line_ends (drop start semantic) in
           if bi_route_hint ir = None \<or> bi_subjects ir = [] \<or> bi_required ir = [] \<or> trim body = [] then Err RequiredFields
           else Ok (ir\<lparr>bi_body := body\<rparr>))"

definition nested_marker :: "string \<Rightarrow> bool" where
  "nested_marker semantic \<longleftrightarrow>
     str_contains (LF # ''@@need'') semantic \<or> starts_with ''@@need'' semantic \<or> str_contains ''@@end'' semantic"

definition borrowed_parse :: "string \<Rightarrow> (borrowed_need_ir option, need_ir_parse_error) result" where
  "borrowed_parse input =
     (if length input > MAX_NEED_IR_BYTES then
        (if starts_with ''@@need'' (trim_start input) then Err InputBounds else Ok None)
      else
        let input = trim_start input in
        if \<not> starts_with ''@@need'' input then Ok None
        else case find_char (\<lambda>c. c = LF) input of
          None \<Rightarrow> Err OpeningMarker
        | Some open_end \<Rightarrow>
            if strip_last CR (take open_end input) \<noteq> ''@@need'' then Ok None
            else
              let content = drop (open_end + 1) input in
              rbind (closing_marker ClosingMarker (split_inclusive content) 0 None) (\<lambda>closing.
              rbind (ok_or ClosingMarker closing) (\<lambda>start.
                if trim (drop (start + 5) content) \<noteq> [] then Err TrailingText
                else
                  let semantic = take start content in
                  if nested_marker semantic then Err NestedMarker
                  else rbind (parse_semantic semantic) (\<lambda>ir. Ok (Some ir)))))"

section \<open>Owned needs\<close>

definition subject_from_borrowed :: "borrowed_subject \<Rightarrow> (subject_expression, need_ir_parse_error) result" where
  "subject_from_borrowed s =
     rbind (ok_or (Header ''@subject'') (subject_kind_parse (bs_kind s))) (\<lambda>kind.
     rbind (unquote (bs_value s) (bs_quoted s)) (\<lambda>name. Ok \<lparr>se_kind = kind, se_name = name\<rparr>))"

definition obligation_from_borrowed :: "borrowed_obligation \<Rightarrow> (obligation_expression, need_ir_parse_error) result" where
  "obligation_from_borrowed ob =
     rbind (ok_or (Header (bo_predicate ob)) (predicate_parse (bo_predicate ob))) (\<lambda>predicate.
       Ok \<lparr>oe_predicate = predicate, oe_facets = sort_facets (bo_facets ob)\<rparr>)"

definition to_owned :: "borrowed_need_ir \<Rightarrow> (need_ir, need_ir_parse_error) result" where
  "to_owned ir =
     rbind (case need_key_new (case bi_route_hint ir of Some r \<Rightarrow> r | None \<Rightarrow> []) of Ok k \<Rightarrow> Ok k | Err e \<Rightarrow> Err (Header ''@route'')) (\<lambda>route.
     rbind (collect_results subject_from_borrowed (bi_subjects ir)) (\<lambda>subjects.
     rbind (collect_results obligation_from_borrowed (bi_required ir)) (\<lambda>required.
     rbind (collect_results obligation_from_borrowed (bi_preferred ir)) (\<lambda>preferred.
       Ok \<lparr>ir_route_hint = Some route, ir_subjects = subjects, ir_required = required, ir_preferred = preferred,
           ir_constraints = bi_constraints ir, ir_world = bi_world ir, ir_inputs = bi_inputs ir, ir_projection = bi_projection ir,
           ir_body = bi_body ir, ir_format_revision = NEED_IR_FORMAT_REVISION\<rparr>))))"

definition need_ir_parse :: "string \<Rightarrow> (need_ir option, need_ir_parse_error) result" where
  "need_ir_parse input =
     rbind (borrowed_parse input) (\<lambda>parsed.
       case parsed of None \<Rightarrow> Ok None | Some borrowed \<Rightarrow> rbind (to_owned borrowed) (\<lambda>ir. Ok (Some ir)))"

definition facet_list_fields :: "facet list \<Rightarrow> hasher \<Rightarrow> hasher" where
  "facet_list_fields fs h = fold (\<lambda>f h. field_str (fc_value f) (field_str (fc_key f) h)) fs h"

definition hash_obligation_expressions :: "obligation_expression list \<Rightarrow> hasher \<Rightarrow> hasher" where
  "hash_obligation_expressions obs h =
     fold (\<lambda>ob h. facet_list_fields (oe_facets ob) (field_str (predicate_str (oe_predicate ob)) h)) obs h"

definition transport_digest :: "(u8 list \<Rightarrow> digest) \<Rightarrow> need_ir \<Rightarrow> digest" where
  "transport_digest blake3 ir =
     (let h = field_u16 (ir_format_revision ir) (hasher_new ''need-ir-transport'');
          h = (case ir_route_hint ir of Some r \<Rightarrow> field_str r (field_u8 1 h) | None \<Rightarrow> field_u8 0 h);
          h = fold (\<lambda>s h. field_str (se_name s) (field_str (subject_kind_str (se_kind s)) h)) (ir_subjects ir) h;
          h = hash_obligation_expressions (ir_preferred ir) (hash_obligation_expressions (ir_required ir) h);
          h = fold field_str (ir_constraints ir) h;
          h = facet_list_fields (ir_world ir) h;
          h = fold field_str (ir_inputs ir) h;
          h = facet_list_fields (ir_projection ir) h
      in hasher_finish blake3 (field_normalized_lines (ir_body ir) h))"

section \<open>Interrupts\<close>

datatype semantic_interrupt = LegacyInterrupt need_request | TypedInterrupt need_ir need_coordination

datatype interrupt_parse_error = TypedError need_ir_parse_error | LegacyError need_parse_error

definition interrupt_parse :: "string \<Rightarrow> (semantic_interrupt option, interrupt_parse_error) result" where
  "interrupt_parse input =
     (case borrowed_parse input of
        Err e \<Rightarrow> Err (TypedError e)
      | Ok (Some borrowed) \<Rightarrow>
          (case to_owned borrowed of
             Err e \<Rightarrow> Err (TypedError e)
           | Ok ir \<Rightarrow> Ok (Some (TypedInterrupt ir (case bi_coordination borrowed of Some c \<Rightarrow> c | None \<Rightarrow> WaitResponse))))
      | Ok None \<Rightarrow>
          (case parse_need_request input of
             Err e \<Rightarrow> Err (LegacyError e)
           | Ok request \<Rightarrow> Ok (map_option LegacyInterrupt request)))"

text \<open>\<open>key\<close> of a typed interrupt expects its route: \<open>None\<close> is the panic.\<close>

fun interrupt_key :: "semantic_interrupt \<Rightarrow> string option" where
  "interrupt_key (LegacyInterrupt r) = Some (nr_key r)"
| "interrupt_key (TypedInterrupt ir c) = ir_route_hint ir"

fun interrupt_body :: "semantic_interrupt \<Rightarrow> string" where
  "interrupt_body (LegacyInterrupt r) = nr_body r"
| "interrupt_body (TypedInterrupt ir c) = ir_body ir"

fun interrupt_typed :: "semantic_interrupt \<Rightarrow> need_ir option" where
  "interrupt_typed (TypedInterrupt ir c) = Some ir"
| "interrupt_typed (LegacyInterrupt r) = None"

definition compatibility_request :: "semantic_interrupt \<Rightarrow> need_request option" where
  "compatibility_request i = map_option (\<lambda>k. \<lparr>nr_key = k, nr_body = interrupt_body i\<rparr>) (interrupt_key i)"

fun interrupt_coordination :: "semantic_interrupt \<Rightarrow> need_coordination" where
  "interrupt_coordination (LegacyInterrupt r) = WaitResponse"
| "interrupt_coordination (TypedInterrupt ir c) = c"

fun interrupt_digest :: "(u8 list \<Rightarrow> digest) \<Rightarrow> semantic_interrupt \<Rightarrow> digest" where
  "interrupt_digest blake3 (LegacyInterrupt r) = need_request_digest blake3 r"
| "interrupt_digest blake3 (TypedInterrupt ir c) =
     (let h = field_u16 (ir_format_revision ir) (hasher_new ''semantic-interrupt'');
          h = field_str (case ir_route_hint ir of Some r \<Rightarrow> r | None \<Rightarrow> []) h;
          h = fold (\<lambda>s h. field_str (se_name s) (field_u8 (subject_kind_tag (se_kind s)) h)) (ir_subjects ir) h;
          h = fold (\<lambda>ob h. facet_list_fields (oe_facets ob) (field_u8 (predicate_tag (oe_predicate ob)) h)) (ir_required ir @ ir_preferred ir) h
      in hasher_finish blake3 (facet_list_fields (ir_world ir) h))"

end
