(* ===== verification/Parser_Lemmas.thy ===== *)
theory Parser_Lemmas
  imports Need_Parser
begin

text \<open>
  Lemmas on the marker parsers: splitting a text into lines and finding the closing marker, what the header
  parser keeps, and quoted names.
\<close>

section \<open>Lines\<close>

lemma trim_start_length: "length (trim_start s) \<le> length s"
proof (induction s rule: trim_start.induct)
  case (1 s)
  then show ?case by (subst trim_start.simps) (auto intro: order_trans)
qed

lemma concat_split_inclusive [simp]: "concat (split_inclusive s) = s"
  by (induction s) (auto split: list.splits)

lemma split_inclusive_eq_Nil [simp]: "split_inclusive s = [] \<longleftrightarrow> s = []"
  by (cases s) (auto split: list.splits)

lemma split_inclusive_line: "LF \<notin> set l \<Longrightarrow> split_inclusive (l @ LF # t) = (l @ [LF]) # split_inclusive t"
  by (induction l) auto

lemma split_inclusive_last: "LF \<notin> set l \<Longrightarrow> l \<noteq> [] \<Longrightarrow> split_inclusive l = [l]"
proof (induction l)
  case (Cons c l)
  then show ?case by (cases l) auto
qed simp

lemma split_inclusive_append:
  assumes "s = [] \<or> last s = LF"
  shows "split_inclusive (s @ t) = split_inclusive s @ split_inclusive t"
  using assms
proof (induction s)
  case (Cons c s)
  show ?case
  proof (cases "s = []")
    case True
    with Cons show ?thesis by simp
  next
    case False
    with Cons have "split_inclusive (s @ t) = split_inclusive s @ split_inclusive t" by simp
    moreover from False obtain l ls where "split_inclusive s = l # ls" by (metis list.exhaust split_inclusive_eq_Nil)
    ultimately show ?thesis by simp
  qed
qed simp

lemma strip_last_infix: "\<exists>t. s = strip_last c s @ t"
  by (auto simp: strip_last_def) (metis append_butlast_last_id)

lemma segment_line_contained:
  assumes "segment \<in> set (split_inclusive s)"
  shows "str_contains (segment_line segment) s"
proof -
  obtain t u where "segment = segment_line segment @ t @ u"
    unfolding segment_line_def by (metis append.assoc strip_last_infix)
  moreover obtain a b where "s = a @ segment @ b"
    using assms by (metis concat_split_inclusive concat.simps(2) concat_append split_list)
  ultimately show ?thesis unfolding str_contains_iff by (metis append.assoc)
qed

lemma closing_marker_none:
  assumes "\<forall>seg \<in> set segs. segment_line seg \<noteq> ''@@end''"
  shows "closing_marker e (segs @ rest) cursor closing = closing_marker e rest (cursor + length (concat segs)) closing"
  using assms by (induction segs arbitrary: cursor) (simp_all add: add.assoc)

lemma segment_line_end [simp]: "segment_line ''@@end'' = ''@@end''"
  by (simp add: segment_line_def strip_last_def)

lemma closing_marker_found:
  assumes "\<not> str_contains ''@@end'' s" and "s = [] \<or> last s = LF"
  shows "closing_marker e (split_inclusive (s @ ''@@end'')) 0 None = Ok (Some (length s))"
proof -
  have "\<forall>seg \<in> set (split_inclusive s). segment_line seg \<noteq> ''@@end''"
    using assms(1) segment_line_contained by metis
  then show ?thesis
    using closing_marker_none [of "split_inclusive s" e "split_inclusive ''@@end''" 0 None]
    by (simp add: split_inclusive_append [OF assms(2)])
qed

lemma closing_marker_seen:
  "closing_marker e segs cursor (Some start) = Ok r \<Longrightarrow> r = Some start \<and> (\<forall>x \<in> set segs. segment_line x \<noteq> ''@@end'')"
  by (induction segs arbitrary: cursor) (simp_all split: if_splits)

text \<open>What a found marker says about the text.\<close>

lemma closing_marker_bounds:
  assumes "closing_marker e segs cursor None = Ok (Some start)"
  shows "\<exists>before seg rest. segs = before @ seg # rest \<and> start = cursor + length (concat before) \<and> segment_line seg = ''@@end'' \<and>
    (\<forall>x \<in> set before \<union> set rest. segment_line x \<noteq> ''@@end'')"
proof -
  show ?thesis
    using assms
  proof (induction segs arbitrary: cursor)
    case (Cons seg segs)
    show ?case
    proof (cases "segment_line seg = ''@@end''")
      case True
      with Cons.prems have "closing_marker e segs (cursor + length seg) (Some cursor) = Ok (Some start)" by simp
      from closing_marker_seen [OF this] True show ?thesis by (intro exI [of _ "[] :: string list"] exI [of _ seg] exI [of _ segs]) auto
    next
      case False
      with Cons.prems have "closing_marker e segs (cursor + length seg) None = Ok (Some start)" by simp
      from Cons.IH [OF this] obtain before x rest where "segs = before @ x # rest" "start = cursor + length seg + length (concat before)"
        "segment_line x = ''@@end''" "\<forall>y \<in> set before \<union> set rest. segment_line y \<noteq> ''@@end''" by blast
      with False show ?thesis by (intro exI [of _ "seg # before"] exI [of _ x] exI [of _ rest]) auto
    qed
  qed simp
qed

section \<open>Headers\<close>

definition subject_ok :: "borrowed_subject \<Rightarrow> bool" where
  "subject_ok s \<longleftrightarrow> bs_kind s \<noteq> [] \<and> bs_value s \<noteq> [] \<and>
     (if bs_quoted s then (\<exists>x. bs_value s = ''\"'' @ x @ ''\"'' \<and> validate_quoted x = Ok ())
      else find_ws (bs_value s) = None \<and> \<not> has_control (bs_value s))"

definition borrowed_ok :: "borrowed_need_ir \<Rightarrow> bool" where
  "borrowed_ok ir \<longleftrightarrow>
     length (bi_subjects ir) \<le> MAX_NEED_SUBJECTS \<and> list_all subject_ok (bi_subjects ir) \<and>
     length (bi_required ir) \<le> MAX_REQUIRED_OBLIGATIONS \<and> length (bi_preferred ir) \<le> MAX_PREFERRED_OBLIGATIONS \<and>
     list_all (\<lambda>ob. length (bo_facets ob) \<le> MAX_OBLIGATION_FACETS) (bi_required ir @ bi_preferred ir) \<and>
     length (bi_constraints ir) \<le> MAX_SEMANTIC_CONSTRAINTS \<and> length (bi_inputs ir) \<le> MAX_NEED_INPUTS \<and>
     length (bi_world ir) \<le> MAX_OBLIGATION_FACETS \<and> length (bi_projection ir) \<le> MAX_OBLIGATION_FACETS"

lemma push_bounded_Ok [simp]:
  "push_bounded capacity target value label = Ok r \<longleftrightarrow> length target < capacity \<and> r = target @ [value]"
  by (auto simp: push_bounded_def)

lemma push_facets_bound:
  "push_facets name label parts target = Ok r \<Longrightarrow> length target \<le> MAX_OBLIGATION_FACETS \<Longrightarrow> length r \<le> MAX_OBLIGATION_FACETS"
  by (induction name label parts target rule: push_facets.induct) (auto split: option.splits prod.splits)

lemma parse_obligation_bound: "parse_obligation value = Ok ob \<Longrightarrow> length (bo_facets ob) \<le> MAX_OBLIGATION_FACETS"
  by (auto simp: parse_obligation_def dest: push_facets_bound split: list.splits)

lemma parse_facets_bound: "parse_facets value target = Ok r \<Longrightarrow> length r \<le> MAX_OBLIGATION_FACETS"
  by (auto simp: parse_facets_def dest: push_facets_bound split: if_splits)

lemma quoted_inner:
  assumes "starts_with ''\"'' v" "ends_with ''\"'' v" "2 \<le> length v"
  shows "v = ''\"'' @ inner v @ ''\"''"
proof -
  obtain a where a: "v = CHR ''\"'' # a" using assms(1) by (auto simp: starts_with_iff)
  obtain b where b: "v = b @ ''\"''" using assms(2) by (auto simp: ends_with_def starts_with_iff rev_eq_Cons_iff)
  from a b assms(3) obtain x where "a = x @ ''\"''" by (cases b) auto
  with a show ?thesis by (simp add: inner_def)
qed

lemma parse_subject_ok: "parse_subject value = Ok s \<Longrightarrow> subject_ok s"
proof (cases "split_once '':'' value")
  case (Some kv)
  assume p: "parse_subject value = Ok s"
  obtain kind v where kv: "kv = (kind, v)" by fastforce
  from p Some kv have ne: "kind \<noteq> []" "v \<noteq> []" and s: "s = \<lparr>bs_kind = kind, bs_value = v, bs_quoted = starts_with ''\"'' v\<rparr>"
    by (auto simp: parse_subject_def Let_def split: if_splits)
  show "subject_ok s"
  proof (cases "starts_with ''\"'' v")
    case True
    with p Some kv ne have "ends_with ''\"'' v" "2 \<le> length v" "validate_quoted (inner v) = Ok ()"
      by (auto simp: parse_subject_def Let_def split: if_splits)
    with quoted_inner [OF True] True ne show ?thesis unfolding s subject_ok_def by auto
  next
    case False
    with p Some kv ne s show ?thesis by (auto simp: parse_subject_def Let_def subject_ok_def split: if_splits)
  qed
qed (simp add: parse_subject_def)

lemma parse_header_ok: "parse_header line ir = Ok ir' \<Longrightarrow> borrowed_ok ir \<Longrightarrow> borrowed_ok ir' \<and> bi_body ir' = bi_body ir"
  by (auto simp: parse_header_def Let_def borrowed_ok_def dest: parse_subject_ok parse_obligation_bound parse_facets_bound
      split: option.splits prod.splits if_splits)

lemma parse_headers_ok: "parse_headers segs offset ir = Ok (ir', start) \<Longrightarrow> borrowed_ok ir \<Longrightarrow> borrowed_ok ir'"
  by (induction segs offset ir rule: parse_headers.induct) (auto dest: parse_header_ok split: if_splits)

lemma parse_semantic_ok:
  assumes "parse_semantic s = Ok ir"
  shows "borrowed_ok ir" "bi_route_hint ir \<noteq> None" "bi_subjects ir \<noteq> []" "bi_required ir \<noteq> []" "trim (bi_body ir) \<noteq> []"
    "\<exists>a b. s = a @ bi_body ir @ b"
proof -
  have init: "borrowed_ok empty_need_ir" by (simp add: borrowed_ok_def empty_need_ir_def)
  from assms obtain ir0 start where h: "parse_headers (split_inclusive s) 0 empty_need_ir = Ok (ir0, Some start)"
    and ir: "ir = ir0\<lparr>bi_body := trim_line_ends (drop start s)\<rparr>"
    and f: "bi_route_hint ir0 \<noteq> None" "bi_subjects ir0 \<noteq> []" "bi_required ir0 \<noteq> []" "trim (trim_line_ends (drop start s)) \<noteq> []"
    by (auto simp: parse_semantic_def Let_def split: option.splits if_splits)
  from parse_headers_ok [OF h init] have "borrowed_ok ir0" .
  then show "borrowed_ok ir" unfolding ir borrowed_ok_def by simp
  from f show "bi_route_hint ir \<noteq> None" "bi_subjects ir \<noteq> []" "bi_required ir \<noteq> []" "trim (bi_body ir) \<noteq> []" unfolding ir by simp_all
  have "\<exists>b. drop start s = trim_line_ends (drop start s) @ b"
    unfolding trim_line_ends_def by (metis rev_append rev_rev_ident takeWhile_dropWhile_id)
  then obtain b where "drop start s = trim_line_ends (drop start s) @ b" ..
  then have "s = take start s @ bi_body ir @ b" unfolding ir by (simp add: append_take_drop_id)
  then show "\<exists>a b. s = a @ bi_body ir @ b" by blast
qed

lemma borrowed_parse_ok:
  assumes "borrowed_parse input = Ok (Some ir)"
  shows "borrowed_ok ir" "bi_route_hint ir \<noteq> None" "bi_subjects ir \<noteq> []" "bi_required ir \<noteq> []" "trim (bi_body ir) \<noteq> []"
    "\<not> str_contains ''@@end'' (bi_body ir)" "length (bi_body ir) \<le> MAX_NEED_IR_BYTES"
proof -
  define t where "t = trim_start input"
  from assms obtain open_end start where sem: "parse_semantic (take start (drop (open_end + 1) t)) = Ok ir"
    and nested: "\<not> nested_marker (take start (drop (open_end + 1) t))" and len: "length input \<le> MAX_NEED_IR_BYTES"
    by (auto simp: borrowed_parse_def Let_def t_def split: if_splits option.splits)
  note p = parse_semantic_ok [OF sem]
  from p(1-5) show "borrowed_ok ir" "bi_route_hint ir \<noteq> None" "bi_subjects ir \<noteq> []" "bi_required ir \<noteq> []" "trim (bi_body ir) \<noteq> []" .
  from p(6) nested show "\<not> str_contains ''@@end'' (bi_body ir)"
    unfolding nested_marker_def str_contains_iff by (metis append.assoc)
  have "length t \<le> length input" unfolding t_def by (rule trim_start_length)
  moreover have "length (bi_body ir) \<le> length t"
  proof -
    from p(6) obtain a b where "take start (drop (open_end + 1) t) = a @ bi_body ir @ b" by blast
    then have "length (bi_body ir) \<le> length (take start (drop (open_end + 1) t))" by simp
    also have "\<dots> \<le> length t" by simp
    finally show ?thesis .
  qed
  ultimately show "length (bi_body ir) \<le> MAX_NEED_IR_BYTES" using len by linarith
qed

section \<open>Names\<close>

lemma has_control_Cons: "has_control (c # s) \<longleftrightarrow> control_head (c # s) \<or> has_control s"
  by (cases s) (auto simp: control_head_def)

lemma control_head_cong:
  assumes "\<not> control_head (c # s)" and "n = [] \<longleftrightarrow> s = []" and "s \<noteq> [] \<Longrightarrow> hd n = hd s \<or> char_code (hd n) < 128"
  shows "\<not> control_head (c # n)"
  using assms by (cases n; cases s) (auto simp: control_head_def)

lemma unescape_ok:
  assumes "validate_quoted x = Ok ()"
  shows "\<exists>n. unescape x = Ok n \<and> \<not> has_control n \<and> (n = [] \<longleftrightarrow> x = []) \<and> (x \<noteq> [] \<longrightarrow> hd n = hd x \<or> char_code (hd n) < 128)"
  using assms
proof (induction x rule: validate_quoted.induct)
  case (2 c s)
  show ?case
  proof (cases "c = CHR 0x5C")
    case True
    with 2(3) obtain d t where s: "s = d # t" and d: "d = CHR 0x5C \<or> d = CHR ''\"''" and v: "validate_quoted t = Ok ()"
      and c: "\<not> (control_head (c # s) \<or> c = CHR ''\"'')"
      by (auto split: if_splits list.splits)
    from 2(1) [OF c True s d v] obtain n where n: "unescape t = Ok n" "\<not> has_control n" by blast
    have "\<not> control_head (d # n)" using d by (auto simp: control_head_def char_code_def)
    with n d True s show ?thesis by (auto simp: has_control_Cons char_code_def)
  next
    case False
    with 2(3) have v: "validate_quoted s = Ok ()" and c: "\<not> (control_head (c # s) \<or> c = CHR ''\"'')" by (auto split: if_splits)
    from 2(2) [OF c False v] obtain n where n: "unescape s = Ok n" "\<not> has_control n" "n = [] \<longleftrightarrow> s = []"
      "s \<noteq> [] \<longrightarrow> hd n = hd s \<or> char_code (hd n) < 128" by blast
    from control_head_cong [of c s n] c n have "\<not> control_head (c # n)" by blast
    with n False show ?thesis by (auto simp: has_control_Cons)
  qed
qed simp

lemma unescape_plain: "CHR 0x5C \<notin> set x \<Longrightarrow> unescape x = Ok x"
  by (induction x) auto

lemma unquote_inner: "unquote (''\"'' @ x @ ''\"'') True = unescape x"
  by (simp add: unquote_def inner_def unescape_plain)

lemma subject_name_ok:
  assumes "subject_ok s"
  obtains n where "unquote (bs_value s) (bs_quoted s) = Ok n" "\<not> has_control n"
proof (cases "bs_quoted s")
  case True
  with assms obtain x where x: "bs_value s = ''\"'' @ x @ ''\"''" "validate_quoted x = Ok ()" by (auto simp: subject_ok_def)
  from unescape_ok [OF x(2)] unquote_inner [of x] x(1) True that show thesis by auto
next
  case False
  with assms that show thesis by (auto simp: subject_ok_def unquote_def)
qed

lemma sorted_sort_facets: "sorted_wrt (\<lambda>f g. facet_ord f < facet_ord g) (sort_facets fs)"
proof -
  have "map facet_ord (sort_facets fs) = remdups_adj (map facet_ord (sort_key facet_ord fs))"
    unfolding sort_facets_def by (rule remdups_adj_map_injective [symmetric]) (auto simp: inj_on_def facet_ord_def facet_eq_iff)
  also have "sorted_wrt (<) \<dots>" by (rule sorted_distinct_adj_strict) (simp_all add: sorted_remdups_adj)
  finally show ?thesis by (simp add: sorted_wrt_map)
qed

end
