(* ===== verification/Need_Text.thy ===== *)
theory Need_Text
  imports Parser_Lemmas
begin

text \<open>
  Writing a need as a marker block: the reference printer for the grammar that the typed parser reads, and
  the steps of reading each header back.
\<close>

section \<open>The printer\<close>

definition escape :: "string \<Rightarrow> string" where
  "escape s = concat (map (\<lambda>c. if c = CHR 0x5C \<or> c = CHR ''\"'' then [CHR 0x5C, c] else [c]) s)"

definition tagged :: "string \<Rightarrow> string \<Rightarrow> string" where
  "tagged header value = header @ '' '' @ value"

definition facet_token :: "facet \<Rightarrow> string" where
  "facet_token f = fc_key f @ ''='' @ fc_value f"

definition subject_line :: "subject_expression \<Rightarrow> string" where
  "subject_line s = tagged ''@subject'' (subject_kind_str (se_kind s) @ '':\"'' @ escape (se_name s) @ ''\"'')"

definition obligation_text :: "obligation_expression \<Rightarrow> string" where
  "obligation_text e = join '' '' (predicate_str (oe_predicate e) # map facet_token (oe_facets e))"

definition facets_line :: "string \<Rightarrow> facet list \<Rightarrow> string list" where
  "facets_line header fs = (if fs = [] then [] else [tagged header (join '' '' (map facet_token fs))])"

definition need_lines :: "need_ir \<Rightarrow> string list" where
  "need_lines ir =
     map (\<lambda>r. tagged ''@route'' r) (case ir_route_hint ir of Some r \<Rightarrow> [r] | None \<Rightarrow> []) @
     map subject_line (ir_subjects ir) @
     map (\<lambda>e. tagged ''@require'' (obligation_text e)) (ir_required ir) @
     map (\<lambda>e. tagged ''@prefer'' (obligation_text e)) (ir_preferred ir) @
     map (\<lambda>c. tagged ''@constraint'' c) (ir_constraints ir) @
     facets_line ''@world'' (ir_world ir) @
     map (\<lambda>x. tagged ''@input'' x) (ir_inputs ir) @
     facets_line ''@project'' (ir_projection ir)"

definition need_block :: "need_ir \<Rightarrow> string" where
  "need_block ir = concat (map (\<lambda>l. l @ [LF]) (need_lines ir)) @ LF # ir_body ir @ [LF]"

definition render_need_ir :: "need_ir \<Rightarrow> string" where
  "render_need_ir ir = ''@@need'' @ LF # need_block ir @ ''@@end''"

definition plain_facet :: "facet \<Rightarrow> bool" where
  "plain_facet f \<longleftrightarrow> list_all visible (fc_key f) \<and> CHR ''='' \<notin> set (fc_key f) \<and> list_all visible (fc_value f)"

definition plain_line :: "string \<Rightarrow> bool" where
  "plain_line s \<longleftrightarrow> s \<noteq> [] \<and> trim s = s \<and> LF \<notin> set s"

section \<open>Names\<close>

lemma unescape_escape: "unescape (escape s) = Ok s"
  by (induction s) (auto simp: escape_def)

lemma hd_escape: "s \<noteq> [] \<Longrightarrow> hd (escape s) = hd s \<or> char_code (hd (escape s)) < 128"
  by (cases s) (auto simp: escape_def char_code_def)

lemma escape_eq_Nil [simp]: "escape s = [] \<longleftrightarrow> s = []"
  by (cases s) (auto simp: escape_def)

lemma validate_escape: "\<not> has_control s \<Longrightarrow> validate_quoted (escape s) = Ok ()"
proof (induction s)
  case (Cons c s)
  then have s: "validate_quoted (escape s) = Ok ()" and c: "\<not> control_head (c # s)" by (auto simp: has_control_Cons)
  have h: "\<not> control_head (c # escape s)"
    by (rule control_head_cong [OF c]) (use hd_escape in auto)
  have e: "\<not> control_head (CHR 0x5C # t)" for t by (simp add: control_head_def char_code_def)
  have "escape (c # s) = (if c = CHR 0x5C \<or> c = CHR ''\"'' then [CHR 0x5C, c] else [c]) @ escape s" by (simp add: escape_def)
  with s h e show ?case by auto
qed (simp add: escape_def)

lemma LF_escape [simp]: "LF \<in> set (escape s) \<longleftrightarrow> LF \<in> set s"
  by (induction s) (auto simp: escape_def)

lemma no_control_LF: "\<not> has_control s \<Longrightarrow> LF \<notin> set s"
  by (induction s) (auto simp: has_control_Cons control_head_def char_code_def)

section \<open>Tokens\<close>

lemma visible_LF [simp]: "\<not> visible LF" "\<not> visible CR"
  by (simp_all add: visible_def char_code_def)

lemma split_once_char: "c \<notin> set a \<Longrightarrow> split_once [c] (a @ c # b) = Some (a, b)"
  by (induction a) auto

lemma facet_token_visible: "plain_facet f \<Longrightarrow> facet_token f \<noteq> [] \<and> list_all visible (facet_token f)"
  by (simp add: plain_facet_def facet_token_def) (simp add: visible_def char_code_def)

lemma push_facets_tokens:
  assumes "list_all plain_facet fs" "length target + length fs \<le> MAX_OBLIGATION_FACETS"
  shows "push_facets name label (map facet_token fs) target = Ok (target @ fs)"
  using assms
proof (induction fs arbitrary: target)
  case (Cons f fs)
  have "split_once ''='' (facet_token f) = Some (fc_key f, fc_value f)"
    using Cons.prems split_once_char [of "CHR ''=''" "fc_key f"] by (simp add: facet_token_def plain_facet_def)
  with Cons show ?case by simp
qed simp

lemma predicate_visible: "predicate_str p \<noteq> [] \<and> list_all visible (predicate_str p)"
  by (cases p) (simp_all add: visible_def char_code_def)

lemma tokens_text:
  assumes "xs \<noteq> []" "\<forall>x \<in> set xs. x \<noteq> [] \<and> list_all visible x"
  shows "join '' '' xs \<noteq> []" "trim (join '' '' xs) = join '' '' xs" "LF \<notin> set (join '' '' xs)"
    "split_ascii_whitespace (join '' '' xs) = xs"
proof -
  have j: "join '' '' xs \<noteq> [] \<and> visible (hd (join '' '' xs)) \<and> visible (last (join '' '' xs))"
    by (rule join_ends) (use assms in auto)
  then show "join '' '' xs \<noteq> []" "trim (join '' '' xs) = join '' '' xs" by (simp_all add: trim_visible)
  show "LF \<notin> set (join '' '' xs)"
  proof
    assume "LF \<in> set (join '' '' xs)"
    from set_join [OF this] obtain x where "x \<in> set xs" "LF \<in> set x" by auto
    with assms(2) have "visible LF" unfolding list_all_iff by blast
    then show False by simp
  qed
  show "split_ascii_whitespace (join '' '' xs) = xs" by (rule split_join) (use assms in auto)
qed

lemma obligation_tokens:
  assumes "list_all plain_facet (oe_facets e)"
  shows "\<forall>x \<in> set (predicate_str (oe_predicate e) # map facet_token (oe_facets e)). x \<noteq> [] \<and> list_all visible x"
  using assms predicate_visible facet_token_visible by (auto simp: list_all_iff)

lemma obligation_text:
  assumes "list_all plain_facet (oe_facets e)"
  shows "obligation_text e \<noteq> []" "trim (obligation_text e) = obligation_text e" "LF \<notin> set (obligation_text e)"
    "split_ascii_whitespace (obligation_text e) = predicate_str (oe_predicate e) # map facet_token (oe_facets e)"
  unfolding obligation_text_def by (rule tokens_text [OF list.distinct(2) obligation_tokens [OF assms]])+

lemma parse_obligation_text:
  assumes "list_all plain_facet (oe_facets e)" "length (oe_facets e) \<le> MAX_OBLIGATION_FACETS"
  shows "parse_obligation (obligation_text e) = Ok \<lparr>bo_predicate = predicate_str (oe_predicate e), bo_facets = oe_facets e\<rparr>"
  using obligation_text(4) [OF assms(1)] push_facets_tokens [OF assms(1), of "[]"] assms(2)
  by (simp add: parse_obligation_def)

lemma facets_tokens: "list_all plain_facet fs \<Longrightarrow> \<forall>x \<in> set (map facet_token fs). x \<noteq> [] \<and> list_all visible x"
  using facet_token_visible by (auto simp: list_all_iff)

section \<open>Reading one header\<close>

lemma header_route:
  assumes "plain_line r" "bi_route_hint b = None"
  shows "parse_header (tagged ''@route'' r) b = Ok (b\<lparr>bi_route_hint := Some r\<rparr>)"
  using assms by (simp add: tagged_def parse_header_def Let_def plain_line_def)

lemma header_subject:
  assumes "\<not> has_control (se_name s)" "length (bi_subjects b) < MAX_NEED_SUBJECTS"
  shows "parse_header (subject_line s) b = Ok (b\<lparr>bi_subjects := bi_subjects b @
    [\<lparr>bs_kind = subject_kind_str (se_kind s), bs_value = ''\"'' @ escape (se_name s) @ ''\"'', bs_quoted = True\<rparr>]\<rparr>)"
proof -
  let ?v = "''\"'' @ escape (se_name s) @ ''\"''"
  let ?w = "subject_kind_str (se_kind s) @ '':'' @ ?v"
  have k: "subject_kind_str (se_kind s) \<noteq> []" "visible (hd (subject_kind_str (se_kind s)))" "CHR '':'' \<notin> set (subject_kind_str (se_kind s))"
    by (cases "se_kind s"; simp add: visible_def char_code_def)+
  have "trim ?w = ?w" by (rule trim_visible) (use k in \<open>simp_all add: visible_def char_code_def\<close>)
  moreover have "split_once '' '' (subject_line s) = Some (''@subject'', ?w)" by (simp add: subject_line_def tagged_def)
  moreover have "parse_subject ?w = Ok \<lparr>bs_kind = subject_kind_str (se_kind s), bs_value = ?v, bs_quoted = True\<rparr>"
  proof -
    have "split_once '':'' ?w = Some (subject_kind_str (se_kind s), ?v)" using split_once_char [OF k(3), of ?v] by simp
    moreover have "starts_with ''\"'' ?v" "ends_with ''\"'' ?v" "inner ?v = escape (se_name s)"
      by (simp_all add: ends_with_def inner_def)
    ultimately show ?thesis using k(1) validate_escape [OF assms(1)] by (simp add: parse_subject_def Let_def)
  qed
  ultimately show ?thesis using assms(2) k(1) by (simp add: tagged_def parse_header_def Let_def push_bounded_def)
qed

lemma header_require:
  assumes "list_all plain_facet (oe_facets e)" "length (oe_facets e) \<le> MAX_OBLIGATION_FACETS" "length (bi_required b) < MAX_REQUIRED_OBLIGATIONS"
  shows "parse_header (tagged ''@require'' (obligation_text e)) b =
    Ok (b\<lparr>bi_required := bi_required b @ [\<lparr>bo_predicate = predicate_str (oe_predicate e), bo_facets = oe_facets e\<rparr>]\<rparr>)"
  using assms obligation_text(1,2) [OF assms(1)] by (simp add: tagged_def parse_header_def Let_def parse_obligation_text push_bounded_def)

lemma header_prefer:
  assumes "list_all plain_facet (oe_facets e)" "length (oe_facets e) \<le> MAX_OBLIGATION_FACETS" "length (bi_preferred b) < MAX_PREFERRED_OBLIGATIONS"
  shows "parse_header (tagged ''@prefer'' (obligation_text e)) b =
    Ok (b\<lparr>bi_preferred := bi_preferred b @ [\<lparr>bo_predicate = predicate_str (oe_predicate e), bo_facets = oe_facets e\<rparr>]\<rparr>)"
  using assms obligation_text(1,2) [OF assms(1)] by (simp add: tagged_def parse_header_def Let_def parse_obligation_text push_bounded_def)

lemma header_constraint:
  assumes "plain_line c" "length (bi_constraints b) < MAX_SEMANTIC_CONSTRAINTS"
  shows "parse_header (tagged ''@constraint'' c) b = Ok (b\<lparr>bi_constraints := bi_constraints b @ [c]\<rparr>)"
  using assms by (simp add: tagged_def parse_header_def Let_def plain_line_def push_bounded_def)

lemma header_input:
  assumes "plain_line x" "length (bi_inputs b) < MAX_NEED_INPUTS"
  shows "parse_header (tagged ''@input'' x) b = Ok (b\<lparr>bi_inputs := bi_inputs b @ [x]\<rparr>)"
  using assms by (simp add: tagged_def parse_header_def Let_def plain_line_def push_bounded_def)

lemma parse_facets_text:
  assumes "list_all plain_facet fs" "fs \<noteq> []" "length fs \<le> MAX_OBLIGATION_FACETS"
  shows "parse_facets (join '' '' (map facet_token fs)) [] = Ok fs"
  using tokens_text(4) [OF _ facets_tokens [OF assms(1)]] push_facets_tokens [OF assms(1), of "[]"] assms(2,3)
  by (simp add: parse_facets_def)

lemma header_world:
  assumes "list_all plain_facet fs" "fs \<noteq> []" "length fs \<le> MAX_OBLIGATION_FACETS" "bi_world b = []"
  shows "parse_header (tagged ''@world'' (join '' '' (map facet_token fs))) b = Ok (b\<lparr>bi_world := fs\<rparr>)"
  using assms tokens_text(1,2) [OF _ facets_tokens [OF assms(1)]] parse_facets_text [OF assms(1-3)]
  by (simp add: tagged_def parse_header_def Let_def)

lemma header_project:
  assumes "list_all plain_facet fs" "fs \<noteq> []" "length fs \<le> MAX_OBLIGATION_FACETS" "bi_projection b = []"
  shows "parse_header (tagged ''@project'' (join '' '' (map facet_token fs))) b = Ok (b\<lparr>bi_projection := fs\<rparr>)"
  using assms tokens_text(1,2) [OF _ facets_tokens [OF assms(1)]] parse_facets_text [OF assms(1-3)]
  by (simp add: tagged_def parse_header_def Let_def)

section \<open>Reading the headers\<close>

fun parse_lines :: "string list \<Rightarrow> borrowed_need_ir \<Rightarrow> (borrowed_need_ir, need_ir_parse_error) result" where
  "parse_lines [] b = Ok b"
| "parse_lines (l # ls) b = rbind (parse_header l b) (parse_lines ls)"

definition header_line :: "string \<Rightarrow> bool" where
  "header_line l \<longleftrightarrow> l \<noteq> [] \<and> LF \<notin> set l \<and> last l \<noteq> CR"

lemma header_segment: "header_line l \<Longrightarrow> segment_line (l @ [LF]) = l"
  by (simp add: header_line_def segment_line_def strip_last_def)

lemma parse_headers_lines:
  assumes "list_all header_line ls" and "parse_lines ls b = Ok b'"
  shows "parse_headers (map (\<lambda>l. l @ [LF]) ls @ [LF] # rest) offset b =
    Ok (b', Some (offset + length (concat (map (\<lambda>l. l @ [LF]) ls)) + 1))"
  using assms
proof (induction ls arbitrary: offset b)
  case Nil
  then show ?case by (simp add: segment_line_def strip_last_def)
next
  case (Cons l ls)
  then obtain b1 where "parse_header l b = Ok b1" "parse_lines ls b1 = Ok b'" by auto
  with Cons header_segment [of l] show ?case by (simp add: header_line_def)
qed

lemma parse_lines_append: "parse_lines (xs @ ys) b = rbind (parse_lines xs b) (parse_lines ys)"
proof (induction xs arbitrary: b)
  case (Cons l xs)
  then show ?case by (cases "parse_header l b") simp_all
qed simp

lemma split_inclusive_lines:
  "list_all header_line ls \<Longrightarrow>
   split_inclusive (concat (map (\<lambda>l. l @ [LF]) ls) @ t) = map (\<lambda>l. l @ [LF]) ls @ split_inclusive t"
  by (induction ls) (simp_all add: header_line_def split_inclusive_line)

definition borrow_subject :: "subject_expression \<Rightarrow> borrowed_subject" where
  "borrow_subject s = \<lparr>bs_kind = subject_kind_str (se_kind s), bs_value = ''\"'' @ escape (se_name s) @ ''\"'', bs_quoted = True\<rparr>"

definition borrow_obligation :: "obligation_expression \<Rightarrow> borrowed_obligation" where
  "borrow_obligation e = \<lparr>bo_predicate = predicate_str (oe_predicate e), bo_facets = oe_facets e\<rparr>"

lemma lines_subjects:
  assumes "list_all (\<lambda>s. \<not> has_control (se_name s)) ss" "length (bi_subjects b) + length ss \<le> MAX_NEED_SUBJECTS"
  shows "parse_lines (map subject_line ss) b = Ok (b\<lparr>bi_subjects := bi_subjects b @ map borrow_subject ss\<rparr>)"
  using assms by (induction ss arbitrary: b) (simp_all add: header_subject borrow_subject_def)

definition writable_obligation :: "obligation_expression \<Rightarrow> bool" where
  "writable_obligation e \<longleftrightarrow> list_all plain_facet (oe_facets e) \<and> length (oe_facets e) \<le> MAX_OBLIGATION_FACETS"

lemma lines_required:
  assumes "list_all writable_obligation es" "length (bi_required b) + length es \<le> MAX_REQUIRED_OBLIGATIONS"
  shows "parse_lines (map (\<lambda>e. tagged ''@require'' (obligation_text e)) es) b = Ok (b\<lparr>bi_required := bi_required b @ map borrow_obligation es\<rparr>)"
  using assms by (induction es arbitrary: b) (simp_all add: header_require borrow_obligation_def writable_obligation_def)

lemma lines_preferred:
  assumes "list_all writable_obligation es" "length (bi_preferred b) + length es \<le> MAX_PREFERRED_OBLIGATIONS"
  shows "parse_lines (map (\<lambda>e. tagged ''@prefer'' (obligation_text e)) es) b = Ok (b\<lparr>bi_preferred := bi_preferred b @ map borrow_obligation es\<rparr>)"
  using assms by (induction es arbitrary: b) (simp_all add: header_prefer borrow_obligation_def writable_obligation_def)

lemma lines_constraints:
  assumes "list_all plain_line cs" "length (bi_constraints b) + length cs \<le> MAX_SEMANTIC_CONSTRAINTS"
  shows "parse_lines (map (\<lambda>c. tagged ''@constraint'' c) cs) b = Ok (b\<lparr>bi_constraints := bi_constraints b @ cs\<rparr>)"
  using assms by (induction cs arbitrary: b) (simp_all add: header_constraint)

lemma lines_inputs:
  assumes "list_all plain_line xs" "length (bi_inputs b) + length xs \<le> MAX_NEED_INPUTS"
  shows "parse_lines (map (\<lambda>x. tagged ''@input'' x) xs) b = Ok (b\<lparr>bi_inputs := bi_inputs b @ xs\<rparr>)"
  using assms by (induction xs arbitrary: b) (simp_all add: header_input)

lemma lines_world:
  assumes "list_all plain_facet fs" "length fs \<le> MAX_OBLIGATION_FACETS" "bi_world b = []"
  shows "parse_lines (facets_line ''@world'' fs) b = Ok (b\<lparr>bi_world := fs\<rparr>)"
  using assms header_world [of fs b] by (simp add: facets_line_def)

lemma lines_project:
  assumes "list_all plain_facet fs" "length fs \<le> MAX_OBLIGATION_FACETS" "bi_projection b = []"
  shows "parse_lines (facets_line ''@project'' fs) b = Ok (b\<lparr>bi_projection := fs\<rparr>)"
  using assms header_project [of fs b] by (simp add: facets_line_def)

section \<open>Reading the block\<close>

definition writable :: "need_ir \<Rightarrow> bool" where
  "writable ir \<longleftrightarrow>
     (\<exists>r. ir_route_hint ir = Some r \<and> need_key_new r = Ok r) \<and>
     ir_subjects ir \<noteq> [] \<and> length (ir_subjects ir) \<le> MAX_NEED_SUBJECTS \<and> list_all (\<lambda>s. \<not> has_control (se_name s)) (ir_subjects ir) \<and>
     ir_required ir \<noteq> [] \<and> length (ir_required ir) \<le> MAX_REQUIRED_OBLIGATIONS \<and> length (ir_preferred ir) \<le> MAX_PREFERRED_OBLIGATIONS \<and>
     list_all writable_obligation (ir_required ir @ ir_preferred ir) \<and>
     list_all (\<lambda>e. sort_facets (oe_facets e) = oe_facets e) (ir_required ir @ ir_preferred ir) \<and>
     list_all plain_line (ir_constraints ir @ ir_inputs ir) \<and>
     length (ir_constraints ir) \<le> MAX_SEMANTIC_CONSTRAINTS \<and> length (ir_inputs ir) \<le> MAX_NEED_INPUTS \<and>
     list_all plain_facet (ir_world ir @ ir_projection ir) \<and>
     length (ir_world ir) \<le> MAX_OBLIGATION_FACETS \<and> length (ir_projection ir) \<le> MAX_OBLIGATION_FACETS \<and>
     trim (ir_body ir) \<noteq> [] \<and> trim_line_ends (ir_body ir) = ir_body ir \<and>
     \<not> nested_marker (need_block ir) \<and> length (render_need_ir ir) \<le> MAX_NEED_IR_BYTES \<and>
     ir_format_revision ir = NEED_IR_FORMAT_REVISION"

definition borrow_need :: "need_ir \<Rightarrow> borrowed_need_ir" where
  "borrow_need ir =
     \<lparr>bi_coordination = None, bi_route_hint = ir_route_hint ir, bi_subjects = map borrow_subject (ir_subjects ir),
      bi_required = map borrow_obligation (ir_required ir), bi_preferred = map borrow_obligation (ir_preferred ir),
      bi_constraints = ir_constraints ir, bi_world = ir_world ir, bi_inputs = ir_inputs ir, bi_projection = ir_projection ir,
      bi_body = ir_body ir\<rparr>"

lemma key_visible: "need_key_byte c \<Longrightarrow> visible c"
  by (auto simp: need_key_byte_def visible_def ascii_defs)

lemma key_plain:
  assumes "need_key_new r = Ok r"
  shows "plain_line r"
proof -
  from assms have r: "r \<noteq> []" "\<forall>c \<in> set r. visible c" using key_visible by (auto simp: need_key_new_Ok)
  then have "trim r = r" by (simp add: trim_visible)
  moreover have "LF \<notin> set r" using r(2) visible_LF(1) by blast
  ultimately show ?thesis using r(1) by (simp add: plain_line_def)
qed

lemma trim_start_suffix: "\<exists>t. s = t @ trim_start s"
proof (induction s rule: trim_start.induct)
  case (1 s)
  show ?case
  proof (cases "ws_head s = 0")
    case True
    then show ?thesis by (subst trim_start.simps) simp
  next
    case False
    from 1 [OF False] obtain t where "drop (ws_head s) s = t @ trim_start (drop (ws_head s) s)" ..
    moreover have "trim_start (drop (ws_head s) s) = trim_start s" using False trim_start.simps [of s] by simp
    ultimately have "s = (take (ws_head s) s @ t) @ trim_start s" by (metis append.assoc append_take_drop_id)
    then show ?thesis ..
  qed
qed

lemma trim_tail_length: "length (trim_tail s) \<le> length s"
proof (induction s rule: trim_tail.induct)
  case (1 s)
  then show ?case by (subst trim_tail.simps) (auto intro: order_trans)
qed

lemma trim_tail_CR: "trim_tail (CR # s) = trim_tail s"
  by (subst trim_tail.simps) (simp add: ws_tail.simps ascii_ws_def char_code_def)

lemma last_not_CR: "plain_line s \<Longrightarrow> last s \<noteq> CR"
proof
  assume p: "plain_line s" and l: "last s = CR"
  obtain t where t: "s = t @ trim_start s" using trim_start_suffix by blast
  from p have ne: "trim_start s \<noteq> []" by (auto simp: plain_line_def trim_def trim_end_def trim_tail.simps)
  with t l obtain u where u: "trim_start s = u @ [CR]" by (metis append_butlast_last_id last_appendR)
  have "length (trim s) \<le> length u"
    unfolding trim_def trim_end_def u using trim_tail_length [of "rev u"] by (simp add: trim_tail_CR)
  moreover have "length u < length s" using arg_cong [OF t, of length] u by simp
  ultimately show False using p by (simp add: plain_line_def)
qed

lemma tagged_header: "plain_line v \<Longrightarrow> h \<noteq> [] \<Longrightarrow> LF \<notin> set h \<Longrightarrow> header_line (tagged h v)"
  using last_not_CR [of v] by (auto simp: header_line_def tagged_def plain_line_def)

lemma subject_plain:
  assumes "\<not> has_control (se_name s)"
  shows "header_line (subject_line s)"
proof -
  have "LF \<notin> set (subject_kind_str (se_kind s))" by (cases "se_kind s") simp_all
  with no_control_LF [OF assms] show ?thesis by (auto simp: header_line_def subject_line_def tagged_def)
qed

lemma tokens_plain: "xs \<noteq> [] \<Longrightarrow> \<forall>x \<in> set xs. x \<noteq> [] \<and> list_all visible x \<Longrightarrow> plain_line (join '' '' xs)"
  using tokens_text [of xs] by (simp add: plain_line_def)

lemma facets_header: "list_all plain_facet fs \<Longrightarrow> h \<noteq> [] \<Longrightarrow> LF \<notin> set h \<Longrightarrow> list_all header_line (facets_line h fs)"
  using tagged_header [OF tokens_plain [OF _ facets_tokens], of fs h] by (simp add: facets_line_def)

lemma need_lines_headers:
  assumes "writable ir"
  shows "list_all header_line (need_lines ir)"
proof -
  have "plain_line (obligation_text e)" if "writable_obligation e" for e
    using that obligation_text(1-3) [of e] by (simp add: writable_obligation_def plain_line_def)
  then have obs: "header_line (tagged h (obligation_text e))" if "writable_obligation e" "h \<noteq> []" "LF \<notin> set h" for e h
    using that tagged_header by blast
  from assms obtain r where r: "ir_route_hint ir = Some r" "need_key_new r = Ok r" by (auto simp: writable_def)
  have f: "list_all header_line (facets_line ''@world'' (ir_world ir))" "list_all header_line (facets_line ''@project'' (ir_projection ir))"
    by (rule facets_header; use assms in \<open>simp add: writable_def\<close>)+
  from assms show ?thesis
    using key_plain [OF r(2)] unfolding need_lines_def list_all_append
    by (simp add: f r(1) tagged_header) (auto simp: writable_def list_all_iff tagged_header subject_plain obs)
qed

lemma need_lines_parse:
  assumes "writable ir"
  shows "parse_lines (need_lines ir) empty_need_ir = Ok (borrow_need ir\<lparr>bi_body := []\<rparr>)"
proof -
  from assms obtain r where r: "ir_route_hint ir = Some r" "need_key_new r = Ok r" by (auto simp: writable_def)
  from assms show ?thesis
    using key_plain [OF r(2)]
    by (simp add: need_lines_def writable_def parse_lines_append r(1) header_route lines_subjects lines_required lines_preferred
        lines_constraints lines_inputs lines_world lines_project empty_need_ir_def borrow_need_def)
qed

lemma parse_semantic_block:
  assumes "writable ir"
  shows "parse_semantic (need_block ir) = Ok (borrow_need ir)"
proof -
  let ?hs = "concat (map (\<lambda>l. l @ [LF]) (need_lines ir))"
  have "split_inclusive (need_block ir) = map (\<lambda>l. l @ [LF]) (need_lines ir) @ [LF] # split_inclusive (ir_body ir @ [LF])"
    unfolding need_block_def split_inclusive_lines [OF need_lines_headers [OF assms]] by simp
  with parse_headers_lines [OF need_lines_headers [OF assms] need_lines_parse [OF assms], of "split_inclusive (ir_body ir @ [LF])" 0]
  have h: "parse_headers (split_inclusive (need_block ir)) 0 empty_need_ir = Ok (borrow_need ir\<lparr>bi_body := []\<rparr>, Some (length ?hs + 1))"
    by simp
  have d: "drop (length ?hs + 1) (need_block ir) = ir_body ir @ [LF]" by (simp add: need_block_def)
  have "trim_line_ends (ir_body ir @ [LF]) = trim_line_ends (ir_body ir)" by (simp add: trim_line_ends_def)
  with assms have b: "trim_line_ends (ir_body ir @ [LF]) = ir_body ir" "trim (ir_body ir) \<noteq> []" by (simp_all add: writable_def)
  from assms show ?thesis
    unfolding parse_semantic_def h by (auto simp: d b Let_def borrow_need_def writable_def simp del: One_nat_def Nat.add_Suc_right)
qed

lemma borrowed_parse_render:
  assumes "writable ir"
  shows "borrowed_parse (render_need_ir ir) = Ok (Some (borrow_need ir))"
proof -
  have t: "trim_start (render_need_ir ir) = render_need_ir ir"
    unfolding render_need_ir_def by (simp add: visible_def char_code_def)
  have f: "find_char (\<lambda>c. c = LF) (render_need_ir ir) = Some 6" unfolding render_need_ir_def by (simp add: numeral_eq_Suc)
  have c: "take 6 (render_need_ir ir) = ''@@need''" "drop 7 (render_need_ir ir) = need_block ir @ ''@@end''"
    unfolding render_need_ir_def by (simp_all add: numeral_eq_Suc)
  from assms have n: "\<not> nested_marker (need_block ir)" "length (render_need_ir ir) \<le> MAX_NEED_IR_BYTES" by (simp_all add: writable_def)
  then have "\<not> str_contains ''@@end'' (need_block ir)" by (simp add: nested_marker_def)
  moreover have "last (need_block ir) = LF" by (simp add: need_block_def)
  ultimately have m: "closing_marker ClosingMarker (split_inclusive (need_block ir @ ''@@end'')) 0 None = Ok (Some (length (need_block ir)))"
    by (intro closing_marker_found) auto
  have e: "drop (length (need_block ir) + 5) (need_block ir @ ''@@end'') = []" by simp
  have s: "starts_with ''@@need'' (render_need_ir ir)" by (simp add: render_need_ir_def)
  have o: "strip_last CR ''@@need'' = ''@@need''" by (simp add: strip_last_def)
  have "trim [] = []" by (simp add: trim_def trim_end_def trim_tail.simps)
  with n parse_semantic_block [OF assms] show ?thesis
    unfolding borrowed_parse_def Let_def t f by (simp add: s o c m e del: drop_drop)
qed

lemma to_owned_borrow:
  assumes "writable ir"
  shows "to_owned (borrow_need ir) = Ok ir"
proof -
  from assms obtain r where r: "ir_route_hint ir = Some r" "need_key_new r = Ok r" by (auto simp: writable_def)
  have "subject_from_borrowed (borrow_subject s) = Ok s" for s
    using unquote_inner [of "escape (se_name s)"]
    by (cases "se_kind s") (simp_all add: subject_from_borrowed_def borrow_subject_def subject_kind_parse_def unescape_escape)
  then have s: "collect_results subject_from_borrowed (map borrow_subject ss) = Ok ss" for ss by (induction ss) simp_all
  have "obligation_from_borrowed (borrow_obligation e) = Ok e" if "sort_facets (oe_facets e) = oe_facets e" for e
    using that by (cases "oe_predicate e") (simp_all add: obligation_from_borrowed_def borrow_obligation_def predicate_parse_def)
  then have o: "collect_results obligation_from_borrowed (map borrow_obligation es) = Ok es"
    if "list_all (\<lambda>e. sort_facets (oe_facets e) = oe_facets e) es" for es using that by (induction es) simp_all
  from assms show ?thesis
    by (simp add: to_owned_def borrow_need_def r s o writable_def)
qed

end
