(* ===== verification/Parser_Theorems.thy ===== *)
theory Parser_Theorems
  imports Need_Text
begin

text \<open>
  Properties of the marker parsers: what a parsed need satisfies, and that every well-formed need can be
  written down and read back.
\<close>

section \<open>Parsed needs\<close>

definition ordered_facets :: "obligation_expression \<Rightarrow> bool" where
  "ordered_facets e \<longleftrightarrow> sorted_wrt (\<lambda>f g. facet_ord f < facet_ord g) (oe_facets e)"

lemma collect_results_length: "collect_results f xs = Ok ys \<Longrightarrow> length ys = length xs"
  unfolding collect_results_Ok_iff by (simp add: list_all2_lengthD)

lemma to_owned_ok:
  assumes "to_owned b = Ok ir" and "borrowed_ok b" "bi_subjects b \<noteq> []" "bi_required b \<noteq> []"
  shows "\<exists>k. ir_route_hint ir = Some k \<and> need_key_new k = Ok k" "ir_subjects ir \<noteq> []" "ir_required ir \<noteq> []"
    "list_all (\<lambda>s. \<not> has_control (se_name s)) (ir_subjects ir)" "list_all ordered_facets (ir_required ir @ ir_preferred ir)"
    "ir_format_revision ir = NEED_IR_FORMAT_REVISION" "ir_body ir = bi_body b"
    "length (ir_body ir) \<le> MAX_NEED_IR_BYTES \<Longrightarrow> \<not> ir_out_of_bounds ir"
proof -
  let ?hint = "case bi_route_hint b of Some r \<Rightarrow> r | None \<Rightarrow> []"
  from assms(1) obtain k subjects required preferred where k: "need_key_new ?hint = Ok k"
    and s: "collect_results subject_from_borrowed (bi_subjects b) = Ok subjects"
    and r: "collect_results obligation_from_borrowed (bi_required b) = Ok required"
    and p: "collect_results obligation_from_borrowed (bi_preferred b) = Ok preferred"
    and ir: "ir = \<lparr>ir_route_hint = Some k, ir_subjects = subjects, ir_required = required, ir_preferred = preferred,
           ir_constraints = bi_constraints b, ir_world = bi_world b, ir_inputs = bi_inputs b, ir_projection = bi_projection b,
           ir_body = bi_body b, ir_format_revision = NEED_IR_FORMAT_REVISION\<rparr>"
    by (auto simp: to_owned_def split: result.splits)
  note len = collect_results_length [OF s] collect_results_length [OF r] collect_results_length [OF p]
  have obs: "\<exists>x \<in> set (bi_required b @ bi_preferred b). oe_facets e = sort_facets (bo_facets x)" if "e \<in> set (required @ preferred)" for e
    using that collect_results_set [OF r] collect_results_set [OF p] by (fastforce simp: obligation_from_borrowed_def)
  show "\<exists>k. ir_route_hint ir = Some k \<and> need_key_new k = Ok k" using k by (auto simp: ir need_key_new_Ok)
  show "ir_subjects ir \<noteq> []" "ir_required ir \<noteq> []" using len(1,2) assms(3,4) unfolding ir need_ir.simps by (metis length_0_conv)+
  show "list_all (\<lambda>s. \<not> has_control (se_name s)) (ir_subjects ir)"
  proof (simp add: list_all_iff ir, intro ballI)
    fix y assume "y \<in> set subjects"
    with collect_results_set [OF s] obtain x where x: "x \<in> set (bi_subjects b)" "subject_from_borrowed x = Ok y" by blast
    with assms(2) have "subject_ok x" by (auto simp: borrowed_ok_def list_all_iff)
    from subject_name_ok [OF this] obtain n where n: "unquote (bs_value x) (bs_quoted x) = Ok n" "\<not> has_control n" .
    from x(2) n(1) have "se_name y = n" by (auto simp: subject_from_borrowed_def)
    with n(2) show "\<not> has_control (se_name y)" by simp
  qed
  show "list_all ordered_facets (ir_required ir @ ir_preferred ir)"
    unfolding list_all_iff ir ordered_facets_def using obs sorted_sort_facets by fastforce
  show "ir_format_revision ir = NEED_IR_FORMAT_REVISION" "ir_body ir = bi_body b" by (simp_all add: ir)
  have "length (sort_facets fs) \<le> length fs" for fs using remdups_adj_length [of "sort_key facet_ord fs"] by (simp add: sort_facets_def)
  then have "\<forall>e \<in> set (required @ preferred). length (oe_facets e) \<le> MAX_OBLIGATION_FACETS"
    using obs assms(2) unfolding borrowed_ok_def list_all_iff by (metis order_trans)
  then show "length (ir_body ir) \<le> MAX_NEED_IR_BYTES \<Longrightarrow> \<not> ir_out_of_bounds ir"
    using len assms(2) by (auto simp: ir_out_of_bounds_def ir borrowed_ok_def not_less)
qed

text \<open>
  C19. Whatever text the typed parser accepts, the need it returns is well formed: it has a valid route key, at
  least one subject and one required obligation, no subject name contains a control character, facets are
  strictly ordered, the body is not blank and does not contain the closing marker, and the format
  and all the bounds that the compiler checks hold.
\<close>

theorem parsed_need_well_formed:
  assumes "need_ir_parse input = Ok (Some ir)"
  shows "(\<exists>k. ir_route_hint ir = Some k \<and> need_key_new k = Ok k) \<and> ir_subjects ir \<noteq> [] \<and> ir_required ir \<noteq> [] \<and>
    list_all (\<lambda>s. \<not> has_control (se_name s)) (ir_subjects ir) \<and> list_all ordered_facets (ir_required ir @ ir_preferred ir) \<and>
    trim (ir_body ir) \<noteq> [] \<and> \<not> str_contains ''@@end'' (ir_body ir) \<and>
    ir_format_revision ir = NEED_IR_FORMAT_REVISION \<and> \<not> ir_out_of_bounds ir"
proof -
  from assms obtain b where b: "borrowed_parse input = Ok (Some b)" and o: "to_owned b = Ok ir"
    by (auto simp: need_ir_parse_def split: option.splits)
  note p = borrowed_parse_ok [OF b]
  note q = to_owned_ok [OF o p(1,3,4)]
  from q p(5-7) show ?thesis by (auto simp: q(7))
qed

section \<open>Written needs\<close>

lemma need_text_read:
  assumes "writable ir"
  shows "need_ir_parse (render_need_ir ir) = Ok (Some ir)"
    "interrupt_parse (render_need_ir ir) = Ok (Some (TypedInterrupt ir WaitResponse))"
proof -
  note b = borrowed_parse_render [OF assms] and o = to_owned_borrow [OF assms]
  have "bi_coordination (borrow_need ir) = None" by (simp add: borrow_need_def)
  with b o show "need_ir_parse (render_need_ir ir) = Ok (Some ir)"
    "interrupt_parse (render_need_ir ir) = Ok (Some (TypedInterrupt ir WaitResponse))"
    by (simp_all add: need_ir_parse_def interrupt_parse_def)
qed

text \<open>
  C18. Every well-formed need can be sent as text: for a need within the bounds whose facets are visible ASCII
  tokens, whose constraints and inputs are trimmed single lines, and whose text contains no marker, the typed
  parser reads the printed block back as exactly that need, and the interrupt parser takes it for a typed
  interrupt that waits for its response. Subject names may contain any characters but control characters.
\<close>

theorem need_text_roundtrip:
  assumes "writable ir"
  shows "need_ir_parse (render_need_ir ir) = Ok (Some ir) \<and>
    interrupt_parse (render_need_ir ir) = Ok (Some (TypedInterrupt ir WaitResponse))"
  using need_text_read [OF assms] by blast

definition demo_ir :: need_ir where
  "demo_ir = \<lparr>ir_route_hint = Some ''locate'', ir_subjects = [\<lparr>se_kind = Symbol, se_name = ''say \"hi\"''\<rparr>],
     ir_required = [\<lparr>oe_predicate = ImplementationLocation, oe_facets = [\<lparr>fc_key = ''polarity'', fc_value = ''positive''\<rparr>]\<rparr>],
     ir_preferred = [], ir_constraints = [''public''], ir_world = [\<lparr>fc_key = ''source'', fc_value = ''current''\<rparr>],
     ir_inputs = [], ir_projection = [], ir_body = ''find it'', ir_format_revision = NEED_IR_FORMAT_REVISION\<rparr>"

lemma demo_writable: "writable demo_ir"
proof -
  have t: "trim ''find it'' = ''find it''" "trim ''public'' = ''public''" by (rule trim_visible; simp add: visible_def char_code_def)+
  have p: "list_all plain_line [''public'']" by (simp add: plain_line_def t)
  have f: "list_all plain_facet [\<lparr>fc_key = ''polarity'', fc_value = ''positive''\<rparr>]" "list_all plain_facet [\<lparr>fc_key = ''source'', fc_value = ''current''\<rparr>]"
    by (simp_all add: plain_facet_def visible_def char_code_def)
  have k: "need_key_new ''locate'' = Ok ''locate''" by (simp add: need_key_new_Ok need_key_byte_def ascii_defs)
  have c: "\<not> has_control ''say \"hi\"''" by (simp add: char_code_def)
  have block: "need_block demo_ir = ''@route locate'' @ LF # ''@subject symbol:\"say '' @ [CHR 0x5C] @ ''\"hi'' @ [CHR 0x5C] @ ''\"\"'' @
      LF # ''@require implementation-location polarity=positive'' @ LF # ''@constraint public'' @ LF # ''@world source=current'' @ LF # LF # ''find it'' @ [LF]"
    by (simp add: need_block_def need_lines_def demo_ir_def tagged_def subject_line_def escape_def obligation_text_def facet_token_def facets_line_def)
  have n: "\<not> nested_marker (need_block demo_ir)" unfolding nested_marker_def block by simp
  have l: "length (render_need_ir demo_ir) \<le> MAX_NEED_IR_BYTES" unfolding render_need_ir_def block by (simp add: semantic_bounds)
  show ?thesis
    using n l k c f p unfolding writable_def
    by (simp add: demo_ir_def semantic_bounds writable_obligation_def sort_facets_def t trim_line_ends_def)
qed

theorem need_text_roundtrip_witness:
  "need_ir_parse (render_need_ir demo_ir) = Ok (Some demo_ir)"
  using need_text_roundtrip [OF demo_writable] by blast

theorem parsed_need_well_formed_witness:
  "need_ir_parse (render_need_ir demo_ir) = Ok (Some demo_ir) \<and> \<not> ir_out_of_bounds demo_ir"
  using parsed_need_well_formed [OF need_text_read(1) [OF demo_writable]] need_text_read(1) [OF demo_writable] by blast

section \<open>Legacy requests\<close>

definition render_request :: "need_request \<Rightarrow> string" where
  "render_request r = ''@@need:'' @ nr_key r @ LF # nr_body r @ LF # ''@@end''"

definition request_ok :: "need_request \<Rightarrow> bool" where
  "request_ok r \<longleftrightarrow> need_key_new (nr_key r) = Ok (nr_key r) \<and> trim (nr_body r) \<noteq> [] \<and> length (nr_body r) \<le> MAX_REQUEST_BYTES \<and>
     \<not> str_contains ''@@need:'' (nr_body r) \<and> \<not> str_contains ''@@end'' (nr_body r)"

lemma trim_Nil [simp]: "trim [] = []"
  by (simp add: trim_def trim_end_def trim_tail.simps)

lemma legacy_request_ok:
  assumes "parse_need_request message = Ok (Some r)"
  shows "request_ok r"
proof -
  from assms obtain line rest start where o: "legacy_opening line = Ok (nr_key r)" and b: "legacy_body rest start = Ok (nr_body r)"
    by (auto simp: parse_need_request_def Let_def split: if_splits option.splits)
  from o have "need_key_new (nr_key r) = Ok (nr_key r)"
    by (auto simp: legacy_opening_def need_key_new_Ok split: option.splits if_splits result.splits)
  with b show ?thesis by (auto simp: legacy_body_def request_ok_def Let_def split: if_splits)
qed

lemma str_contains_snoc:
  assumes "str_contains p (b @ [c])" "c \<notin> set p" "p \<noteq> []"
  shows "str_contains p b"
proof -
  from assms(1) obtain x y where xy: "b @ [c] = x @ p @ y" unfolding str_contains_iff by blast
  show ?thesis
  proof (cases y rule: rev_cases)
    case Nil
    with xy have "last p = c" using assms(3) by (metis append_Nil2 last_appendR last_snoc)
    with assms(2,3) show ?thesis by (metis last_in_set)
  next
    case (snoc z d)
    with xy have "b = x @ p @ z" by simp
    then show ?thesis unfolding str_contains_iff by blast
  qed
qed

lemma visible_find_ws: "\<forall>c \<in> set k. visible c \<Longrightarrow> find_ws k = None"
  by (induction k) auto

lemma legacy_parse_render:
  assumes "request_ok r" and "last (nr_body r) \<noteq> CR"
  shows "parse_need_request (render_request r) = Ok (Some r)"
proof -
  obtain k body where r: "r = \<lparr>nr_key = k, nr_body = body\<rparr>" by (cases r) auto
  from assms r have k: "need_key_new k = Ok k" and b: "trim body \<noteq> []" "length body \<le> MAX_REQUEST_BYTES" "last body \<noteq> CR"
    and m: "\<not> str_contains ''@@need:'' body" "\<not> str_contains ''@@end'' body"
    by (auto simp: request_ok_def)
  from k have kv: "k \<noteq> []" "\<forall>c \<in> set k. visible c" using key_visible by (auto simp: need_key_new_Ok)
  from b(1) have ne: "body \<noteq> []" by auto
  let ?t = "''@@need:'' @ k @ LF # body @ LF # ''@@end''"
  have t: "trim_start ?t = ?t" by (simp add: visible_def char_code_def)
  have s: "starts_with ''@@need:'' ?t" by simp
  have "list_all (\<lambda>c. c \<noteq> LF) (''@@need:'' @ k)" using kv(2) visible_LF(1) by (auto simp: list_all_iff)
  from find_char_append [OF this, of LF "body @ LF # ''@@end''"]
  have f: "find_char (\<lambda>c. c = LF) ?t = Some (length (''@@need:'' @ k))" by simp
  have d: "take (length (''@@need:'' @ k)) ?t = ''@@need:'' @ k" "drop (length (''@@need:'' @ k) + 1) ?t = (body @ [LF]) @ ''@@end''"
    by simp_all
  have "last k \<noteq> CR" using kv visible_LF(2) by (metis last_in_set)
  then have "strip_last CR (''@@need:'' @ k) = ''@@need:'' @ k" using kv(1) by (simp add: strip_last_def)
  then have o: "legacy_opening (''@@need:'' @ k) = Ok k"
    using k kv visible_find_ws [OF kv(2)] by (simp add: legacy_opening_def strip_prefix_def)
  have e: "\<not> str_contains ''@@end'' (body @ [LF])" using str_contains_snoc [of "''@@end''" body LF] m(2) by auto
  have c: "closing_marker NeedClosingMarker (split_inclusive ((body @ [LF]) @ ''@@end'')) 0 None = Ok (Some (length (body @ [LF])))"
    by (rule closing_marker_found [OF e]) simp
  have g: "legacy_marker_check ((body @ [LF]) @ ''@@end'') (Some (length (body @ [LF]))) = Ok ()"
    by (simp add: legacy_marker_check_def ends_with_def)
  have "legacy_body ((body @ [LF]) @ ''@@end'') (length (body @ [LF])) = Ok body"
    using b m ne by (simp add: legacy_body_def pop_line_ending_def strip_last_def)
  with o c g show ?thesis
    unfolding parse_need_request_def render_request_def r need_request.simps Let_def t f by (simp only: s d simp_thms if_False option.case rbind.simps ok_or.simps)
qed

lemma legacy_not_typed:
  assumes "request_ok r"
  shows "borrowed_parse (render_request r) = Ok None"
proof -
  from assms have k: "nr_key r \<noteq> []" "\<forall>c \<in> set (nr_key r). visible c" "length (nr_key r) \<le> 64" and b: "length (nr_body r) \<le> 2048"
    using key_visible by (auto simp: request_ok_def need_key_new_Ok MAX_REQUEST_BYTES_def)
  let ?t = "''@@need:'' @ nr_key r @ LF # nr_body r @ LF # ''@@end''"
  have l: "length ?t \<le> MAX_NEED_IR_BYTES" using k(3) b by (simp add: semantic_bounds)
  have t: "trim_start ?t = ?t" by (simp add: visible_def char_code_def)
  have "list_all (\<lambda>c. c \<noteq> LF) (''@@need:'' @ nr_key r)" using k(2) visible_LF(1) by (auto simp: list_all_iff)
  from find_char_append [OF this, of LF "nr_body r @ LF # ''@@end''"]
  have f: "find_char (\<lambda>c. c = LF) ?t = Some (length (''@@need:'' @ nr_key r))" by simp
  have d: "take (length (''@@need:'' @ nr_key r)) ?t = ''@@need:'' @ nr_key r" by simp
  have "strip_last CR (''@@need:'' @ nr_key r) \<noteq> ''@@need''" using k(1) by (auto simp: strip_last_def butlast_append)
  moreover have "starts_with ''@@need'' ?t" by simp
  ultimately show ?thesis
    unfolding borrowed_parse_def render_request_def Let_def t f using l d by (simp del: append.simps append_Cons)
qed

text \<open>
  Legacy blocks. A request the legacy parser accepts has a valid key and a body of at most 2048 bytes that
  is not blank and contains no marker; and conversely every such request whose body does not end in a carriage
  return is read back from its block, by the legacy parser and by the interrupt parser.
\<close>

theorem legacy_request_roundtrip:
  "(\<forall>message r. parse_need_request message = Ok (Some r) \<longrightarrow> request_ok r) \<and>
   (\<forall>r. request_ok r \<and> last (nr_body r) \<noteq> CR \<longrightarrow> parse_need_request (render_request r) = Ok (Some r) \<and>
      interrupt_parse (render_request r) = Ok (Some (LegacyInterrupt r)))"
  using legacy_request_ok legacy_parse_render legacy_not_typed by (simp add: interrupt_parse_def)

theorem legacy_request_roundtrip_witness:
  "parse_need_request (render_request \<lparr>nr_key = ''locate'', nr_body = ''find it''\<rparr>) = Ok (Some \<lparr>nr_key = ''locate'', nr_body = ''find it''\<rparr>)"
proof -
  let ?r = "\<lparr>nr_key = ''locate'', nr_body = ''find it''\<rparr>"
  have t: "trim ''find it'' = ''find it''" by (rule trim_visible) (simp_all add: visible_def char_code_def)
  have "request_ok ?r" by (simp add: request_ok_def need_key_new_Ok need_key_byte_def ascii_defs t MAX_REQUEST_BYTES_def)
  moreover have "last (nr_body ?r) \<noteq> CR" by simp
  ultimately show ?thesis using legacy_request_roundtrip by blast
qed

section \<open>Digests of interrupts\<close>

text \<open>
  The digest of a typed interrupt leaves out its body, constraints, inputs, projection and coordination: two
  interrupts that differ in all of them have the same request digest, whatever the hash.
\<close>

theorem interrupt_digest_ignores_body:
  "interrupt_digest blake3 (TypedInterrupt (ir\<lparr>ir_body := body, ir_constraints := cs, ir_inputs := xs, ir_projection := ps\<rparr>) c) =
   interrupt_digest blake3 (TypedInterrupt ir c')"
  by (simp add: Let_def)

end
