(* ===== verification/Envelope_Theorems.thy ===== *)
theory Envelope_Theorems
  imports Envelope
begin

text \<open>
  What the rendered texts promise: the sanitiser leaves no protocol marker, so that a continuation envelope is one
  block; briefs are bounded; cache identities and prompt profiles are pinned by their digests.
\<close>

section \<open>Replacing markers\<close>


lemma str_contains_append_left: "str_contains p x \<Longrightarrow> str_contains p (x @ y)"
  unfolding str_contains_iff by (metis append.assoc)

lemma str_contains_append_right: "str_contains p y \<Longrightarrow> str_contains p (x @ y)"
  unfolding str_contains_iff by (metis append.assoc)






lemma replace_free: "\<not> str_contains p s \<Longrightarrow> p \<noteq> [] \<Longrightarrow> str_replace p r s = s"
  by (induction p r s rule: str_replace.induct) auto

text \<open>The four markers, and text without them.\<close>

definition envelope_markers :: "string list" where
  "envelope_markers = [''[NEEDLE_CONTEXT]'', ''[/NEEDLE_CONTEXT]'', ''@@need:'', ''@@end'']"

definition marker_free :: "string \<Rightarrow> bool" where
  "marker_free s \<longleftrightarrow> (\<forall>p \<in> set envelope_markers. \<not> str_contains p s)"








lemma marker_free_Nil [simp]: "marker_free []"
  by (simp add: marker_free_def envelope_markers_def)

















section \<open>Evidence briefs are bounded\<close>





text \<open>
  Statements are not sanitised in a brief, unlike in a continuation envelope: a claim whose statement holds the
  closing marker puts it in the middle of the block, and what follows stands outside it.
\<close>

theorem evidence_brief_not_sanitized:
  "let c = \<lparr>rl_id = ''c'', rl_kind = ''fact'', rl_subject = ''s'', rl_statement = ''x [/NEEDLE_CONTEXT] y'', rl_evidence_ids = []\<rparr>;
       brief = render_evidence_brief \<lparr>nl_complete = True, nl_summary = [], nl_claims = [c], nl_evidence = [], nl_suggested_reads = [],
         nl_suggested_commands = [], nl_uncertainty = []\<rparr>
   in \<exists>u v. brief = ''[NEEDLE_CONTEXT]'' @ u @ ''[/NEEDLE_CONTEXT]'' @ v @ ''[/NEEDLE_CONTEXT]'' @ LF # ''Usa solo questo brief; non ispezionare il repository.''"
proof -
  have t: "trim ''x [/NEEDLE_CONTEXT] y'' = ''x [/NEEDLE_CONTEXT] y''" by (rule trim_visible) (simp_all add: visible_def char_code_def)
  show ?thesis unfolding Let_def render_evidence_brief_def
    by (simp add: claim_line_def t bound_evidence_brief_def HARD_RESULT_BYTES_def HARD_RESULT_TOKENS_def brief_footer_def evidence_by_id_def)
      (rule exI [of _ "LF # ''- x ''"], rule exI [of _ "'' y'' @ [LF]"], simp)
qed

section \<open>Limits of a fallback\<close>

text \<open>
  \<open>enforce_result_limits\<close> keeps a text of at most 8000 bytes. On a longer one it does not step back to a
  character boundary, as its loops mean to: \<open>String::truncate\<close> has panicked before them. A fallback whose reason
  is 4000 two-byte characters is not rendered at all.
\<close>

lemma enforce_short: "length s \<le> 8000 \<Longrightarrow> enforce_result_limits s = Some s"
  using div_le_mono [of "length s + 3" 8003 4] by (simp add: enforce_result_limits_def HARD_RESULT_BYTES_def HARD_RESULT_TOKENS_def)

lemma enforce_long: "8000 < length s \<Longrightarrow> length s \<le> 16384 \<Longrightarrow> \<not> is_char_boundary s 8000 \<Longrightarrow> enforce_result_limits s = None"
  by (simp add: enforce_result_limits_def HARD_RESULT_BYTES_def HARD_RESULT_TOKENS_def string_truncate_def)

lemma pairs_nth: "k < n \<Longrightarrow> concat (replicate n [a, b]) ! (2 * k + 1) = b"
proof (induction n arbitrary: k)
  case (Suc n)
  then show ?case by (cases k) auto
qed simp

lemma pairs_length: "length (concat (replicate n [a, b])) = 2 * n"
  by (induction n) auto

theorem fallback_panics:
  "fallback_render (fallback_default\<lparr>fe_reason := concat (replicate 4000 [CHR 0xC3, CHR 0xA9])\<rparr>) = None"
proof -
  let ?r = "concat (replicate 4000 [CHR 0xC3, CHR 0xA9])"
  define e where "e = fallback_default\<lparr>fe_reason := ?r\<rparr>"
  define pre where "pre = ''[NEEDLE_CONTEXT]'' @ LF # ''status: unavailable'' @ LF # ''reason: ''"
  obtain post where t: "fallback_text e = pre @ ?r @ post" and post: "length post < 300"
    by (simp add: fallback_text_def e_def fallback_default_def pre_def)
  have pre: "length pre = 45" by (simp add: pre_def)
  have len: "length ?r = 8000" using pairs_length [of 4000] by simp
  have "?r ! (2 * 3977 + 1) = CHR 0xA9" by (rule pairs_nth) simp
  then have "fallback_text e ! 8000 = CHR 0xA9" using len by (simp add: t nth_append pre)
  then have "\<not> is_char_boundary (fallback_text e) 8000" using len pre by (simp add: is_char_boundary_def t char_code_def)
  moreover have "8000 < length (fallback_text e)" "length (fallback_text e) \<le> 16384" using len pre post by (simp_all add: t)
  ultimately show ?thesis using enforce_long unfolding fallback_render_def e_def by blast
qed


section \<open>Identities\<close>

lemma split_inclusive_unlines: "\<forall>l \<in> set ls. LF \<notin> set l \<Longrightarrow> split_inclusive (unlines ls) = map (\<lambda>l. l @ [LF]) ls"
  by (induction ls) (simp_all add: unlines_def split_inclusive_line)

lemma unlines_inj:
  assumes "unlines ls = unlines ks" "\<forall>l \<in> set ls. LF \<notin> set l" "\<forall>k \<in> set ks. LF \<notin> set k"
  shows "ls = ks"
proof -
  have "map (\<lambda>l. l @ [LF]) ls = map (\<lambda>l. l @ [LF]) ks"
    using assms split_inclusive_unlines by metis
  then show ?thesis by (rule map_injective) (simp add: inj_def)
qed

lemma hex_digit_alnum: "n < 16 \<Longrightarrow> hex_digit n \<noteq> LF \<and> hex_digit n \<noteq> CHR ''#''"
proof -
  assume n: "n < 16"
  have "hex_value LF = None" "hex_value CHR ''#'' = None" by (simp_all add: hex_value_def)
  with hex_value_hex_digit [OF n] show ?thesis by (metis option.distinct(1))
qed

lemma digest_string_plain: "LF \<notin> set (digest_to_string d)"
proof -
  have "LF \<notin> set (hex_byte b)" for b :: u8
  proof -
    have "unat b < 16 * 16" using unsigned_less [of b, where 'a = nat] by simp
    then have "unat b div 16 < 16" by (simp add: less_mult_imp_div_less)
    then show ?thesis using hex_digit_alnum [of "unat b div 16"] hex_digit_alnum [of "unat b mod 16"] by (auto simp: hex_byte_def)
  qed
  then show ?thesis by (auto simp: digest_to_string_def to_hex_def)
qed

lemma digest_to_string_inj [simp]: "digest_to_string d = digest_to_string e \<longleftrightarrow> d = e"
proof
  assume "digest_to_string d = digest_to_string e"
  then have "concat (map hex_byte (dg_bytes d)) = concat (map hex_byte (dg_bytes e))" by (simp add: digest_to_string_def to_hex_def)
  then have "dg_bytes d = dg_bytes e" using parse_hex_pairs_concat by (metis result.inject(1))
  then show "d = e" by (simp add: digest.expand)
qed simp

lemma decimal_value_snoc [simp]: "decimal_value (s @ [c]) = 10 * decimal_value s + (char_code c - 48)"
  by (simp add: decimal_value_def)

declare decimal.simps [simp del]

lemma decimal_value_digit [simp]: "decimal_value [c] = char_code c - 48"
  by (simp add: decimal_value_def)

lemma decimal_value_decimal: "decimal_value (decimal n) = n"
proof (induction n rule: decimal.induct)
  case (1 n)
  then show ?case by (subst decimal.simps) (simp add: char_code_def)
qed

lemma decimal_digits: "c \<in> set (decimal n) \<Longrightarrow> is_ascii_digit c"
proof (induction n rule: decimal.induct)
  case (1 n)
  have d: "is_ascii_digit (char_of (48 + k :: nat))" if "k < 10" for k using that by (simp add: ascii_defs)
  show ?case
  proof (cases "n < 10")
    case True
    with 1(2) d [of n] show ?thesis by (simp add: decimal.simps [of n])
  next
    case False
    with 1(2) have "c \<in> set (decimal (n div 10)) \<or> c = char_of (48 + n mod 10)" by (auto simp: decimal.simps [of n])
    with 1(1) [OF False] d [of "n mod 10"] show ?thesis by auto
  qed
qed

lemma split_at_unique: "x @ c # y = x' @ c # y' \<Longrightarrow> c \<notin> set x \<Longrightarrow> c \<notin> set x' \<Longrightarrow> x = x' \<and> y = y'"
proof (induction x arbitrary: x')
  case Nil
  then show ?case by (cases x') auto
next
  case (Cons a x)
  then show ?case by (cases x') auto
qed

definition provenance_ok :: "role_profile_provenance option \<Rightarrow> bool" where
  "provenance_ok p \<longleftrightarrow> (case p of None \<Rightarrow> True | Some v \<Rightarrow> is_ok (role_profile_id_new (pv_profile_id v)))"

lemma provenance_identity_inj:
  assumes "provenance_ok p" "provenance_ok q" "provenance_identity p = provenance_identity q"
  shows "p = q"
proof -
  have id: "CHR ''@'' \<notin> set i" if "is_ok (role_profile_id_new i)" for i
    using that by (auto simp: is_ok_iff role_profile_id_new_Ok need_key_byte_def ascii_defs)
  have un: "CHR ''@'' \<notin> set ''unknown''" by simp
  have hash: "CHR ''#'' \<notin> set (decimal n)" for n using decimal_digits [of "CHR ''#''" n] by (auto simp: ascii_defs)
  show ?thesis
  proof (cases p; cases q)
    fix v w assume pq: "p = Some v" "q = Some w"
    from assms(3) have "pv_profile_id v @ CHR ''@'' # decimal (unat (pv_revision v)) @ CHR ''#'' # digest_to_string (pv_definition_digest v) =
        pv_profile_id w @ CHR ''@'' # decimal (unat (pv_revision w)) @ CHR ''#'' # digest_to_string (pv_definition_digest w)"
      by (simp add: provenance_identity_def pq)
    from split_at_unique [OF this] assms(1,2) pq have "pv_profile_id v = pv_profile_id w"
      and t: "decimal (unat (pv_revision v)) @ CHR ''#'' # digest_to_string (pv_definition_digest v) =
        decimal (unat (pv_revision w)) @ CHR ''#'' # digest_to_string (pv_definition_digest w)"
      by (auto simp: provenance_ok_def id)
    moreover from split_at_unique [OF t hash hash] have "decimal (unat (pv_revision v)) = decimal (unat (pv_revision w))"
      "pv_definition_digest v = pv_definition_digest w" by auto
    moreover then have "pv_revision v = pv_revision w" using decimal_value_decimal by (metis word_unat_eq_iff)
    ultimately show ?thesis using pq by (simp add: role_profile_provenance.equality)
  next
    fix w assume "p = None" "q = Some w"
    with assms(3) have "set ''unknown'' = set (provenance_identity (Some w))" by (simp add: provenance_identity_def)
    with un show ?thesis by (simp add: provenance_identity_def) blast
  next
    fix v assume "p = Some v" "q = None"
    with assms(3) have "set ''unknown'' = set (provenance_identity (Some v))" by (simp add: provenance_identity_def)
    with un show ?thesis by (simp add: provenance_identity_def) blast
  qed simp
qed


definition identity_ok :: "need_cache_identity \<Rightarrow> bool" where
  "identity_ok i \<longleftrightarrow> need_key_new (ni_need_key i) = Ok (ni_need_key i) \<and> provenance_ok (ni_provenance i)"

lemma key_no_lf: "need_key_new k = Ok k \<Longrightarrow> LF \<notin> set k"
  by (auto simp: need_key_new_Ok need_key_byte_def ascii_defs)

lemma provenance_no_lf: "provenance_ok p \<Longrightarrow> LF \<notin> set (provenance_identity p)"
proof (cases p)
  case (Some v)
  assume "provenance_ok p"
  with Some have "LF \<notin> set (pv_profile_id v)"
    by (auto simp: provenance_ok_def is_ok_iff role_profile_id_new_Ok need_key_byte_def ascii_defs)
  moreover have "LF \<notin> set (decimal n)" for n using decimal_digits [of LF n] by (auto simp: ascii_defs)
  ultimately show ?thesis using digest_string_plain by (simp add: provenance_identity_def Some)
qed (simp add: provenance_identity_def)

text \<open>
  The cache keys pin what they identify. Two well-formed identities with one cache digest are the same identity,
  and with one logical digest they agree in everything except the source snapshot, so a logical hit with another
  snapshot is exactly a stale entry; both up to a collision of the two hashed texts.
\<close>

theorem cache_identity_pins:
  assumes "identity_ok i" "identity_ok j"
    and "\<not> collision blake3 (as_bytes (cache_identity_text i)) (as_bytes (cache_identity_text j))"
    and "\<not> collision blake3 (as_bytes (cache_logical_text i)) (as_bytes (cache_logical_text j))"
  shows "(cache_identity_digest blake3 i = cache_identity_digest blake3 j \<longleftrightarrow> i = j) \<and>
    (cache_logical_digest blake3 i = cache_logical_digest blake3 j \<longleftrightarrow> i\<lparr>ni_source := ni_source j\<rparr> = j)"
proof
  note lf = key_no_lf provenance_no_lf digest_string_plain
  have i: "need_key_new (ni_need_key i) = Ok (ni_need_key i)" "provenance_ok (ni_provenance i)"
    and j: "need_key_new (ni_need_key j) = Ok (ni_need_key j)" "provenance_ok (ni_provenance j)"
    using assms by (auto simp: identity_ok_def)
  have logical: "i\<lparr>ni_source := ni_source j\<rparr> = j" if "cache_logical_text i = cache_logical_text j"
  proof -
    from that i j have "[''needle-cache-logical'', digest_to_string (ni_repository i), digest_to_string (ni_prompt_profile i),
        digest_to_string (ni_route i), digest_to_string (ni_preset i), ni_need_key i, digest_to_string (ni_request i),
        digest_to_string (ni_worker i), digest_to_string (ni_schema i), provenance_identity (ni_provenance i)] =
      [''needle-cache-logical'', digest_to_string (ni_repository j), digest_to_string (ni_prompt_profile j),
        digest_to_string (ni_route j), digest_to_string (ni_preset j), ni_need_key j, digest_to_string (ni_request j),
        digest_to_string (ni_worker j), digest_to_string (ni_schema j), provenance_identity (ni_provenance j)]"
      unfolding cache_logical_text_def by (intro unlines_inj) (simp_all add: lf)
    then show ?thesis using provenance_identity_inj [OF i(2) j(2)] by (intro need_cache_identity.equality) simp_all
  qed
  have identity: "i = j" if "cache_identity_text i = cache_identity_text j"
  proof -
    from that i j have "[''needle-cache-identity'', digest_to_string (ni_repository i), digest_to_string (ni_source i),
        digest_to_string (ni_prompt_profile i), digest_to_string (ni_route i), digest_to_string (ni_preset i), ni_need_key i,
        digest_to_string (ni_request i), digest_to_string (ni_worker i), digest_to_string (ni_schema i), provenance_identity (ni_provenance i)] =
      [''needle-cache-identity'', digest_to_string (ni_repository j), digest_to_string (ni_source j),
        digest_to_string (ni_prompt_profile j), digest_to_string (ni_route j), digest_to_string (ni_preset j), ni_need_key j,
        digest_to_string (ni_request j), digest_to_string (ni_worker j), digest_to_string (ni_schema j), provenance_identity (ni_provenance j)]"
      unfolding cache_identity_text_def by (intro unlines_inj) (simp_all add: lf)
    then show ?thesis using provenance_identity_inj [OF i(2) j(2)] by (intro need_cache_identity.equality) simp_all
  qed
  show "cache_identity_digest blake3 i = cache_identity_digest blake3 j \<longleftrightarrow> i = j"
    using assms(3) identity by (auto simp: cache_identity_digest_def collision_def)
  show "cache_logical_digest blake3 i = cache_logical_digest blake3 j \<longleftrightarrow> i\<lparr>ni_source := ni_source j\<rparr> = j"
  proof
    assume "cache_logical_digest blake3 i = cache_logical_digest blake3 j"
    with assms(4) show "i\<lparr>ni_source := ni_source j\<rparr> = j" by (intro logical) (simp add: cache_logical_digest_def collision_def)
  next
    assume "i\<lparr>ni_source := ni_source j\<rparr> = j"
    then have "cache_logical_text j = cache_logical_text (i\<lparr>ni_source := ni_source j\<rparr>)" by simp
    then show "cache_logical_digest blake3 i = cache_logical_digest blake3 j" by (simp add: cache_logical_digest_def cache_logical_text_def)
  qed
qed

definition demo_identity :: need_cache_identity where
  "demo_identity = \<lparr>ni_repository = Digest [1], ni_source = Digest [2], ni_prompt_profile = Digest [3], ni_route = Digest [4],
     ni_preset = Digest [5], ni_need_key = ''locate'', ni_request = Digest [6], ni_worker = Digest [7], ni_schema = Digest [8],
     ni_provenance = None\<rparr>"

lemma demo_key [simp]: "need_key_new ''locate'' = Ok ''locate''" "need_key_new ''trace'' = Ok ''trace''"
  by code_simp+

theorem cache_identity_pins_witness:
  "cache_identity_digest Digest demo_identity \<noteq> cache_identity_digest Digest (demo_identity\<lparr>ni_source := Digest [9]\<rparr>) \<and>
   cache_logical_digest Digest demo_identity = cache_logical_digest Digest (demo_identity\<lparr>ni_source := Digest [9]\<rparr>)"
  using cache_identity_pins [of demo_identity "demo_identity\<lparr>ni_source := Digest [9]\<rparr>" Digest]
  by (simp add: collision_def identity_ok_def provenance_ok_def demo_identity_def)

text \<open>The text of a profile is read back from its end: the keys are the lines after the last empty line.\<close>

lemma double_lf_unlines: "\<forall>l \<in> set ls. l \<noteq> [] \<and> LF \<notin> set l \<Longrightarrow> \<not> str_contains [LF, LF] (LF # unlines ls)"
proof (induction ls)
  case (Cons l ls)
  from Cons.prems obtain c x where l: "l = c # x" "c \<noteq> LF" "LF \<notin> set x" by (cases l) auto
  have "str_contains [LF, LF] (x @ y) \<Longrightarrow> str_contains [LF, LF] y" for y using l(3) by (induction x) auto
  from this [of "LF # unlines ls"] Cons l show ?case by (auto simp: unlines_def)
qed (simp add: unlines_def)

lemma last_double_lf:
  assumes "t @ LF # LF # a = u @ LF # LF # b" "\<not> str_contains [LF, LF] (LF # a)" "\<not> str_contains [LF, LF] (LF # b)"
  shows "t = u \<and> a = b"
proof -
  have one: "t = u" if "t = u @ w" "w @ LF # LF # a = LF # LF # b" "\<not> str_contains [LF, LF] (LF # b)" for t u w a b
  proof (cases w)
    case (Cons x w')
    with that have w: "w' @ LF # LF # a = LF # b" by simp
    then have "str_contains [LF, LF] (LF # b)" unfolding str_contains_iff by (metis append_Cons append_Nil)
    with that(3) show ?thesis by contradiction
  qed (use that in simp)
  from assms(1) obtain w where "t = u @ w \<and> w @ LF # LF # a = LF # LF # b \<or> u = t @ w \<and> w @ LF # LF # b = LF # LF # a"
    unfolding append_eq_append_conv2 by metis
  then have "t = u" using one assms(2,3) by metis
  with assms(1) show ?thesis by simp
qed

text \<open>
  A prompt profile depends on the set of its route keys and on its normalised text only, and its definition digest
  pins both: profiles built from valid keys have one digest exactly when the key sets and the trimmed,
  line-ending-normalised texts agree (up to a collision of the two hashed texts).
\<close>

theorem prompt_profile_pins:
  assumes "\<forall>k \<in> set ks \<union> set ls. need_key_new k = Ok k"
    and "\<not> collision blake3 (as_bytes (canonical_profile_bytes (trim (normalize_line_endings t)) (sort_dedup ks)))
      (as_bytes (canonical_profile_bytes (trim (normalize_line_endings u)) (sort_dedup ls)))"
  shows "pf_definition (prompt_profile_new blake3 ks t) = pf_definition (prompt_profile_new blake3 ls u) \<longleftrightarrow>
    set ks = set ls \<and> trim (normalize_line_endings t) = trim (normalize_line_endings u)"
    (is "?l \<longleftrightarrow> ?r")
proof
  assume ?l
  let ?t = "trim (normalize_line_endings t)" and ?u = "trim (normalize_line_endings u)"
  from \<open>?l\<close> assms(2) have "?t @ LF # LF # unlines (''route-keys'' # sort_dedup ks) = ?u @ LF # LF # unlines (''route-keys'' # sort_dedup ls)"
    by (simp add: prompt_profile_new_def Let_def collision_def canonical_profile_bytes_def unlines_def)
  moreover have "\<forall>l \<in> set (''route-keys'' # sort_dedup ms). l \<noteq> [] \<and> LF \<notin> set l" if "\<forall>k \<in> set ms. need_key_new k = Ok k" for ms
    using that key_no_lf by (auto simp: need_key_new_Ok)
  ultimately have eq: "?t = ?u" "unlines (''route-keys'' # sort_dedup ks) = unlines (''route-keys'' # sort_dedup ls)"
    using last_double_lf double_lf_unlines assms(1) by (metis UnCI)+
  from unlines_inj [OF eq(2)] have "sort_dedup ks = sort_dedup ls" using assms(1) key_no_lf by auto
  with eq(1) show ?r by (simp add: sort_dedup_eq_iff)
next
  assume ?r
  then have "sort_dedup ks = sort_dedup ls" by (simp add: sort_dedup_eq_iff)
  with \<open>?r\<close> show ?l by (simp add: prompt_profile_new_def)
qed


theorem prompt_profile_pins_witness:
  "pf_definition (prompt_profile_new Digest [''trace'', ''locate'', ''trace''] ''a'') =
   pf_definition (prompt_profile_new Digest [''locate'', ''trace''] ''a'')"
  using prompt_profile_pins [of "[''trace'', ''locate'', ''trace'']" "[''locate'', ''trace'']" Digest "''a''" "''a''"]
  by (auto simp: collision_def)

section \<open>The default profile\<close>

text \<open>
  The default text holds no carriage return and neither begins nor ends with white space, so that building the
  profile keeps it as it is; and it lists the configured routes itself, so that they are not listed twice.
\<close>

lemma protocol_head_plain: "list_all (\<lambda>c. c \<noteq> CR) protocol_head" "hd protocol_head = CHR ''N''" "protocol_head \<noteq> []"
  by code_simp+

lemma protocol_tail_plain: "list_all (\<lambda>c. c \<noteq> CR) protocol_tail" "protocol_tail \<noteq> []" "last protocol_tail = CHR ''.''"
  by code_simp+


lemma words_plain: "(\<And>w. w \<in> set ws \<Longrightarrow> CR \<notin> set w) \<Longrightarrow> CR \<notin> set (words_after ws)"
  by (auto simp: words_after_def)

lemma kind_plain: "CR \<notin> set (subject_kind_str k)" "CR \<notin> set (predicate_str p)"
  by (cases k; simp) (cases p; simp)

lemma join_plain: "CR \<notin> set sep \<Longrightarrow> (\<And>w. w \<in> set ws \<Longrightarrow> CR \<notin> set w) \<Longrightarrow> CR \<notin> set (join sep ws)"
  by (induction sep ws rule: join.induct) auto

lemma obligation_plain:
  "CR \<notin> set requirement \<Longrightarrow> (\<And>f. f \<in> set (oe_facets ob) \<Longrightarrow> CR \<notin> set (fc_key f) \<and> CR \<notin> set (fc_value f)) \<Longrightarrow>
   CR \<notin> set (write_obligation requirement ob)"
  by (auto simp: write_obligation_def kind_plain)

lemma predicate_lines_plain: "c \<in> set (built_in_predicate_contracts blake3) \<Longrightarrow> CR \<notin> set (predicate_contract_line c)"
  unfolding built_in_predicate_contracts_def predicate_contract_new_def
  by (auto simp: predicate_contract_line_def kind_plain words_after_def)

lemma route_obligations_plain:
  "c \<in> set (built_in_route_contracts blake3) \<Longrightarrow> ob \<in> set (rc_required c) \<union> set (rc_preferred c) \<Longrightarrow> f \<in> set (oe_facets ob) \<Longrightarrow>
   CR \<notin> set (fc_key f) \<and> CR \<notin> set (fc_value f)"
  unfolding built_in_route_contracts_def route_contract_new_def by (auto simp: expression_def)

lemma route_text_plain: "CR \<notin> set key \<Longrightarrow> CR \<notin> set (route_contract_text (built_in_route_contracts blake3) key)"
proof -
  assume k: "CR \<notin> set key"
  show ?thesis
  proof (cases "List.find (\<lambda>c. rc_route c = key) (built_in_route_contracts blake3)")
    case None
    with k show ?thesis by (simp add: route_contract_text_def)
  next
    case (Some c)
    then have "c \<in> set (built_in_route_contracts blake3)" by (auto simp: find_Some_iff in_set_conv_nth)
    with route_obligations_plain have "CR \<notin> set (write_obligation ''required'' ob)" if "ob \<in> set (rc_required c)" for ob
      using that by (intro obligation_plain) auto
    moreover from \<open>c \<in> _\<close> route_obligations_plain have "CR \<notin> set (write_obligation ''preferred'' ob)" if "ob \<in> set (rc_preferred c)" for ob
      using that by (intro obligation_plain) auto
    ultimately show ?thesis using k by (auto simp: route_contract_text_def Some words_after_def kind_plain)
  qed
qed

lemma key_no_cr: "need_key_new k = Ok k \<Longrightarrow> CR \<notin> set k"
  by (auto simp: need_key_new_Ok need_key_byte_def ascii_defs)

theorem default_profile_text:
  assumes "\<forall>k \<in> set keys. need_key_new k = Ok k"
  shows "rendered_context_owned (default_profile blake3 keys) = default_protocol_text blake3 (sort_dedup keys) \<and>
    (\<forall>k \<in> set keys. str_contains (''- '' @ k @ [LF]) (rendered_context_owned (default_profile blake3 keys)))"
proof -
  define ks where "ks = sort_dedup keys"
  define t where "t = default_protocol_text blake3 ks"
  define mid where "mid = sp # join '' | '' (map subject_kind_str (remdups_adj (sort_key subject_kind_tag (concat (map pc_subject_kinds (built_in_predicate_contracts blake3)))))) @
         LF # LF # ''Predicate contracts:'' @ LF # concat (map predicate_contract_line (built_in_predicate_contracts blake3)) @ [LF]"
  define routes where "routes = concat (map (route_contract_text (built_in_route_contracts blake3)) ks)"
  have t: "t = protocol_head @ mid @ (''Configured route contracts:'' @ [LF]) @ routes @ protocol_tail"
    by (simp add: t_def default_protocol_text_def Let_def mid_def routes_def)
  have ks: "\<forall>k \<in> set ks. CR \<notin> set k" using assms key_no_cr by (auto simp: ks_def)
  have "CR \<notin> set mid"
    unfolding mid_def using predicate_lines_plain join_plain [of "'' | ''" "map subject_kind_str _"] kind_plain by (auto simp: image_iff)
  moreover have "CR \<notin> set routes" using ks route_text_plain by (auto simp: routes_def)
  ultimately have "CR \<notin> set t" using protocol_head_plain(1) protocol_tail_plain(1) by (auto simp: t list_all_iff)
  then have n: "normalize_line_endings t = t" by (rule normalize_id)
  have "t \<noteq> []" "hd t = CHR ''N''" "last t = CHR ''.''" using protocol_head_plain protocol_tail_plain by (simp_all add: t)
  then have "trim t = t" by (intro trim_visible) (simp_all add: visible_def char_code_def)
  with n have p: "pf_protocol_text (default_profile blake3 keys) = t" "pf_route_keys (default_profile blake3 keys) = ks"
    by (simp_all add: default_profile_def prompt_profile_new_def Let_def t_def ks_def sort_dedup_id)
  have "str_contains (''Configured route contracts:'' @ [LF]) t" unfolding t str_contains_iff by (metis append.assoc)
  then have r: "rendered_context_owned (default_profile blake3 keys) = t" by (simp add: rendered_context_owned_def p)
  moreover have "str_contains (''- '' @ k @ [LF]) t" if "k \<in> set keys" for k
  proof -
    from that have "k \<in> set ks" by (simp add: ks_def)
    then obtain a b where "ks = a @ k # b" by (auto simp: in_set_conv_decomp)
    then have "\<exists>x y. routes = x @ (''- '' @ k @ [LF]) @ y" by (simp add: routes_def route_contract_text_def) blast
    then have "str_contains (''- '' @ k @ [LF]) routes" by (simp add: str_contains_iff)
    then show ?thesis unfolding t by (intro str_contains_append_right str_contains_append_left)
  qed
  ultimately show ?thesis by (simp add: t_def ks_def)
qed

end
