(* ===== verification/Semantic_Artifact.thy ===== *)
theory Semantic_Artifact
  imports Claim_Proof Routing Commands "HOL-Library.Multiset"
begin

text \<open>
  Artifacts of \<^verbatim>\<open>crates/needle-core/src/artifact.rs\<close>: contracts, requests and their identities, observation traces,
  the typed artifacts a worker returns and their content identity, and validation certificates with the binding
  checks of \<^verbatim>\<open>needle-runtime/src/semantic_validation.rs\<close> that the lifecycle store relies on. A \<open>serde_json::Value\<close> is a
  type parameter.
\<close>

section \<open>Contracts and requests\<close>

definition ARTIFACT_RESULT_SCHEMA_ID :: string where "ARTIFACT_RESULT_SCHEMA_ID = ''needle.artifact-result/1''"

datatype cache_scope = SnapshotExact | WorktreeSemantic

text \<open>The derived \<open>Debug\<close> of a scope is its name.\<close>

fun cache_scope_debug :: "cache_scope \<Rightarrow> string" where
  "cache_scope_debug SnapshotExact = ''SnapshotExact''"
| "cache_scope_debug WorktreeSemantic = ''WorktreeSemantic''"

record artifact_contract =
  ac_id :: string
  ac_revision :: u32
  ac_kind :: string
  ac_schema_id :: string
  ac_cache_scope :: cache_scope
  ac_definition :: digest

definition artifact_contract_new ::
    "(u8 list \<Rightarrow> digest) \<Rightarrow> string \<Rightarrow> u32 \<Rightarrow> string \<Rightarrow> cache_scope \<Rightarrow> artifact_contract" where
  "artifact_contract_new blake3 i revision kind scope =
     \<lparr>ac_id = i, ac_revision = revision, ac_kind = kind, ac_schema_id = ARTIFACT_RESULT_SCHEMA_ID, ac_cache_scope = scope,
      ac_definition = blake3 (as_bytes (unlines [''needle-artifact-contract'', i, decimal (unat revision), kind,
        ARTIFACT_RESULT_SCHEMA_ID, cache_scope_debug scope]))\<rparr>"

definition artifact_contract_semantic ::
    "(u8 list \<Rightarrow> digest) \<Rightarrow> string \<Rightarrow> u32 \<Rightarrow> string \<Rightarrow> cache_scope \<Rightarrow> artifact_contract" where
  "artifact_contract_semantic blake3 i revision kind scope =
     \<lparr>ac_id = i, ac_revision = revision, ac_kind = kind, ac_schema_id = SEMANTIC_ARTIFACT_RESULT_SCHEMA_ID, ac_cache_scope = scope,
      ac_definition = hasher_finish blake3 (field_str SEMANTIC_ARTIFACT_RESULT_SCHEMA_ID (field_str kind (field_u32 revision
        (field_str i (hasher_new ''artifact-contract'')))))\<rparr>"

record artifact_request =
  aq_contract_id :: string
  aq_contract_revision :: u32
  aq_repository :: digest
  aq_source :: digest
  aq_route_key :: string
  aq_normalized_request :: string
  aq_fragment :: "digest option"
  aq_inputs :: "digest list"

definition artifact_request_id :: "(u8 list \<Rightarrow> digest) \<Rightarrow> artifact_request \<Rightarrow> digest" where
  "artifact_request_id blake3 r = blake3 (as_bytes (unlines
     [''needle-artifact-request'', aq_contract_id r, decimal (unat (aq_contract_revision r)), digest_to_string (aq_repository r),
      digest_to_string (aq_source r), aq_route_key r, normalize_line_endings (aq_normalized_request r),
      join [CHR 0x0A] (map digest_to_string (sort (aq_inputs r)))]))"

definition artifact_logical_id :: "(u8 list \<Rightarrow> digest) \<Rightarrow> artifact_request \<Rightarrow> digest" where
  "artifact_logical_id blake3 r = artifact_request_id blake3 (r\<lparr>aq_source := blake3 (as_bytes ''semantic-scope'')\<rparr>)"

definition semantic_id_with_source :: "(u8 list \<Rightarrow> digest) \<Rightarrow> artifact_request \<Rightarrow> digest \<Rightarrow> digest" where
  "semantic_id_with_source blake3 r source =
     (let bounded = length (aq_inputs r) \<le> MAX_NEED_INPUTS;
          inputs = (if bounded then sort (aq_inputs r) else aq_inputs r);
          h = field_normalized_lines (aq_normalized_request r) (field_digest source (field_digest (aq_repository r)
            (field_u32 (aq_contract_revision r) (field_str (aq_contract_id r) (hasher_new ''artifact-request'')))));
          h = (case aq_fragment r of Some fragment \<Rightarrow> field_digest fragment (field_u8 1 h) | None \<Rightarrow> field_u8 0 h);
          h = field_u8 (if bounded then 1 else 0) h
      in hasher_finish blake3 (fold field_digest inputs h))"

definition semantic_request_id :: "(u8 list \<Rightarrow> digest) \<Rightarrow> artifact_request \<Rightarrow> digest" where
  "semantic_request_id blake3 r = semantic_id_with_source blake3 r (aq_source r)"

definition semantic_logical_id :: "(u8 list \<Rightarrow> digest) \<Rightarrow> artifact_request \<Rightarrow> digest" where
  "semantic_logical_id blake3 r = semantic_id_with_source blake3 r (blake3 (as_bytes ''semantic-scope''))"

section \<open>Manifests and traces\<close>

record dependency_manifest =
  dm_scope :: cache_scope
  dm_complete :: bool
  dm_dependencies :: "dependency list"
  dm_gaps :: "string list"

definition supports_worktree_semantic :: "dependency_manifest \<Rightarrow> bool" where
  "supports_worktree_semantic m \<longleftrightarrow>
     dm_scope m = WorktreeSemantic \<and> dm_complete m \<and> dm_gaps m = [] \<and> dm_dependencies m \<noteq> [] \<and>
     (\<forall>d \<in> set (dm_dependencies m). dp_claims d \<noteq> [])"

record worker_observation_trace =
  ot_observed_files :: "string list"
  ot_gaps :: "string list"

definition trace_merge :: "worker_observation_trace \<Rightarrow> worker_observation_trace \<Rightarrow> worker_observation_trace" where
  "trace_merge self other =
     \<lparr>ot_observed_files = sort_dedup (ot_observed_files self @ ot_observed_files other),
      ot_gaps = sort_dedup (ot_gaps self @ ot_gaps other)\<rparr>"

definition trace_is_complete :: "worker_observation_trace \<Rightarrow> bool" where
  "trace_is_complete t \<longleftrightarrow> ot_gaps t = []"

section \<open>Typed artifacts\<close>

record semantic_test_plan =
  sp_runner :: string
  sp_argv :: "string list"
  sp_cwd_relative :: string
  sp_identifiers :: "string list"
  sp_selection :: string
  sp_evidence_paths :: "string list"

datatype semantic_worker_artifact =
    CodeLocation "semantic_location list" "string list"
  | BehaviorTrace string "semantic_flow_step list" "string list"
  | TestPlanArtifact semantic_test_plan

fun worker_artifact_kind :: "semantic_worker_artifact \<Rightarrow> string" where
  "worker_artifact_kind (CodeLocation locations gaps) = code_location_kind"
| "worker_artifact_kind (BehaviorTrace scenario steps gaps) = behavior_trace_kind"
| "worker_artifact_kind (TestPlanArtifact p) = test_plan_kind"

definition location_key :: "semantic_location \<Rightarrow> string \<times> string option \<times> u8 \<times> u64 option \<times> u64 option" where
  "location_key l = (lo_path l, lo_symbol l, location_role_tag (lo_role l), lo_start l, lo_end l)"

definition hash_sorted_strings :: "nat \<Rightarrow> string list \<Rightarrow> hasher \<Rightarrow> hasher option" where
  "hash_sorted_strings n values h = (if n < length values then None else Some (fold field_str (sort values) h))"

fun artifact_content_fields :: "semantic_worker_artifact \<Rightarrow> hasher \<Rightarrow> hasher option" where
  "artifact_content_fields (CodeLocation locations gaps) h =
     (if 8 < length locations then None
      else hash_sorted_strings 8 gaps (fold hash_location (sort_key location_key locations) (field_u8 0 h)))"
| "artifact_content_fields (BehaviorTrace scenario steps gaps) h =
     (if 16 < length steps then None
      else hash_sorted_strings 8 gaps (fold hash_flow_step steps (field_str scenario (field_u8 1 h))))"
| "artifact_content_fields (TestPlanArtifact p) h =
     (if 16 < length (sp_argv p) then None
      else Option.bind (hash_sorted_strings 8 (sp_identifiers p) (field_str (sp_cwd_relative p)
             (fold field_str (sp_argv p) (field_str (sp_runner p) (field_u8 2 h)))))
        (\<lambda>h. hash_sorted_strings 8 (sp_evidence_paths p) (field_str (sp_selection p) h)))"

definition canonical_artifact_id :: "(u8 list \<Rightarrow> digest) \<Rightarrow> digest \<Rightarrow> semantic_worker_artifact \<Rightarrow> digest option" where
  "canonical_artifact_id blake3 contract_definition a =
     map_option (hasher_finish blake3) (artifact_content_fields a (field_digest contract_definition (hasher_new ''semantic-artifact'')))"

record validation_record =
  vl_validator :: string
  vl_revision :: u32
  vl_status :: string
  vl_evidence :: digest
  vl_validated :: u64

record 'v artifact =
  at_id :: digest
  at_request_id :: digest
  at_contract :: artifact_contract
  at_payload :: 'v
  at_manifest :: dependency_manifest
  at_validations :: "validation_record list"
  at_created :: u64

definition artifact_compute_id ::
    "(u8 list \<Rightarrow> digest) \<Rightarrow> ('v \<Rightarrow> u8 list option) \<Rightarrow> digest \<Rightarrow> artifact_contract \<Rightarrow> 'v \<Rightarrow> digest option" where
  "artifact_compute_id blake3 to_vec request_id contract payload =
     map_option (\<lambda>bytes. blake3 (as_bytes (unlines [''needle-artifact'', digest_to_string request_id,
       digest_to_string (ac_definition contract), digest_to_string (blake3 bytes)]))) (to_vec payload)"

definition artifact_content_id ::
    "(u8 list \<Rightarrow> digest) \<Rightarrow> ('v \<Rightarrow> u8 list option) \<Rightarrow> artifact_contract \<Rightarrow> 'v \<Rightarrow> digest option" where
  "artifact_content_id blake3 to_vec contract payload =
     map_option (\<lambda>bytes. blake3 (as_bytes ''needle-semantic-artifact'' @ [0] @ dg_bytes (ac_definition contract) @ bytes)) (to_vec payload)"

section \<open>Validation certificates\<close>

record coverage_entry =
  cg_obligation :: obligation
  cg_evidence :: "string list"

record coverage_manifest =
  cm_entries :: "coverage_entry list"
  cm_world :: semantic_world
  cm_dependency_manifest :: digest

datatype test_plan_evidence_status = Located | Executed

fun evidence_status_tag :: "test_plan_evidence_status \<Rightarrow> u8" where
  "evidence_status_tag Located = 0"
| "evidence_status_tag Executed = 1"

record validation_certificate =
  vf_id :: digest
  vf_artifact :: digest
  vf_inputs :: "digest list"
  vf_evidence_ids :: "string list"
  vf_test_plan_evidence :: "test_plan_evidence_status option"
  vf_coverage :: coverage_manifest
  vf_validator :: digest
  vf_dependency_checks :: digest
  vf_issued :: u64

definition coverage_entry_fields :: "coverage_entry \<Rightarrow> hasher \<Rightarrow> hasher" where
  "coverage_entry_fields e h = fold field_str (cg_evidence e) (field_digest (ob_id (cg_obligation e)) h)"

definition validation_certificate_id ::
    "(u8 list \<Rightarrow> digest) \<Rightarrow> digest \<Rightarrow> digest list \<Rightarrow> string list \<Rightarrow> coverage_manifest \<Rightarrow> digest \<Rightarrow>
     test_plan_evidence_status option \<Rightarrow> digest" where
  "validation_certificate_id blake3 artifact inputs evidence_ids coverage validator status =
     (let h = fold field_str evidence_ids (fold field_digest inputs (field_digest validator (field_digest artifact
            (hasher_new ''artifact-validation-certificate''))));
          h = (case status of Some s \<Rightarrow> field_u8 (evidence_status_tag s) h | None \<Rightarrow> h);
          h = field_digest (cm_dependency_manifest coverage) (field_digest (world_id blake3 (cm_world coverage)) h)
      in hasher_finish blake3 (fold coverage_entry_fields (cm_entries coverage) h))"

definition certificate_structurally_canonical :: "(u8 list \<Rightarrow> digest) \<Rightarrow> validation_certificate \<Rightarrow> bool" where
  "certificate_structurally_canonical blake3 c \<longleftrightarrow>
     vf_dependency_checks c = cm_dependency_manifest (vf_coverage c) \<and>
     vf_id c = validation_certificate_id blake3 (vf_artifact c) (vf_inputs c) (vf_evidence_ids c) (vf_coverage c)
       (vf_validator c) (vf_test_plan_evidence c)"

text \<open>A declared plan certifies only the test-plan artifact with the same canonical command and directory; the error is a text.\<close>

definition parent_owned_binding :: "semantic_worker_artifact \<Rightarrow> test_plan \<Rightarrow> bool" where
  "parent_owned_binding a plan \<longleftrightarrow>
     (case a of
        TestPlanArtifact p \<Rightarrow>
          (case sp_identifiers p of
             [identifier] \<Rightarrow>
               (case (from_canonical_parts (sp_runner p) (sp_argv p) identifier, test_command_of plan) of
                  (Ok worker_command, Ok declared_command) \<Rightarrow>
                    worker_command = declared_command \<and> sp_cwd_relative p = tp_cwd_relative plan
                | _ \<Rightarrow> False)
           | _ \<Rightarrow> False)
      | _ \<Rightarrow> False)"

section \<open>Identities do not depend on order\<close>

lemma sort_key_inj_mset:
  fixes k :: "'a \<Rightarrow> 'b::linorder"
  assumes "inj k" "mset xs = mset ys"
  shows "sort_key k xs = sort_key k ys"
proof -
  have "map k (sort_key k zs) = sort (map k zs)" for zs by (rule properties_for_sort [symmetric]) simp_all
  moreover have "sort (map k xs) = sort (map k ys)" using assms(2) by (intro properties_for_sort) simp_all
  ultimately have "map k (sort_key k xs) = map k (sort_key k ys)" by simp
  then show ?thesis using assms(1) by (simp add: inj_map_eq_map)
qed

lemma location_role_tag_inj [simp]: "location_role_tag r = location_role_tag q \<longleftrightarrow> r = q"
  by (cases r; cases q) simp_all

lemma location_key_inj: "inj location_key"
  by (auto simp: inj_def location_key_def intro: semantic_location.equality)

lemma hash_sorted_strings_mset: "mset xs = mset ys \<Longrightarrow> hash_sorted_strings n xs = hash_sorted_strings n ys"
  using properties_for_sort [of "sort ys" xs] by (auto simp: hash_sorted_strings_def fun_eq_iff dest: mset_eq_length)

text \<open>Two artifacts with the same content, read as unordered collections where the order carries no meaning.\<close>

fun same_content :: "semantic_worker_artifact \<Rightarrow> semantic_worker_artifact \<Rightarrow> bool" where
  "same_content (CodeLocation ls gs) (CodeLocation ls' gs') \<longleftrightarrow> mset ls = mset ls' \<and> mset gs = mset gs'"
| "same_content (BehaviorTrace s ss gs) (BehaviorTrace s' ss' gs') \<longleftrightarrow> s = s' \<and> ss = ss' \<and> mset gs = mset gs'"
| "same_content (TestPlanArtifact p) (TestPlanArtifact q) \<longleftrightarrow>
     sp_runner p = sp_runner q \<and> sp_argv p = sp_argv q \<and> sp_cwd_relative p = sp_cwd_relative q \<and> sp_selection p = sp_selection q \<and>
     mset (sp_identifiers p) = mset (sp_identifiers q) \<and> mset (sp_evidence_paths p) = mset (sp_evidence_paths q)"
| "same_content _ _ \<longleftrightarrow> False"

text \<open>
  The identity of a worker artifact depends on its content only: listing the locations, gaps, identifiers or evidence
  paths in another order gives the same artifact id, and an artifact has no id exactly when one of its lists exceeds
  the bound of its field.
\<close>

theorem artifact_id_order_free:
  "(same_content a b \<longrightarrow> canonical_artifact_id blake3 c a = canonical_artifact_id blake3 c b) \<and>
   (canonical_artifact_id blake3 c a = None \<longleftrightarrow>
     (case a of
        CodeLocation ls gs \<Rightarrow> 8 < length ls \<or> 8 < length gs
      | BehaviorTrace s ss gs \<Rightarrow> 16 < length ss \<or> 8 < length gs
      | TestPlanArtifact p \<Rightarrow> 16 < length (sp_argv p) \<or> 8 < length (sp_identifiers p) \<or> 8 < length (sp_evidence_paths p)))"
proof
  have "artifact_content_fields a h = artifact_content_fields b h" if "same_content a b" for h
    using that
  proof (cases "(a, b)" rule: same_content.cases)
    case (1 ls gs ls' gs')
    with that have m: "mset ls = mset ls'" "mset gs = mset gs'" by simp_all
    have "length ls = length ls'" "sort_key location_key ls = sort_key location_key ls'"
      by (rule mset_eq_length [OF m(1)], rule sort_key_inj_mset [OF location_key_inj m(1)])
    with 1 show ?thesis by (simp add: hash_sorted_strings_mset [OF m(2)])
  next
    case (2 s ss gs s' ss' gs')
    with that have "mset gs = mset gs'" by simp
    from 2 that show ?thesis by (simp add: hash_sorted_strings_mset [OF \<open>mset gs = mset gs'\<close>])
  next
    case (3 p q)
    with that have m: "mset (sp_identifiers p) = mset (sp_identifiers q)" "mset (sp_evidence_paths p) = mset (sp_evidence_paths q)" by simp_all
    from 3 that show ?thesis by (simp add: hash_sorted_strings_mset [OF m(1)] hash_sorted_strings_mset [OF m(2)])
  qed simp_all
  then show "same_content a b \<longrightarrow> canonical_artifact_id blake3 c a = canonical_artifact_id blake3 c b"
    by (simp add: canonical_artifact_id_def)
  show "canonical_artifact_id blake3 c a = None \<longleftrightarrow>
     (case a of
        CodeLocation ls gs \<Rightarrow> 8 < length ls \<or> 8 < length gs
      | BehaviorTrace s ss gs \<Rightarrow> 16 < length ss \<or> 8 < length gs
      | TestPlanArtifact p \<Rightarrow> 16 < length (sp_argv p) \<or> 8 < length (sp_identifiers p) \<or> 8 < length (sp_evidence_paths p))"
    by (cases a) (auto simp: canonical_artifact_id_def hash_sorted_strings_def)
qed

text \<open>
  The lists are hashed without their lengths: two test plans that divide one sequence of texts differently between
  arguments, directory and identifiers have one artifact id, whatever the hash.
\<close>

theorem artifact_id_ambiguous:
  "let p = \<lparr>sp_runner = ''cargo'', sp_argv = [''cargo'', ''test'', ''a''], sp_cwd_relative = ''b'', sp_identifiers = [''c''],
        sp_selection = ''representative'', sp_evidence_paths = [''d'']\<rparr>;
       q = \<lparr>sp_runner = ''cargo'', sp_argv = [''cargo'', ''test''], sp_cwd_relative = ''a'', sp_identifiers = [''b'', ''c''],
        sp_selection = ''representative'', sp_evidence_paths = [''d'']\<rparr>
   in p \<noteq> q \<and> canonical_artifact_id blake3 c (TestPlanArtifact p) = canonical_artifact_id blake3 c (TestPlanArtifact q) \<and>
      canonical_artifact_id blake3 c (TestPlanArtifact p) \<noteq> None"
proof -
  have "sort [''b'', ''c''] = [''b'', ''c'']" by simp
  then show ?thesis by (simp add: canonical_artifact_id_def hash_sorted_strings_def Let_def)
qed

text \<open>Observation traces merge as sets do, so that merging is a commutative semigroup.\<close>

lemma trace_merge_assoc: "trace_merge (trace_merge a b) c = trace_merge a (trace_merge b c)"
  by (simp add: trace_merge_def sort_dedup_eq_iff Un_assoc)

lemma trace_merge_commute: "trace_merge a b = trace_merge b a"
  by (simp add: trace_merge_def sort_dedup_eq_iff Un_commute)

interpretation traces: abel_semigroup trace_merge
  by unfold_locales (rule trace_merge_assoc, rule trace_merge_commute)

lemma trace_fold_set:
  "ot_observed_files (fold trace_merge ts t) = (if ts = [] then ot_observed_files t else sort_dedup (ot_observed_files t @ concat (map ot_observed_files ts)))"
  "ot_gaps (fold trace_merge ts t) = (if ts = [] then ot_gaps t else sort_dedup (ot_gaps t @ concat (map ot_gaps ts)))"
  by (induction ts arbitrary: t) (auto simp: trace_merge_def sort_dedup_eq_iff)

text \<open>
  Merging the traces of several workers gives the same trace in every order, it is complete exactly when every merged
  trace is, and its files are those observed by any of them, once each.
\<close>

theorem trace_merge_order_free:
  assumes "mset ts = mset us"
  shows "fold trace_merge ts t = fold trace_merge us t \<and>
    (trace_is_complete (fold trace_merge ts t) \<longleftrightarrow> (\<forall>x \<in> set (t # ts). trace_is_complete x)) \<and>
    set (ot_observed_files (fold trace_merge ts t)) = (\<Union>x \<in> set (t # ts). set (ot_observed_files x)) \<and>
    (ts \<noteq> [] \<longrightarrow> sorted_wrt (<) (ot_observed_files (fold trace_merge ts t)))"
proof -
  have sets: "set ts = set us" "ts = [] \<longleftrightarrow> us = []" using assms by (auto dest: mset_eq_setD)
  have gaps: "set (ot_gaps (fold trace_merge ts t)) = (\<Union>x \<in> set (t # ts). set (ot_gaps x))" by (auto simp: trace_fold_set)
  have "fold trace_merge ts t = fold trace_merge us t"
    using sets by (intro worker_observation_trace.equality) (simp_all add: trace_fold_set sort_dedup_eq_iff)
  moreover have "trace_is_complete (fold trace_merge ts t) \<longleftrightarrow> (\<forall>x \<in> set (t # ts). trace_is_complete x)"
  proof -
    have "trace_is_complete (fold trace_merge ts t) \<longleftrightarrow> (\<Union>x \<in> set (t # ts). set (ot_gaps x)) = {}"
      unfolding trace_is_complete_def set_empty [symmetric] gaps ..
    then show ?thesis by (simp add: trace_is_complete_def)
  qed
  moreover have "set (ot_observed_files (fold trace_merge ts t)) = (\<Union>x \<in> set (t # ts). set (ot_observed_files x))"
    by (auto simp: trace_fold_set)
  moreover have "ts \<noteq> [] \<longrightarrow> sorted_wrt (<) (ot_observed_files (fold trace_merge ts t))" by (simp add: trace_fold_set)
  ultimately show ?thesis by (intro conjI)
qed

text \<open>
  A semantic request identity does not depend on the order of at most eight input artifacts, and the logical
  identity does not depend on the source snapshot.
\<close>

theorem semantic_request_identity:
  assumes "mset xs = mset ys" "length xs \<le> 8"
  shows "semantic_request_id blake3 (r\<lparr>aq_inputs := xs\<rparr>) = semantic_request_id blake3 (r\<lparr>aq_inputs := ys\<rparr>) \<and>
    semantic_logical_id blake3 (r\<lparr>aq_inputs := xs, aq_source := s\<rparr>) = semantic_logical_id blake3 (r\<lparr>aq_inputs := ys\<rparr>)"
proof -
  have "sort xs = sort ys" using assms(1) by (intro properties_for_sort) simp_all
  moreover have "length ys \<le> 8" using assms by (metis mset_eq_length)
  ultimately show ?thesis using assms(2)
    by (simp add: semantic_request_id_def semantic_logical_id_def semantic_id_with_source_def Let_def MAX_NEED_INPUTS_def)
qed

end
