(* ===== verification/Lifecycle_Store.thy ===== *)
theory Lifecycle_Store
  imports Lifecycle_Machine Semantic_Artifact Approval Change
begin

text \<open>
  The persistent store of development lifecycles, \<^verbatim>\<open>crates/needle-runtime/src/store/lifecycles.rs\<close>: the tables and
  queries it uses with the constraints and triggers of its schema (\<^verbatim>\<open>store.rs\<close>, migration 16), and every
  operation as a function on the database. A transaction that fails leaves the database as it was. JSON texts
  have the type \<open>'j\<close>; \<open>serde_json\<close>, the encoding of a text as bytes and its length in characters are fields of a codec.
\<close>

section \<open>Tables\<close>

record 'j json_codec =
  jc_of_state :: "development_lifecycle \<Rightarrow> 'j option"
  jc_to_state :: "'j \<Rightarrow> development_lifecycle option"
  jc_of_event :: "lifecycle_event \<Rightarrow> 'j option"
  jc_to_event :: "'j \<Rightarrow> lifecycle_event option"
  jc_bytes :: "'j \<Rightarrow> u8 list"
  jc_chars :: "'j \<Rightarrow> nat"
  jc_to_artifact :: "'j \<Rightarrow> 'j artifact option"
  jc_to_worker :: "'j \<Rightarrow> semantic_worker_artifact option"
  jc_to_certificate :: "'j \<Rightarrow> validation_certificate option"
  jc_to_evidence :: "'j \<Rightarrow> command_execution_evidence option"
  jc_to_verification :: "'j \<Rightarrow> verification_artifact option"
  jc_to_request :: "'j \<Rightarrow> change_request option"

record 'j lifecycle_row =
  fw_id :: string
  fw_change :: string
  fw_source :: string
  fw_digest :: string
  fw_generation :: u64
  fw_json :: 'j
  fw_created :: u64
  fw_updated :: u64

record 'j event_row =
  ew_change :: string
  ew_type :: string
  ew_digest :: string
  ew_json :: 'j
  ew_created :: u64
  ew_sequence :: "u64 option"

record 'j change_request_row =
  qw_change :: string
  qw_source :: string
  qw_state :: string
  qw_json :: 'j
  qw_latest_patch :: u64
  qw_repair_attempted :: bool
  qw_profile_id :: "string option"
  qw_profile_revision :: "u64 option"
  qw_profile_digest :: "string option"

record profile_row =
  pw_id :: string
  pw_role :: string

record profile_state_row =
  sw_id :: string
  sw_active :: "u64 option"

record profile_revision_row =
  vw_id :: string
  vw_revision :: u64
  vw_digest :: string
  vw_activated :: "u64 option"

record 'j artifact_row =
  aw_id :: string
  aw_request :: string
  aw_format :: nat
  aw_json :: 'j

record artifact_request_row =
  rw_id :: string
  rw_source :: string

record 'j certificate_row =
  cw_id :: string
  cw_artifact :: string
  cw_json :: 'j
  cw_issued :: u64

record patch_row =
  tw_patch :: string
  tw_change :: string
  tw_revision :: u32
  tw_source :: string

record 'j evidence_row =
  xw_id :: string
  xw_json :: 'j

record 'j verification_row =
  yw_id :: string
  yw_change :: string
  yw_patch :: string
  yw_json :: 'j

record 'j store_db =
  db_lifecycles :: "'j lifecycle_row list"
  db_events :: "'j event_row list"
  db_requests :: "'j change_request_row list"
  db_profiles :: "profile_row list"
  db_profile_states :: "profile_state_row list"
  db_profile_revisions :: "profile_revision_row list"
  db_artifacts :: "'j artifact_row list"
  db_artifact_requests :: "artifact_request_row list"
  db_certificates :: "'j certificate_row list"
  db_patches :: "patch_row list"
  db_evidence :: "'j evidence_row list"
  db_verifications :: "'j verification_row list"

datatype store_error =
    StoreSql | StoreJson | StoreLifecycle lifecycle_error | LifecycleQuery string | LifecycleConflict string
  | LifecycleNotFound string | LifecycleCorruption string

definition lift_lifecycle :: "('a, lifecycle_error) result \<Rightarrow> ('a, store_error) result" where
  "lift_lifecycle r = map_err StoreLifecycle r"

text \<open>\<open>query_row(...).optional()\<close>: the first row; binding an unsigned integer fails from \<open>2^63\<close> on.\<close>

fun first_row :: "'a list \<Rightarrow> 'a option" where
  "first_row [] = None"
| "first_row (x # xs) = Some x"

definition sql_u64 :: "u64 \<Rightarrow> (unit, store_error) result" where
  "sql_u64 n = (if n < 0x8000000000000000 then Ok () else Err StoreSql)"

section \<open>Projections\<close>

record lifecycle_projection =
  lj_lifecycle :: development_lifecycle
  lj_digest :: digest

definition projection_new :: "lifecycle_env \<Rightarrow> development_lifecycle \<Rightarrow> (lifecycle_projection, store_error) result" where
  "projection_new env s =
     rbind (lift_lifecycle (lifecycle_validate env s)) (\<lambda>_. Ok \<lparr>lj_lifecycle = s, lj_digest = state_digest env s\<rparr>)"

definition query_projection_row :: "'j store_db \<Rightarrow> string \<Rightarrow> 'j lifecycle_row option" where
  "query_projection_row db change_id = first_row (filter (\<lambda>r. fw_change r = change_id) (db_lifecycles db))"

definition lifecycle_projection_in ::
    "lifecycle_env \<Rightarrow> 'j json_codec \<Rightarrow> 'j store_db \<Rightarrow> string \<Rightarrow> (lifecycle_projection option, store_error) result" where
  "lifecycle_projection_in env codec db change_id =
     (case query_projection_row db change_id of
        None \<Rightarrow> Ok None
      | Some r \<Rightarrow>
          rbind (ok_or StoreJson (jc_to_state codec (fw_json r))) (\<lambda>s.
          rbind (lift_lifecycle (lifecycle_validate env s)) (\<lambda>_.
          if dl_change_id s \<noteq> change_id \<or> digest_to_string (dl_id s) \<noteq> fw_id r \<or>
             digest_to_string (dl_source_snapshot s) \<noteq> fw_source r \<or> digest_to_string (state_digest env s) \<noteq> fw_digest r \<or>
             dl_generation s \<noteq> fw_generation r
          then Err (LifecycleCorruption change_id)
          else Ok (Some \<lparr>lj_lifecycle = s, lj_digest = state_digest env s\<rparr>))))"

section \<open>The journal\<close>

definition lifecycle_event_rows :: "'j store_db \<Rightarrow> string \<Rightarrow> 'j event_row list" where
  "lifecycle_event_rows db change_id =
     take (unat MAX_LIFECYCLE_EVENTS + 1)
       (sort_key (\<lambda>e. the (ew_sequence e)) (filter (\<lambda>e. ew_change e = change_id \<and> ew_sequence e \<noteq> None) (db_events db)))"

definition read_event ::
    "lifecycle_env \<Rightarrow> 'j json_codec \<Rightarrow> string \<Rightarrow> 'j event_row \<Rightarrow> (lifecycle_event, store_error) result" where
  "read_event env codec change_id e =
     (if digest_to_string (env_blake3 env (jc_bytes codec (ew_json e))) \<noteq> ew_digest e
      then Err (LifecycleCorruption (change_id @ '': lifecycle event payload digest''))
      else rbind (ok_or (LifecycleCorruption (change_id @ '': lifecycle event JSON'')) (jc_to_event codec (ew_json e))) (\<lambda>event.
        if ev_change_id event \<noteq> change_id then Err (LifecycleCorruption (change_id @ '': lifecycle event change identity''))
        else Ok event))"

definition lifecycle_events_in ::
    "lifecycle_env \<Rightarrow> 'j json_codec \<Rightarrow> 'j store_db \<Rightarrow> string \<Rightarrow> (lifecycle_event list, store_error) result" where
  "lifecycle_events_in env codec db change_id =
     rbind (collect_results (read_event env codec change_id) (lifecycle_event_rows db change_id)) (\<lambda>events.
     if length events > unat MAX_LIFECYCLE_EVENTS then Err (LifecycleCorruption (change_id @ '': lifecycle event count''))
     else Ok events)"

definition replay_and_events ::
    "lifecycle_env \<Rightarrow> 'j json_codec \<Rightarrow> 'j store_db \<Rightarrow> string \<Rightarrow> (lifecycle_projection \<times> lifecycle_event list, store_error) result" where
  "replay_and_events env codec db change_id =
     rbind (lifecycle_projection_in env codec db change_id) (\<lambda>found.
     rbind (ok_or (LifecycleNotFound change_id) found) (\<lambda>persisted.
     rbind (lifecycle_events_in env codec db change_id) (\<lambda>events.
     rbind (lift_lifecycle (lifecycle_replay env events)) (\<lambda>s.
     rbind (projection_new env s) (\<lambda>replayed.
     if replayed \<noteq> persisted then Err (LifecycleCorruption (change_id @ '': event replay differs from current projection''))
     else Ok (replayed, events))))))"

definition replay_lifecycle ::
    "lifecycle_env \<Rightarrow> 'j json_codec \<Rightarrow> 'j store_db \<Rightarrow> string \<Rightarrow> (lifecycle_projection, store_error) result" where
  "replay_lifecycle env codec db change_id = rbind (replay_and_events env codec db change_id) (\<lambda>(projection, _). Ok projection)"

definition replay_lifecycle_events ::
    "lifecycle_env \<Rightarrow> 'j json_codec \<Rightarrow> 'j store_db \<Rightarrow> string \<Rightarrow> (lifecycle_event list, store_error) result" where
  "replay_lifecycle_events env codec db change_id = rbind (replay_and_events env codec db change_id) (\<lambda>(_, events). Ok events)"

section \<open>Summaries\<close>

definition MAX_LIFECYCLE_LIST_LIMIT :: nat where "MAX_LIFECYCLE_LIST_LIMIT = 100"

record lifecycle_summary =
  lm_lifecycle_id :: digest
  lm_change_id :: string
  lm_source_snapshot :: digest
  lm_phase :: lifecycle_phase
  lm_status :: lifecycle_status
  lm_state_digest :: digest
  lm_generation :: u64
  lm_usage :: lifecycle_usage
  lm_terminal_outcome :: "lifecycle_terminal_outcome option"
  lm_terminal_reason :: "lifecycle_reason option"
  lm_created :: u64
  lm_updated :: u64

definition summary_from_projection :: "lifecycle_projection \<Rightarrow> lifecycle_summary" where
  "summary_from_projection p =
     (let s = lj_lifecycle p in
      \<lparr>lm_lifecycle_id = dl_id s, lm_change_id = dl_change_id s, lm_source_snapshot = dl_source_snapshot s, lm_phase = dl_phase s,
       lm_status = dl_status s, lm_state_digest = lj_digest p, lm_generation = dl_generation s, lm_usage = dl_usage s,
       lm_terminal_outcome = dl_terminal_outcome s, lm_terminal_reason = dl_terminal_reason s, lm_created = dl_created s,
       lm_updated = dl_updated s\<rparr>)"

definition list_lifecycle_summaries ::
    "lifecycle_env \<Rightarrow> 'j json_codec \<Rightarrow> 'j store_db \<Rightarrow> nat \<Rightarrow> (lifecycle_summary list, store_error) result" where
  "list_lifecycle_summaries env codec db limit =
     (if limit = 0 \<or> limit > MAX_LIFECYCLE_LIST_LIMIT then Err (LifecycleQuery ''limit must be between 1 and 100'')
      else collect_results (\<lambda>raw_id.
        rbind (map_err (\<lambda>_. LifecycleCorruption ''lifecycle list change identity'') (change_id_parse raw_id)) (\<lambda>change_id.
        rbind (replay_lifecycle env codec db change_id) (\<lambda>projection. Ok (summary_from_projection projection))))
        (take limit (sort (map fw_change (db_lifecycles db)))))"

section \<open>Writing\<close>

definition text_of_digest_size :: "string \<Rightarrow> bool" where
  "text_of_digest_size s \<longleftrightarrow> length s = 67"

text \<open>The \<open>CHECK\<close> constraints of a row of \<open>change_lifecycles\<close>.\<close>

definition row_checks :: "'j json_codec \<Rightarrow> 'j lifecycle_row \<Rightarrow> bool" where
  "row_checks codec r \<longleftrightarrow>
     text_of_digest_size (fw_id r) \<and> text_of_digest_size (fw_source r) \<and> text_of_digest_size (fw_digest r) \<and>
     jc_chars codec (fw_json r) \<le> 65536 \<and> fw_created r \<le> fw_updated r"

definition insert_lifecycle_row :: "'j json_codec \<Rightarrow> 'j lifecycle_row \<Rightarrow> 'j store_db \<Rightarrow> ('j store_db, store_error) result" where
  "insert_lifecycle_row codec r db =
     rbind (sql_u64 (fw_created r)) (\<lambda>_.
     if (\<exists>x \<in> set (db_lifecycles db). fw_change x = fw_change r \<or> fw_id x = fw_id r) \<or> \<not> row_checks codec r then Err StoreSql
     else Ok (db\<lparr>db_lifecycles := db_lifecycles db @ [r]\<rparr>))"

text \<open>
  The update of a projection: the rows with the expected digest and generation, refused by the trigger when it does
  not advance the generation by one or goes back in time; the number of rows changed is returned too.
\<close>

definition update_lifecycle_row ::
    "'j json_codec \<Rightarrow> string \<Rightarrow> string \<Rightarrow> u64 \<Rightarrow> (string \<times> u64 \<times> 'j \<times> u64) \<Rightarrow> 'j store_db \<Rightarrow>
     ('j store_db \<times> nat, store_error) result" where
  "update_lifecycle_row codec change_id expected generation new db =
     (case new of (digest, next_generation, json, now) \<Rightarrow>
        let matches = (\<lambda>r. fw_change r = change_id \<and> fw_digest r = expected \<and> fw_generation r = generation);
            change = (\<lambda>r. r\<lparr>fw_digest := digest, fw_generation := next_generation, fw_json := json, fw_updated := now\<rparr>);
            hit = filter matches (db_lifecycles db)
        in rbind (sql_u64 next_generation) (\<lambda>_. rbind (sql_u64 now) (\<lambda>_. rbind (sql_u64 generation) (\<lambda>_.
           if \<exists>r \<in> set hit. next_generation \<noteq> fw_generation r + 1 \<or> now < fw_updated r \<or> \<not> row_checks codec (change r) then Err StoreSql
           else Ok (db\<lparr>db_lifecycles := map (\<lambda>r. if matches r then change r else r) (db_lifecycles db)\<rparr>, length hit)))))"

definition insert_lifecycle_event ::
    "lifecycle_env \<Rightarrow> 'j json_codec \<Rightarrow> lifecycle_event \<Rightarrow> string \<Rightarrow> 'j store_db \<Rightarrow> ('j store_db, store_error) result" where
  "insert_lifecycle_event env codec event event_type db =
     rbind (ok_or StoreJson (jc_of_event codec event)) (\<lambda>json.
     let r = \<lparr>ew_change = ev_change_id event, ew_type = event_type, ew_digest = digest_to_string (env_blake3 env (jc_bytes codec json)),
              ew_json = json, ew_created = ev_created event, ew_sequence = Some (ev_sequence event)\<rparr> in
     rbind (sql_u64 (ev_created event)) (\<lambda>_. rbind (sql_u64 (ev_sequence event)) (\<lambda>_.
     if (\<exists>e \<in> set (db_events db). ew_change e = ew_change r \<and> ew_sequence e = ew_sequence r) \<or>
        \<not> (1 \<le> length event_type \<and> length event_type \<le> 64) \<or> \<not> text_of_digest_size (ew_digest r) \<or> jc_chars codec json > 65536
     then Err StoreSql
     else Ok (db\<lparr>db_events := db_events db @ [r]\<rparr>))))"

definition persist_transition ::
    "lifecycle_env \<Rightarrow> 'j json_codec \<Rightarrow> lifecycle_projection \<Rightarrow> digest \<Rightarrow> lifecycle_transition \<Rightarrow> u64 \<Rightarrow> 'j store_db \<Rightarrow>
     (lifecycle_projection \<times> 'j store_db, store_error) result" where
  "persist_transition env codec projection expected t now db =
     (let s = lj_lifecycle projection; change_id = dl_change_id s in
      if lj_digest projection \<noteq> expected then Err (LifecycleConflict (change_id @ '': state digest changed''))
      else
        rbind (lift_lifecycle (transition env s t now)) (\<lambda>(s', event).
        rbind (projection_new env s') (\<lambda>next_projection.
        rbind (ok_or StoreJson (jc_of_state codec s')) (\<lambda>json.
        rbind (update_lifecycle_row codec change_id (digest_to_string expected) (dl_generation s)
            (digest_to_string (lj_digest next_projection), dl_generation s', json, now) db) (\<lambda>(db, changed).
        if changed \<noteq> 1 then Err (LifecycleConflict (change_id @ '': concurrent transition''))
        else rbind (insert_lifecycle_event env codec event ''lifecycle_transitioned'' db) (\<lambda>db. Ok (next_projection, db)))))))"

section \<open>What a transition must find in the store\<close>

fun all_ok :: "('a \<Rightarrow> (unit, 'e) result) \<Rightarrow> 'a list \<Rightarrow> (unit, 'e) result" where
  "all_ok f [] = Ok ()"
| "all_ok f (x # xs) = rbind (f x) (\<lambda>_. all_ok f xs)"

definition profile_bound :: "'j store_db \<Rightarrow> role_profile_provenance \<Rightarrow> codex_role \<Rightarrow> bool" where
  "profile_bound db v role \<longleftrightarrow>
     length [() . p \<leftarrow> db_profiles db, s \<leftarrow> db_profile_states db, r \<leftarrow> db_profile_revisions db,
       sw_id s = pw_id p \<and> vw_id r = pw_id p \<and> sw_active s = Some (vw_revision r) \<and> pw_id p = pv_profile_id v \<and>
       pw_role p = codex_role_str role \<and> sw_active s = Some (pv_revision v) \<and> vw_digest r = digest_to_string (pv_definition_digest v) \<and>
       vw_activated r \<noteq> None] = 1"

definition validate_profile_set :: "'j store_db \<Rightarrow> lifecycle_worker_profiles \<Rightarrow> (unit, store_error) result" where
  "validate_profile_set db profiles =
     all_ok (\<lambda>(phase, role).
       rbind (ok_or (StoreLifecycle ProfileMismatch) (for_phase profiles phase)) (\<lambda>v.
       rbind (sql_u64 (pv_revision v)) (\<lambda>_.
       if profile_bound db v role then Ok ()
       else Err (LifecycleConflict (pv_profile_id v @ '': profile is not bound to '' @ phase_str phase)))))
     [(Explore, Explorer), (Implement, Implementer), (Test, TestRunner), (Review, Reviewer), (Verify, Verifier)]"

definition parse_semantic_artifact ::
    "lifecycle_env \<Rightarrow> 'j json_codec \<Rightarrow> 'j artifact_row \<Rightarrow> (semantic_worker_artifact, store_error) result" where
  "parse_semantic_artifact env codec row =
     rbind (ok_or StoreJson (jc_to_artifact codec (aw_json row))) (\<lambda>a.
     rbind (ok_or StoreJson (jc_to_worker codec (at_payload a))) (\<lambda>w.
     rbind (ok_or (LifecycleCorruption ''semantic artifact bound'')
         (canonical_artifact_id (env_blake3 env) (ac_definition (at_contract a)) w)) (\<lambda>canonical.
     if digest_to_string (at_id a) \<noteq> aw_id row \<or> digest_to_string (at_request_id a) \<noteq> aw_request row \<or>
        ac_schema_id (at_contract a) \<noteq> SEMANTIC_ARTIFACT_RESULT_SCHEMA_ID \<or> ac_kind (at_contract a) \<noteq> worker_artifact_kind w \<or>
        ac_cache_scope (at_contract a) \<noteq> dm_scope (at_manifest a) \<or> canonical \<noteq> at_id a
     then Err (LifecycleCorruption ''semantic artifact identity'') else Ok w)))"

definition validate_test_plan_certificate ::
    "lifecycle_env \<Rightarrow> 'j json_codec \<Rightarrow> 'j store_db \<Rightarrow> digest \<Rightarrow> lifecycle_test_plan_binding \<Rightarrow> (unit, store_error) result" where
  "validate_test_plan_certificate env codec db source binding =
     (case first_row [(a, c). c \<leftarrow> db_certificates db, a \<leftarrow> db_artifacts db, r \<leftarrow> db_artifact_requests db,
         aw_id a = cw_artifact c \<and> rw_id r = aw_request a \<and> cw_id c = digest_to_string (tb_certificate_digest binding) \<and>
         aw_format a = 2 \<and> rw_source r = digest_to_string source] of
        None \<Rightarrow> Err (LifecycleConflict ''lifecycle test plan has no persisted validation certificate'')
      | Some (a, c) \<Rightarrow>
          rbind (parse_semantic_artifact env codec a) (\<lambda>w.
          if \<not> parent_owned_binding w (tb_plan binding)
          then Err (LifecycleConflict ''lifecycle test plan differs from its certified artifact'')
          else rbind (ok_or StoreJson (jc_to_certificate codec (cw_json c))) (\<lambda>certificate.
            if vf_id certificate \<noteq> tb_certificate_digest binding \<or> digest_to_string (vf_artifact certificate) \<noteq> aw_id a \<or>
               vf_test_plan_evidence certificate = None \<or> \<not> certificate_structurally_canonical (env_blake3 env) certificate
            then Err (LifecycleConflict ''lifecycle test-plan certificate identity or evidence status is invalid'')
            else Ok ())))"

definition validate_test_plan_certificates ::
    "lifecycle_env \<Rightarrow> 'j json_codec \<Rightarrow> 'j store_db \<Rightarrow> lifecycle_spec \<Rightarrow> digest \<Rightarrow> (unit, store_error) result" where
  "validate_test_plan_certificates env codec db spec source =
     all_ok (validate_test_plan_certificate env codec db source) (ls_test_plans spec)"

definition parse_profile_anchor ::
    "string option \<Rightarrow> u64 option \<Rightarrow> string option \<Rightarrow> (role_profile_provenance option, store_error) result" where
  "parse_profile_anchor profile_id revision dg =
     (case (profile_id, revision, dg) of
        (None, None, None) \<Rightarrow> Ok None
      | (Some i, Some n, Some d) \<Rightarrow>
          rbind (map_err (\<lambda>_. LifecycleCorruption ''profile id'') (role_profile_id_new i)) (\<lambda>i.
          rbind (map_err (\<lambda>_. LifecycleCorruption ''profile digest'') (digest_parse d)) (\<lambda>d.
          rbind (map_err (\<lambda>_. LifecycleCorruption ''profile anchor'') (provenance_new i n d)) (\<lambda>v. Ok (Some v))))
      | _ \<Rightarrow> Err (LifecycleCorruption ''partial role-profile anchor''))"

text \<open>\<open>ORDER BY c.issued_unix_ms DESC, c.certificate_id\<close>: a stable order on the joined rows.\<close>

definition exploration_row :: "'j store_db \<Rightarrow> digest \<Rightarrow> digest \<Rightarrow> ('j artifact_row \<times> 'j certificate_row) option" where
  "exploration_row db artifact source =
     first_row (sort_key (\<lambda>(a, c). (- int (unat (cw_issued c)), cw_id c))
       [(a, c). a \<leftarrow> db_artifacts db, r \<leftarrow> db_artifact_requests db, c \<leftarrow> db_certificates db,
         rw_id r = aw_request a \<and> cw_artifact c = aw_id a \<and> aw_id a = digest_to_string artifact \<and> aw_format a = 2 \<and>
         rw_source r = digest_to_string source])"

definition validate_exploration_artifact ::
    "lifecycle_env \<Rightarrow> 'j json_codec \<Rightarrow> 'j store_db \<Rightarrow> development_lifecycle \<Rightarrow> lifecycle_artifact_ref \<Rightarrow> (unit, store_error) result" where
  "validate_exploration_artifact env codec db s artifact =
     (case exploration_row db (la_id artifact) (dl_source_snapshot s) of
        None \<Rightarrow> Err (LifecycleConflict (dl_change_id s @ '': exploration artifact is unavailable''))
      | Some (a, c) \<Rightarrow>
          rbind (parse_semantic_artifact env codec a) (\<lambda>w.
          if (case w of TestPlanArtifact p \<Rightarrow> True | _ \<Rightarrow> False)
          then Err (LifecycleConflict (dl_change_id s @ '': test-plan artifact cannot satisfy exploration''))
          else rbind (ok_or StoreJson (jc_to_certificate codec (cw_json c))) (\<lambda>certificate.
            if digest_to_string (vf_artifact certificate) \<noteq> digest_to_string (la_id artifact) \<or>
               \<not> certificate_structurally_canonical (env_blake3 env) certificate
            then Err (LifecycleConflict (dl_change_id s @ '': exploration certificate identity is invalid''))
            else Ok ())))"

definition latest_patch_row :: "'j store_db \<Rightarrow> string \<Rightarrow> digest \<Rightarrow> (u32 \<times> string) option" where
  "latest_patch_row db change_id patch =
     first_row [(tw_revision p, tw_source p). p \<leftarrow> db_patches db, c \<leftarrow> db_requests db,
       qw_change c = tw_change p \<and> unat (qw_latest_patch c) = unat (tw_revision p) \<and> tw_change p = change_id \<and>
       tw_patch p = digest_to_string patch]"

definition validate_test_result ::
    "'j json_codec \<Rightarrow> 'j store_db \<Rightarrow> development_lifecycle \<Rightarrow> lifecycle_test_plan_binding \<times> lifecycle_test_result \<Rightarrow> (unit, store_error) result" where
  "validate_test_result codec db s pair =
     (case pair of (binding, r) \<Rightarrow>
        case lt_evidence_id r of
          None \<Rightarrow> Ok ()
        | Some evidence_id \<Rightarrow>
            (case first_row (filter (\<lambda>x. xw_id x = evidence_id) (db_evidence db)) of
               None \<Rightarrow> Err (LifecycleConflict (dl_change_id s @ '': test evidence is unavailable''))
             | Some x \<Rightarrow>
                 rbind (ok_or StoreJson (jc_to_evidence codec (xw_json x))) (\<lambda>evidence.
                 if ce_source_snapshot_digest evidence \<noteq> dl_source_snapshot s \<or> ce_runner evidence \<noteq> tp_runner (tb_plan binding) \<or>
                    ce_argv evidence \<noteq> tp_argv (tb_plan binding) \<or> ce_test_identifier evidence \<noteq> Some (tp_identifier (tb_plan binding))
                 then Err (LifecycleConflict (dl_change_id s @ '': test evidence differs from the frozen plan''))
                 else if lt_passed r then
                   map_err (\<lambda>_. LifecycleConflict (dl_change_id s @ '': passing test evidence is invalid''))
                     (validate_test_evidence (tb_plan binding) evidence)
                 else if lt_executed r \<and> ce_exit_status evidence = Some 0 \<and> ce_infrastructure_failure evidence = None
                 then Err (LifecycleConflict (dl_change_id s @ '': failed test result contradicts evidence''))
                 else Ok ())))"

definition validate_review_artifact ::
    "lifecycle_env \<Rightarrow> 'j json_codec \<Rightarrow> 'j store_db \<Rightarrow> development_lifecycle \<Rightarrow> review_artifact \<Rightarrow> (unit, store_error) result" where
  "validate_review_artifact env codec db s review =
     rbind (ok_or StoreSql (first_row (filter (\<lambda>q. qw_change q = dl_change_id s) (db_requests db)))) (\<lambda>q.
     rbind (ok_or StoreJson (jc_to_request codec (qw_json q))) (\<lambda>request.
     if set (map (\<lambda>c. env_blake3 env (as_bytes c)) (cr_acceptance request)) \<noteq> set (map lc_criterion_digest (ra_acceptance_coverage review))
     then Err (LifecycleConflict (dl_change_id s @ '': review coverage differs from acceptance criteria'')) else Ok ()))"

definition validate_verification ::
    "lifecycle_env \<Rightarrow> 'j json_codec \<Rightarrow> 'j store_db \<Rightarrow> development_lifecycle \<Rightarrow> lifecycle_worker_completion \<Rightarrow>
     lifecycle_verification_ref \<Rightarrow> (unit, store_error) result" where
  "validate_verification env codec db s worker v =
     (case first_row (filter (\<lambda>y. yw_id y = digest_to_string (lv_verification_id v) \<and> yw_change y = dl_change_id s \<and>
         yw_patch y = digest_to_string (lv_patch_id v)) (db_verifications db)) of
        None \<Rightarrow> Err (LifecycleConflict (dl_change_id s @ '': verification artifact is unavailable''))
      | Some y \<Rightarrow>
          rbind (ok_or StoreJson (jc_to_verification codec (yw_json y))) (\<lambda>a.
          if \<not> verification_is_canonical (env_blake3 env) a \<or> va_id a \<noteq> lv_verification_id v \<or> va_verdict a \<noteq> lv_verdict v \<or>
             va_verifier a \<noteq> pv_definition_digest (lw_profile worker) \<or> map_option lp_patch_id (dl_patch s) \<noteq> Some (va_patch a)
          then Err (LifecycleConflict (dl_change_id s @ '': verification artifact is not current and canonical'')) else Ok ()))"

definition reserved_conflict :: "development_lifecycle \<Rightarrow> (unit, store_error) result" where
  "reserved_conflict s = Err (LifecycleConflict (dl_change_id s @ '': reserved lifecycle transition''))"

fun validate_transition_artifacts ::
    "lifecycle_env \<Rightarrow> 'j json_codec \<Rightarrow> 'j store_db \<Rightarrow> development_lifecycle \<Rightarrow> lifecycle_transition \<Rightarrow> (unit, store_error) result" where
  "validate_transition_artifacts env codec db s (CompleteExplore worker artifacts) =
     all_ok (validate_exploration_artifact env codec db s) artifacts"
| "validate_transition_artifacts env codec db s (CompleteImplement worker patch) =
     (if latest_patch_row db (dl_change_id s) (lp_patch_id patch) \<noteq> Some (lp_revision patch, digest_to_string (dl_source_snapshot s))
      then Err (LifecycleConflict (dl_change_id s @ '': patch is not the latest source-bound revision'')) else Ok ())"
| "validate_transition_artifacts env codec db s (CompleteTest worker results) =
     all_ok (validate_test_result codec db s) (zip (ls_test_plans (dl_spec s)) results)"
| "validate_transition_artifacts env codec db s (CompleteReview worker review) = validate_review_artifact env codec db s review"
| "validate_transition_artifacts env codec db s (CompleteVerify worker v) = validate_verification env codec db s worker v"
| "validate_transition_artifacts env codec db s (Cancel reason) = Ok ()"
| "validate_transition_artifacts env codec db s (Fail reason) = Ok ()"
| "validate_transition_artifacts env codec db s ConsumeRepair = reserved_conflict s"
| "validate_transition_artifacts env codec db s (ApproveApply approval) = reserved_conflict s"
| "validate_transition_artifacts env codec db s (StartApply apply_id) = reserved_conflict s"
| "validate_transition_artifacts env codec db s (FinishApply apply_id status) = reserved_conflict s"

section \<open>Operations\<close>

type_synonym ('j, 'a) transaction = "('a \<times> 'j store_db, store_error) result"

definition create_lifecycle ::
    "lifecycle_env \<Rightarrow> 'j json_codec \<Rightarrow> u64 \<Rightarrow> string \<Rightarrow> lifecycle_spec \<Rightarrow> 'j store_db \<Rightarrow> ('j, lifecycle_projection) transaction" where
  "create_lifecycle env codec now change_id spec db =
     rbind (lift_lifecycle (spec_validate (env_blake3 env) spec)) (\<lambda>_.
     rbind (validate_profile_set db (ls_profiles spec)) (\<lambda>_.
     rbind (lifecycle_projection_in env codec db change_id) (\<lambda>found.
     if found \<noteq> None then Err (LifecycleConflict (change_id @ '': lifecycle already exists''))
     else case first_row (filter (\<lambda>q. qw_change q = change_id) (db_requests db)) of
       None \<Rightarrow> Err (LifecycleNotFound (change_id @ '': immutable change request''))
     | Some q \<Rightarrow>
         if qw_state q \<noteq> ''requested'' \<or> qw_latest_patch q \<noteq> 0 \<or> qw_repair_attempted q
         then Err (LifecycleConflict (change_id @ '': lifecycle must be created before implementation''))
         else
           rbind (map_err (\<lambda>_. LifecycleCorruption (change_id @ '': source digest'')) (digest_parse (qw_source q))) (\<lambda>source.
           rbind (validate_test_plan_certificates env codec db spec source) (\<lambda>_.
           rbind (parse_profile_anchor (qw_profile_id q) (qw_profile_revision q) (qw_profile_digest q)) (\<lambda>request_profile.
           if request_profile \<noteq> Some (wp_implement (ls_profiles spec))
           then Err (LifecycleConflict (change_id @ '': request implementer profile differs from lifecycle''))
           else
             rbind (lift_lifecycle (lifecycle_new env change_id source spec now)) (\<lambda>s.
             rbind (projection_new env s) (\<lambda>projection.
             rbind (ok_or StoreJson (jc_of_state codec s)) (\<lambda>json.
             rbind (insert_lifecycle_row codec
                 \<lparr>fw_id = digest_to_string (dl_id s), fw_change = change_id, fw_source = digest_to_string source,
                  fw_digest = digest_to_string (lj_digest projection), fw_generation = 0, fw_json = json, fw_created = now, fw_updated = now\<rparr> db) (\<lambda>db.
             rbind (lift_lifecycle (event_created env s)) (\<lambda>event.
             rbind (insert_lifecycle_event env codec event ''lifecycle_created'' db) (\<lambda>db. Ok (projection, db)))))))))))))"

fun reserved_transition :: "lifecycle_transition \<Rightarrow> bool" where
  "reserved_transition ConsumeRepair = True"
| "reserved_transition (ApproveApply approval) = True"
| "reserved_transition (StartApply apply_id) = True"
| "reserved_transition (FinishApply apply_id status) = True"
| "reserved_transition _ = False"

definition required_projection ::
    "lifecycle_env \<Rightarrow> 'j json_codec \<Rightarrow> 'j store_db \<Rightarrow> string \<Rightarrow> (lifecycle_projection, store_error) result" where
  "required_projection env codec db change_id =
     rbind (lifecycle_projection_in env codec db change_id) (\<lambda>found. ok_or (LifecycleNotFound change_id) found)"

definition parent_transition_lifecycle ::
    "lifecycle_env \<Rightarrow> 'j json_codec \<Rightarrow> u64 \<Rightarrow> string \<Rightarrow> digest \<Rightarrow> lifecycle_transition \<Rightarrow> 'j store_db \<Rightarrow>
     ('j, lifecycle_projection) transaction" where
  "parent_transition_lifecycle env codec now change_id expected t db =
     (if reserved_transition t
      then Err (LifecycleConflict (change_id @ '': transition is reserved for a typed parent operation''))
      else
        rbind (required_projection env codec db change_id) (\<lambda>projection.
        if lj_digest projection \<noteq> expected then Err (LifecycleConflict (change_id @ '': state digest changed''))
        else
          rbind (validate_transition_artifacts env codec db (lj_lifecycle projection) t) (\<lambda>_.
          persist_transition env codec projection expected t now db)))"

text \<open>
  The approval is built from a first read, whose database is \<open>seen\<close>, and recorded in a later transaction: other
  operations may run in between.
\<close>

definition approve_lifecycle_apply ::
    "lifecycle_env \<Rightarrow> 'j json_codec \<Rightarrow> 'j store_db \<Rightarrow> u64 \<Rightarrow> u64 \<Rightarrow> string \<Rightarrow> digest \<Rightarrow> approval_decision_source \<Rightarrow> 'j store_db \<Rightarrow>
     ('j, lifecycle_projection) transaction" where
  "approve_lifecycle_apply env codec seen decided now change_id expected source db =
     (if source \<noteq> WebUser
      then Err (LifecycleConflict (change_id @ '': apply approval must come from an explicit web user decision''))
      else
        rbind (required_projection env codec seen change_id) (\<lambda>projection.
        if lj_digest projection \<noteq> expected \<or> dl_phase (lj_lifecycle projection) \<noteq> Apply \<or>
           dl_status (lj_lifecycle projection) \<noteq> AwaitingApproval
        then Err (LifecycleConflict (change_id @ '': lifecycle is not awaiting approval at this digest''))
        else
          rbind (ok_or (StoreLifecycle MissingArtifact) (dl_patch (lj_lifecycle projection))) (\<lambda>patch.
          rbind (ok_or (StoreLifecycle MissingArtifact) (dl_verification (lj_lifecycle projection))) (\<lambda>verification.
          let approval = approval_new (env_blake3 env) expected (lp_patch_id patch) (lv_verification_id verification) source decided in
          rbind (required_projection env codec db change_id) (\<lambda>current.
          persist_transition env codec current expected (ApproveApply approval) now db)))))"

text \<open>
  Operations inside transactions of the change store; a change without a lifecycle is left alone.
\<close>

definition require_lifecycle_worker_phase ::
    "lifecycle_env \<Rightarrow> 'j json_codec \<Rightarrow> 'j store_db \<Rightarrow> string \<Rightarrow> lifecycle_phase \<Rightarrow> role_profile_provenance option \<Rightarrow> (bool, store_error) result" where
  "require_lifecycle_worker_phase env codec db change_id phase provenance =
     rbind (lifecycle_projection_in env codec db change_id) (\<lambda>found.
     case found of
       None \<Rightarrow> Ok False
     | Some p \<Rightarrow>
         if dl_phase (lj_lifecycle p) \<noteq> phase \<or> dl_status (lj_lifecycle p) \<noteq> Active \<or>
            for_phase (ls_profiles (dl_spec (lj_lifecycle p))) phase \<noteq> provenance
         then Err (LifecycleConflict (change_id @ '': worker write is outside the active lifecycle phase'')) else Ok True)"

definition with_lifecycle ::
    "lifecycle_env \<Rightarrow> 'j json_codec \<Rightarrow> string \<Rightarrow> 'j store_db \<Rightarrow> (lifecycle_projection \<Rightarrow> ('j, lifecycle_projection) transaction) \<Rightarrow>
     ('j, unit) transaction" where
  "with_lifecycle env codec change_id db f =
     rbind (lifecycle_projection_in env codec db change_id) (\<lambda>found.
     case found of None \<Rightarrow> Ok ((), db) | Some p \<Rightarrow> rbind (f p) (\<lambda>(_, db). Ok ((), db)))"

definition artifacts_differ :: "lifecycle_projection \<Rightarrow> digest \<Rightarrow> digest \<Rightarrow> bool" where
  "artifacts_differ p patch verification \<longleftrightarrow>
     map_option lp_patch_id (dl_patch (lj_lifecycle p)) \<noteq> Some patch \<or>
     map_option lv_verification_id (dl_verification (lj_lifecycle p)) \<noteq> Some verification"

definition consume_lifecycle_repair ::
    "lifecycle_env \<Rightarrow> 'j json_codec \<Rightarrow> u64 \<Rightarrow> string \<Rightarrow> digest \<Rightarrow> digest \<Rightarrow> 'j store_db \<Rightarrow> ('j, unit) transaction" where
  "consume_lifecycle_repair env codec now change_id patch verification db =
     with_lifecycle env codec change_id db (\<lambda>p.
       if artifacts_differ p patch verification
       then Err (LifecycleConflict (change_id @ '': repair artifacts differ from lifecycle''))
       else persist_transition env codec p (lj_digest p) ConsumeRepair now db)"

definition fail_lifecycle ::
    "lifecycle_env \<Rightarrow> 'j json_codec \<Rightarrow> u64 \<Rightarrow> string \<Rightarrow> lifecycle_reason \<Rightarrow> 'j store_db \<Rightarrow> ('j, unit) transaction" where
  "fail_lifecycle env codec now change_id reason db =
     with_lifecycle env codec change_id db (\<lambda>p.
       if dl_status (lj_lifecycle p) \<noteq> Active \<or> dl_phase (lj_lifecycle p) \<notin> {Explore, Implement}
       then Err (LifecycleConflict (change_id @ '': preparation failure is outside an active preparation phase''))
       else persist_transition env codec p (lj_digest p) (Fail reason) now db)"

definition begin_lifecycle_apply ::
    "lifecycle_env \<Rightarrow> 'j json_codec \<Rightarrow> u64 \<Rightarrow> string \<Rightarrow> digest option \<Rightarrow> digest \<Rightarrow> digest \<Rightarrow> digest \<Rightarrow> 'j store_db \<Rightarrow> ('j, unit) transaction" where
  "begin_lifecycle_apply env codec now change_id expected apply_id patch verification db =
     rbind (lifecycle_projection_in env codec db change_id) (\<lambda>found.
     case (found, expected) of
       (None, None) \<Rightarrow> Ok ((), db)
     | (None, Some _) \<Rightarrow> Err (LifecycleNotFound change_id)
     | (Some _, None) \<Rightarrow> Err (LifecycleConflict (change_id @ '': lifecycle apply requires its current state digest''))
     | (Some p, Some e) \<Rightarrow>
         if artifacts_differ p patch verification
         then Err (LifecycleConflict (change_id @ '': apply artifacts differ from approved lifecycle''))
         else rbind (persist_transition env codec p e (StartApply apply_id) now db) (\<lambda>(_, db). Ok ((), db)))"

definition finish_lifecycle_apply ::
    "lifecycle_env \<Rightarrow> 'j json_codec \<Rightarrow> u64 \<Rightarrow> string \<Rightarrow> digest \<Rightarrow> change_apply_status \<Rightarrow> 'j store_db \<Rightarrow> ('j, unit) transaction" where
  "finish_lifecycle_apply env codec now change_id apply_id status db =
     with_lifecycle env codec change_id db (\<lambda>p. persist_transition env codec p (lj_digest p) (FinishApply apply_id status) now db)"

end
