(* ===== verification/Lifecycle_Store_Proofs.thy ===== *)
theory Lifecycle_Store_Proofs
  imports Lifecycle_Store
begin

text \<open>
  The lifecycle store is event sourced: the journal of a change replays to the stored projection after any
  sequence of operations, so that the checks against corruption never fail on the store's own data, and
  everything proved of reachable lifecycles holds of stored ones.
\<close>

section \<open>Event sourcing\<close>

locale event_sourced =
  fixes replay :: "'e list \<Rightarrow> 's option"
    and opens :: "'s \<Rightarrow> 'e \<Rightarrow> bool"
    and advances :: "'s \<Rightarrow> 's \<Rightarrow> 'e \<Rightarrow> bool"
  assumes replay_open: "opens s e \<Longrightarrow> replay [e] = Some s"
    and replay_advance: "replay es = Some s \<Longrightarrow> advances s s' e \<Longrightarrow> replay (es @ [e]) = Some s'"
begin

inductive history :: "'s \<Rightarrow> 'e list \<Rightarrow> bool" where
  start: "opens s e \<Longrightarrow> history s [e]"
| extend: "history s es \<Longrightarrow> advances s s' e \<Longrightarrow> history s' (es @ [e])"

lemma history_replays: "history s es \<Longrightarrow> replay es = Some s"
  by (induction rule: history.induct) (auto intro: replay_open replay_advance)

lemma history_determines: "history s es \<Longrightarrow> history s' es \<Longrightarrow> s = s'"
  by (metis history_replays option.inject)

end

text \<open>The laws hold of the lifecycle's own replay, with creation and transitions as the two kinds of event.\<close>

definition replay_option :: "lifecycle_env \<Rightarrow> lifecycle_event list \<Rightarrow> development_lifecycle option" where
  "replay_option env es = (case lifecycle_replay env es of Ok s \<Rightarrow> Some s | Err _ \<Rightarrow> None)"

definition opens_lifecycle :: "lifecycle_env \<Rightarrow> development_lifecycle \<Rightarrow> lifecycle_event \<Rightarrow> bool" where
  "opens_lifecycle env s e \<longleftrightarrow>
     (\<exists>change_id source spec now. lifecycle_new env change_id source spec now = Ok s) \<and> event_created env s = Ok e"

definition advances_lifecycle :: "lifecycle_env \<Rightarrow> development_lifecycle \<Rightarrow> development_lifecycle \<Rightarrow> lifecycle_event \<Rightarrow> bool" where
  "advances_lifecycle env s s' e \<longleftrightarrow> (\<exists>t now. transition env s t now = Ok (s', e))"

lemma replay_option_Some [simp]: "replay_option env es = Some s \<longleftrightarrow> lifecycle_replay env es = Ok s"
  by (auto simp: replay_option_def split: result.splits)

interpretation lifecycle_journal: event_sourced "replay_option env" "opens_lifecycle env" "advances_lifecycle env" for env
proof
  fix s e assume "opens_lifecycle env s e"
  then show "replay_option env [e] = Some s"
    by (auto simp: opens_lifecycle_def event_created_kind dest: lifecycle_new_Ok(1))
next
  fix es s s' e assume r: "replay_option env es = Some s" and a: "advances_lifecycle env s s' e"
  from r obtain s0 e0 rest steps where es: "es = e0 # rest" and v: "lifecycle_validate env s0 = Ok ()"
    and c: "event_created env s0 = Ok e0" and run: "run env s0 steps = Ok (s, rest)" by (auto simp: replay_Ok_iff)
  from a obtain t now where "transition env s t now = Ok (s', e)" by (auto simp: advances_lifecycle_def)
  with run have "run env s0 (steps @ [(t, now)]) = Ok (s', rest @ [e])" unfolding run_snoc_Ok by blast
  with es v c show "replay_option env (es @ [e]) = Some s'" unfolding replay_option_Some replay_Ok_iff by auto
qed

abbreviation lifecycle_history :: "lifecycle_env \<Rightarrow> development_lifecycle \<Rightarrow> lifecycle_event list \<Rightarrow> bool" where
  "lifecycle_history env \<equiv> lifecycle_journal.history env"

lemma history_reachable: "lifecycle_history env s es \<Longrightarrow> reachable env s"
  by (induction rule: lifecycle_journal.history.induct)
    (auto simp: opens_lifecycle_def advances_lifecycle_def intro: reachable.intros)

lemma event_created_fields:
  "event_created env s = Ok e \<Longrightarrow> ev_sequence e = 0 \<and> ev_change_id e = dl_change_id s"
  by (auto simp: event_created_def Let_def)

lemma transition_event_change: "transition env s t now = Ok (s', e) \<Longrightarrow> ev_change_id e = dl_change_id s'"
  by (auto simp: transition_Ok_iff event_transitioned_def Let_def)

text \<open>The events of a history are numbered from 0 without gaps, and carry the change of the lifecycle.\<close>

lemma history_events:
  assumes "lifecycle_history env s es"
  shows "map ev_sequence es = map word_of_nat [0..<length es]" "unat (dl_generation s) + 1 = length es"
    "\<forall>e \<in> set es. ev_change_id e = dl_change_id s" "length es \<le> 16"
proof -
  have "map ev_sequence es = map word_of_nat [0..<length es] \<and> unat (dl_generation s) + 1 = length es \<and>
    (\<forall>e \<in> set es. ev_change_id e = dl_change_id s)"
    using assms
  proof (induction rule: lifecycle_journal.history.induct)
    case (start s e)
    then show ?case by (auto simp: opens_lifecycle_def dest: lifecycle_new_Ok(2) event_created_fields)
  next
    case (extend s es s' e)
    then obtain t now where t: "transition env s t now = Ok (s', e)" by (auto simp: advances_lifecycle_def)
    have "unat (dl_generation s) < 16" using transition_valid [OF t] valid_generation by blast
    then have g: "unat (dl_generation s + 1) = unat (dl_generation s) + 1" by (simp add: unat_word_ariths)
    have "word_of_nat (length es) = (word_of_nat (unat (dl_generation s) + 1) :: u64)" using extend.IH by simp
    then have "ev_sequence e = word_of_nat (length es)" using transition_event(1) [OF t] by simp
    with extend.IH g t show ?case
      by (auto simp: transition_frame(8) [OF t] transition_event_change transition_frame(2))
  qed
  then show "map ev_sequence es = map word_of_nat [0..<length es]" "unat (dl_generation s) + 1 = length es"
    "\<forall>e \<in> set es. ev_change_id e = dl_change_id s" by auto
  then show "length es \<le> 16" using reachable_valid [OF history_reachable [OF assms]] valid_generation by fastforce
qed


section \<open>Consistent stores\<close>

definition journal_rows :: "'j store_db \<Rightarrow> string \<Rightarrow> 'j event_row list" where
  "journal_rows db k = filter (\<lambda>e. ew_change e = k \<and> ew_sequence e \<noteq> None) (db_events db)"

definition row_agrees :: "lifecycle_env \<Rightarrow> 'j json_codec \<Rightarrow> 'j lifecycle_row \<Rightarrow> development_lifecycle \<Rightarrow> bool" where
  "row_agrees env codec r s \<longleftrightarrow>
     jc_to_state codec (fw_json r) = Some s \<and> dl_change_id s = fw_change r \<and> digest_to_string (dl_id s) = fw_id r \<and>
     digest_to_string (dl_source_snapshot s) = fw_source r \<and> digest_to_string (state_digest env s) = fw_digest r \<and>
     dl_generation s = fw_generation r"

definition event_agrees :: "lifecycle_env \<Rightarrow> 'j json_codec \<Rightarrow> 'j event_row \<Rightarrow> lifecycle_event \<Rightarrow> bool" where
  "event_agrees env codec e ev \<longleftrightarrow>
     ew_digest e = digest_to_string (env_blake3 env (jc_bytes codec (ew_json e))) \<and> jc_to_event codec (ew_json e) = Some ev \<and>
     ev_change_id ev = ew_change e \<and> ew_sequence e = Some (ev_sequence ev)"

text \<open>What is stored for one change: nothing, or a projection with the journal that leads to it.\<close>

definition change_ok :: "lifecycle_env \<Rightarrow> 'j json_codec \<Rightarrow> 'j lifecycle_row option \<Rightarrow> 'j event_row list \<Rightarrow> bool" where
  "change_ok env codec row journal \<longleftrightarrow>
     (case row of
        None \<Rightarrow> journal = []
      | Some r \<Rightarrow> \<exists>s es. row_agrees env codec r s \<and> list_all2 (event_agrees env codec) journal es \<and> lifecycle_history env s es)"

definition store_ok :: "lifecycle_env \<Rightarrow> 'j json_codec \<Rightarrow> 'j store_db \<Rightarrow> bool" where
  "store_ok env codec db \<longleftrightarrow>
     distinct (map fw_change (db_lifecycles db)) \<and>
     (\<forall>k. change_ok env codec (query_projection_row db k) (journal_rows db k))"

text \<open>A serialised state or event is read back as it was.\<close>

definition codec_ok :: "'j json_codec \<Rightarrow> bool" where
  "codec_ok codec \<longleftrightarrow>
     (\<forall>s j. jc_of_state codec s = Some j \<longrightarrow> jc_to_state codec j = Some s) \<and>
     (\<forall>e j. jc_of_event codec e = Some j \<longrightarrow> jc_to_event codec j = Some e)"

lemma first_row_find [simp]: "first_row (filter P xs) = List.find P xs"
  by (induction xs) auto

lemma find_key_map: "(\<And>x. P (f x) = P x) \<Longrightarrow> List.find P (map f xs) = map_option f (List.find P xs)"
  by (induction xs) auto

lemma find_append: "List.find P (xs @ ys) = (case List.find P xs of None \<Rightarrow> List.find P ys | Some x \<Rightarrow> Some x)"
  by (induction xs) auto

lemma find_distinct_key: "distinct (map f xs) \<Longrightarrow> x \<in> set xs \<Longrightarrow> List.find (\<lambda>y. f y = f x) xs = Some x"
  by (induction xs) (auto simp: rev_image_eqI)

lemma query_row_Some: "query_projection_row db k = Some r \<Longrightarrow> r \<in> set (db_lifecycles db) \<and> fw_change r = k"
  by (auto simp: query_projection_row_def find_Some_iff)

lemma lift_lifecycle_Ok [simp]: "lift_lifecycle r = Ok x \<longleftrightarrow> r = Ok x"
  by (simp add: lift_lifecycle_def)

lemma projection_new_Ok [simp]:
  "projection_new env s = Ok p \<longleftrightarrow> lifecycle_validate env s = Ok () \<and> p = \<lparr>lj_lifecycle = s, lj_digest = state_digest env s\<rparr>"
  by (auto simp: projection_new_def)

lemma projection_in_Some:
  "lifecycle_projection_in env codec db k = Ok (Some p) \<longleftrightarrow>
     (\<exists>r s. query_projection_row db k = Some r \<and> row_agrees env codec r s \<and> fw_change r = k \<and> lifecycle_validate env s = Ok () \<and>
        p = \<lparr>lj_lifecycle = s, lj_digest = state_digest env s\<rparr>)"
proof (cases "query_projection_row db k")
  case None
  then show ?thesis by (simp add: lifecycle_projection_in_def)
next
  case (Some r)
  then have "fw_change r = k" by (simp add: query_row_Some)
  with Some show ?thesis by (auto simp: lifecycle_projection_in_def row_agrees_def)
qed

lemma projection_in_None: "lifecycle_projection_in env codec db k = Ok None \<longleftrightarrow> query_projection_row db k = None"
  by (auto simp: lifecycle_projection_in_def split: option.splits if_splits)

text \<open>In a consistent store the current projection is read without error.\<close>

lemma consistent_projection:
  assumes "store_ok env codec db"
  shows "query_projection_row db k = None \<and> lifecycle_projection_in env codec db k = Ok None \<and> journal_rows db k = [] \<or>
    (\<exists>r s es. query_projection_row db k = Some r \<and> row_agrees env codec r s \<and> lifecycle_history env s es \<and>
      list_all2 (event_agrees env codec) (journal_rows db k) es \<and>
      lifecycle_projection_in env codec db k = Ok (Some \<lparr>lj_lifecycle = s, lj_digest = state_digest env s\<rparr>))"
proof (cases "query_projection_row db k")
  case None
  with assms show ?thesis by (auto simp: store_ok_def change_ok_def projection_in_None dest!: spec [of _ k])
next
  case (Some r)
  from assms have "change_ok env codec (query_projection_row db k) (journal_rows db k)" by (simp add: store_ok_def)
  with Some obtain s es where s: "row_agrees env codec r s" "list_all2 (event_agrees env codec) (journal_rows db k) es"
    "lifecycle_history env s es" by (auto simp: change_ok_def)
  with Some show ?thesis
    using reachable_valid [OF history_reachable [OF s(3)]] query_row_Some [OF Some] by (auto simp: projection_in_Some)
qed

section \<open>Operations keep the store consistent\<close>

lemma sql_u64_Ok [simp]: "sql_u64 n = Ok u \<longleftrightarrow> n < 0x8000000000000000"
  by (simp add: sql_u64_def)

lemma insert_event_Ok:
  assumes "insert_lifecycle_event env codec event ty db = Ok db'" "codec_ok codec"
  obtains r where "db' = db\<lparr>db_events := db_events db @ [r]\<rparr>" "event_agrees env codec r event" "ew_change r = ev_change_id event"
  using assms by (auto simp: insert_lifecycle_event_def Let_def event_agrees_def codec_ok_def split: if_splits)

lemma journal_rows_append:
  "journal_rows (db\<lparr>db_events := db_events db @ [r]\<rparr>) k = journal_rows db k @ (if ew_change r = k \<and> ew_sequence r \<noteq> None then [r] else [])"
  by (simp add: journal_rows_def)

lemma query_row_events [simp]: "query_projection_row (db\<lparr>db_events := es\<rparr>) k = query_projection_row db k"
  by (simp add: query_projection_row_def)

lemma journal_rows_lifecycles [simp]: "journal_rows (db\<lparr>db_lifecycles := ls\<rparr>) k = journal_rows db k"
  by (simp add: journal_rows_def)

text \<open>A step of one change leaves what is stored for the others.\<close>

lemma store_ok_step:
  assumes "store_ok env codec db" "distinct (map fw_change (db_lifecycles db'))"
    and "\<And>k'. k' \<noteq> k \<Longrightarrow> query_projection_row db' k' = query_projection_row db k' \<and> journal_rows db' k' = journal_rows db k'"
    and "change_ok env codec (query_projection_row db' k) (journal_rows db' k)"
  shows "store_ok env codec db'"
  unfolding store_ok_def
proof (intro conjI allI)
  fix k' show "change_ok env codec (query_projection_row db' k') (journal_rows db' k')"
    using assms by (cases "k' = k") (auto simp: store_ok_def)
qed (rule assms(2))

lemma update_row_Ok:
  assumes "update_lifecycle_row codec k expected g (dg, g', json, now) db = Ok (db', n)"
    and "distinct (map fw_change (db_lifecycles db))" "query_projection_row db k = Some r" "n = 1"
  shows "query_projection_row db' k = Some (r\<lparr>fw_digest := dg, fw_generation := g', fw_json := json, fw_updated := now\<rparr>)"
    "\<And>k'. k' \<noteq> k \<Longrightarrow> query_projection_row db' k' = query_projection_row db k'"
    "\<And>k'. journal_rows db' k' = journal_rows db k'" "db_events db' = db_events db"
    "map fw_change (db_lifecycles db') = map fw_change (db_lifecycles db)"
proof -
  let ?m = "\<lambda>r. fw_change r = k \<and> fw_digest r = expected \<and> fw_generation r = g"
  let ?c = "\<lambda>r. r\<lparr>fw_digest := dg, fw_generation := g', fw_json := json, fw_updated := now\<rparr>"
  let ?f = "\<lambda>r. if ?m r then ?c r else r"
  from assms(1) have db': "db' = db\<lparr>db_lifecycles := map ?f (db_lifecycles db)\<rparr>" and n: "n = length (filter ?m (db_lifecycles db))"
    by (auto simp: update_lifecycle_row_def Let_def split: if_splits)
  from n assms(4) have "filter ?m (db_lifecycles db) \<noteq> []" by auto
  then obtain x where x: "x \<in> set (db_lifecycles db)" "?m x" by (auto simp: filter_empty_conv)
  have "x = r" using find_distinct_key [OF assms(2) x(1)] x(2) assms(3) by (simp add: query_projection_row_def)
  have q: "query_projection_row db' k' = map_option ?f (query_projection_row db k')" for k'
    by (simp add: query_projection_row_def db' find_key_map)
  show "query_projection_row db' k = Some (?c r)" using q [of k] assms(3) x(2) \<open>x = r\<close> by simp
  show "query_projection_row db' k' = query_projection_row db k'" if "k' \<noteq> k" for k'
    using q [of k'] that by (cases "query_projection_row db k'") (auto dest: query_row_Some)
  show "journal_rows db' k' = journal_rows db k'" for k' by (simp add: db')
  show "db_events db' = db_events db" by (simp add: db')
  show "map fw_change (db_lifecycles db') = map fw_change (db_lifecycles db)" by (simp add: db')
qed

text \<open>
  A recorded transition: the store stays consistent, the projection returned is what is stored now, and it is the
  transition of what was stored before.
\<close>

lemma persist_transition_ok:
  assumes p: "persist_transition env codec p expected t now db = Ok (q, db')"
    and read: "lifecycle_projection_in env codec db k = Ok (Some p)" and "store_ok env codec db" "codec_ok codec"
  shows "store_ok env codec db'" "lifecycle_projection_in env codec db' k = Ok (Some q)" "lj_digest p = expected"
    "\<exists>e. transition env (lj_lifecycle p) t now = Ok (lj_lifecycle q, e)"
    "\<And>k'. k' \<noteq> k \<Longrightarrow> lifecycle_projection_in env codec db' k' = lifecycle_projection_in env codec db k'"
proof -
  from consistent_projection [OF assms(3), of k] read obtain r s es where r: "query_projection_row db k = Some r"
    and ra: "row_agrees env codec r s" and h: "lifecycle_history env s es"
    and j: "list_all2 (event_agrees env codec) (journal_rows db k) es" and ps: "p = \<lparr>lj_lifecycle = s, lj_digest = state_digest env s\<rparr>"
    by auto
  have k: "dl_change_id s = k" using ra query_row_Some [OF r] by (simp add: row_agrees_def)
  from p [unfolded persist_transition_def Let_def ps lifecycle_projection.simps k]
  obtain s' event json db1 n where exp: "state_digest env s = expected" and t: "transition env s t now = Ok (s', event)"
    and q: "q = \<lparr>lj_lifecycle = s', lj_digest = state_digest env s'\<rparr>" and v: "lifecycle_validate env s' = Ok ()"
    and js: "jc_of_state codec s' = Some json"
    and u: "update_lifecycle_row codec k (digest_to_string expected) (dl_generation s)
      (digest_to_string (state_digest env s'), dl_generation s', json, now) db = Ok (db1, n)"
    and n: "n = 1" and ins: "insert_lifecycle_event env codec event ''lifecycle_transitioned'' db1 = Ok db'"
    by (auto split: if_splits)
  have d: "distinct (map fw_change (db_lifecycles db))" using assms(3) by (simp add: store_ok_def)
  note up = update_row_Ok [OF u d r n]
  obtain row where db': "db' = db1\<lparr>db_events := db_events db1 @ [row]\<rparr>" and row: "event_agrees env codec row event" "ew_change row = ev_change_id event"
    by (rule insert_event_Ok [OF ins assms(4)])
  have k': "dl_change_id s' = k" "ew_change row = k" "ew_sequence row \<noteq> None"
    using transition_frame(2) [OF t] k transition_event_change [OF t] row by (auto simp: event_agrees_def)
  let ?r = "r\<lparr>fw_digest := digest_to_string (state_digest env s'), fw_generation := dl_generation s', fw_json := json, fw_updated := now\<rparr>"
  have qk: "query_projection_row db' k = Some ?r" using up(1) by (simp add: db')
  have ra': "row_agrees env codec ?r s'"
    using ra k k'(1) js assms(4) transition_frame(1,3) [OF t] by (auto simp: row_agrees_def codec_ok_def)
  have jk: "journal_rows db' k = journal_rows db k @ [row]" using k'(2,3) up(3) by (simp add: db' journal_rows_append)
  have h': "lifecycle_history env s' (es @ [event])"
    using lifecycle_journal.history.extend [OF h] t by (auto simp: advances_lifecycle_def)
  have "change_ok env codec (query_projection_row db' k) (journal_rows db' k)"
    unfolding qk jk change_ok_def using ra' h' j row(1) by (auto intro!: exI [of _ s'] exI [of _ "es @ [event]"] list_all2_appendI)
  moreover have other: "query_projection_row db' k' = query_projection_row db k' \<and> journal_rows db' k' = journal_rows db k'" if "k' \<noteq> k" for k'
    using that up(2,3) k'(2) by (simp add: db' journal_rows_append)
  moreover have "distinct (map fw_change (db_lifecycles db'))" using d up(5) by (simp add: db')
  ultimately show "store_ok env codec db'" using store_ok_step [OF assms(3), of db' k] by blast
  show "lifecycle_projection_in env codec db' k = Ok (Some q)"
    unfolding projection_in_Some using qk ra' v q query_row_Some [OF r] by auto
  show "lj_digest p = expected" using exp ps by simp
  show "\<exists>e. transition env (lj_lifecycle p) t now = Ok (lj_lifecycle q, e)" using t ps q by auto
  show "lifecycle_projection_in env codec db' k' = lifecycle_projection_in env codec db k'" if "k' \<noteq> k" for k'
    using other [OF that] by (simp add: lifecycle_projection_in_def)
qed

lemma query_row_insert:
  "query_projection_row (db\<lparr>db_lifecycles := db_lifecycles db @ [r]\<rparr>) k =
     (case query_projection_row db k of None \<Rightarrow> if fw_change r = k then Some r else None | Some x \<Rightarrow> Some x)"
  unfolding query_projection_row_def first_row_find by (simp add: find_append del: filter_append split: option.split)

lemma insert_row_Ok:
  assumes "insert_lifecycle_row codec r db = Ok db'"
  shows "db' = db\<lparr>db_lifecycles := db_lifecycles db @ [r]\<rparr>" "\<forall>x \<in> set (db_lifecycles db). fw_change x \<noteq> fw_change r"
  using assms by (auto simp: insert_lifecycle_row_def split: if_splits)

lemma create_lifecycle_ok:
  assumes c: "create_lifecycle env codec now k spec db = Ok (q, db')" and "store_ok env codec db" "codec_ok codec"
  shows "store_ok env codec db'" "lifecycle_projection_in env codec db' k = Ok (Some q)" "lifecycle_projection_in env codec db k = Ok None"
    "\<exists>source. lifecycle_new env k source spec now = Ok (lj_lifecycle q)"
proof -
  from c [unfolded create_lifecycle_def]
  obtain source s json db1 event where none: "lifecycle_projection_in env codec db k = Ok None"
    and s: "lifecycle_new env k source spec now = Ok s" and js: "jc_of_state codec s = Some json"
    and q: "q = \<lparr>lj_lifecycle = s, lj_digest = state_digest env s\<rparr>" and v: "lifecycle_validate env s = Ok ()"
    and row: "insert_lifecycle_row codec \<lparr>fw_id = digest_to_string (dl_id s), fw_change = k, fw_source = digest_to_string source,
        fw_digest = digest_to_string (state_digest env s), fw_generation = 0, fw_json = json, fw_created = now, fw_updated = now\<rparr> db = Ok db1"
    and ev: "event_created env s = Ok event" and ins: "insert_lifecycle_event env codec event ''lifecycle_created'' db1 = Ok db'"
    by (auto split: if_splits option.splits)
  let ?r = "\<lparr>fw_id = digest_to_string (dl_id s), fw_change = k, fw_source = digest_to_string source,
        fw_digest = digest_to_string (state_digest env s), fw_generation = 0, fw_json = json, fw_created = now, fw_updated = now\<rparr>"
  have new: "dl_change_id s = k" "dl_source_snapshot s = source" "dl_generation s = 0"
    using s by (auto simp: lifecycle_new_def Let_def)
  note ir = insert_row_Ok [OF row]
  obtain er where db': "db' = db1\<lparr>db_events := db_events db1 @ [er]\<rparr>" and er: "event_agrees env codec er event" "ew_change er = ev_change_id event"
    by (rule insert_event_Ok [OF ins assms(3)])
  have k: "ew_change er = k" "ew_sequence er \<noteq> None" using er event_created_fields [OF ev] new by (auto simp: event_agrees_def)
  have empty: "query_projection_row db k = None" "journal_rows db k = []"
    using none consistent_projection [OF assms(2), of k] by (auto simp: projection_in_None)
  then have qk: "query_projection_row db' k = Some ?r" by (simp add: db' ir(1) query_row_insert)
  have jr: "journal_rows db' k' = journal_rows db k' @ (if k' = k then [er] else [])" for k'
    using journal_rows_append [of db1 er k'] k by (auto simp: db' ir(1) simp del: store_db.update_convs)
  have jk: "journal_rows db' k = [er]" using empty(2) by (simp add: jr)
  have ra: "row_agrees env codec ?r s" using new js assms(3) by (simp add: row_agrees_def codec_ok_def)
  have "lifecycle_history env s [event]"
    by (rule lifecycle_journal.history.start) (use s ev in \<open>auto simp: opens_lifecycle_def\<close>)
  with ra er(1) have "change_ok env codec (query_projection_row db' k) (journal_rows db' k)"
    unfolding qk jk change_ok_def by (auto intro!: exI [of _ s] exI [of _ "[event]"])
  moreover have "query_projection_row db' k' = query_projection_row db k' \<and> journal_rows db' k' = journal_rows db k'" if "k' \<noteq> k" for k'
    using that by (simp add: jr) (simp add: db' ir(1) query_row_insert split: option.splits)
  moreover have "distinct (map fw_change (db_lifecycles db'))"
    using assms(2) ir(2) by (auto simp: db' ir(1) store_ok_def)
  ultimately show "store_ok env codec db'" using store_ok_step [OF assms(2), of db' k] by blast
  show "lifecycle_projection_in env codec db' k = Ok (Some q)" unfolding projection_in_Some using qk ra v q by auto
  show "lifecycle_projection_in env codec db k = Ok None" by (rule none)
  show "\<exists>source. lifecycle_new env k source spec now = Ok (lj_lifecycle q)" using s q by auto
qed

section \<open>Reachable stores\<close>

text \<open>
  One step: a committed operation of the lifecycle store, or a write of another part of the system, which does not
  touch the lifecycle table or the numbered events.
\<close>

inductive store_step :: "lifecycle_env \<Rightarrow> 'j json_codec \<Rightarrow> 'j store_db \<Rightarrow> 'j store_db \<Rightarrow> bool" for env codec where
  create: "create_lifecycle env codec now k spec db = Ok (q, db') \<Longrightarrow> store_step env codec db db'"
| parent: "parent_transition_lifecycle env codec now k expected t db = Ok (q, db') \<Longrightarrow> store_step env codec db db'"
| approve: "approve_lifecycle_apply env codec seen decided now k expected source db = Ok (q, db') \<Longrightarrow> store_step env codec db db'"
| repair: "consume_lifecycle_repair env codec now k patch verification db = Ok (u, db') \<Longrightarrow> store_step env codec db db'"
| failure: "fail_lifecycle env codec now k reason db = Ok (u, db') \<Longrightarrow> store_step env codec db db'"
| begin_apply: "begin_lifecycle_apply env codec now k expected_option apply_id patch verification db = Ok (u, db') \<Longrightarrow> store_step env codec db db'"
| finish_apply: "finish_lifecycle_apply env codec now k apply_id status db = Ok (u, db') \<Longrightarrow> store_step env codec db db'"
| other: "db_lifecycles db' = db_lifecycles db \<Longrightarrow>
    filter (\<lambda>e. ew_sequence e \<noteq> None) (db_events db') = filter (\<lambda>e. ew_sequence e \<noteq> None) (db_events db) \<Longrightarrow> store_step env codec db db'"

lemma required_projection_Ok [simp]:
  "required_projection env codec db k = Ok p \<longleftrightarrow> lifecycle_projection_in env codec db k = Ok (Some p)"
  by (auto simp: required_projection_def)

text \<open>Every committed operation either changes nothing or records one transition of the lifecycle of its change.\<close>

lemma parent_transition_Ok:
  "parent_transition_lifecycle env codec now k expected t db = Ok (q, db') \<Longrightarrow>
   \<exists>p. lifecycle_projection_in env codec db k = Ok (Some p) \<and> \<not> reserved_transition t \<and>
     validate_transition_artifacts env codec db (lj_lifecycle p) t = Ok () \<and>
     persist_transition env codec p expected t now db = Ok (q, db')"
  by (auto simp: parent_transition_lifecycle_def split: if_splits)

lemma approve_Ok:
  "approve_lifecycle_apply env codec seen decided now k expected source db = Ok (q, db') \<Longrightarrow>
   \<exists>p patch verification. lifecycle_projection_in env codec db k = Ok (Some p) \<and> source = WebUser \<and>
     persist_transition env codec p expected
       (ApproveApply (approval_new (env_blake3 env) expected patch verification source decided)) now db = Ok (q, db')"
  by (auto simp: approve_lifecycle_apply_def Let_def split: if_splits)

lemma with_lifecycle_Ok:
  "with_lifecycle env codec k db f = Ok (u, db') \<Longrightarrow>
   db' = db \<or> (\<exists>p q. lifecycle_projection_in env codec db k = Ok (Some p) \<and> f p = Ok (q, db'))"
  by (auto simp: with_lifecycle_def split: option.splits)

lemma begin_apply_Ok:
  "begin_lifecycle_apply env codec now k expected apply_id patch verification db = Ok (u, db') \<Longrightarrow>
   db' = db \<or> (\<exists>p q e. lifecycle_projection_in env codec db k = Ok (Some p) \<and>
     persist_transition env codec p e (StartApply apply_id) now db = Ok (q, db'))"
  by (auto simp: begin_lifecycle_apply_def split: option.splits if_splits)

lemmas operation_defs = consume_lifecycle_repair_def fail_lifecycle_def finish_lifecycle_apply_def

lemma store_step_cases:
  assumes "store_step env codec db db'"
  shows "(\<exists>now k spec q. create_lifecycle env codec now k spec db = Ok (q, db')) \<or>
    (\<exists>k p expected t now q. lifecycle_projection_in env codec db k = Ok (Some p) \<and> persist_transition env codec p expected t now db = Ok (q, db')) \<or>
    (db_lifecycles db' = db_lifecycles db \<and>
      filter (\<lambda>e. ew_sequence e \<noteq> None) (db_events db') = filter (\<lambda>e. ew_sequence e \<noteq> None) (db_events db))"
  using assms
proof cases
  case create
  then show ?thesis by blast
next
  case parent
  then show ?thesis by (blast dest: parent_transition_Ok)
next
  case approve
  then show ?thesis by (blast dest: approve_Ok)
next
  case repair
  then show ?thesis unfolding operation_defs by (auto dest!: with_lifecycle_Ok split: if_splits)
next
  case failure
  then show ?thesis unfolding operation_defs by (auto dest!: with_lifecycle_Ok split: if_splits)
next
  case begin_apply
  then show ?thesis by (blast dest: begin_apply_Ok)
next
  case finish_apply
  then show ?thesis unfolding operation_defs by (auto dest!: with_lifecycle_Ok split: if_splits)
next
  case other
  then show ?thesis by blast
qed

lemma store_step_ok:
  assumes "store_step env codec db db'" "store_ok env codec db" "codec_ok codec"
  shows "store_ok env codec db'"
proof -
  have "store_ok env codec db'" if "db_lifecycles db' = db_lifecycles db"
    "filter (\<lambda>e. ew_sequence e \<noteq> None) (db_events db') = filter (\<lambda>e. ew_sequence e \<noteq> None) (db_events db)"
  proof -
    have "journal_rows d k = filter (\<lambda>e. ew_change e = k) (filter (\<lambda>e. ew_sequence e \<noteq> None) (db_events d))" for d :: "'a store_db" and k
      by (simp add: journal_rows_def conj_commute)
    then have "journal_rows db' k = journal_rows db k" for k using that(2) by metis
    with assms(2) that(1) show ?thesis by (simp add: store_ok_def query_projection_row_def)
  qed
  with store_step_cases [OF assms(1)] show ?thesis
    using create_lifecycle_ok(1) [OF _ assms(2,3)] persist_transition_ok(1) [OF _ _ assms(2,3)] by metis
qed

lemma steps_ok: "(store_step env codec)\<^sup>*\<^sup>* db db' \<Longrightarrow> store_ok env codec db \<Longrightarrow> codec_ok codec \<Longrightarrow> store_ok env codec db'"
  by (induction rule: rtranclp_induct) (auto intro: store_step_ok)

text \<open>A database in which no lifecycle has been created.\<close>

definition fresh_store :: "'j store_db \<Rightarrow> bool" where
  "fresh_store db \<longleftrightarrow> db_lifecycles db = [] \<and> (\<forall>e \<in> set (db_events db). ew_sequence e = None)"

lemma fresh_store_ok: "fresh_store db \<Longrightarrow> store_ok env codec db"
  by (auto simp: fresh_store_def store_ok_def change_ok_def query_projection_row_def journal_rows_def filter_empty_conv)

text \<open>Reading the journal of a consistent store.\<close>

lemma read_events_Ok: "list_all2 (event_agrees env codec) rows es \<Longrightarrow> \<forall>r \<in> set rows. ew_change r = k \<Longrightarrow>
    collect_results (read_event env codec k) rows = Ok es"
  by (induction rule: list_all2_induct) (auto simp: read_event_def event_agrees_def)

lemma journal_order:
  assumes "list_all2 (event_agrees env codec) rows es" "map ev_sequence es = map word_of_nat [0..<length es]" "length es \<le> 16"
  shows "take 17 (sort_key (\<lambda>e. the (ew_sequence e)) rows) = rows"
proof -
  have len: "length rows = length es" using assms(1) by (rule list_all2_lengthD)
  have "map (\<lambda>e. the (ew_sequence e)) rows = map ev_sequence es"
    using assms(1) by (induction rule: list_all2_induct) (auto simp: event_agrees_def)
  also have "sorted \<dots>"
    unfolding assms(2) using assms(3) by (auto simp: sorted_iff_nth_mono_less word_le_nat_alt unat_of_nat)
  finally have "sort_key (\<lambda>e. the (ew_sequence e)) rows = rows" by (simp add: sort_key_id_if_sorted)
  with len assms(3) show ?thesis by simp
qed

lemma consistent_replay:
  assumes "store_ok env codec db" "query_projection_row db k = Some r"
  shows "\<exists>s es. lifecycle_projection_in env codec db k = Ok (Some \<lparr>lj_lifecycle = s, lj_digest = state_digest env s\<rparr>) \<and>
    replay_and_events env codec db k = Ok (\<lparr>lj_lifecycle = s, lj_digest = state_digest env s\<rparr>, es) \<and>
    lifecycle_history env s es \<and> dl_change_id s = k"
proof -
  from consistent_projection [OF assms(1), of k] assms(2) obtain s es where ra: "row_agrees env codec r s" and h: "lifecycle_history env s es"
    and j: "list_all2 (event_agrees env codec) (journal_rows db k) es"
    and p: "lifecycle_projection_in env codec db k = Ok (Some \<lparr>lj_lifecycle = s, lj_digest = state_digest env s\<rparr>)" by auto
  note hist = history_events [OF h]
  have "lifecycle_event_rows db k = journal_rows db k"
    using journal_order [OF j hist(1,4)] by (simp add: lifecycle_event_rows_def journal_rows_def MAX_LIFECYCLE_EVENTS_def)
  then have "lifecycle_events_in env codec db k = Ok es"
    using read_events_Ok [OF j, of k] hist(4) by (simp add: lifecycle_events_in_def journal_rows_def MAX_LIFECYCLE_EVENTS_def)
  moreover have "lifecycle_replay env es = Ok s" using lifecycle_journal.history_replays [OF h] by simp
  moreover have "lifecycle_validate env s = Ok ()" by (rule reachable_valid [OF history_reachable [OF h]])
  ultimately have "replay_and_events env codec db k = Ok (\<lparr>lj_lifecycle = s, lj_digest = state_digest env s\<rparr>, es)"
    by (simp add: replay_and_events_def p lift_lifecycle_def projection_new_def)
  with p h ra query_row_Some [OF assms(2)] show ?thesis by (auto simp: row_agrees_def)
qed

end
