(* ===== verification/Lifecycle_Store_Demo.thy ===== *)
theory Lifecycle_Store_Demo
  imports Lifecycle_Store
begin

text \<open>
  A concrete database and a development driven through it: the instances at which the store theorems are applied.
  JSON texts are the encoded values themselves, and the hash of a text is its length.
\<close>

datatype demo_json =
    JState development_lifecycle | JEvent lifecycle_event | JArtifact "semantic_worker_artifact artifact" | JWorker semantic_worker_artifact
  | JCertificate validation_certificate | JEvidence command_execution_evidence | JVerification verification_artifact | JRequest change_request

definition demo_codec :: "demo_json json_codec" where
  "demo_codec = \<lparr>jc_of_state = \<lambda>s. Some (JState s), jc_to_state = (\<lambda>j. case j of JState s \<Rightarrow> Some s | _ \<Rightarrow> None),
     jc_of_event = \<lambda>e. Some (JEvent e), jc_to_event = (\<lambda>j. case j of JEvent e \<Rightarrow> Some e | _ \<Rightarrow> None),
     jc_bytes = \<lambda>_. [], jc_chars = \<lambda>_. 0,
     jc_to_artifact = (\<lambda>j. case j of JArtifact a \<Rightarrow>
       Some \<lparr>at_id = at_id a, at_request_id = at_request_id a, at_contract = at_contract a, at_payload = JWorker (at_payload a),
         at_manifest = at_manifest a, at_validations = at_validations a, at_created = at_created a\<rparr> | _ \<Rightarrow> None),
     jc_to_worker = (\<lambda>j. case j of JWorker w \<Rightarrow> Some w | _ \<Rightarrow> None),
     jc_to_certificate = (\<lambda>j. case j of JCertificate c \<Rightarrow> Some c | _ \<Rightarrow> None),
     jc_to_evidence = (\<lambda>j. case j of JEvidence e \<Rightarrow> Some e | _ \<Rightarrow> None),
     jc_to_verification = (\<lambda>j. case j of JVerification v \<Rightarrow> Some v | _ \<Rightarrow> None),
     jc_to_request = (\<lambda>j. case j of JRequest r \<Rightarrow> Some r | _ \<Rightarrow> None)\<rparr>"

definition size_hash :: "u8 list \<Rightarrow> digest" where
  "size_hash b = Digest (word_of_nat (length b) # replicate 31 0)"

definition shop_env :: lifecycle_env where
  "shop_env = \<lparr>env_blake3 = size_hash, env_review_json = (\<lambda>_. Some []), env_state_json = (\<lambda>s. Some (replicate (unat (dl_generation s)) 0)),
     env_event_json = (\<lambda>_. Some [])\<rparr>"

abbreviation shop_change :: string where
  "shop_change \<equiv> ''chg_0123456789abcdef01234567''"

definition shop_source :: digest where "shop_source = Digest (replicate 32 7)"

definition shop_profile :: "string \<Rightarrow> role_profile_provenance" where
  "shop_profile i = \<lparr>pv_profile_id = i, pv_revision = 1, pv_definition_digest = Digest (replicate 32 1)\<rparr>"

definition shop_plan :: test_plan where
  "shop_plan = \<lparr>tp_runner = ''cargo'', tp_argv = [''cargo'', ''test'', ''--lib'', ''plan::tests::merge''],
     tp_cwd_relative = ''.'', tp_identifier = ''plan::tests::merge'', tp_requires_approval = True, tp_execution_evidence = None\<rparr>"

definition shop_worker_artifact :: semantic_worker_artifact where
  "shop_worker_artifact = TestPlanArtifact \<lparr>sp_runner = ''cargo'', sp_argv = tp_argv shop_plan, sp_cwd_relative = ''.'',
     sp_identifiers = [tp_identifier shop_plan], sp_selection = ''representative'', sp_evidence_paths = [''src/plan.rs'']\<rparr>"

definition shop_contract :: "string \<Rightarrow> artifact_contract" where
  "shop_contract kind = artifact_contract_semantic size_hash ''shop'' 1 kind SnapshotExact"

definition shop_artifact :: "semantic_worker_artifact \<Rightarrow> semantic_worker_artifact artifact" where
  "shop_artifact w = \<lparr>at_id = the (canonical_artifact_id size_hash (ac_definition (shop_contract (worker_artifact_kind w))) w),
     at_request_id = Digest [9], at_contract = shop_contract (worker_artifact_kind w), at_payload = w,
     at_manifest = \<lparr>dm_scope = SnapshotExact, dm_complete = True, dm_dependencies = [], dm_gaps = []\<rparr>, at_validations = [], at_created = 0\<rparr>"

definition shop_certificate :: "semantic_worker_artifact \<Rightarrow> test_plan_evidence_status option \<Rightarrow> validation_certificate" where
  "shop_certificate w status =
     (let coverage = \<lparr>cm_entries = [], cm_world = \<lparr>sw_lineage = Digest [], sw_source = ''current'', sw_platform = ''any'', sw_features = ''default'',
            sw_configuration = None, sw_toolchain = None\<rparr>, cm_dependency_manifest = Digest []\<rparr> in
      \<lparr>vf_id = validation_certificate_id size_hash (at_id (shop_artifact w)) [] [] coverage (Digest []) status,
       vf_artifact = at_id (shop_artifact w), vf_inputs = [], vf_evidence_ids = [], vf_test_plan_evidence = status, vf_coverage = coverage,
       vf_validator = Digest [], vf_dependency_checks = Digest [], vf_issued = 0\<rparr>)"

definition shop_spec :: lifecycle_spec where
  "shop_spec = \<lparr>ls_worker_depth_limit = 1,
     ls_profiles = \<lparr>wp_explore = shop_profile ''explorer'', wp_implement = shop_profile ''implementer'', wp_test = shop_profile ''tester'',
       wp_review = shop_profile ''reviewer'', wp_verify = shop_profile ''verifier''\<rparr>,
     ls_budget = \<lparr>lb_max_worker_turns = 20, lb_max_output_tokens = 1000, lb_max_cost_microusd = 1000, lb_max_concurrent_workers = 1\<rparr>,
     ls_test_plans = [\<lparr>tb_plan = shop_plan, tb_certificate_digest = vf_id (shop_certificate shop_worker_artifact (Some Located))\<rparr>]\<rparr>"

definition shop_rows :: "semantic_worker_artifact \<Rightarrow> test_plan_evidence_status option \<Rightarrow> demo_json artifact_row \<times> demo_json certificate_row" where
  "shop_rows w status =
     (\<lparr>aw_id = digest_to_string (at_id (shop_artifact w)), aw_request = digest_to_string (Digest [9]), aw_format = 2, aw_json = JArtifact (shop_artifact w)\<rparr>,
      \<lparr>cw_id = digest_to_string (vf_id (shop_certificate w status)), cw_artifact = digest_to_string (at_id (shop_artifact w)),
       cw_json = JCertificate (shop_certificate w status), cw_issued = 0\<rparr>)"

definition shop_profiles :: "(string \<times> codex_role) list" where
  "shop_profiles = [(''explorer'', Explorer), (''implementer'', Implementer), (''tester'', TestRunner), (''reviewer'', Reviewer), (''verifier'', Verifier)]"

definition shop_db :: "demo_json store_db" where
  "shop_db = \<lparr>db_lifecycles = [], db_events = [],
     db_requests = [\<lparr>qw_change = shop_change, qw_source = digest_to_string shop_source, qw_state = ''requested'', qw_json = JRequest
       \<lparr>cr_task = ''t'', cr_acceptance = [''works''], cr_paths = [], cr_artifacts = [], cr_claims = [], cr_constraints = []\<rparr>,
       qw_latest_patch = 0, qw_repair_attempted = False, qw_profile_id = Some ''implementer'', qw_profile_revision = Some 1,
       qw_profile_digest = Some (digest_to_string (Digest (replicate 32 1)))\<rparr>],
     db_profiles = map (\<lambda>(i, r). \<lparr>pw_id = i, pw_role = codex_role_str r\<rparr>) shop_profiles,
     db_profile_states = map (\<lambda>(i, r). \<lparr>sw_id = i, sw_active = Some 1\<rparr>) shop_profiles,
     db_profile_revisions = map (\<lambda>(i, r). \<lparr>vw_id = i, vw_revision = 1, vw_digest = digest_to_string (Digest (replicate 32 1)), vw_activated = Some 0\<rparr>) shop_profiles,
     db_artifacts = [fst (shop_rows shop_worker_artifact (Some Located))],
     db_artifact_requests = [\<lparr>rw_id = digest_to_string (Digest [9]), rw_source = digest_to_string shop_source\<rparr>],
     db_certificates = [snd (shop_rows shop_worker_artifact (Some Located))],
     db_patches = [], db_evidence = [], db_verifications = []\<rparr>"

lemma shop_profiles_bound: "validate_profile_set shop_db (ls_profiles shop_spec) = Ok ()"
  by (simp add: validate_profile_set_def profile_bound_def shop_db_def shop_spec_def shop_profiles_def shop_profile_def sql_u64_def)

lemma shop_env_simps [simp]: "env_blake3 shop_env = size_hash" "env_review_json shop_env r = Some []" "env_event_json shop_env e = Some []"
  "env_state_json shop_env s = Some (replicate (unat (dl_generation s)) 0)"
  by (simp_all add: shop_env_def)

lemma demo_codec_simps [simp]:
  "jc_of_state demo_codec s = Some (JState s)" "jc_to_state demo_codec (JState s) = Some s" "jc_of_event demo_codec e = Some (JEvent e)"
  "jc_to_event demo_codec (JEvent e) = Some e" "jc_chars demo_codec j = 0" "jc_bytes demo_codec j = []"
  "jc_to_certificate demo_codec (JCertificate c) = Some c" "jc_to_evidence demo_codec (JEvidence v) = Some v"
  "jc_to_verification demo_codec (JVerification a) = Some a" "jc_to_request demo_codec (JRequest q) = Some q"
  by (simp_all add: demo_codec_def)

lemma shop_parse:
  assumes "canonical_artifact_id size_hash (ac_definition (shop_contract (worker_artifact_kind w))) w \<noteq> None"
  shows "parse_semantic_artifact shop_env demo_codec (fst (shop_rows w status)) = Ok w"
  using assms by (auto simp: parse_semantic_artifact_def shop_rows_def demo_codec_def shop_artifact_def shop_contract_def artifact_contract_semantic_def)

lemma shop_certificate_fields [simp]:
  "certificate_structurally_canonical size_hash (shop_certificate w status)" "vf_artifact (shop_certificate w status) = at_id (shop_artifact w)"
  "vf_test_plan_evidence (shop_certificate w status) = status"
  by (simp_all add: certificate_structurally_canonical_def shop_certificate_def Let_def)

lemma shop_binding: "parent_owned_binding shop_worker_artifact shop_plan"
  by code_simp

lemma shop_plan_certified: "validate_test_plan_certificates shop_env demo_codec shop_db shop_spec shop_source = Ok ()"
proof -
  have "canonical_artifact_id size_hash c shop_worker_artifact \<noteq> None" for c
    by (simp add: canonical_artifact_id_def shop_worker_artifact_def shop_plan_def hash_sorted_strings_def)
  then have "parse_semantic_artifact shop_env demo_codec (fst (shop_rows shop_worker_artifact (Some Located))) = Ok shop_worker_artifact"
    by (intro shop_parse)
  then show ?thesis using shop_binding
    by (simp add: validate_test_plan_certificates_def validate_test_plan_certificate_def shop_db_def shop_spec_def)
      (simp add: shop_rows_def)
qed

lemma size_hash_wf: "length (digest_to_string (size_hash b)) = 67" "length (digest_to_string (Digest (replicate 32 x))) = 67"
  by (simp_all add: digest_to_string_def size_hash_def)

lemma shop_profile_valid:
  "i \<in> {''explorer'', ''implementer'', ''tester'', ''reviewer'', ''verifier''} \<Longrightarrow> provenance_validate (shop_profile i) = Ok ()"
proof -
  have "provenance_validate (shop_profile ''explorer'') = Ok ()" "provenance_validate (shop_profile ''implementer'') = Ok ()"
    "provenance_validate (shop_profile ''tester'') = Ok ()" "provenance_validate (shop_profile ''reviewer'') = Ok ()"
    "provenance_validate (shop_profile ''verifier'') = Ok ()" by code_simp+
  then show "i \<in> {''explorer'', ''implementer'', ''tester'', ''reviewer'', ''verifier''} \<Longrightarrow> provenance_validate (shop_profile i) = Ok ()" by auto
qed

lemma shop_binding_valid: "binding_validate \<lparr>tb_plan = shop_plan, tb_certificate_digest = d\<rparr> = Ok ()"
proof -
  have "binding_validate \<lparr>tb_plan = shop_plan, tb_certificate_digest = Digest []\<rparr> = Ok ()" by code_simp
  then show ?thesis by (simp add: binding_validate_def)
qed

lemma shop_spec_valid: "spec_validate size_hash shop_spec = Ok ()"
  by (simp add: spec_validate_def shop_spec_def profiles_validate_def LIFECYCLE_PHASES_def shop_profile_valid
    budget_validate_def MAX_LIFECYCLE_TEST_PLANS_def MAX_VERIFIER_TEST_PLANS_def shop_binding_valid)

definition shop_start :: development_lifecycle where
  "shop_start = \<lparr>dl_id = lifecycle_id_compute size_hash shop_change shop_source (ls_profiles shop_spec),
        dl_change_id = shop_change, dl_source_snapshot = shop_source, dl_spec = shop_spec, dl_phase = Explore,
        dl_status = Active, dl_terminal_outcome = None, dl_terminal_reason = None, dl_generation = 0,
        dl_usage = usage_default, dl_exploration_artifacts = [], dl_patch = None, dl_test_results = [],
        dl_review = None, dl_verification = None, dl_repair_reserved = False, dl_repair_consumed = False,
        dl_approval = None, dl_apply_id = None, dl_created = 5, dl_updated = 5\<rparr>"

lemmas shop_validate_defs = lifecycle_validate_def validate_artifact_chain_def check_exploration_def check_patch_def check_results_def
  check_review_def check_verification_def check_approval_def expected_revision_def MAX_LIFECYCLE_EVENTS_def MAX_LIFECYCLE_STATE_BYTES_def
  MAX_LIFECYCLE_ARTIFACT_REFS_def validate_status_shape_def terminal_fields_agree_def valid_terminal_def usage_within_def usage_default_def

lemma shop_new: "lifecycle_new shop_env shop_change shop_source shop_spec 5 = Ok shop_start"
  by (simp add: lifecycle_new_def shop_start_def shop_validate_defs shop_spec_valid)

lemma shop_event_size [simp]: "event_validate_size shop_env e = Ok ()"
  by (simp add: event_validate_size_def)

lemma shop_id_length: "length (digest_to_string (dl_id shop_start)) = 67" "length (digest_to_string shop_source) = 67"
  "length (digest_to_string (state_digest shop_env s)) = 67"
  by (simp_all add: shop_start_def lifecycle_id_compute_def hasher_finish_def size_hash_wf shop_source_def state_digest_def)

lemma shop_anchor: "parse_profile_anchor (Some ''implementer'') (Some 1) (Some (digest_to_string (Digest (replicate 32 1)))) =
    Ok (Some (shop_profile ''implementer''))"
proof -
  have "digest_parse (digest_to_string (Digest (replicate 32 1))) = Ok (Digest (replicate 32 1))"
    by (rule digest_parse_to_string) (simp add: wf_digest_def)
  moreover have "role_profile_id_new ''implementer'' = Ok ''implementer''" by code_simp
  ultimately show ?thesis using shop_profile_valid [of "''implementer''"]
    by (simp add: parse_profile_anchor_def provenance_new_def shop_profile_def)
qed

definition shop_db1 :: "demo_json store_db" where
  "shop_db1 = shop_db\<lparr>
     db_lifecycles := [\<lparr>fw_id = digest_to_string (dl_id shop_start), fw_change = shop_change, fw_source = digest_to_string shop_source,
       fw_digest = digest_to_string (state_digest shop_env shop_start), fw_generation = 0, fw_json = JState shop_start, fw_created = 5, fw_updated = 5\<rparr>],
     db_events := [\<lparr>ew_change = shop_change, ew_type = ''lifecycle_created'', ew_digest = digest_to_string (size_hash []),
       ew_json = JEvent (case event_created shop_env shop_start of Ok e \<Rightarrow> e), ew_created = 5, ew_sequence = Some 0\<rparr>]\<rparr>"

lemma shop_db_rows: "db_lifecycles shop_db = []" "db_events shop_db = []"
  "first_row (filter (\<lambda>q. qw_change q = shop_change) (db_requests shop_db)) = Some (hd (db_requests shop_db))"
  "qw_source (hd (db_requests shop_db)) = digest_to_string shop_source" "qw_profile_id (hd (db_requests shop_db)) = Some ''implementer''"
  "qw_profile_revision (hd (db_requests shop_db)) = Some 1"
  "qw_profile_digest (hd (db_requests shop_db)) = Some (digest_to_string (Digest (replicate 32 1)))"
  "qw_state (hd (db_requests shop_db)) = ''requested''" "qw_latest_patch (hd (db_requests shop_db)) = 0" "\<not> qw_repair_attempted (hd (db_requests shop_db))"
  by (simp_all add: shop_db_def)

lemma shop_create:
  "create_lifecycle shop_env demo_codec 5 shop_change shop_spec shop_db =
     Ok (\<lparr>lj_lifecycle = shop_start, lj_digest = state_digest shop_env shop_start\<rparr>, shop_db1)"
proof -
  have "digest_parse (digest_to_string shop_source) = Ok shop_source"
    by (rule digest_parse_to_string) (simp add: wf_digest_def shop_source_def)
  moreover have "lifecycle_validate shop_env shop_start = Ok ()" using shop_new by (auto simp: lifecycle_new_def Let_def)
  moreover have "wp_implement (ls_profiles shop_spec) = shop_profile ''implementer''" by (simp add: shop_spec_def)
  moreover have "event_created shop_env shop_start = Ok e \<Longrightarrow> ev_change_id e = shop_change \<and> ev_created e = 5 \<and> ev_sequence e = 0" for e
    by (auto simp: event_created_def Let_def shop_start_def)
  moreover obtain e where "event_created shop_env shop_start = Ok e" by (simp add: event_created_def)
  ultimately show ?thesis
    using shop_profiles_bound shop_plan_certified shop_anchor shop_id_length shop_db_rows
    by (simp add: shop_db1_def create_lifecycle_def lift_lifecycle_def shop_spec_valid lifecycle_projection_in_def query_projection_row_def
      shop_new projection_new_def insert_lifecycle_row_def insert_lifecycle_event_def row_checks_def text_of_digest_size_def sql_u64_def Let_def size_hash_wf)
qed

text \<open>The development is cancelled right after its creation.\<close>

definition shop_reason :: lifecycle_reason where
  "shop_reason = \<lparr>lr_code = ''user'', lr_detail_digest = Digest []\<rparr>"

definition shop_cancelled :: development_lifecycle where
  "shop_cancelled = shop_start\<lparr>dl_status := StatusCancelled, dl_terminal_outcome := Some OutcomeCancelled,
     dl_terminal_reason := Some shop_reason, dl_generation := 1, dl_updated := 6\<rparr>"

lemma shop_reason_valid: "reason_validate shop_reason = Ok ()"
  by code_simp

lemma shop_states_valid: "lifecycle_validate shop_env shop_start = Ok ()" "lifecycle_validate shop_env shop_cancelled = Ok ()"
  by (simp_all add: shop_cancelled_def shop_start_def shop_validate_defs shop_spec_valid shop_reason_valid apply_outcome_def word_le_nat_alt)

lemma shop_start_fields: "dl_status shop_start = Active" "dl_updated shop_start = 5" "dl_generation shop_start = 0" "dl_repair_reserved shop_start = False"
  "dl_change_id shop_start = shop_change" "dl_source_snapshot shop_start = shop_source"
  by (simp_all add: shop_start_def)

lemma shop_transition: "\<exists>e. transition shop_env shop_start (Cancel shop_reason) 6 = Ok (shop_cancelled, e)"
proof -
  have "apply_transition shop_env (Cancel shop_reason) shop_start =
    Ok (shop_start\<lparr>dl_status := StatusCancelled, dl_terminal_outcome := Some OutcomeCancelled, dl_terminal_reason := Some shop_reason\<rparr>)"
    by (simp add: stop_transition_def finish_terminal_def shop_reason_valid shop_start_def)
  moreover have "next_of (shop_start\<lparr>dl_status := StatusCancelled, dl_terminal_outcome := Some OutcomeCancelled, dl_terminal_reason := Some shop_reason\<rparr>) 6 =
    shop_cancelled" by (simp add: next_of_def shop_cancelled_def shop_start_fields)
  ultimately show ?thesis using shop_states_valid unfolding transition_Ok_iff
    by (simp add: shop_start_fields event_transitioned_def Let_def)
qed

lemma shop_read: "lifecycle_projection_in shop_env demo_codec shop_db1 shop_change =
    Ok (Some \<lparr>lj_lifecycle = shop_start, lj_digest = state_digest shop_env shop_start\<rparr>)"
  using shop_states_valid
  by (simp add: lifecycle_projection_in_def query_projection_row_def shop_db1_def lift_lifecycle_def shop_start_fields)

lemma shop_update: "\<exists>db'. update_lifecycle_row demo_codec shop_change (digest_to_string (state_digest shop_env shop_start)) 0
    (digest_to_string (state_digest shop_env shop_cancelled), 1, JState shop_cancelled, 6) shop_db1 = Ok (db', 1) \<and> db_events db' = db_events shop_db1"
  using shop_id_length by (simp add: update_lifecycle_row_def shop_db1_def sql_u64_def row_checks_def text_of_digest_size_def)

lemma shop_cancel: "\<exists>db'. parent_transition_lifecycle shop_env demo_codec 6 shop_change (state_digest shop_env shop_start) (Cancel shop_reason) shop_db1 =
    Ok (\<lparr>lj_lifecycle = shop_cancelled, lj_digest = state_digest shop_env shop_cancelled\<rparr>, db')"
proof -
  from shop_transition obtain e where e: "transition shop_env shop_start (Cancel shop_reason) 6 = Ok (shop_cancelled, e)" by blast
  then have f: "ev_change_id e = shop_change" "ev_created e = 6" "ev_sequence e = 1"
    by (auto simp: transition_Ok_iff event_transitioned_def Let_def shop_cancelled_def shop_start_fields)
  from shop_update obtain db' where u: "update_lifecycle_row demo_codec shop_change (digest_to_string (state_digest shop_env shop_start)) 0
    (digest_to_string (state_digest shop_env shop_cancelled), 1, JState shop_cancelled, 6) shop_db1 = Ok (db', 1)" "db_events db' = db_events shop_db1" by blast
  have "\<exists>db''. insert_lifecycle_event shop_env demo_codec e ''lifecycle_transitioned'' db' = Ok db''"
    by (simp add: insert_lifecycle_event_def f u(2) sql_u64_def text_of_digest_size_def Let_def size_hash_wf shop_db1_def)
  moreover have "dl_generation shop_cancelled = 1" by (simp add: shop_cancelled_def)
  moreover have "required_projection shop_env demo_codec shop_db1 shop_change =
    Ok \<lparr>lj_lifecycle = shop_start, lj_digest = state_digest shop_env shop_start\<rparr>" by (simp add: required_projection_def shop_read)
  ultimately show ?thesis
    using e u(1) shop_states_valid
    by (auto simp: parent_transition_lifecycle_def persist_transition_def projection_new_def lift_lifecycle_def shop_start_fields)
qed

end
