(* ===== verification/Lifecycle_Store_Theorems.thy ===== *)
theory Lifecycle_Store_Theorems
  imports Lifecycle_Store_Proofs Lifecycle_Store_Demo
begin

text \<open>
  What the lifecycle store promises its clients, with each theorem applied to the database of
  \<open>Lifecycle_Store_Demo\<close>.
\<close>

lemma demo_codec_ok: "codec_ok demo_codec"
  by (simp add: codec_ok_def)

lemma shop_db_fresh: "fresh_store shop_db"
  by (simp add: fresh_store_def shop_db_rows)

lemma shop_db1_ok: "store_ok shop_env demo_codec shop_db1"
  using create_lifecycle_ok(1) [OF shop_create fresh_store_ok [OF shop_db_fresh] demo_codec_ok] .

text \<open>
  C8. The store never reports corruption of its own data. From a database without lifecycles, after any sequence of
  operations (creations, transitions, approvals, repairs, failures, applies, in any order, with other writes in
  between), each change either has no lifecycle, and replaying it is a plain not-found, or the stored projection,
  the replay of the journal and the journal itself agree: the lifecycle is one the state machine can reach, its
  digest is the digest of its state, and it has one event per generation.
\<close>

theorem store_replays:
  assumes "fresh_store db" "codec_ok codec" "(store_step env codec)\<^sup>*\<^sup>* db db'"
  shows "(lifecycle_projection_in env codec db' k = Ok None \<and> replay_lifecycle env codec db' k = Err (LifecycleNotFound k)) \<or>
    (\<exists>s es. lifecycle_projection_in env codec db' k = Ok (Some \<lparr>lj_lifecycle = s, lj_digest = state_digest env s\<rparr>) \<and>
      replay_lifecycle env codec db' k = Ok \<lparr>lj_lifecycle = s, lj_digest = state_digest env s\<rparr> \<and>
      replay_lifecycle_events env codec db' k = Ok es \<and> lifecycle_replay env es = Ok s \<and>
      reachable env s \<and> dl_change_id s = k \<and> length es = unat (dl_generation s) + 1)"
proof -
  have ok: "store_ok env codec db'" using steps_ok [OF assms(3) fresh_store_ok assms(2)] assms(1) by blast
  show ?thesis
  proof (cases "query_projection_row db' k")
    case None
    then have "lifecycle_projection_in env codec db' k = Ok None" by (simp add: projection_in_None)
    then show ?thesis by (simp add: replay_lifecycle_def replay_and_events_def)
  next
    case (Some r)
    from consistent_replay [OF ok Some] obtain s es
      where p: "lifecycle_projection_in env codec db' k = Ok (Some \<lparr>lj_lifecycle = s, lj_digest = state_digest env s\<rparr>)"
      and e: "replay_and_events env codec db' k = Ok (\<lparr>lj_lifecycle = s, lj_digest = state_digest env s\<rparr>, es)"
      and h: "lifecycle_history env s es" and k: "dl_change_id s = k" by blast
    then show ?thesis
      using history_reachable [OF h] history_events(2) [OF h] lifecycle_journal.history_replays [OF h]
      by (intro disjI2 exI [of _ s] exI [of _ es]) (simp add: replay_lifecycle_def replay_lifecycle_events_def)
  qed
qed

theorem store_replays_witness:
  "\<exists>es. replay_lifecycle shop_env demo_codec shop_db1 shop_change = Ok \<lparr>lj_lifecycle = shop_start, lj_digest = state_digest shop_env shop_start\<rparr> \<and>
     replay_lifecycle_events shop_env demo_codec shop_db1 shop_change = Ok es \<and> lifecycle_replay shop_env es = Ok shop_start"
proof -
  have "(store_step shop_env demo_codec)\<^sup>*\<^sup>* shop_db shop_db1" using store_step.create [OF shop_create] by blast
  from store_replays [OF shop_db_fresh demo_codec_ok this, of shop_change] show ?thesis by (auto simp: shop_read)
qed

section \<open>What single operations promise\<close>

text \<open>
  An approval does not float: whatever the web user was shown, it is recorded only if the lifecycle stored at that
  moment still has the approved digest and awaits approval, and then for exactly the patch and the verification
  of that lifecycle; nothing stored for other changes moves.
\<close>

theorem approval_binds:
  assumes "store_ok env codec db" "codec_ok codec"
    and "approve_lifecycle_apply env codec seen decided now k expected source db = Ok (q, db')"
  shows "\<exists>s patch verification. lifecycle_projection_in env codec db k = Ok (Some \<lparr>lj_lifecycle = s, lj_digest = expected\<rparr>) \<and>
    dl_phase s = Apply \<and> dl_status s = AwaitingApproval \<and> dl_patch s = Some patch \<and> dl_verification s = Some verification \<and>
    dl_status (lj_lifecycle q) = StatusApproved \<and>
    dl_approval (lj_lifecycle q) =
      Some (approval_new (env_blake3 env) expected (lp_patch_id patch) (lv_verification_id verification) WebUser decided) \<and>
    lifecycle_projection_in env codec db' k = Ok (Some q) \<and>
    (\<forall>k'. k' \<noteq> k \<longrightarrow> lifecycle_projection_in env codec db' k' = lifecycle_projection_in env codec db k')"
proof -
  from approve_Ok [OF assms(3)] obtain p patch verification where p: "lifecycle_projection_in env codec db k = Ok (Some p)"
    and s: "source = WebUser" and t: "persist_transition env codec p expected
      (ApproveApply (approval_new (env_blake3 env) expected patch verification source decided)) now db = Ok (q, db')" by blast
  note pt = persist_transition_ok [OF t p assms(1,2)]
  from pt(4) obtain e m where m: "approve_apply env (approval_new (env_blake3 env) expected patch verification source decided) (lj_lifecycle p) = Ok m"
    and q: "lj_lifecycle q = next_of m now" by (auto simp: transition_Ok_iff)
  from m obtain pa ve where pa: "dl_patch (lj_lifecycle p) = Some pa" "dl_verification (lj_lifecycle p) = Some ve"
    "patch = lp_patch_id pa" "verification = lv_verification_id ve" "dl_phase (lj_lifecycle p) = Apply" "dl_status (lj_lifecycle p) = AwaitingApproval"
    "m = (lj_lifecycle p)\<lparr>dl_approval := Some (approval_new (env_blake3 env) expected patch verification source decided), dl_status := StatusApproved\<rparr>"
    by (auto simp: approve_apply_def guard_Ok_iff approval_new_def)
  have "p = \<lparr>lj_lifecycle = lj_lifecycle p, lj_digest = expected\<rparr>" using pt(3) by (cases p) simp
  with p have "lifecycle_projection_in env codec db k = Ok (Some \<lparr>lj_lifecycle = lj_lifecycle p, lj_digest = expected\<rparr>)" by simp
  moreover have "\<forall>k'. k' \<noteq> k \<longrightarrow> lifecycle_projection_in env codec db' k' = lifecycle_projection_in env codec db k'" using pt(5) by blast
  ultimately show ?thesis using pa q s pt(2)
    by (intro exI [of _ "lj_lifecycle p"] exI [of _ pa] exI [of _ ve]) (simp add: next_of_def)
qed





lemma all_ok_Ok [simp]: "all_ok f xs = Ok u \<longleftrightarrow> (\<forall>x \<in> set xs. f x = Ok ())"
  by (induction xs) auto









text \<open>
  The list of lifecycles: with a limit from 1 to 100 it returns, in increasing order of the change identity, the
  summaries of the first changes, each equal to what replaying that change gives; with any other limit it is refused.
\<close>

theorem summaries_listed:
  assumes "store_ok env codec db" "\<forall>r \<in> set (db_lifecycles db). change_id_parse (fw_change r) = Ok (fw_change r)"
  shows "(limit = 0 \<or> 100 < limit \<longrightarrow> (\<exists>message. list_lifecycle_summaries env codec db limit = Err (LifecycleQuery message))) \<and>
    (1 \<le> limit \<and> limit \<le> 100 \<longrightarrow>
      (\<exists>ms. list_lifecycle_summaries env codec db limit = Ok ms \<and> length ms = min limit (length (db_lifecycles db)) \<and>
        sorted_wrt (<) (map lm_change_id ms) \<and>
        (\<forall>m \<in> set ms. \<exists>p. replay_lifecycle env codec db (lm_change_id m) = Ok p \<and> m = summary_from_projection p)))"
proof -
  let ?ids = "take limit (sort (map fw_change (db_lifecycles db)))"
  let ?f = "\<lambda>raw. rbind (map_err (\<lambda>_. LifecycleCorruption ''lifecycle list change identity'') (change_id_parse raw)) (\<lambda>change_id.
        rbind (replay_lifecycle env codec db change_id) (\<lambda>projection. Ok (summary_from_projection projection)))"
  have "\<exists>p. replay_lifecycle env codec db k = Ok p \<and> dl_change_id (lj_lifecycle p) = k \<and> ?f k = Ok (summary_from_projection p)"
    if "k \<in> set ?ids" for k
  proof -
    from in_set_takeD [OF that] obtain r where r: "r \<in> set (db_lifecycles db)" "fw_change r = k" by auto
    have "query_projection_row db k = Some r"
      using find_distinct_key [of fw_change "db_lifecycles db" r] assms(1) r by (simp add: query_projection_row_def store_ok_def)
    from consistent_replay [OF assms(1) this] obtain p es where "replay_and_events env codec db k = Ok (p, es)" "dl_change_id (lj_lifecycle p) = k" by auto
    with assms(2) r show ?thesis by (auto simp: replay_lifecycle_def)
  qed
  then obtain pr where pr: "\<And>k. k \<in> set ?ids \<Longrightarrow> replay_lifecycle env codec db k = Ok (pr k) \<and> dl_change_id (lj_lifecycle (pr k)) = k \<and>
      ?f k = Ok (summary_from_projection (pr k))" by metis
  let ?ms = "map (\<lambda>k. summary_from_projection (pr k)) ?ids"
  have "collect_results ?f ?ids = Ok ?ms"
    unfolding collect_results_Ok_iff list.rel_map(2) using pr by (simp add: list.rel_refl_strong list_all2_same)
  moreover have id: "lm_change_id (summary_from_projection (pr k)) = k" if "k \<in> set ?ids" for k
    using pr [OF that] by (simp add: summary_from_projection_def Let_def)
  then have "map lm_change_id ?ms = ?ids" by (simp add: map_idI)
  moreover have "sorted_wrt (<) ?ids"
    using assms(1) by (intro sorted_wrt_take) (simp add: store_ok_def strict_sorted_iff)
  moreover have "\<forall>m \<in> set ?ms. \<exists>p. replay_lifecycle env codec db (lm_change_id m) = Ok p \<and> m = summary_from_projection p"
    using pr id by auto
  ultimately show ?thesis by (auto simp: list_lifecycle_summaries_def MAX_LIFECYCLE_LIST_LIMIT_def min.commute)
qed

theorem summaries_listed_witness:
  "\<exists>ms. list_lifecycle_summaries shop_env demo_codec shop_db1 7 = Ok ms \<and> length ms = 1"
proof -
  have "change_id_parse shop_change = Ok shop_change" by code_simp
  then have "\<forall>r \<in> set (db_lifecycles shop_db1). change_id_parse (fw_change r) = Ok (fw_change r)" by (simp add: shop_db1_def)
  from summaries_listed [OF shop_db1_ok this, of 7] show ?thesis by (auto simp: shop_db1_def)
qed

end
