(* ===== verification/Profile_Store.thy ===== *)
theory Profile_Store
  imports Lifecycle_Store_Proofs
begin

text \<open>
  The persistent store of role profiles, \<^verbatim>\<open>crates/needle-runtime/src/store/role_profiles.rs\<close> with its modules
  \<^verbatim>\<open>state.rs\<close> and \<^verbatim>\<open>audit.rs\<close>: the four tables of migration 14 in \<^verbatim>\<open>store.rs\<close> with their constraints, and every
  operation on them. Definitions are stored as JSON texts of the type \<open>'j\<close>, read and written by a codec.
  Errors that quote another error keep only their own text.
\<close>

section \<open>Tables\<close>

record 'j profile_codec =
  pc_of :: "role_profile_definition \<Rightarrow> 'j option"
  pc_to :: "'j \<Rightarrow> role_profile_definition option"
  pc_chars :: "'j \<Rightarrow> nat"

record identity_row =
  pi_id :: string
  pi_role :: string
  pi_created :: u64

record 'j revision_row =
  pr_id :: string
  pr_revision :: u64
  pr_digest :: string
  pr_json :: 'j
  pr_created :: u64
  pr_activated :: "u64 option"

record state_row =
  ts_id :: string
  ts_latest :: u64
  ts_active :: "u64 option"
  ts_generation :: u64
  ts_updated :: u64

record audit_row =
  au_id :: nat
  au_profile :: string
  au_revision :: u64
  au_digest :: string
  au_operation :: string
  au_prior_state :: "string option"
  au_resulting_state :: string
  au_prior_digest :: "string option"
  au_resulting_digest :: string
  au_prior_active :: "u64 option"
  au_prior_active_digest :: "string option"
  au_resulting_active :: "u64 option"
  au_resulting_active_digest :: "string option"
  au_created :: u64

record 'j profile_db =
  px_profiles :: "identity_row list"
  px_revisions :: "'j revision_row list"
  px_states :: "state_row list"
  px_audit :: "audit_row list"

datatype profile_error =
    ProfileSql | ProfileJson
  | ProfileInvalid role_profile_error
  | ProfileRejected string
  | ProfileCorruption string
  | ProfileConflict string
  | ProfileNotFound string

definition bind_u64 :: "u64 \<Rightarrow> (unit, profile_error) result" where
  "bind_u64 n = map_err (\<lambda>_. ProfileSql) (sql_u64 n)"

text \<open>The statements that write, with the constraints of the tables.\<close>

definition insert_identity :: "identity_row \<Rightarrow> 'j profile_db \<Rightarrow> ('j profile_db, profile_error) result" where
  "insert_identity r db =
     rbind (bind_u64 (pi_created r)) (\<lambda>_.
     if (\<exists>x \<in> set (px_profiles db). pi_id x = pi_id r) \<or> \<not> (1 \<le> length (pi_id r) \<and> length (pi_id r) \<le> 64) \<or>
        pi_role r \<notin> {''explorer'', ''implementer'', ''test_runner'', ''reviewer'', ''verifier'', ''auditor''}
     then Err ProfileSql
     else Ok (db\<lparr>px_profiles := px_profiles db @ [r]\<rparr>))"

definition insert_revision :: "'j profile_codec \<Rightarrow> 'j revision_row \<Rightarrow> 'j profile_db \<Rightarrow> ('j profile_db, profile_error) result" where
  "insert_revision codec r db =
     rbind (bind_u64 (pr_revision r)) (\<lambda>_. rbind (bind_u64 (pr_created r)) (\<lambda>_.
     if \<not> (\<exists>x \<in> set (px_profiles db). pi_id x = pr_id r) \<or>
        (\<exists>x \<in> set (px_revisions db). pr_digest x = pr_digest r \<or> pr_id x = pr_id r \<and> pr_revision x = pr_revision r) \<or>
        pr_revision r = 0 \<or> \<not> text_of_digest_size (pr_digest r) \<or> pc_chars codec (pr_json r) > 32768
     then Err ProfileSql
     else Ok (db\<lparr>px_revisions := px_revisions db @ [r]\<rparr>)))"

definition has_revision :: "'j profile_db \<Rightarrow> string \<Rightarrow> u64 \<Rightarrow> bool" where
  "has_revision db k n \<longleftrightarrow> (\<exists>x \<in> set (px_revisions db). pr_id x = k \<and> pr_revision x = n)"

definition state_row_checks :: "'j profile_db \<Rightarrow> state_row \<Rightarrow> bool" where
  "state_row_checks db r \<longleftrightarrow>
     ts_latest r > 0 \<and> ts_active r \<noteq> Some 0 \<and> has_revision db (ts_id r) (ts_latest r) \<and>
     (\<forall>n \<in> set_option (ts_active r). has_revision db (ts_id r) n)"

definition insert_state :: "state_row \<Rightarrow> 'j profile_db \<Rightarrow> ('j profile_db, profile_error) result" where
  "insert_state r db =
     rbind (bind_u64 (ts_updated r)) (\<lambda>_.
     if (\<exists>x \<in> set (px_states db). ts_id x = ts_id r) \<or> \<not> (\<exists>x \<in> set (px_profiles db). pi_id x = ts_id r) \<or> \<not> state_row_checks db r
     then Err ProfileSql
     else Ok (db\<lparr>px_states := px_states db @ [r]\<rparr>))"

text \<open>\<open>UPDATE role_profile_state ... WHERE profile_id=? AND state_generation=?\<close>, with the number of rows changed.\<close>

definition update_state ::
    "string \<Rightarrow> u64 \<Rightarrow> (state_row \<Rightarrow> state_row) \<Rightarrow> 'j profile_db \<Rightarrow> ('j profile_db \<times> nat, profile_error) result" where
  "update_state k generation change db =
     (let matches = (\<lambda>r. ts_id r = k \<and> ts_generation r = generation);
          hit = filter matches (px_states db)
      in if \<exists>r \<in> set hit. \<not> state_row_checks db (change r) then Err ProfileSql
         else Ok (db\<lparr>px_states := map (\<lambda>r. if matches r then change r else r) (px_states db)\<rparr>, length hit))"

definition update_activated :: "string \<Rightarrow> u64 \<Rightarrow> u64 \<Rightarrow> 'j profile_db \<Rightarrow> ('j profile_db, profile_error) result" where
  "update_activated k n now db =
     rbind (bind_u64 n) (\<lambda>_. rbind (bind_u64 now) (\<lambda>_.
     Ok (db\<lparr>px_revisions := map (\<lambda>r. if pr_id r = k \<and> pr_revision r = n then r\<lparr>pr_activated := Some now\<rparr> else r) (px_revisions db)\<rparr>)))"

section \<open>Reading revisions and states\<close>

definition parse_role :: "string \<Rightarrow> (codex_role, profile_error) result" where
  "parse_role value =
     (if value = ''explorer'' then Ok Explorer
      else if value = ''implementer'' then Ok Implementer
      else if value = ''test_runner'' then Ok TestRunner
      else if value = ''reviewer'' then Ok Reviewer
      else if value = ''verifier'' then Ok Verifier
      else if value = ''auditor'' then Ok Auditor
      else Err (ProfileCorruption (''stored role `'' @ value @ ''` is invalid'')))"

definition parse_definition ::
    "(u8 list \<Rightarrow> digest) \<Rightarrow> 'j profile_codec \<Rightarrow> 'j \<Rightarrow> string \<Rightarrow> string \<Rightarrow> (role_profile_definition, profile_error) result" where
  "parse_definition blake3 codec json row_digest profile_id =
     rbind (ok_or (ProfileCorruption ''definition JSON is invalid'') (pc_to codec json)) (\<lambda>definition.
     rbind (map_err (\<lambda>_. ProfileCorruption ''definition validation failed'') (definition_validate blake3 definition)) (\<lambda>_.
     if rd_profile_id definition \<noteq> profile_id then Err (ProfileCorruption ''definition profile_id disagrees with row identity'')
     else
       rbind (map_err (\<lambda>_. ProfileCorruption ''row definition digest is invalid'') (digest_parse row_digest)) (\<lambda>parsed.
       if parsed \<noteq> rd_definition_digest definition then Err (ProfileCorruption ''row definition digest disagrees with definition JSON'')
       else Ok definition)))"

definition find_revision :: "'j profile_db \<Rightarrow> string \<Rightarrow> u64 \<Rightarrow> 'j revision_row option" where
  "find_revision db k n = first_row (filter (\<lambda>r. pr_id r = k \<and> pr_revision r = n) (px_revisions db))"

definition load_revision ::
    "(u8 list \<Rightarrow> digest) \<Rightarrow> 'j profile_codec \<Rightarrow> 'j profile_db \<Rightarrow> string \<Rightarrow> u64 \<Rightarrow>
     (role_profile_definition \<times> u64 \<times> u64 option, profile_error) result" where
  "load_revision blake3 codec db profile_id revision =
     rbind (bind_u64 revision) (\<lambda>_.
     case find_revision db profile_id revision of
       None \<Rightarrow> Err (ProfileNotFound (profile_id @ ''@'' @ decimal (unat revision)))
     | Some r \<Rightarrow>
         rbind (parse_definition blake3 codec (pr_json r) (pr_digest r) profile_id) (\<lambda>definition.
         case first_row (filter (\<lambda>p. pi_id p = profile_id) (px_profiles db)) of
           None \<Rightarrow> Err ProfileSql
         | Some p \<Rightarrow>
             if pi_role p \<noteq> codex_role_str (rd_role definition)
             then Err (ProfileCorruption ''revision role disagrees with profile identity'')
             else Ok (definition, pr_created r, pr_activated r)))"

definition compute_state_digest ::
    "(u8 list \<Rightarrow> digest) \<Rightarrow> string \<Rightarrow> u64 \<Rightarrow> digest \<Rightarrow> u64 option \<Rightarrow> digest option \<Rightarrow> u64 \<Rightarrow> digest" where
  "compute_state_digest blake3 profile_id latest latest_digest active active_digest generation =
     (let h = field_digest latest_digest (field_bytes (u64_le latest) (field_str profile_id (hasher_new ''needle-codex-role-profile-state-v1'')));
          h = (case (active, active_digest) of
                 (Some n, Some d) \<Rightarrow> field_digest d (field_bytes (u64_le n) (field_u8 1 h))
               | (None, None) \<Rightarrow> field_u8 0 h
               | _ \<Rightarrow> field_u8 255 h)
      in hasher_finish blake3 (field_bytes (u64_le generation) h))"

record profile_state =
  pf_id :: string
  pf_latest :: u64
  pf_latest_digest :: digest
  pf_active :: "u64 option"
  pf_active_digest :: "digest option"
  pf_generation :: u64
  pf_updated :: u64
  pf_state_digest :: digest

definition profile_state_of :: "profile_state \<Rightarrow> role_profile_state" where
  "profile_state_of s = (if pf_active s \<noteq> None then RevisionActive else Draft)"

definition max_revision :: "'j profile_db \<Rightarrow> string \<Rightarrow> u64 option" where
  "max_revision db k =
     (case map pr_revision (filter (\<lambda>r. pr_id r = k) (px_revisions db)) of [] \<Rightarrow> None | n # ns \<Rightarrow> Some (fold max ns n))"

definition missing_revision :: "string \<Rightarrow> profile_error \<Rightarrow> profile_error" where
  "missing_revision message e = (case e of ProfileNotFound _ \<Rightarrow> ProfileCorruption message | _ \<Rightarrow> e)"

definition load_active ::
    "(u8 list \<Rightarrow> digest) \<Rightarrow> 'j profile_codec \<Rightarrow> 'j profile_db \<Rightarrow> string \<Rightarrow> u64 option \<Rightarrow> (digest option, profile_error) result" where
  "load_active blake3 codec db profile_id active =
     (case active of
        None \<Rightarrow> Ok None
      | Some n \<Rightarrow>
          rbind (map_err (missing_revision ''active state pointer targets a missing revision'') (load_revision blake3 codec db profile_id n))
            (\<lambda>(definition, _, activated).
          if activated = None then Err (ProfileCorruption ''active state points to a revision without activation metadata'')
          else Ok (Some (rd_definition_digest definition))))"

definition load_state :: "(u8 list \<Rightarrow> digest) \<Rightarrow> 'j profile_codec \<Rightarrow> 'j profile_db \<Rightarrow> string \<Rightarrow> (profile_state, profile_error) result" where
  "load_state blake3 codec db profile_id =
     (case first_row (filter (\<lambda>p. pi_id p = profile_id) (px_profiles db)) of
        None \<Rightarrow> Err (ProfileNotFound profile_id)
      | Some p \<Rightarrow>
          rbind (parse_role (pi_role p)) (\<lambda>_.
          rbind (ok_or (ProfileCorruption ''profile state row is missing'') (first_row (filter (\<lambda>r. ts_id r = profile_id) (px_states db)))) (\<lambda>r.
          if max_revision db profile_id \<noteq> Some (ts_latest r)
          then Err (ProfileCorruption ''latest state pointer is not the newest revision'')
          else if \<exists>n \<in> set_option (ts_active r). n > ts_latest r
          then Err (ProfileCorruption ''active state pointer is newer than latest revision'')
          else if unat (ts_generation r) < unat (ts_latest r) - 1
          then Err (ProfileCorruption ''state generation is older than the revision history'')
          else
            rbind (map_err (missing_revision ''latest state pointer targets a missing revision'')
                (load_revision blake3 codec db profile_id (ts_latest r))) (\<lambda>(latest, _, _).
            if codex_role_str (rd_role latest) \<noteq> pi_role p
            then Err (ProfileCorruption ''profile identity/latest digest disagrees with revision'')
            else
              rbind (load_active blake3 codec db profile_id (ts_active r)) (\<lambda>active_digest.
              rbind (map_err ProfileInvalid (role_profile_id_new profile_id)) (\<lambda>profile_id.
              Ok \<lparr>pf_id = profile_id, pf_latest = ts_latest r, pf_latest_digest = rd_definition_digest latest, pf_active = ts_active r,
                  pf_active_digest = active_digest, pf_generation = ts_generation r, pf_updated = ts_updated r,
                  pf_state_digest = compute_state_digest blake3 profile_id (ts_latest r) (rd_definition_digest latest) (ts_active r)
                    active_digest (ts_generation r)\<rparr>))))))"

definition derived_revision_state :: "profile_state \<Rightarrow> u64 \<Rightarrow> role_profile_state" where
  "derived_revision_state s n =
     (if pf_active s = Some n then RevisionActive else if pf_latest s = n then Draft else Inactive)"

definition compare_state :: "profile_state \<Rightarrow> digest \<Rightarrow> (unit, profile_error) result" where
  "compare_state s expected =
     (if pf_state_digest s \<noteq> expected then Err (ProfileConflict ''stale role-profile state digest'') else Ok ())"

definition revision_with_state ::
    "(u8 list \<Rightarrow> digest) \<Rightarrow> string \<Rightarrow> u64 \<Rightarrow> role_profile_definition \<Rightarrow> role_profile_state \<Rightarrow> u64 \<Rightarrow> u64 option \<Rightarrow>
     (role_profile_revision, profile_error) result" where
  "revision_with_state blake3 profile_id revision definition state created activated =
     (let r = \<lparr>rv_profile_id = profile_id, rv_revision = revision, rv_definition = definition, rv_state = state,
               rv_created = created, rv_activated = activated\<rparr>
      in rbind (map_err ProfileInvalid (revision_validate blake3 r)) (\<lambda>_. Ok r))"

section \<open>The audit trail\<close>

datatype audit_operation = AuditCreate | AuditRevise | AuditActivate | AuditDeactivate

fun audit_operation_str :: "audit_operation \<Rightarrow> string" where
  "audit_operation_str AuditCreate = ''create''"
| "audit_operation_str AuditRevise = ''revise''"
| "audit_operation_str AuditActivate = ''activate''"
| "audit_operation_str AuditDeactivate = ''deactivate''"

definition audit_operation_parse :: "string \<Rightarrow> (audit_operation, profile_error) result" where
  "audit_operation_parse value =
     (if value = ''create'' then Ok AuditCreate
      else if value = ''revise'' then Ok AuditRevise
      else if value = ''activate'' then Ok AuditActivate
      else if value = ''deactivate'' then Ok AuditDeactivate
      else Err (ProfileCorruption (''unknown audit operation `'' @ value @ ''`'')))"

fun state_name :: "role_profile_state \<Rightarrow> string" where
  "state_name Draft = ''draft''"
| "state_name RevisionActive = ''active''"
| "state_name Inactive = ''inactive''"

definition parse_state :: "string option \<Rightarrow> (role_profile_state option, profile_error) result" where
  "parse_state value =
     (case value of
        None \<Rightarrow> Ok None
      | Some v \<Rightarrow>
          if v = ''draft'' then Ok (Some Draft)
          else if v = ''active'' then Ok (Some RevisionActive)
          else if v = ''inactive'' then Ok (Some Inactive)
          else Err (ProfileCorruption (''stored state `'' @ v @ ''` is invalid'')))"

definition parse_digest :: "string option \<Rightarrow> (digest option, profile_error) result" where
  "parse_digest value =
     (case value of
        None \<Rightarrow> Ok None
      | Some v \<Rightarrow> rbind (map_err (\<lambda>_. ProfileCorruption ''audit digest is invalid'') (digest_parse v)) (\<lambda>d. Ok (Some d)))"

record audit_record =
  ae_id :: nat
  ae_profile :: string
  ae_revision :: u64
  ae_digest :: digest
  ae_operation :: audit_operation
  ae_prior_state :: "role_profile_state option"
  ae_resulting_state :: role_profile_state
  ae_prior_digest :: "digest option"
  ae_resulting_digest :: digest
  ae_prior_active :: "u64 option"
  ae_prior_active_digest :: "digest option"
  ae_resulting_active :: "u64 option"
  ae_resulting_active_digest :: "digest option"
  ae_created :: u64

record audit_input =
  ai_profile :: string
  ai_revision :: u64
  ai_digest :: digest
  ai_operation :: audit_operation
  ai_prior_state :: "role_profile_state option"
  ai_resulting_state :: role_profile_state
  ai_prior_digest :: "digest option"
  ai_resulting :: profile_state
  ai_prior_active :: "u64 option"
  ai_prior_active_digest :: "digest option"
  ai_now :: u64

text \<open>\<open>AUTOINCREMENT\<close>: rows are never deleted, so the next identifier follows the largest one.\<close>

definition next_audit_id :: "'j profile_db \<Rightarrow> nat" where
  "next_audit_id db = fold max (map au_id (px_audit db)) 0 + 1"

definition insert_audit :: "audit_input \<Rightarrow> 'j profile_db \<Rightarrow> ('j profile_db, profile_error) result" where
  "insert_audit i db =
     (let r = \<lparr>au_id = next_audit_id db, au_profile = ai_profile i, au_revision = ai_revision i, au_digest = digest_to_string (ai_digest i),
               au_operation = audit_operation_str (ai_operation i), au_prior_state = map_option state_name (ai_prior_state i),
               au_resulting_state = state_name (ai_resulting_state i), au_prior_digest = map_option digest_to_string (ai_prior_digest i),
               au_resulting_digest = digest_to_string (pf_state_digest (ai_resulting i)), au_prior_active = ai_prior_active i,
               au_prior_active_digest = map_option digest_to_string (ai_prior_active_digest i), au_resulting_active = pf_active (ai_resulting i),
               au_resulting_active_digest = map_option digest_to_string (pf_active_digest (ai_resulting i)), au_created = ai_now i\<rparr>
      in rbind (bind_u64 (au_revision r)) (\<lambda>_. rbind (bind_u64 (au_created r)) (\<lambda>_.
         if \<not> (\<exists>p \<in> set (px_profiles db). pi_id p = au_profile r) \<or> au_revision r = 0 \<or> \<not> text_of_digest_size (au_digest r) \<or>
            \<not> text_of_digest_size (au_resulting_digest r) \<or>
            (\<exists>t \<in> set_option (au_prior_digest r) \<union> set_option (au_prior_active_digest r) \<union> set_option (au_resulting_active_digest r).
               \<not> text_of_digest_size t) \<or>
            au_prior_active r = Some 0 \<or> au_resulting_active r = Some 0
         then Err ProfileSql
         else Ok (db\<lparr>px_audit := px_audit db @ [r]\<rparr>))))"

definition parse_audit_row :: "string \<Rightarrow> audit_row \<Rightarrow> (audit_record, profile_error) result" where
  "parse_audit_row profile_id r =
     rbind (map_err (\<lambda>_. ProfileSql) (digest_parse (au_digest r))) (\<lambda>definition_digest.
     rbind (map_err (\<lambda>_. ProfileSql) (audit_operation_parse (au_operation r))) (\<lambda>operation.
     rbind (map_err (\<lambda>_. ProfileSql) (parse_state (au_prior_state r))) (\<lambda>prior_state.
     rbind (map_err (\<lambda>_. ProfileSql) (parse_state (Some (au_resulting_state r)))) (\<lambda>resulting.
     rbind (ok_or ProfileSql resulting) (\<lambda>resulting_state.
     rbind (map_err (\<lambda>_. ProfileSql) (parse_digest (au_prior_digest r))) (\<lambda>prior_digest.
     rbind (map_err (\<lambda>_. ProfileSql) (digest_parse (au_resulting_digest r))) (\<lambda>resulting_digest.
     rbind (map_err (\<lambda>_. ProfileSql) (parse_digest (au_prior_active_digest r))) (\<lambda>prior_active_digest.
     rbind (map_err (\<lambda>_. ProfileSql) (parse_digest (au_resulting_active_digest r))) (\<lambda>resulting_active_digest.
     Ok \<lparr>ae_id = au_id r, ae_profile = profile_id, ae_revision = au_revision r, ae_digest = definition_digest, ae_operation = operation,
         ae_prior_state = prior_state, ae_resulting_state = resulting_state, ae_prior_digest = prior_digest,
         ae_resulting_digest = resulting_digest, ae_prior_active = au_prior_active r, ae_prior_active_digest = prior_active_digest,
         ae_resulting_active = au_resulting_active r, ae_resulting_active_digest = resulting_active_digest, ae_created = au_created r\<rparr>)))))))))"

definition audit_matches :: "'j profile_db \<Rightarrow> string \<Rightarrow> audit_record \<Rightarrow> (audit_record, profile_error) result" where
  "audit_matches db profile_id a =
     (case find_revision db profile_id (ae_revision a) of
        None \<Rightarrow> Err (ProfileCorruption ''audit row references a missing revision'')
      | Some r \<Rightarrow>
          if pr_digest r \<noteq> digest_to_string (ae_digest a)
          then Err (ProfileCorruption ''audit digest disagrees with revision digest'')
          else Ok a)"

definition read_role_profile_audit :: "'j profile_db \<Rightarrow> string \<Rightarrow> nat \<Rightarrow> (audit_record list, profile_error) result" where
  "read_role_profile_audit db profile_id limit =
     (if limit > 100 then Err (ProfileRejected ''audit limit must be at most 100'')
      else if \<not> (\<exists>p \<in> set (px_profiles db). pi_id p = profile_id) then Err (ProfileNotFound profile_id)
      else
        rbind (collect_results (parse_audit_row profile_id)
            (take limit (rev (sort_key au_id (filter (\<lambda>r. au_profile r = profile_id) (px_audit db)))))) (\<lambda>parsed.
        collect_results (audit_matches db profile_id) parsed))"

section \<open>Operations\<close>

text \<open>
  A transaction that commits returns the new database and the value computed after the commit, which may still be an
  error.
\<close>

type_synonym ('j, 'a) profile_transaction = "(('a, profile_error) result \<times> 'j profile_db, profile_error) result"

definition create_role_profile ::
    "(u8 list \<Rightarrow> digest) \<Rightarrow> 'j profile_codec \<Rightarrow> u64 \<Rightarrow> role_profile_definition \<Rightarrow> 'j profile_db \<Rightarrow>
     ('j, role_profile_revision) profile_transaction" where
  "create_role_profile blake3 codec now definition db =
     rbind (map_err ProfileInvalid (definition_validate blake3 definition)) (\<lambda>_.
     let profile_id = rd_profile_id definition in
     if \<exists>p \<in> set (px_profiles db). pi_id p = profile_id then Err (ProfileConflict (''profile `'' @ profile_id @ ''` already exists''))
     else
       rbind (ok_or ProfileJson (pc_of codec definition)) (\<lambda>json.
       rbind (insert_identity \<lparr>pi_id = profile_id, pi_role = codex_role_str (rd_role definition), pi_created = now\<rparr> db) (\<lambda>db.
       rbind (insert_revision codec \<lparr>pr_id = profile_id, pr_revision = 1, pr_digest = digest_to_string (rd_definition_digest definition),
           pr_json = json, pr_created = now, pr_activated = None\<rparr> db) (\<lambda>db.
       rbind (insert_state \<lparr>ts_id = profile_id, ts_latest = 1, ts_active = None, ts_generation = 0, ts_updated = now\<rparr> db) (\<lambda>db.
       rbind (load_state blake3 codec db profile_id) (\<lambda>state.
       rbind (insert_audit \<lparr>ai_profile = profile_id, ai_revision = 1, ai_digest = rd_definition_digest definition, ai_operation = AuditCreate,
           ai_prior_state = None, ai_resulting_state = Draft, ai_prior_digest = None, ai_resulting = state, ai_prior_active = None,
           ai_prior_active_digest = None, ai_now = now\<rparr> db) (\<lambda>db.
       Ok (revision_with_state blake3 profile_id 1 definition Draft now None, db))))))))"

definition revise_role_profile ::
    "(u8 list \<Rightarrow> digest) \<Rightarrow> 'j profile_codec \<Rightarrow> u64 \<Rightarrow> string \<Rightarrow> digest \<Rightarrow> role_profile_definition \<Rightarrow> 'j profile_db \<Rightarrow>
     ('j, role_profile_revision) profile_transaction" where
  "revise_role_profile blake3 codec now profile_id expected definition db =
     rbind (map_err ProfileInvalid (definition_validate blake3 definition)) (\<lambda>_.
     if rd_profile_id definition \<noteq> profile_id
     then Err (ProfileRejected ''revision definition profile_id does not match the target profile'')
     else
       rbind (load_state blake3 codec db profile_id) (\<lambda>state.
       if pf_state_digest state \<noteq> expected then Err (ProfileConflict ''stale role-profile state digest'')
       else case first_row (filter (\<lambda>p. pi_id p = profile_id) (px_profiles db)) of
         None \<Rightarrow> Err ProfileSql
       | Some p \<Rightarrow>
           if pi_role p \<noteq> codex_role_str (rd_role definition)
           then Err (ProfileRejected ''revision role does not match the profile identity'')
           else if \<exists>r \<in> set (px_revisions db). pr_digest r = digest_to_string (rd_definition_digest definition)
           then Err (ProfileConflict ''identical role-profile definition already exists'')
           else
             rbind (ok_or (ProfileCorruption ''revision overflow'') (checked_add (pf_latest state) 1)) (\<lambda>revision.
             rbind (ok_or ProfileJson (pc_of codec definition)) (\<lambda>json.
             rbind (insert_revision codec \<lparr>pr_id = profile_id, pr_revision = revision, pr_digest = digest_to_string (rd_definition_digest definition),
                 pr_json = json, pr_created = now, pr_activated = None\<rparr> db) (\<lambda>db.
             rbind (ok_or (ProfileCorruption ''state generation overflow'') (checked_add (pf_generation state) 1)) (\<lambda>next_generation.
             rbind (bind_u64 next_generation) (\<lambda>_.
             rbind (update_state profile_id (pf_generation state)
                 (\<lambda>r. r\<lparr>ts_latest := revision, ts_generation := next_generation, ts_updated := now\<rparr>) db) (\<lambda>(db, changed).
             if changed \<noteq> 1 then Err (ProfileCorruption ''role-profile state CAS did not update exactly one row'')
             else
               rbind (load_state blake3 codec db profile_id) (\<lambda>next_state.
               rbind (load_revision blake3 codec db profile_id (pf_latest state)) (\<lambda>_.
               rbind (insert_audit \<lparr>ai_profile = profile_id, ai_revision = revision, ai_digest = rd_definition_digest definition,
                   ai_operation = AuditRevise, ai_prior_state = Some (derived_revision_state state (pf_latest state)), ai_resulting_state = Draft,
                   ai_prior_digest = Some (pf_state_digest state), ai_resulting = next_state, ai_prior_active = pf_active state,
                   ai_prior_active_digest = pf_active_digest state, ai_now = now\<rparr> db) (\<lambda>db.
               Ok (revision_with_state blake3 profile_id revision definition Draft now None, db))))))))))))"

definition activate_role_profile_inner ::
    "(u8 list \<Rightarrow> digest) \<Rightarrow> 'j profile_codec \<Rightarrow> u64 \<Rightarrow> string \<Rightarrow> u64 \<Rightarrow> digest \<Rightarrow> digest option option \<Rightarrow> 'j profile_db \<Rightarrow>
     ('j, role_profile_revision) profile_transaction" where
  "activate_role_profile_inner blake3 codec now profile_id target expected expected_active db =
     rbind (load_state blake3 codec db profile_id) (\<lambda>state.
     rbind (compare_state state expected) (\<lambda>_.
     if \<exists>a \<in> set_option expected_active. pf_active_digest state \<noteq> a then Err (ProfileConflict ''stale active role-profile digest'')
     else
       rbind (load_revision blake3 codec db profile_id target) (\<lambda>(definition, created, old_activated).
       if pf_active state = Some target
       then (if old_activated = None then Err (ProfileCorruption ''active pointer targets a revision without activation metadata'')
             else Ok (revision_with_state blake3 profile_id target definition RevisionActive created old_activated, db))
       else
         rbind (update_activated profile_id target now db) (\<lambda>db.
         rbind (ok_or (ProfileCorruption ''state generation overflow'') (checked_add (pf_generation state) 1)) (\<lambda>next_generation.
         rbind (bind_u64 next_generation) (\<lambda>_.
         rbind (update_state profile_id (pf_generation state)
             (\<lambda>r. r\<lparr>ts_active := Some target, ts_generation := next_generation, ts_updated := now\<rparr>) db) (\<lambda>(db, changed).
         if changed \<noteq> 1 then Err (ProfileCorruption ''role-profile state CAS did not update exactly one row'')
         else
           rbind (load_state blake3 codec db profile_id) (\<lambda>next_state.
           rbind (insert_audit \<lparr>ai_profile = profile_id, ai_revision = target, ai_digest = rd_definition_digest definition,
               ai_operation = AuditActivate, ai_prior_state = Some (derived_revision_state state target), ai_resulting_state = RevisionActive,
               ai_prior_digest = Some (pf_state_digest state), ai_resulting = next_state, ai_prior_active = pf_active state,
               ai_prior_active_digest = pf_active_digest state, ai_now = now\<rparr> db) (\<lambda>db.
           Ok (revision_with_state blake3 profile_id target definition RevisionActive created (Some now), db))))))))))"

definition activate_role_profile ::
    "(u8 list \<Rightarrow> digest) \<Rightarrow> 'j profile_codec \<Rightarrow> u64 \<Rightarrow> string \<Rightarrow> u64 \<Rightarrow> digest \<Rightarrow> 'j profile_db \<Rightarrow> ('j, role_profile_revision) profile_transaction" where
  "activate_role_profile blake3 codec now profile_id target expected db =
     activate_role_profile_inner blake3 codec now profile_id target expected None db"

definition activate_role_profile_checked ::
    "(u8 list \<Rightarrow> digest) \<Rightarrow> 'j profile_codec \<Rightarrow> u64 \<Rightarrow> string \<Rightarrow> u64 \<Rightarrow> digest \<Rightarrow> digest option \<Rightarrow> 'j profile_db \<Rightarrow>
     ('j, role_profile_revision) profile_transaction" where
  "activate_role_profile_checked blake3 codec now profile_id target expected expected_active db =
     activate_role_profile_inner blake3 codec now profile_id target expected (Some expected_active) db"

definition deactivate_role_profile_inner ::
    "(u8 list \<Rightarrow> digest) \<Rightarrow> 'j profile_codec \<Rightarrow> u64 \<Rightarrow> string \<Rightarrow> digest \<Rightarrow> digest option option \<Rightarrow> 'j profile_db \<Rightarrow>
     ('j, role_profile_revision) profile_transaction" where
  "deactivate_role_profile_inner blake3 codec now profile_id expected expected_active db =
     rbind (load_state blake3 codec db profile_id) (\<lambda>state.
     rbind (compare_state state expected) (\<lambda>_.
     if \<exists>a \<in> set_option expected_active. pf_active_digest state \<noteq> a then Err (ProfileConflict ''stale active role-profile digest'')
     else case pf_active state of
       None \<Rightarrow> Err (ProfileConflict ''profile has no active revision'')
     | Some active \<Rightarrow>
         rbind (load_revision blake3 codec db profile_id active) (\<lambda>(definition, created, activated).
         if activated = None then Err (ProfileCorruption ''active pointer targets a revision without activation metadata'')
         else
           rbind (ok_or (ProfileCorruption ''state generation overflow'') (checked_add (pf_generation state) 1)) (\<lambda>next_generation.
           rbind (bind_u64 next_generation) (\<lambda>_. rbind (bind_u64 now) (\<lambda>_.
           rbind (update_state profile_id (pf_generation state)
               (\<lambda>r. r\<lparr>ts_active := None, ts_generation := next_generation, ts_updated := now\<rparr>) db) (\<lambda>(db, changed).
           if changed \<noteq> 1 then Err (ProfileCorruption ''role-profile state CAS did not update exactly one row'')
           else
             rbind (load_state blake3 codec db profile_id) (\<lambda>next_state.
             let resulting_state = derived_revision_state next_state active in
             rbind (insert_audit \<lparr>ai_profile = profile_id, ai_revision = active, ai_digest = rd_definition_digest definition,
                 ai_operation = AuditDeactivate, ai_prior_state = Some RevisionActive, ai_resulting_state = resulting_state,
                 ai_prior_digest = Some (pf_state_digest state), ai_resulting = next_state, ai_prior_active = pf_active state,
                 ai_prior_active_digest = pf_active_digest state, ai_now = now\<rparr> db) (\<lambda>db.
             Ok (revision_with_state blake3 profile_id active definition resulting_state created activated, db))))))))))"

definition deactivate_role_profile ::
    "(u8 list \<Rightarrow> digest) \<Rightarrow> 'j profile_codec \<Rightarrow> u64 \<Rightarrow> string \<Rightarrow> digest \<Rightarrow> 'j profile_db \<Rightarrow> ('j, role_profile_revision) profile_transaction" where
  "deactivate_role_profile blake3 codec now profile_id expected db =
     deactivate_role_profile_inner blake3 codec now profile_id expected None db"

definition deactivate_role_profile_checked ::
    "(u8 list \<Rightarrow> digest) \<Rightarrow> 'j profile_codec \<Rightarrow> u64 \<Rightarrow> string \<Rightarrow> digest \<Rightarrow> digest option \<Rightarrow> 'j profile_db \<Rightarrow>
     ('j, role_profile_revision) profile_transaction" where
  "deactivate_role_profile_checked blake3 codec now profile_id expected expected_active db =
     deactivate_role_profile_inner blake3 codec now profile_id expected (Some expected_active) db"

section \<open>Queries\<close>

definition read_role_profile_revision ::
    "(u8 list \<Rightarrow> digest) \<Rightarrow> 'j profile_codec \<Rightarrow> 'j profile_db \<Rightarrow> string \<Rightarrow> u64 \<Rightarrow> (role_profile_revision, profile_error) result" where
  "read_role_profile_revision blake3 codec db profile_id revision =
     rbind (load_state blake3 codec db profile_id) (\<lambda>state.
     rbind (load_revision blake3 codec db profile_id revision) (\<lambda>(definition, created, activated).
     revision_with_state blake3 profile_id revision definition (derived_revision_state state revision) created activated))"

definition read_role_profile_revision_by_digest ::
    "(u8 list \<Rightarrow> digest) \<Rightarrow> 'j profile_codec \<Rightarrow> 'j profile_db \<Rightarrow> string \<Rightarrow> digest \<Rightarrow> (role_profile_revision, profile_error) result" where
  "read_role_profile_revision_by_digest blake3 codec db profile_id d =
     (case first_row (filter (\<lambda>r. pr_id r = profile_id \<and> pr_digest r = digest_to_string d) (px_revisions db)) of
        None \<Rightarrow> Err (ProfileNotFound (profile_id @ ''@'' @ digest_to_string d))
      | Some r \<Rightarrow> read_role_profile_revision blake3 codec db profile_id (pr_revision r))"

definition read_role_profile_revision_by_digest_global ::
    "(u8 list \<Rightarrow> digest) \<Rightarrow> 'j profile_codec \<Rightarrow> 'j profile_db \<Rightarrow> digest \<Rightarrow> (role_profile_revision, profile_error) result" where
  "read_role_profile_revision_by_digest_global blake3 codec db d =
     (case first_row (filter (\<lambda>r. pr_digest r = digest_to_string d) (px_revisions db)) of
        None \<Rightarrow> Err (ProfileNotFound (digest_to_string d))
      | Some r \<Rightarrow>
          rbind (map_err ProfileInvalid (role_profile_id_new (pr_id r))) (\<lambda>i.
          read_role_profile_revision blake3 codec db i (pr_revision r)))"

definition revision_of_row ::
    "(u8 list \<Rightarrow> digest) \<Rightarrow> 'j profile_codec \<Rightarrow> string \<Rightarrow> profile_state \<Rightarrow> 'j revision_row \<Rightarrow> (role_profile_revision, profile_error) result" where
  "revision_of_row blake3 codec profile_id state r =
     rbind (parse_definition blake3 codec (pr_json r) (pr_digest r) profile_id) (\<lambda>definition.
     revision_with_state blake3 profile_id (pr_revision r) definition (derived_revision_state state (pr_revision r)) (pr_created r) (pr_activated r))"

definition revision_rows :: "'j profile_db \<Rightarrow> string \<Rightarrow> 'j revision_row list" where
  "revision_rows db k = sort_key pr_revision (filter (\<lambda>r. pr_id r = k) (px_revisions db))"

definition list_role_profile_revisions ::
    "(u8 list \<Rightarrow> digest) \<Rightarrow> 'j profile_codec \<Rightarrow> 'j profile_db \<Rightarrow> string \<Rightarrow> (role_profile_revision list, profile_error) result" where
  "list_role_profile_revisions blake3 codec db profile_id =
     rbind (load_state blake3 codec db profile_id) (\<lambda>state.
     rbind (collect_results (revision_of_row blake3 codec profile_id state) (revision_rows db profile_id)) (\<lambda>revisions.
     if revisions = [] then Err (ProfileNotFound profile_id) else Ok revisions))"

definition list_role_profile_revisions_bounded ::
    "(u8 list \<Rightarrow> digest) \<Rightarrow> 'j profile_codec \<Rightarrow> 'j profile_db \<Rightarrow> string \<Rightarrow> nat \<Rightarrow> (role_profile_revision list \<times> u64, profile_error) result" where
  "list_role_profile_revisions_bounded blake3 codec db profile_id limit =
     (if limit = 0 \<or> limit > 100 then Err (ProfileRejected ''role-profile revision list limit must be between 1 and 100'')
      else
        rbind (load_state blake3 codec db profile_id) (\<lambda>state.
        rbind (collect_results (revision_of_row blake3 codec profile_id state) (take limit (rev (revision_rows db profile_id)))) (\<lambda>revisions.
        if revisions = [] then Err (ProfileNotFound profile_id) else Ok (rev revisions, pf_latest state))))"

definition list_role_profile_states ::
    "(u8 list \<Rightarrow> digest) \<Rightarrow> 'j profile_codec \<Rightarrow> 'j profile_db \<Rightarrow> nat \<Rightarrow> (profile_state list, profile_error) result" where
  "list_role_profile_states blake3 codec db limit =
     (if limit > 100 then Err (ProfileRejected ''role-profile list limit must be at most 100'')
      else collect_results (load_state blake3 codec db) (take limit (sort (map pi_id (px_profiles db)))))"

definition read_active_role_profile ::
    "(u8 list \<Rightarrow> digest) \<Rightarrow> 'j profile_codec \<Rightarrow> 'j profile_db \<Rightarrow> string \<Rightarrow> (role_profile_revision option, profile_error) result" where
  "read_active_role_profile blake3 codec db profile_id =
     rbind (load_state blake3 codec db profile_id) (\<lambda>state.
     case pf_active state of
       None \<Rightarrow> Ok None
     | Some n \<Rightarrow>
         rbind (load_revision blake3 codec db profile_id n) (\<lambda>(definition, created, activated).
         if activated = None then Err (ProfileCorruption ''active state points to a revision without activation metadata'')
         else rbind (revision_with_state blake3 profile_id n definition RevisionActive created activated) (\<lambda>r. Ok (Some r))))"

end
