(* ===== verification/Profile_Store_Proofs.thy ===== *)
theory Profile_Store_Proofs
  imports Profile_Store
begin

text \<open>
  Consistent profile stores: every profile that exists can be loaded, every stored revision can be read, and the
  audit trail is a chain of state digests that ends in the current one. Every operation keeps a store consistent.
\<close>

section \<open>What reading a profile depends on\<close>

definition identity_of :: "'j profile_db \<Rightarrow> string \<Rightarrow> identity_row option" where
  "identity_of db k = List.find (\<lambda>p. pi_id p = k) (px_profiles db)"

definition state_of :: "'j profile_db \<Rightarrow> string \<Rightarrow> state_row option" where
  "state_of db k = List.find (\<lambda>r. ts_id r = k) (px_states db)"

definition revisions_of :: "'j profile_db \<Rightarrow> string \<Rightarrow> 'j revision_row list" where
  "revisions_of db k = filter (\<lambda>r. pr_id r = k) (px_revisions db)"

definition audit_of :: "'j profile_db \<Rightarrow> string \<Rightarrow> audit_row list" where
  "audit_of db k = filter (\<lambda>r. au_profile r = k) (px_audit db)"

lemma find_filter: "List.find P (filter Q xs) = List.find (\<lambda>x. Q x \<and> P x) xs"
  by (induction xs) auto

lemma find_revision_alt: "find_revision db k n = List.find (\<lambda>r. pr_revision r = n) (revisions_of db k)"
  by (simp add: find_revision_def revisions_of_def find_filter)

lemma identity_iff: "(\<exists>p \<in> set (px_profiles db). pi_id p = k) \<longleftrightarrow> identity_of db k \<noteq> None"
  by (auto simp: identity_of_def find_None_iff)

lemma load_revision_alt:
  "load_revision blake3 codec db k n =
     rbind (bind_u64 n) (\<lambda>_.
     case List.find (\<lambda>r. pr_revision r = n) (revisions_of db k) of
       None \<Rightarrow> Err (ProfileNotFound (k @ ''@'' @ decimal (unat n)))
     | Some r \<Rightarrow>
         rbind (parse_definition blake3 codec (pr_json r) (pr_digest r) k) (\<lambda>definition.
         case identity_of db k of
           None \<Rightarrow> Err ProfileSql
         | Some p \<Rightarrow>
             if pi_role p \<noteq> codex_role_str (rd_role definition)
             then Err (ProfileCorruption ''revision role disagrees with profile identity'')
             else Ok (definition, pr_created r, pr_activated r)))"
  unfolding load_revision_def find_revision_alt identity_of_def first_row_find ..

lemma load_frame:
  assumes "identity_of db' k = identity_of db k" "state_of db' k = state_of db k" "revisions_of db' k = revisions_of db k"
  shows "load_revision blake3 codec db' k n = load_revision blake3 codec db k n"
    "load_state blake3 codec db' k = load_state blake3 codec db k"
proof -
  show r: "load_revision blake3 codec db' k n = load_revision blake3 codec db k n" for n
    unfolding load_revision_alt assms ..
  have "max_revision db' k = max_revision db k" using assms(3) by (simp add: max_revision_def revisions_of_def)
  then show "load_state blake3 codec db' k = load_state blake3 codec db k"
    unfolding load_state_def load_active_def r first_row_find identity_of_def [symmetric] state_of_def [symmetric] assms(1,2) by (rule arg_cong)
qed

text \<open>What a loaded state says about the tables.\<close>

lemma load_revision_Ok:
  "load_revision blake3 codec db k n = Ok (d, created, activated) \<longleftrightarrow>
     n < 0x8000000000000000 \<and> (\<exists>r p. List.find (\<lambda>r. pr_revision r = n) (revisions_of db k) = Some r \<and>
       parse_definition blake3 codec (pr_json r) (pr_digest r) k = Ok d \<and> identity_of db k = Some p \<and>
       pi_role p = codex_role_str (rd_role d) \<and> created = pr_created r \<and> activated = pr_activated r)"
  by (auto simp: load_revision_alt bind_u64_def split: option.splits if_splits)

lemma load_state_Ok:
  "load_state blake3 codec db k = Ok s \<longleftrightarrow>
     (\<exists>p r d c a ad. identity_of db k = Some p \<and> is_ok (parse_role (pi_role p)) \<and> state_of db k = Some r \<and>
       max_revision db k = Some (ts_latest r) \<and> (\<forall>n. ts_active r = Some n \<longrightarrow> n \<le> ts_latest r) \<and>
       unat (ts_latest r) - 1 \<le> unat (ts_generation r) \<and>
       load_revision blake3 codec db k (ts_latest r) = Ok (d, c, a) \<and>
       load_active blake3 codec db k (ts_active r) = Ok ad \<and> role_profile_id_new k = Ok k \<and>
       s = \<lparr>pf_id = k, pf_latest = ts_latest r, pf_latest_digest = rd_definition_digest d, pf_active = ts_active r,
         pf_active_digest = ad, pf_generation = ts_generation r, pf_updated = ts_updated r,
         pf_state_digest = compute_state_digest blake3 k (ts_latest r) (rd_definition_digest d) (ts_active r) ad (ts_generation r)\<rparr>)"
proof (cases "identity_of db k")
  case None
  then show ?thesis unfolding load_state_def first_row_find identity_of_def [symmetric] by simp
next
  case p: (Some p)
  show ?thesis
  proof (cases "state_of db k")
    case None
    then show ?thesis unfolding load_state_def first_row_find identity_of_def [symmetric] state_of_def [symmetric] p by simp
  next
    case r: (Some r)
    have "role_profile_id_new k = Ok i \<Longrightarrow> i = k" for i by (simp add: role_profile_id_new_def split: if_splits)
    then have id: "(\<exists>i. role_profile_id_new k = Ok i \<and> Q i) \<longleftrightarrow> role_profile_id_new k = Ok k \<and> Q k" for Q by metis
    have role: "load_revision blake3 codec db k n = Ok (d, c, a) \<Longrightarrow> codex_role_str (rd_role d) = pi_role p" for n d c a
      using p by (auto simp: load_revision_Ok)
    have core: "load_state blake3 codec db k = Ok s \<longleftrightarrow>
      is_ok (parse_role (pi_role p)) \<and> max_revision db k = Some (ts_latest r) \<and> \<not> (\<exists>n \<in> set_option (ts_active r). n > ts_latest r) \<and>
      \<not> unat (ts_generation r) < unat (ts_latest r) - 1 \<and>
      (\<exists>d c a. load_revision blake3 codec db k (ts_latest r) = Ok (d, c, a) \<and> codex_role_str (rd_role d) = pi_role p \<and>
        (\<exists>ad. load_active blake3 codec db k (ts_active r) = Ok ad \<and> (\<exists>i. role_profile_id_new k = Ok i \<and>
        \<lparr>pf_id = i, pf_latest = ts_latest r, pf_latest_digest = rd_definition_digest d, pf_active = ts_active r,
         pf_active_digest = ad, pf_generation = ts_generation r, pf_updated = ts_updated r,
         pf_state_digest = compute_state_digest blake3 i (ts_latest r) (rd_definition_digest d) (ts_active r) ad (ts_generation r)\<rparr> = s)))"
      unfolding load_state_def first_row_find identity_of_def [symmetric] state_of_def [symmetric] p r option.case
        rbind_Ok_iff map_err_Ok_iff ok_or_Ok_iff guard_Ok_iff is_ok_iff split_paired_Ex prod.case result.inject by blast
    show ?thesis unfolding core id p r using role by (auto simp: not_less)
  qed
qed

section \<open>The audit trail\<close>

text \<open>The row that stores a record, and the record an operation writes.\<close>

definition audit_row_of :: "audit_record \<Rightarrow> audit_row" where
  "audit_row_of a = \<lparr>au_id = ae_id a, au_profile = ae_profile a, au_revision = ae_revision a, au_digest = digest_to_string (ae_digest a),
     au_operation = audit_operation_str (ae_operation a), au_prior_state = map_option state_name (ae_prior_state a),
     au_resulting_state = state_name (ae_resulting_state a), au_prior_digest = map_option digest_to_string (ae_prior_digest a),
     au_resulting_digest = digest_to_string (ae_resulting_digest a), au_prior_active = ae_prior_active a,
     au_prior_active_digest = map_option digest_to_string (ae_prior_active_digest a), au_resulting_active = ae_resulting_active a,
     au_resulting_active_digest = map_option digest_to_string (ae_resulting_active_digest a), au_created = ae_created a\<rparr>"

definition record_of_input :: "nat \<Rightarrow> audit_input \<Rightarrow> audit_record" where
  "record_of_input n i = \<lparr>ae_id = n, ae_profile = ai_profile i, ae_revision = ai_revision i, ae_digest = ai_digest i, ae_operation = ai_operation i,
     ae_prior_state = ai_prior_state i, ae_resulting_state = ai_resulting_state i, ae_prior_digest = ai_prior_digest i,
     ae_resulting_digest = pf_state_digest (ai_resulting i), ae_prior_active = ai_prior_active i,
     ae_prior_active_digest = ai_prior_active_digest i, ae_resulting_active = pf_active (ai_resulting i),
     ae_resulting_active_digest = pf_active_digest (ai_resulting i), ae_created = ai_now i\<rparr>"

definition record_wf :: "audit_record \<Rightarrow> bool" where
  "record_wf a \<longleftrightarrow> wf_digest (ae_digest a) \<and> wf_digest (ae_resulting_digest a) \<and>
     (\<forall>d \<in> set_option (ae_prior_digest a) \<union> set_option (ae_prior_active_digest a) \<union> set_option (ae_resulting_active_digest a). wf_digest d)"

lemma text_size_wf: "text_of_digest_size (digest_to_string d) \<longleftrightarrow> wf_digest d"
  by (cases d) (simp add: text_of_digest_size_def digest_to_string_def wf_digest_def)

lemma parse_to_string: "wf_digest d \<Longrightarrow> digest_parse (digest_to_string d) = Ok d"
  by (rule digest_parse_to_string)

lemma to_string_inj: "wf_digest d \<Longrightarrow> wf_digest e \<Longrightarrow> digest_to_string d = digest_to_string e \<longleftrightarrow> d = e"
  by (metis parse_to_string result.inject(1))

lemma audit_operation_roundtrip [simp]: "audit_operation_parse (audit_operation_str a) = Ok a"
  by (cases a) (simp_all add: audit_operation_parse_def)

lemma state_name_roundtrip [simp]: "parse_state (Some (state_name v)) = Ok (Some v)" "parse_state (map_option state_name x) = Ok x"
proof -
  show r: "parse_state (Some (state_name v)) = Ok (Some v)" for v by (cases v) (simp_all add: parse_state_def)
  then show "parse_state (map_option state_name x) = Ok x" by (cases x) (simp_all add: parse_state_def)
qed

lemma parse_digest_roundtrip: "\<forall>d \<in> set_option x. wf_digest d \<Longrightarrow> parse_digest (map_option digest_to_string x) = Ok x"
  by (cases x) (simp_all add: parse_digest_def parse_to_string)

lemma audit_row_roundtrip: "record_wf a \<Longrightarrow> parse_audit_row (ae_profile a) (audit_row_of a) = Ok a"
  by (simp add: parse_audit_row_def audit_row_of_def record_wf_def parse_to_string parse_digest_roundtrip)

lemma insert_audit_Ok:
  assumes "insert_audit i db = Ok db'"
  shows "db' = db\<lparr>px_audit := px_audit db @ [audit_row_of (record_of_input (next_audit_id db) i)]\<rparr>"
    "record_wf (record_of_input (next_audit_id db) i)"
proof -
  from assms show "db' = db\<lparr>px_audit := px_audit db @ [audit_row_of (record_of_input (next_audit_id db) i)]\<rparr>"
    by (simp add: insert_audit_def Let_def guard_Ok_iff audit_row_of_def record_of_input_def)
  from assms show "record_wf (record_of_input (next_audit_id db) i)"
    by (auto simp: insert_audit_def Let_def guard_Ok_iff text_size_wf record_wf_def record_of_input_def option.set_map)
qed

text \<open>Each row names the digest of the state before it: an event-sourced history whose state is the latest digest.\<close>

fun audit_replay :: "string option \<Rightarrow> audit_row list \<Rightarrow> string option" where
  "audit_replay d [] = d"
| "audit_replay d (r # rs) = (if au_prior_digest r = d then audit_replay (Some (au_resulting_digest r)) rs else None)"

lemma audit_replay_snoc: "audit_replay d rs = Some t \<Longrightarrow> au_prior_digest r = Some t \<Longrightarrow> audit_replay d (rs @ [r]) = Some (au_resulting_digest r)"
  by (induction d rs rule: audit_replay.induct) (auto split: if_splits)

interpretation audit_trail: event_sourced "audit_replay None"
  "\<lambda>t r. au_prior_digest r = None \<and> au_resulting_digest r = t"
  "\<lambda>t t' r. au_prior_digest r = Some t \<and> au_resulting_digest r = t'"
  by unfold_locales (auto intro: audit_replay_snoc)

abbreviation audit_history :: "string \<Rightarrow> audit_row list \<Rightarrow> bool" where
  "audit_history \<equiv> audit_trail.history"

lemma audit_history_links:
  "audit_history t rs \<Longrightarrow> rs \<noteq> [] \<and> au_resulting_digest (last rs) = t \<and> au_prior_digest (hd rs) = None \<and>
     (\<forall>i. Suc i < length rs \<longrightarrow> au_prior_digest (rs ! Suc i) = Some (au_resulting_digest (rs ! i)))"
proof (induction rule: audit_trail.history.induct)
  case (start t e)
  then show ?case by simp
next
  case (extend t es t' e)
  have "au_prior_digest ((es @ [e]) ! Suc i) = Some (au_resulting_digest ((es @ [e]) ! i))" if i: "Suc i < length (es @ [e])" for i
  proof (cases "Suc i = length es")
    case True
    then have "i = length es - 1" by simp
    then have "es ! i = last es" using extend.IH by (simp add: last_conv_nth)
    with True extend show ?thesis by (simp add: nth_append)
  next
    case False
    with i have "Suc i < length es" by simp
    with extend.IH show ?thesis by (simp add: nth_append)
  qed
  with extend show ?case by simp
qed

section \<open>Consistent stores\<close>

definition revision_ok :: "(u8 list \<Rightarrow> digest) \<Rightarrow> 'j profile_codec \<Rightarrow> string \<Rightarrow> string \<Rightarrow> 'j revision_row \<Rightarrow> bool" where
  "revision_ok blake3 codec k role r \<longleftrightarrow>
     pr_revision r \<noteq> 0 \<and> pr_revision r < 0x8000000000000000 \<and>
     (\<exists>d. parse_definition blake3 codec (pr_json r) (pr_digest r) k = Ok d \<and> role = codex_role_str (rd_role d) \<and>
        pr_digest r = digest_to_string (rd_definition_digest d))"

definition audit_ok :: "'j profile_db \<Rightarrow> string \<Rightarrow> audit_row \<Rightarrow> bool" where
  "audit_ok db k a \<longleftrightarrow>
     (\<exists>e. a = audit_row_of e \<and> record_wf e \<and> ae_profile e = k \<and>
        (\<exists>r \<in> set (revisions_of db k). pr_revision r = ae_revision e \<and> pr_digest r = digest_to_string (ae_digest e)))"

definition profile_ok :: "(u8 list \<Rightarrow> digest) \<Rightarrow> 'j profile_codec \<Rightarrow> 'j profile_db \<Rightarrow> string \<Rightarrow> bool" where
  "profile_ok blake3 codec db k \<longleftrightarrow>
     (case identity_of db k of
        None \<Rightarrow> state_of db k = None \<and> revisions_of db k = [] \<and> audit_of db k = []
      | Some p \<Rightarrow> \<exists>s. load_state blake3 codec db k = Ok s \<and> (\<forall>r \<in> set (revisions_of db k). revision_ok blake3 codec k (pi_role p) r) \<and>
          audit_history (digest_to_string (pf_state_digest s)) (audit_of db k) \<and> wf_digest (pf_state_digest s) \<and>
          length (audit_of db k) = unat (pf_generation s) + 1 \<and> (\<forall>a \<in> set (audit_of db k). audit_ok db k a))"

definition profile_keys_ok :: "'j profile_db \<Rightarrow> bool" where
  "profile_keys_ok db \<longleftrightarrow>
     distinct (map pi_id (px_profiles db)) \<and> distinct (map ts_id (px_states db)) \<and>
     distinct (map (\<lambda>r. (pr_id r, pr_revision r)) (px_revisions db)) \<and> distinct (map pr_digest (px_revisions db)) \<and>
     sorted_wrt (<) (map au_id (px_audit db))"

definition profile_store_ok :: "(u8 list \<Rightarrow> digest) \<Rightarrow> 'j profile_codec \<Rightarrow> 'j profile_db \<Rightarrow> bool" where
  "profile_store_ok blake3 codec db \<longleftrightarrow> profile_keys_ok db \<and> (\<forall>k. profile_ok blake3 codec db k)"

lemma profile_ok_frame:
  assumes "identity_of db' k = identity_of db k" "state_of db' k = state_of db k" "revisions_of db' k = revisions_of db k"
    "audit_of db' k = audit_of db k"
  shows "profile_ok blake3 codec db' k = profile_ok blake3 codec db k"
  unfolding profile_ok_def audit_ok_def assms load_frame [OF assms(1-3)] ..

lemma find_revision_iff:
  assumes "profile_keys_ok db"
  shows "find_revision db k n = Some r \<longleftrightarrow> r \<in> set (px_revisions db) \<and> pr_id r = k \<and> pr_revision r = n"
proof
  assume "find_revision db k n = Some r"
  then show "r \<in> set (px_revisions db) \<and> pr_id r = k \<and> pr_revision r = n" by (auto simp: find_revision_def find_Some_iff)
next
  assume r: "r \<in> set (px_revisions db) \<and> pr_id r = k \<and> pr_revision r = n"
  from assms have "distinct (map (\<lambda>r. (pr_id r, pr_revision r)) (px_revisions db))" by (simp add: profile_keys_ok_def)
  from find_distinct_key [OF this, of r] r show "find_revision db k n = Some r" by (simp add: find_revision_def)
qed

section \<open>Operations keep the store consistent\<close>

lemma bind_u64_Ok [simp]: "bind_u64 n = Ok u \<longleftrightarrow> n < 0x8000000000000000"
  by (simp add: bind_u64_def)

lemma of_update [simp]:
  "identity_of (db\<lparr>px_revisions := rs\<rparr>) k = identity_of db k" "identity_of (db\<lparr>px_states := ss\<rparr>) k = identity_of db k"
  "identity_of (db\<lparr>px_audit := as\<rparr>) k = identity_of db k"
  "state_of (db\<lparr>px_profiles := ps\<rparr>) k = state_of db k" "state_of (db\<lparr>px_revisions := rs\<rparr>) k = state_of db k"
  "state_of (db\<lparr>px_audit := as\<rparr>) k = state_of db k"
  "revisions_of (db\<lparr>px_profiles := ps\<rparr>) k = revisions_of db k" "revisions_of (db\<lparr>px_states := ss\<rparr>) k = revisions_of db k"
  "revisions_of (db\<lparr>px_audit := as\<rparr>) k = revisions_of db k"
  "audit_of (db\<lparr>px_profiles := ps\<rparr>) k = audit_of db k" "audit_of (db\<lparr>px_revisions := rs\<rparr>) k = audit_of db k"
  "audit_of (db\<lparr>px_states := ss\<rparr>) k = audit_of db k"
  by (simp_all add: identity_of_def state_of_def revisions_of_def audit_of_def)

lemma of_append:
  "identity_of (db\<lparr>px_profiles := px_profiles e @ [p]\<rparr>) k = (case identity_of e k of None \<Rightarrow> if pi_id p = k then Some p else None | Some x \<Rightarrow> Some x)"
  "state_of (db\<lparr>px_states := px_states e @ [t]\<rparr>) k = (case state_of e k of None \<Rightarrow> if ts_id t = k then Some t else None | Some x \<Rightarrow> Some x)"
  "revisions_of (db\<lparr>px_revisions := px_revisions e @ [r]\<rparr>) k = revisions_of e k @ (if pr_id r = k then [r] else [])"
  "audit_of (db\<lparr>px_audit := px_audit e @ [a]\<rparr>) k = audit_of e k @ (if au_profile a = k then [a] else [])"
  by (auto simp: identity_of_def state_of_def revisions_of_def audit_of_def find_append split: option.split)

lemma insert_identity_Ok:
  "insert_identity p db = Ok db' \<Longrightarrow> db' = db\<lparr>px_profiles := px_profiles db @ [p]\<rparr> \<and> pi_id p \<notin> pi_id ` set (px_profiles db)"
  by (auto simp: insert_identity_def guard_Ok_iff)

lemma insert_revision_Ok:
  "insert_revision codec r db = Ok db' \<Longrightarrow> db' = db\<lparr>px_revisions := px_revisions db @ [r]\<rparr> \<and> pr_revision r < 0x8000000000000000 \<and> pr_revision r \<noteq> 0 \<and>
     pr_digest r \<notin> pr_digest ` set (px_revisions db) \<and> (pr_id r, pr_revision r) \<notin> (\<lambda>r. (pr_id r, pr_revision r)) ` set (px_revisions db)"
  by (auto simp: insert_revision_def guard_Ok_iff)

lemma insert_state_Ok:
  "insert_state t db = Ok db' \<Longrightarrow> db' = db\<lparr>px_states := px_states db @ [t]\<rparr> \<and> ts_id t \<notin> ts_id ` set (px_states db)"
  by (auto simp: insert_state_def guard_Ok_iff)

lemma state_of_id: "state_of db k = Some r \<Longrightarrow> ts_id r = k"
  by (auto simp: state_of_def find_Some_iff)

lemma update_state_Ok:
  assumes u: "update_state k g f db = Ok (db', n)" and "n = 1" and keys: "profile_keys_ok db" and f: "\<And>r. ts_id (f r) = ts_id r"
  obtains r ss where "db' = db\<lparr>px_states := ss\<rparr>" "map ts_id ss = map ts_id (px_states db)"
    "state_of db k = Some r" "ts_generation r = g" "state_of db' k = Some (f r)" "\<And>k'. k' \<noteq> k \<Longrightarrow> state_of db' k' = state_of db k'"
proof -
  let ?m = "\<lambda>r. ts_id r = k \<and> ts_generation r = g"
  let ?f = "\<lambda>r. if ?m r then f r else r"
  from u have db': "db' = db\<lparr>px_states := map ?f (px_states db)\<rparr>" and n: "n = length (filter ?m (px_states db))"
    by (auto simp: update_state_def Let_def split: if_splits)
  from n assms(2) have "filter ?m (px_states db) \<noteq> []" by auto
  then obtain x where x: "x \<in> set (px_states db)" "?m x" by (auto simp: filter_empty_conv)
  from keys have "distinct (map ts_id (px_states db))" by (simp add: profile_keys_ok_def)
  from find_distinct_key [OF this x(1)] x(2) have sx: "state_of db k = Some x" by (simp add: state_of_def)
  have q: "state_of db' k' = map_option ?f (state_of db k')" for k'
    unfolding db' state_of_def by (simp, rule find_key_map) (simp add: f)
  have "map ts_id (map ?f (px_states db)) = map ts_id (px_states db)" by (simp add: f)
  moreover have "state_of db' k = Some (f x)" using q sx x(2) by simp
  moreover have "state_of db' k' = state_of db k'" if "k' \<noteq> k" for k'
    using q [of k'] that state_of_id [of db k'] by (cases "state_of db k'") auto
  ultimately show thesis using that [of "map ?f (px_states db)" x] db' sx x(2) by blast
qed

lemma fold_max_start: "(n::nat) \<le> fold max xs n"
proof (induction xs arbitrary: n)
  case (Cons x xs)
  have "n \<le> max x n" by simp
  also have "\<dots> \<le> fold max xs (max x n)" by (rule Cons)
  finally show ?case by simp
qed simp

lemma fold_max_ge: "x \<in> set xs \<Longrightarrow> x \<le> fold max xs (n::nat)"
proof (induction xs arbitrary: n)
  case (Cons y xs)
  then show ?case using fold_max_start [of "max y n" xs] by auto
qed simp

lemma keys_ok_audit: "profile_keys_ok db \<Longrightarrow> au_id a = next_audit_id db \<Longrightarrow> profile_keys_ok (db\<lparr>px_audit := px_audit db @ [a]\<rparr>)"
  using fold_max_ge [of _ "map au_id (px_audit db)" 0] by (auto simp: profile_keys_ok_def sorted_wrt_append next_audit_id_def less_Suc_eq_le)

text \<open>
  A committed write of one profile: what the operation leaves of the profile, and the audit record it appends,
  determine that the store stays consistent.
\<close>

lemma committed:
  assumes ok: "profile_store_ok blake3 codec db" and keys: "profile_keys_ok db1"
    and others: "\<And>k'. k' \<noteq> k \<Longrightarrow> identity_of db1 k' = identity_of db k' \<and> state_of db1 k' = state_of db k' \<and> revisions_of db1 k' = revisions_of db k'"
    and audits: "px_audit db1 = px_audit db"
    and id: "identity_of db1 k = Some p" and load: "load_state blake3 codec db1 k = Ok s'"
    and revs: "\<forall>r \<in> set (revisions_of db1 k). revision_ok blake3 codec k (pi_role p) r"
    and ins: "insert_audit i db1 = Ok db'" "ai_profile i = k" "ai_resulting i = s'"
    and prior: "(identity_of db k = None \<and> ai_prior_digest i = None \<and> pf_generation s' = 0) \<or>
      (\<exists>s. load_state blake3 codec db k = Ok s \<and> ai_prior_digest i = Some (pf_state_digest s) \<and> unat (pf_generation s') = unat (pf_generation s) + 1)"
    and rev: "\<exists>r \<in> set (revisions_of db1 k). pr_revision r = ai_revision i \<and> pr_digest r = digest_to_string (ai_digest i)"
    and kept: "\<forall>r \<in> set (revisions_of db k). \<exists>r' \<in> set (revisions_of db1 k). pr_revision r' = pr_revision r \<and> pr_digest r' = pr_digest r"
  shows "profile_store_ok blake3 codec db'" "load_state blake3 codec db' k = Ok s'"
proof -
  let ?e = "record_of_input (next_audit_id db1) i"
  note ia = insert_audit_Ok [OF ins(1)]
  have e: "ae_profile ?e = k" "ae_prior_digest ?e = ai_prior_digest i" "ae_resulting_digest ?e = pf_state_digest s'" "ae_revision ?e = ai_revision i"
    "ae_digest ?e = ai_digest i" "ae_id ?e = next_audit_id db1" using ins(2,3) by (simp_all add: record_of_input_def)
  have row: "au_profile (audit_row_of ?e) = k" "au_id (audit_row_of ?e) = next_audit_id db1"
    "au_prior_digest (audit_row_of ?e) = map_option digest_to_string (ai_prior_digest i)"
    "au_resulting_digest (audit_row_of ?e) = digest_to_string (pf_state_digest s')" using e by (simp_all add: audit_row_of_def)
  have same: "identity_of db' k' = identity_of db1 k'" "state_of db' k' = state_of db1 k'" "revisions_of db' k' = revisions_of db1 k'" for k'
    by (simp_all add: ia(1))
  have au: "audit_of db' k' = audit_of db k' @ (if k' = k then [audit_row_of ?e] else [])" for k'
    using audits row(1) by (auto simp: ia(1) audit_of_def)
  show load': "load_state blake3 codec db' k = Ok s'" using load load_frame(2) [OF same [of k]] by simp
  have old: "profile_ok blake3 codec db k" using ok by (simp add: profile_store_ok_def)
  have "audit_history (digest_to_string (pf_state_digest s')) (audit_of db k @ [audit_row_of ?e]) \<and>
    length (audit_of db k) = unat (pf_generation s') \<and> (\<forall>a \<in> set (audit_of db k). audit_ok db k a)"
  proof (cases "identity_of db k")
    case None
    with old have "audit_of db k = []" by (simp add: profile_ok_def)
    moreover have "ai_prior_digest i = None \<and> pf_generation s' = 0" using prior None by (auto simp: load_state_Ok)
    ultimately show ?thesis using row by (auto intro!: audit_trail.history.start)
  next
    case (Some p0)
    with old obtain s where s: "load_state blake3 codec db k = Ok s" "audit_history (digest_to_string (pf_state_digest s)) (audit_of db k)"
      "length (audit_of db k) = unat (pf_generation s) + 1" "\<forall>a \<in> set (audit_of db k). audit_ok db k a" by (auto simp: profile_ok_def)
    moreover have "ai_prior_digest i = Some (pf_state_digest s)" "unat (pf_generation s') = unat (pf_generation s) + 1" using prior Some s(1) by auto
    moreover from this row have "audit_history (digest_to_string (pf_state_digest s')) (audit_of db k @ [audit_row_of ?e])"
      by (intro audit_trail.history.extend [OF s(2)]) simp
    ultimately show ?thesis by simp
  qed
  moreover have "audit_ok db' k a" if "audit_ok db k a" for a
    using that kept unfolding audit_ok_def same(3) by (metis (no_types, lifting))
  moreover have "audit_ok db' k (audit_row_of ?e)"
    unfolding audit_ok_def same(3) using ia(2) e rev by (intro exI [of _ ?e]) simp
  moreover have "wf_digest (pf_state_digest s')" using ia(2) e(3) by (simp add: record_wf_def)
  ultimately have "profile_ok blake3 codec db' k"
    using id revs load' unfolding profile_ok_def same(1,3) au by auto
  moreover have "profile_ok blake3 codec db' k'" if "k' \<noteq> k" for k'
    using profile_ok_frame [of db' k' db] others [OF that] same [of k'] au [of k'] that ok by (simp add: profile_store_ok_def)
  ultimately have "profile_ok blake3 codec db' k'" for k' by (cases "k' = k") auto
  moreover have "profile_keys_ok db'" unfolding ia(1) by (rule keys_ok_audit [OF keys row(2)])
  ultimately show "profile_store_ok blake3 codec db'" by (simp add: profile_store_ok_def)
qed

text \<open>
  Stored revisions keep their identity and content, only the time of activation may change; the audit trail is
  only extended.
\<close>

definition rows_kept :: "'j profile_db \<Rightarrow> 'j profile_db \<Rightarrow> bool" where
  "rows_kept db db' \<longleftrightarrow> (\<forall>r \<in> set (px_revisions db). \<exists>r' \<in> set (px_revisions db').
     pr_id r' = pr_id r \<and> pr_revision r' = pr_revision r \<and> pr_digest r' = pr_digest r \<and> pr_json r' = pr_json r \<and> pr_created r' = pr_created r) \<and>
     (\<exists>as. px_audit db' = px_audit db @ as)"

lemma rows_kept_refl: "rows_kept db db"
  by (auto simp: rows_kept_def)

lemma rows_kept_trans: "rows_kept a b \<Longrightarrow> rows_kept b c \<Longrightarrow> rows_kept a c"
  unfolding rows_kept_def by (metis append.assoc)

definition profile_codec_ok :: "'j profile_codec \<Rightarrow> bool" where
  "profile_codec_ok codec \<longleftrightarrow> (\<forall>d j. pc_of codec d = Some j \<longrightarrow> pc_to codec j = Some d)"

lemma parse_definition_Ok:
  "parse_definition blake3 codec json text k = Ok d \<longleftrightarrow>
     pc_to codec json = Some d \<and> definition_validate blake3 d = Ok () \<and> rd_profile_id d = k \<and> digest_parse text = Ok (rd_definition_digest d)"
  by (auto simp: parse_definition_def guard_Ok_iff)

lemma load_state_latest:
  assumes "load_state blake3 codec db k = Ok s"
  shows "\<exists>d c a. load_revision blake3 codec db k (pf_latest s) = Ok (d, c, a) \<and> pf_latest_digest s = rd_definition_digest d"
  using assms by (auto simp: load_state_Ok)

text \<open>The revision an operation has just written is the one its state loads as the latest.\<close>

lemma new_revision_ok:
  assumes keys: "profile_keys_ok db" and load: "load_revision blake3 codec db k (pr_revision r) = Ok (d, c, a)"
    and r: "r \<in> set (px_revisions db)" "pr_id r = k" "pc_to codec (pr_json r) = Some definition"
      "pr_digest r = digest_to_string (rd_definition_digest definition)"
    and p: "identity_of db k = Some p" and n: "pr_revision r \<noteq> 0"
  shows "revision_ok blake3 codec k (pi_role p) r"
proof -
  have "find_revision db k (pr_revision r) = Some r" using find_revision_iff [OF keys] r(1,2) by blast
  with load p r(3,4) n show ?thesis
    by (auto simp: load_revision_Ok revision_ok_def find_revision_alt parse_definition_Ok)
qed

lemma create_profile_ok:
  assumes c: "create_role_profile blake3 codec now definition db = Ok (res, db')" and ok: "profile_store_ok blake3 codec db" and "profile_codec_ok codec"
  shows "profile_store_ok blake3 codec db' \<and> rows_kept db db'"
proof -
  let ?k = "rd_profile_id definition"
  let ?p = "\<lparr>pi_id = ?k, pi_role = codex_role_str (rd_role definition), pi_created = now\<rparr>"
  let ?t = "\<lparr>ts_id = ?k, ts_latest = 1, ts_active = None, ts_generation = 0, ts_updated = now\<rparr>"
  from c [unfolded create_role_profile_def Let_def rbind_Ok_iff guard_Ok_iff map_err_Ok_iff ok_or_Ok_iff]
  obtain json db1 db2 db3 s where new: "\<not> (\<exists>p \<in> set (px_profiles db). pi_id p = ?k)" and json: "pc_of codec definition = Some json"
    and w: "insert_identity ?p db = Ok db1"
      "insert_revision codec \<lparr>pr_id = ?k, pr_revision = 1, pr_digest = digest_to_string (rd_definition_digest definition),
         pr_json = json, pr_created = now, pr_activated = None\<rparr> db1 = Ok db2" "insert_state ?t db2 = Ok db3"
    and load: "load_state blake3 codec db3 ?k = Ok s"
    and ins: "insert_audit \<lparr>ai_profile = ?k, ai_revision = 1, ai_digest = rd_definition_digest definition, ai_operation = AuditCreate,
           ai_prior_state = None, ai_resulting_state = Draft, ai_prior_digest = None, ai_resulting = s, ai_prior_active = None,
           ai_prior_active_digest = None, ai_now = now\<rparr> db3 = Ok db'" by blast
  let ?r = "\<lparr>pr_id = ?k, pr_revision = 1, pr_digest = digest_to_string (rd_definition_digest definition),
         pr_json = json, pr_created = now, pr_activated = None\<rparr>"
  note w' = insert_identity_Ok [OF w(1)] insert_revision_Ok [OF w(2)] insert_state_Ok [OF w(3)]
  have keys: "profile_keys_ok db" and pok: "profile_ok blake3 codec db ?k" using ok by (simp_all add: profile_store_ok_def)
  have none: "identity_of db ?k = None" using new identity_iff [of db ?k] by simp
  with pok have empty: "state_of db ?k = None" "revisions_of db ?k = []" by (simp_all add: profile_ok_def)
  have keys3: "profile_keys_ok db3" using keys w' by (auto simp: profile_keys_ok_def)
  have id: "identity_of db3 ?k = Some ?p" using w' none by (simp add: of_append)
  have st: "state_of db3 ?k = Some ?t" using w' empty by (simp add: of_append)
  have rs: "revisions_of db3 ?k = [?r]" using w' empty by (simp add: of_append)
  have "pf_latest s = 1" "pf_generation s = 0" using load st by (auto simp: load_state_Ok)
  with load_state_latest [OF load] obtain d cr ac where l: "load_revision blake3 codec db3 ?k (pr_revision ?r) = Ok (d, cr, ac)" by auto
  have "?r \<in> set (px_revisions db3)" using w' by simp
  from new_revision_ok [OF keys3 l this _ _ _ id, of "definition"] json assms(3)
  have "revision_ok blake3 codec ?k (pi_role ?p) ?r" by (simp add: profile_codec_ok_def)
  then have "profile_store_ok blake3 codec db'"
    using \<open>pf_generation s = 0\<close> none w' empty(2) id rs
    by (intro committed(1) [OF ok keys3 _ _ id load _ ins]) (auto simp: of_append split: option.splits)
  moreover have "rows_kept db db'" using w' insert_audit_Ok(1) [OF ins] by (auto simp: rows_kept_def)
  ultimately show ?thesis by blast
qed

lemma load_state_row:
  assumes "load_state blake3 codec db k = Ok s" "state_of db k = Some r"
  shows "pf_latest s = ts_latest r" "pf_active s = ts_active r" "pf_generation s = ts_generation r"
  using assms by (auto simp: load_state_Ok)

lemma loaded_profile:
  assumes "profile_store_ok blake3 codec db" "load_state blake3 codec db k = Ok s"
  obtains p where "identity_of db k = Some p" "\<forall>r \<in> set (revisions_of db k). revision_ok blake3 codec k (pi_role p) r"
proof -
  from assms(2) obtain p where p: "identity_of db k = Some p" by (auto simp: load_state_Ok)
  from assms(1) have "profile_ok blake3 codec db k" by (simp add: profile_store_ok_def)
  with p that show thesis by (auto simp: profile_ok_def)
qed

lemma revise_profile_ok:
  assumes c: "revise_role_profile blake3 codec now k expected definition db = Ok (res, db')" and ok: "profile_store_ok blake3 codec db" and "profile_codec_ok codec"
  shows "profile_store_ok blake3 codec db' \<and> rows_kept db db'"
proof -
  from c [unfolded revise_role_profile_def Let_def rbind_Ok_iff guard_Ok_iff map_err_Ok_iff ok_or_Ok_iff]
  obtain s where load: "load_state blake3 codec db k = Ok s" by blast
  then obtain p where p: "identity_of db k = Some p" and old: "\<forall>r \<in> set (revisions_of db k). revision_ok blake3 codec k (pi_role p) r"
    by (rule loaded_profile [OF ok])
  from c [unfolded revise_role_profile_def Let_def rbind_Ok_iff guard_Ok_iff map_err_Ok_iff ok_or_Ok_iff first_row_find identity_of_def [symmetric] p option.case split_paired_Ex prod.case] load
  obtain n json db1 g db2 s' x i where json: "pc_of codec definition = Some json" and n: "checked_add (pf_latest s) 1 = Some n"
    and w: "insert_revision codec \<lparr>pr_id = k, pr_revision = n, pr_digest = digest_to_string (rd_definition_digest definition),
         pr_json = json, pr_created = now, pr_activated = None\<rparr> db = Ok db1"
    and g: "checked_add (pf_generation s) 1 = Some g"
    and u: "update_state k (pf_generation s) (\<lambda>r. r\<lparr>ts_latest := n, ts_generation := g, ts_updated := now\<rparr>) db1 = Ok (db2, 1)"
    and load': "load_state blake3 codec db2 k = Ok s'"
    and ins: "insert_audit i db2 = Ok db'" "ai_profile i = k" "ai_resulting i = s'" "ai_prior_digest i = Some (pf_state_digest s)"
      "ai_revision i = n" "ai_digest i = rd_definition_digest definition" by auto
  let ?r = "\<lparr>pr_id = k, pr_revision = n, pr_digest = digest_to_string (rd_definition_digest definition),
         pr_json = json, pr_created = now, pr_activated = None\<rparr>"
  note w' = insert_revision_Ok [OF w]
  have keys: "profile_keys_ok db" using ok by (simp add: profile_store_ok_def)
  have keys1: "profile_keys_ok db1" using keys w' by (auto simp: profile_keys_ok_def)
  obtain t ss where db2: "db2 = db1\<lparr>px_states := ss\<rparr>" "map ts_id ss = map ts_id (px_states db1)" and t: "state_of db1 k = Some t" "ts_generation t = pf_generation s"
    "state_of db2 k = Some (t\<lparr>ts_latest := n, ts_generation := g, ts_updated := now\<rparr>)" "\<And>k'. k' \<noteq> k \<Longrightarrow> state_of db2 k' = state_of db1 k'"
    by (rule update_state_Ok [OF u refl keys1]) auto
  have keys2: "profile_keys_ok db2" using keys1 db2 by (simp add: profile_keys_ok_def)
  note s' = load_state_row [OF load' t(3), simplified]
  have id: "identity_of db2 k = Some p" using w' p db2(1) by simp
  have rs: "revisions_of db2 k' = revisions_of db k' @ (if k' = k then [?r] else [])" for k' using w' db2(1) by (simp add: of_append)
  from load_state_latest [OF load'] obtain d cr ac where l: "load_revision blake3 codec db2 k (pr_revision ?r) = Ok (d, cr, ac)" using s'(1) by auto
  have "?r \<in> set (px_revisions db2)" using w' db2(1) by simp
  from new_revision_ok [OF keys2 l this _ _ _ id, of "definition"] json assms(3)
  have "revision_ok blake3 codec k (pi_role p) ?r" using w' by (simp add: profile_codec_ok_def)
  moreover have "unat (pf_generation s') = unat (pf_generation s) + 1" using g s'(3) by (auto dest: checked_add_Some)
  moreover have "px_audit db2 = px_audit db" using w' db2(1) by simp
  moreover have "identity_of db2 k' = identity_of db k' \<and> state_of db2 k' = state_of db k' \<and> revisions_of db2 k' = revisions_of db k'" if "k' \<noteq> k" for k'
    using that w' db2(1) t(4) [OF that] rs [of k'] by simp
  ultimately have "profile_store_ok blake3 codec db'"
    using old load ins(4-6)
    by (intro committed(1) [OF ok keys2 _ _ id load' _ ins(1-3)]) (auto simp: rs)
  moreover have "rows_kept db db'" using w' db2(1) insert_audit_Ok(1) [OF ins(1)] by (auto simp: rows_kept_def)
  ultimately show ?thesis by blast
qed

lemma loaded_revision:
  assumes "load_revision blake3 codec db k n = Ok (d, c, a)" "\<forall>r \<in> set (revisions_of db k). revision_ok blake3 codec k role r"
  shows "\<exists>r \<in> set (revisions_of db k). pr_revision r = n \<and> pr_digest r = digest_to_string (rd_definition_digest d)"
proof -
  from assms(1) obtain r where r: "List.find (\<lambda>r. pr_revision r = n) (revisions_of db k) = Some r"
    and d: "parse_definition blake3 codec (pr_json r) (pr_digest r) k = Ok d" by (auto simp: load_revision_Ok)
  have m: "r \<in> set (revisions_of db k)" "pr_revision r = n" using r by (auto simp: find_Some_iff)
  with assms(2) have "revision_ok blake3 codec k role r" by blast
  with m d show ?thesis by (auto simp: revision_ok_def)
qed

definition activate_row :: "string \<Rightarrow> u64 \<Rightarrow> u64 \<Rightarrow> 'j revision_row \<Rightarrow> 'j revision_row" where
  "activate_row k n now r = (if pr_id r = k \<and> pr_revision r = n then r\<lparr>pr_activated := Some now\<rparr> else r)"

lemma activate_row_fields [simp]:
  "pr_id (activate_row k n now r) = pr_id r" "pr_revision (activate_row k n now r) = pr_revision r"
  "pr_digest (activate_row k n now r) = pr_digest r" "pr_json (activate_row k n now r) = pr_json r"
  "pr_created (activate_row k n now r) = pr_created r"
  "revision_ok blake3 codec k' role (activate_row k n now r) = revision_ok blake3 codec k' role r"
  by (simp_all add: activate_row_def revision_ok_def)

lemma update_activated_Ok:
  assumes "update_activated k n now db = Ok db'"
  shows "db' = db\<lparr>px_revisions := map (activate_row k n now) (px_revisions db)\<rparr>"
    "revisions_of db' k' = map (activate_row k n now) (revisions_of db k')"
    "k' \<noteq> k \<Longrightarrow> revisions_of db' k' = revisions_of db k'"
proof -
  show db': "db' = db\<lparr>px_revisions := map (activate_row k n now) (px_revisions db)\<rparr>"
    using assms by (simp add: update_activated_def activate_row_def [abs_def])
  show m: "revisions_of db' k' = map (activate_row k n now) (revisions_of db k')"
    by (simp add: db' revisions_of_def filter_map comp_def)
  show "revisions_of db' k' = revisions_of db k'" if "k' \<noteq> k"
    unfolding m using that by (intro map_idI) (auto simp: revisions_of_def activate_row_def)
qed

lemma activate_profile_ok:
  assumes c: "activate_role_profile_inner blake3 codec now k target expected expected_active db = Ok (res, db')" and ok: "profile_store_ok blake3 codec db"
  shows "profile_store_ok blake3 codec db' \<and> rows_kept db db'"
proof -
  from c [unfolded activate_role_profile_inner_def rbind_Ok_iff guard_Ok_iff]
  obtain s where load: "load_state blake3 codec db k = Ok s" by blast
  then obtain p where p: "identity_of db k = Some p" and old: "\<forall>r \<in> set (revisions_of db k). revision_ok blake3 codec k (pi_role p) r"
    by (rule loaded_profile [OF ok])
  show ?thesis
  proof (cases "pf_active s = Some target")
    case True
    with c load ok show ?thesis by (auto simp: activate_role_profile_inner_def rows_kept_refl split: if_splits)
  next
    case False
    from c [unfolded activate_role_profile_inner_def Let_def rbind_Ok_iff guard_Ok_iff map_err_Ok_iff ok_or_Ok_iff split_paired_Ex prod.case] load False
    obtain d cr ac db1 g db2 s' i where l: "load_revision blake3 codec db k target = Ok (d, cr, ac)"
      and w: "update_activated k target now db = Ok db1"
      and g: "checked_add (pf_generation s) 1 = Some g"
      and u: "update_state k (pf_generation s) (\<lambda>r. r\<lparr>ts_active := Some target, ts_generation := g, ts_updated := now\<rparr>) db1 = Ok (db2, 1)"
      and load': "load_state blake3 codec db2 k = Ok s'"
      and ins: "insert_audit i db2 = Ok db'" "ai_profile i = k" "ai_resulting i = s'" "ai_prior_digest i = Some (pf_state_digest s)"
        "ai_revision i = target" "ai_digest i = rd_definition_digest d" by (auto simp: guard_Ok_iff)
    note w' = update_activated_Ok [OF w]
    have keys: "profile_keys_ok db" using ok by (simp add: profile_store_ok_def)
    have keys1: "profile_keys_ok db1" using keys by (simp add: w'(1) profile_keys_ok_def comp_def)
    obtain t ss where db2: "db2 = db1\<lparr>px_states := ss\<rparr>" "map ts_id ss = map ts_id (px_states db1)" and t: "state_of db1 k = Some t" "ts_generation t = pf_generation s"
      "state_of db2 k = Some (t\<lparr>ts_active := Some target, ts_generation := g, ts_updated := now\<rparr>)" "\<And>k'. k' \<noteq> k \<Longrightarrow> state_of db2 k' = state_of db1 k'"
      by (rule update_state_Ok [OF u refl keys1]) auto
    have keys2: "profile_keys_ok db2" using keys1 db2 by (simp add: profile_keys_ok_def)
    have id: "identity_of db2 k = Some p" using p by (simp add: db2(1) w'(1))
    have rs: "revisions_of db2 k' = map (activate_row k target now) (revisions_of db k')" for k' using w'(2) by (simp add: db2(1))
    have "unat (pf_generation s') = unat (pf_generation s) + 1"
      using g load_state_row [OF load' t(3)] by (auto dest: checked_add_Some)
    moreover have "px_audit db2 = px_audit db" by (simp add: db2(1) w'(1))
    moreover have "identity_of db2 k' = identity_of db k' \<and> state_of db2 k' = state_of db k' \<and> revisions_of db2 k' = revisions_of db k'" if "k' \<noteq> k" for k'
      using that w'(1,3) db2(1) t(4) [OF that] by simp
    ultimately have "profile_store_ok blake3 codec db'"
      using old load ins(4-6) loaded_revision [OF l old]
      by (intro committed(1) [OF ok keys2 _ _ id load' _ ins(1-3)]) (auto simp: rs)
    moreover have "rows_kept db db'" by (auto simp: rows_kept_def insert_audit_Ok(1) [OF ins(1)] db2(1) w'(1))
    ultimately show ?thesis by blast
  qed
qed

lemma deactivate_profile_ok:
  assumes c: "deactivate_role_profile_inner blake3 codec now k expected expected_active db = Ok (res, db')" and ok: "profile_store_ok blake3 codec db"
  shows "profile_store_ok blake3 codec db' \<and> rows_kept db db'"
proof -
  from c [unfolded deactivate_role_profile_inner_def rbind_Ok_iff guard_Ok_iff]
  obtain s where load: "load_state blake3 codec db k = Ok s" by blast
  then obtain p where p: "identity_of db k = Some p" and old: "\<forall>r \<in> set (revisions_of db k). revision_ok blake3 codec k (pi_role p) r"
    by (rule loaded_profile [OF ok])
  from c load obtain n where n: "pf_active s = Some n" by (auto simp: deactivate_role_profile_inner_def split: option.splits if_splits)
  from c [unfolded deactivate_role_profile_inner_def Let_def rbind_Ok_iff guard_Ok_iff map_err_Ok_iff ok_or_Ok_iff split_paired_Ex prod.case] load n
  obtain d cr ac g db2 s' i where l: "load_revision blake3 codec db k n = Ok (d, cr, ac)"
    and g: "checked_add (pf_generation s) 1 = Some g"
    and u: "update_state k (pf_generation s) (\<lambda>r. r\<lparr>ts_active := None, ts_generation := g, ts_updated := now\<rparr>) db = Ok (db2, 1)"
    and load': "load_state blake3 codec db2 k = Ok s'"
    and ins: "insert_audit i db2 = Ok db'" "ai_profile i = k" "ai_resulting i = s'" "ai_prior_digest i = Some (pf_state_digest s)"
      "ai_revision i = n" "ai_digest i = rd_definition_digest d" by (auto simp: guard_Ok_iff)
  have keys: "profile_keys_ok db" using ok by (simp add: profile_store_ok_def)
  obtain t ss where db2: "db2 = db\<lparr>px_states := ss\<rparr>" "map ts_id ss = map ts_id (px_states db)" and t: "state_of db k = Some t" "ts_generation t = pf_generation s"
    "state_of db2 k = Some (t\<lparr>ts_active := None, ts_generation := g, ts_updated := now\<rparr>)" "\<And>k'. k' \<noteq> k \<Longrightarrow> state_of db2 k' = state_of db k'"
    by (rule update_state_Ok [OF u refl keys]) auto
  have keys2: "profile_keys_ok db2" using keys db2 by (simp add: profile_keys_ok_def)
  have id: "identity_of db2 k = Some p" using p by (simp add: db2(1))
  have "unat (pf_generation s') = unat (pf_generation s) + 1"
    using g load_state_row [OF load' t(3)] by (auto dest: checked_add_Some)
  moreover have "px_audit db2 = px_audit db" and rs: "revisions_of db2 k' = revisions_of db k'" for k' by (simp_all add: db2(1))
  moreover have "identity_of db2 k' = identity_of db k' \<and> state_of db2 k' = state_of db k' \<and> revisions_of db2 k' = revisions_of db k'" if "k' \<noteq> k" for k'
    using that db2(1) t(4) [OF that] by simp
  ultimately have "profile_store_ok blake3 codec db'"
    using old load ins(4-6) loaded_revision [OF l old]
    by (intro committed(1) [OF ok keys2 _ _ id load' _ ins(1-3)]) auto
  moreover have "rows_kept db db'" by (auto simp: rows_kept_def insert_audit_Ok(1) [OF ins(1)] db2(1))
  ultimately show ?thesis by blast
qed

section \<open>Reachable profile stores\<close>

inductive profile_step :: "(u8 list \<Rightarrow> digest) \<Rightarrow> 'j profile_codec \<Rightarrow> 'j profile_db \<Rightarrow> 'j profile_db \<Rightarrow> bool" for blake3 codec where
  create: "create_role_profile blake3 codec now definition db = Ok (res, db') \<Longrightarrow> profile_step blake3 codec db db'"
| revise: "revise_role_profile blake3 codec now k expected definition db = Ok (res, db') \<Longrightarrow> profile_step blake3 codec db db'"
| activate: "activate_role_profile_inner blake3 codec now k target expected expected_active db = Ok (res, db') \<Longrightarrow> profile_step blake3 codec db db'"
| deactivate: "deactivate_role_profile_inner blake3 codec now k expected expected_active db = Ok (res, db') \<Longrightarrow> profile_step blake3 codec db db'"

definition empty_profiles :: "'j profile_db" where
  "empty_profiles = \<lparr>px_profiles = [], px_revisions = [], px_states = [], px_audit = []\<rparr>"

lemma empty_profiles_ok: "profile_store_ok blake3 codec empty_profiles"
  by (simp add: profile_store_ok_def profile_keys_ok_def profile_ok_def empty_profiles_def identity_of_def state_of_def revisions_of_def audit_of_def)

lemma profile_step_ok:
  "profile_step blake3 codec db db' \<Longrightarrow> profile_codec_ok codec \<Longrightarrow> profile_store_ok blake3 codec db \<Longrightarrow> profile_store_ok blake3 codec db' \<and> rows_kept db db'"
  by (induction rule: profile_step.induct) (auto dest: create_profile_ok revise_profile_ok activate_profile_ok deactivate_profile_ok)

lemma profile_steps_ok:
  "(profile_step blake3 codec)\<^sup>*\<^sup>* db db' \<Longrightarrow> profile_codec_ok codec \<Longrightarrow> profile_store_ok blake3 codec db \<Longrightarrow> profile_store_ok blake3 codec db' \<and> rows_kept db db'"
  by (induction rule: rtranclp_induct) (auto intro: rows_kept_refl rows_kept_trans dest: profile_step_ok)

end
