(* ===== verification/Profile_Store_Demo.thy ===== *)
theory Profile_Store_Demo
  imports Profile_Store_Proofs
begin

text \<open>A profile created in an empty store: the instance at which the theorems of the profile store are applied.\<close>

definition plain_codec :: "role_profile_definition profile_codec" where
  "plain_codec = \<lparr>pc_of = Some, pc_to = Some, pc_chars = \<lambda>_. 0\<rparr>"

definition wide_hash :: "u8 list \<Rightarrow> digest" where
  "wide_hash b = Digest (word_of_nat (length b) # replicate 31 0)"

definition team_definition :: role_profile_definition where
  "team_definition = with_digest sample_input (definition_digest_of wide_hash sample_input)"

lemma wide_hash_wf: "wf_digest (wide_hash b)"
  by (simp add: wide_hash_def wf_digest_def)

lemma plain_codec_ok: "profile_codec_ok plain_codec"
  by (simp add: profile_codec_ok_def plain_codec_def)

lemma team_definition_valid: "definition_validate wide_hash team_definition = Ok ()"
  by (simp add: definition_validate_def team_definition_def sample_input_valid)

lemma team_fields: "rd_profile_id team_definition = ''explorer''" "rd_role team_definition = Explorer"
  "wf_digest (rd_definition_digest team_definition)"
  by (simp_all add: team_definition_def definition_digest_of_def hasher_finish_def wide_hash_wf with_digest_def sample_input_def role_profile_input.defs)

definition team_db :: "role_profile_definition profile_db" where
  "team_db = \<lparr>px_profiles = [\<lparr>pi_id = ''explorer'', pi_role = ''explorer'', pi_created = 5\<rparr>],
     px_revisions = [\<lparr>pr_id = ''explorer'', pr_revision = 1, pr_digest = digest_to_string (rd_definition_digest team_definition),
       pr_json = team_definition, pr_created = 5, pr_activated = None\<rparr>],
     px_states = [\<lparr>ts_id = ''explorer'', ts_latest = 1, ts_active = None, ts_generation = 0, ts_updated = 5\<rparr>], px_audit = []\<rparr>"

definition team_state :: profile_state where
  "team_state = \<lparr>pf_id = ''explorer'', pf_latest = 1, pf_latest_digest = rd_definition_digest team_definition, pf_active = None,
     pf_active_digest = None, pf_generation = 0, pf_updated = 5,
     pf_state_digest = compute_state_digest wide_hash ''explorer'' 1 (rd_definition_digest team_definition) None None 0\<rparr>"

lemma team_state_wf: "wf_digest (pf_state_digest team_state)"
  by (simp add: team_state_def compute_state_digest_def hasher_finish_def wide_hash_wf)

lemma team_parse: "parse_definition wide_hash plain_codec team_definition (digest_to_string (rd_definition_digest team_definition)) ''explorer'' = Ok team_definition"
  unfolding parse_definition_Ok using team_definition_valid team_fields parse_to_string [OF team_fields(3)] by (simp add: plain_codec_def)

lemma team_load: "load_state wide_hash plain_codec team_db ''explorer'' = Ok team_state"
proof -
  have "load_revision wide_hash plain_codec team_db ''explorer'' 1 = Ok (team_definition, 5, None)"
    unfolding load_revision_Ok using team_parse by (simp add: team_db_def revisions_of_def identity_of_def team_fields)
  moreover have "role_profile_id_new ''explorer'' = Ok ''explorer''" by code_simp
  ultimately show ?thesis
    unfolding load_state_Ok by (simp add: team_db_def identity_of_def state_of_def max_revision_def load_active_def team_state_def parse_role_def is_ok_iff)
qed

lemma team_audit: "\<exists>a. insert_audit \<lparr>ai_profile = ''explorer'', ai_revision = 1, ai_digest = rd_definition_digest team_definition, ai_operation = AuditCreate,
    ai_prior_state = None, ai_resulting_state = Draft, ai_prior_digest = None, ai_resulting = team_state, ai_prior_active = None,
    ai_prior_active_digest = None, ai_now = 5\<rparr> team_db = Ok (team_db\<lparr>px_audit := [a]\<rparr>)"
  using team_state_wf team_fields(3)
  by (simp add: insert_audit_def text_size_wf) (simp add: team_db_def team_state_def)

lemma team_writes:
  "insert_identity \<lparr>pi_id = ''explorer'', pi_role = ''explorer'', pi_created = 5\<rparr> empty_profiles = Ok (empty_profiles\<lparr>px_profiles := px_profiles team_db\<rparr>)"
  "insert_revision plain_codec \<lparr>pr_id = ''explorer'', pr_revision = 1, pr_digest = digest_to_string (rd_definition_digest team_definition),
     pr_json = team_definition, pr_created = 5, pr_activated = None\<rparr> (empty_profiles\<lparr>px_profiles := px_profiles team_db\<rparr>) =
   Ok (empty_profiles\<lparr>px_profiles := px_profiles team_db, px_revisions := px_revisions team_db\<rparr>)"
  "insert_state \<lparr>ts_id = ''explorer'', ts_latest = 1, ts_active = None, ts_generation = 0, ts_updated = 5\<rparr>
     (empty_profiles\<lparr>px_profiles := px_profiles team_db, px_revisions := px_revisions team_db\<rparr>) = Ok team_db"
  using team_fields(3)
  by (simp_all add: insert_identity_def insert_revision_def insert_state_def team_db_def empty_profiles_def text_size_wf plain_codec_def
    state_row_checks_def has_revision_def bind_u64_def sql_u64_def)

lemma team_create: "\<exists>v a. create_role_profile wide_hash plain_codec 5 team_definition empty_profiles = Ok (Ok v, team_db\<lparr>px_audit := [a]\<rparr>)"
proof -
  from team_audit obtain a where a: "insert_audit \<lparr>ai_profile = ''explorer'', ai_revision = 1, ai_digest = rd_definition_digest team_definition, ai_operation = AuditCreate,
    ai_prior_state = None, ai_resulting_state = Draft, ai_prior_digest = None, ai_resulting = team_state, ai_prior_active = None,
    ai_prior_active_digest = None, ai_now = 5\<rparr> team_db = Ok (team_db\<lparr>px_audit := [a]\<rparr>)" by blast
  obtain v where v: "revision_with_state wide_hash ''explorer'' 1 team_definition Draft 5 None = Ok v"
    using team_definition_valid team_fields by (simp add: revision_with_state_def revision_validate_def Let_def)
  have "pc_of plain_codec team_definition = Some team_definition" by (simp add: plain_codec_def)
  moreover have "px_profiles (empty_profiles :: role_profile_definition profile_db) = []" by (simp add: empty_profiles_def)
  ultimately have "create_role_profile wide_hash plain_codec 5 team_definition empty_profiles = Ok (Ok v, team_db\<lparr>px_audit := [a]\<rparr>)"
    by (simp add: create_role_profile_def team_definition_valid team_fields Let_def team_writes team_load a v del: rbind_Ok_iff)
  then show ?thesis by blast
qed

end
