(* ===== verification/Profile_Store_Theorems.thy ===== *)
theory Profile_Store_Theorems
  imports Profile_Store_Demo
begin

text \<open>
  What the profile store promises: profiles and revisions can always be read, the audit trail is complete and
  chained, definitions never change, activation takes effect, stale writers are refused, and the lifecycle store's
  own check of a profile agrees with the active revision read here.
\<close>

section \<open>Reading a consistent store\<close>

lemma revision_row_loads:
  assumes ok: "profile_store_ok blake3 codec db" and r: "r \<in> set (px_revisions db)"
  shows "\<exists>s d. load_state blake3 codec db (pr_id r) = Ok s \<and> load_revision blake3 codec db (pr_id r) (pr_revision r) = Ok (d, pr_created r, pr_activated r) \<and>
    pc_to codec (pr_json r) = Some d \<and> rd_profile_id d = pr_id r \<and> pr_digest r = digest_to_string (rd_definition_digest d) \<and>
    definition_validate blake3 d = Ok () \<and> digest_parse (pr_digest r) = Ok (rd_definition_digest d)"
proof -
  let ?k = "pr_id r"
  have keys: "profile_keys_ok db" and pok: "profile_ok blake3 codec db ?k" using ok by (simp_all add: profile_store_ok_def)
  have m: "r \<in> set (revisions_of db ?k)" using r by (simp add: revisions_of_def)
  then obtain p where p: "identity_of db ?k = Some p" using pok by (cases "identity_of db ?k") (auto simp: profile_ok_def)
  with pok m obtain s d where s: "load_state blake3 codec db ?k = Ok s" and d: "parse_definition blake3 codec (pr_json r) (pr_digest r) ?k = Ok d"
    "pi_role p = codex_role_str (rd_role d)" "pr_digest r = digest_to_string (rd_definition_digest d)" "pr_revision r < 0x8000000000000000"
    by (auto simp: profile_ok_def revision_ok_def)
  have "find_revision db ?k (pr_revision r) = Some r" using find_revision_iff [OF keys] r by blast
  with p d s show ?thesis by (auto simp: load_revision_Ok find_revision_alt parse_definition_Ok)
qed

lemma active_loaded:
  assumes "load_state blake3 codec db k = Ok s" "pf_active s = Some n"
  shows "\<exists>d c a. load_revision blake3 codec db k n = Ok (d, c, a) \<and> a \<noteq> None \<and> pf_active_digest s = Some (rd_definition_digest d)"
proof -
  from assms obtain ad where "load_active blake3 codec db k (Some n) = Ok ad" "pf_active_digest s = ad" by (auto simp: load_state_Ok)
  then show ?thesis by (auto simp: load_active_def split: if_splits)
qed

lemma loaded_row:
  assumes "load_revision blake3 codec db k n = Ok (d, c, a)"
  shows "\<exists>r. r \<in> set (px_revisions db) \<and> pr_id r = k \<and> pr_revision r = n \<and> c = pr_created r \<and> a = pr_activated r"
  using assms by (auto simp: load_revision_Ok find_Some_iff revisions_of_def dest!: nth_mem)

lemma revision_with_state_Ok:
  assumes "definition_validate blake3 d = Ok ()" "rd_profile_id d = k" "n \<noteq> 0" "st = RevisionActive \<longrightarrow> a \<noteq> None"
  shows "revision_with_state blake3 k n d st c a =
    Ok \<lparr>rv_profile_id = k, rv_revision = n, rv_definition = d, rv_state = st, rv_created = c, rv_activated = a\<rparr>"
  using assms by (auto simp: revision_with_state_def revision_validate_def Let_def)

text \<open>Every stored revision, seen through the store's queries.\<close>

lemma row_reads:
  assumes ok: "profile_store_ok blake3 codec db" and r: "r \<in> set (px_revisions db)" and load: "load_state blake3 codec db (pr_id r) = Ok s"
  shows "\<exists>d. load_revision blake3 codec db (pr_id r) (pr_revision r) = Ok (d, pr_created r, pr_activated r) \<and> pc_to codec (pr_json r) = Some d \<and>
    pr_digest r = digest_to_string (rd_definition_digest d) \<and> pr_revision r \<noteq> 0 \<and>
    read_role_profile_revision blake3 codec db (pr_id r) (pr_revision r) =
      Ok \<lparr>rv_profile_id = pr_id r, rv_revision = pr_revision r, rv_definition = d, rv_state = derived_revision_state s (pr_revision r),
        rv_created = pr_created r, rv_activated = pr_activated r\<rparr>"
proof -
  let ?k = "pr_id r"
  from revision_row_loads [OF ok r] obtain d where l: "load_revision blake3 codec db ?k (pr_revision r) = Ok (d, pr_created r, pr_activated r)"
    and d: "pc_to codec (pr_json r) = Some d" "rd_profile_id d = ?k" "pr_digest r = digest_to_string (rd_definition_digest d)" "definition_validate blake3 d = Ok ()"
    by blast
  have "profile_ok blake3 codec db ?k" using ok by (simp add: profile_store_ok_def)
  with load r have n: "pr_revision r \<noteq> 0" by (auto simp: profile_ok_def load_state_Ok revisions_of_def revision_ok_def)
  have "pr_activated r \<noteq> None" if "derived_revision_state s (pr_revision r) = RevisionActive"
  proof -
    have "pf_active s = Some (pr_revision r)" using that by (auto simp: derived_revision_state_def split: if_splits)
    from active_loaded [OF load this] l show ?thesis by auto
  qed
  with revision_with_state_Ok [OF d(4,2) n] l load d n show ?thesis by (auto simp: read_role_profile_revision_def)
qed

lemma read_active_Some:
  assumes ok: "profile_store_ok blake3 codec db"
  shows "read_active_role_profile blake3 codec db k = Ok (Some v) \<longleftrightarrow>
    (\<exists>s n d c a. load_state blake3 codec db k = Ok s \<and> pf_active s = Some n \<and> load_revision blake3 codec db k n = Ok (d, c, a) \<and> a \<noteq> None \<and>
      pf_active_digest s = Some (rd_definition_digest d) \<and>
      v = \<lparr>rv_profile_id = k, rv_revision = n, rv_definition = d, rv_state = RevisionActive, rv_created = c, rv_activated = a\<rparr>)"
proof -
  have "revision_with_state blake3 k n d RevisionActive c a = Ok w \<longleftrightarrow>
      w = \<lparr>rv_profile_id = k, rv_revision = n, rv_definition = d, rv_state = RevisionActive, rv_created = c, rv_activated = a\<rparr>"
    if l: "load_revision blake3 codec db k n = Ok (d, c, a)" and a: "a \<noteq> None" for n d c a w
  proof -
    from loaded_row [OF l] obtain r where r: "r \<in> set (px_revisions db)" "pr_id r = k" "pr_revision r = n" by blast
    obtain s where "load_state blake3 codec db (pr_id r) = Ok s" using revision_row_loads [OF ok r(1)] by blast
    from row_reads [OF ok r(1) this] r have "n \<noteq> 0" by auto
    moreover have "definition_validate blake3 d = Ok ()" "rd_profile_id d = k" using l by (auto simp: load_revision_Ok parse_definition_Ok)
    ultimately show ?thesis using a by (auto simp: revision_with_state_Ok)
  qed
  moreover have "pf_active_digest s = Some (rd_definition_digest d)" if "load_state blake3 codec db k = Ok s" "pf_active s = Some n"
    "load_revision blake3 codec db k n = Ok (d, c, a)" for s n d c a
    using active_loaded [OF that(1,2)] that(3) by auto
  ultimately show ?thesis
    unfolding read_active_role_profile_def rbind_Ok_iff by (fastforce split: option.splits if_splits)
qed

text \<open>
  C11. A profile store never finds its own data corrupt. After any sequence of creations, revisions, activations and
  deactivations, each profile either was never created, and loading it is a plain not-found, or its state loads and
  every revision stored for it can be read back; the active revision, if there is one, is read as active with the
  digest the state names.
\<close>

theorem profiles_readable:
  assumes "profile_codec_ok codec" "(profile_step blake3 codec)\<^sup>*\<^sup>* empty_profiles db"
  shows "(load_state blake3 codec db k = Err (ProfileNotFound k) \<and> \<not> (\<exists>r \<in> set (px_revisions db). pr_id r = k)) \<or>
    (\<exists>s. load_state blake3 codec db k = Ok s \<and>
      (\<forall>r \<in> set (px_revisions db). pr_id r = k \<longrightarrow> is_ok (read_role_profile_revision blake3 codec db k (pr_revision r))) \<and>
      (case pf_active s of
         None \<Rightarrow> read_active_role_profile blake3 codec db k = Ok None
       | Some n \<Rightarrow> \<exists>v. read_active_role_profile blake3 codec db k = Ok (Some v) \<and> rv_revision v = n \<and> rv_state v = RevisionActive \<and>
           pf_active_digest s = Some (rd_definition_digest (rv_definition v))))"
proof -
  have ok: "profile_store_ok blake3 codec db" using profile_steps_ok [OF assms(2,1) empty_profiles_ok] by blast
  then have pok: "profile_ok blake3 codec db k" by (simp add: profile_store_ok_def)
  show ?thesis
  proof (cases "identity_of db k")
    case None
    with pok have "revisions_of db k = []" by (simp add: profile_ok_def)
    moreover from None have "load_state blake3 codec db k = Err (ProfileNotFound k)"
      unfolding load_state_def first_row_find identity_of_def [symmetric] by simp
    ultimately show ?thesis by (auto simp: revisions_of_def filter_empty_conv)
  next
    case (Some p)
    with pok obtain s where s: "load_state blake3 codec db k = Ok s" by (auto simp: profile_ok_def)
    have rows: "is_ok (read_role_profile_revision blake3 codec db k (pr_revision r))" if "r \<in> set (px_revisions db)" "pr_id r = k" for r
      using row_reads [OF ok that(1)] s that(2) by (auto simp: is_ok_iff)
    show ?thesis
    proof (cases "pf_active s")
      case None
      with s rows show ?thesis by (auto simp: read_active_role_profile_def)
    next
      case (Some n)
      from active_loaded [OF s this] obtain d c a where
        l: "load_revision blake3 codec db k n = Ok (d, c, a)" "a \<noteq> None" "pf_active_digest s = Some (rd_definition_digest d)" by blast
      then have "read_active_role_profile blake3 codec db k =
          Ok (Some \<lparr>rv_profile_id = k, rv_revision = n, rv_definition = d, rv_state = RevisionActive, rv_created = c, rv_activated = a\<rparr>)"
        unfolding read_active_Some [OF ok] using s Some by blast
      with s rows Some l(3) show ?thesis by auto
    qed
  qed
qed

text \<open>
  Definitions are frozen: what was read for a definition digest stays readable after any further operations, under
  the same revision number, with the same definition and the same time of creation.
\<close>

theorem revisions_frozen:
  assumes "profile_codec_ok codec" "profile_store_ok blake3 codec db" "(profile_step blake3 codec)\<^sup>*\<^sup>* db db'"
    and "read_role_profile_revision_by_digest blake3 codec db k d = Ok v"
  shows "\<exists>v'. read_role_profile_revision_by_digest blake3 codec db' k d = Ok v' \<and> rv_revision v' = rv_revision v \<and>
    rv_definition v' = rv_definition v \<and> rv_created v' = rv_created v \<and> rv_profile_id v' = k"
proof -
  from profile_steps_ok [OF assms(3,1,2)] have ok': "profile_store_ok blake3 codec db'" and kept: "rows_kept db db'" by blast+
  from assms(4) obtain r where r: "r \<in> set (px_revisions db)" "pr_id r = k" "pr_digest r = digest_to_string d"
    and v: "read_role_profile_revision blake3 codec db k (pr_revision r) = Ok v"
    by (auto simp: read_role_profile_revision_by_digest_def find_Some_iff split: option.splits dest!: nth_mem)
  then obtain s where s: "load_state blake3 codec db (pr_id r) = Ok s" using revision_row_loads [OF assms(2) r(1)] by blast
  from row_reads [OF assms(2) r(1) s] v r(2) obtain e where e: "pc_to codec (pr_json r) = Some e" "rv_definition v = e" "rv_revision v = pr_revision r" "rv_created v = pr_created r"
    by auto
  from kept r(1) obtain r' where r': "r' \<in> set (px_revisions db')" "pr_id r' = k" "pr_revision r' = pr_revision r" "pr_digest r' = digest_to_string d"
    "pr_json r' = pr_json r" "pr_created r' = pr_created r" unfolding rows_kept_def using r by metis
  have "distinct (map pr_digest (px_revisions db'))" using ok' by (simp add: profile_store_ok_def profile_keys_ok_def)
  from find_distinct_key [OF this r'(1)] r'(4) have "List.find (\<lambda>r. pr_digest r = digest_to_string d) (px_revisions db') = Some r'" by simp
  then have "List.find (\<lambda>r. pr_id r = k \<and> pr_digest r = digest_to_string d) (px_revisions db') = Some r'"
    using r'(2,4) by (auto simp: find_Some_iff)
  moreover obtain s' where s': "load_state blake3 codec db' (pr_id r') = Ok s'" using revision_row_loads [OF ok' r'(1)] by blast
  ultimately show ?thesis using row_reads [OF ok' r'(1) s'] r' e by (auto simp: read_role_profile_revision_by_digest_def)
qed

section \<open>The audit trail\<close>

lemma audit_reads:
  assumes ok: "profile_store_ok blake3 codec db" and load: "load_state blake3 codec db k = Ok s" and "limit \<le> 100"
  shows "\<exists>es. audit_of db k = map audit_row_of es \<and> (\<forall>e \<in> set es. record_wf e) \<and> length es = unat (pf_generation s) + 1 \<and>
    audit_history (digest_to_string (pf_state_digest s)) (map audit_row_of es) \<and> wf_digest (pf_state_digest s) \<and>
    read_role_profile_audit db k limit = Ok (take limit (rev es))"
proof -
  from ok have keys: "profile_keys_ok db" and "profile_ok blake3 codec db k" by (simp_all add: profile_store_ok_def)
  moreover from load obtain p where p: "identity_of db k = Some p" by (auto simp: load_state_Ok)
  ultimately have h: "audit_history (digest_to_string (pf_state_digest s)) (audit_of db k)" "wf_digest (pf_state_digest s)"
    "length (audit_of db k) = unat (pf_generation s) + 1" "\<forall>a \<in> set (audit_of db k). audit_ok db k a"
    using load by (auto simp: profile_ok_def)
  from h(4) obtain f where f: "\<And>a. a \<in> set (audit_of db k) \<Longrightarrow> a = audit_row_of (f a) \<and> record_wf (f a) \<and> ae_profile (f a) = k \<and>
      (\<exists>r \<in> set (revisions_of db k). pr_revision r = ae_revision (f a) \<and> pr_digest r = digest_to_string (ae_digest (f a)))"
    unfolding audit_ok_def by metis
  let ?es = "map f (audit_of db k)"
  have rows: "audit_of db k = map audit_row_of ?es" using f by (simp add: map_idI comp_def cong: map_cong)
  have "sorted_wrt (<) (map au_id (audit_of db k))"
    using keys by (auto simp: profile_keys_ok_def audit_of_def sorted_wrt_map sorted_wrt_filter)
  then have "sort_key au_id (audit_of db k) = audit_of db k" by (intro sort_key_id_if_sorted) (simp add: strict_sorted_imp_sorted)
  moreover have "collect_results (parse_audit_row k) (take limit (rev (audit_of db k))) = Ok (take limit (rev ?es))"
    unfolding collect_results_Ok_iff rev_map take_map list.rel_map
    using f audit_row_roundtrip by (intro list.rel_refl_strong) (metis in_set_takeD set_rev)
  moreover have "audit_matches db k (f a) = Ok (f a)" if a: "a \<in> set (audit_of db k)" for a
  proof -
    from f [OF a] obtain r where "r \<in> set (px_revisions db)" "pr_id r = k" "pr_revision r = ae_revision (f a)" "pr_digest r = digest_to_string (ae_digest (f a))"
      by (auto simp: revisions_of_def)
    with find_revision_iff [OF keys, of k "ae_revision (f a)" r] show ?thesis by (simp add: audit_matches_def)
  qed
  then have "collect_results (audit_matches db k) (take limit (rev ?es)) = Ok (take limit (rev ?es))"
    unfolding collect_results_Ok_iff rev_map take_map list.rel_map
    by (intro list.rel_refl_strong) (metis in_set_takeD set_rev)
  moreover have "\<exists>p \<in> set (px_profiles db). pi_id p = k" using p identity_iff [of db k] by simp
  ultimately have "read_role_profile_audit db k limit = Ok (take limit (rev ?es))"
    using assms(3) by (simp add: read_role_profile_audit_def audit_of_def [symmetric])
  with h f show ?thesis by (intro exI [of _ ?es]) (simp add: rows [symmetric] del: map_map)
qed

text \<open>
  The audit trail is complete and chained. For a profile of a reachable store, any allowed number of the latest audit
  records can be read: there is one record per generation; the newest has the digest of the current state, each record
  names as its prior state the digest the record before it produced, and the oldest, the creation, names none.
\<close>

theorem audit_chained:
  assumes "profile_codec_ok codec" "(profile_step blake3 codec)\<^sup>*\<^sup>* empty_profiles db" "load_state blake3 codec db k = Ok s" "limit \<le> 100"
  shows "\<exists>es. read_role_profile_audit db k limit = Ok es \<and> length es = min limit (unat (pf_generation s) + 1) \<and>
    (limit \<noteq> 0 \<longrightarrow> ae_resulting_digest (hd es) = pf_state_digest s) \<and>
    (\<forall>i. Suc i < length es \<longrightarrow> ae_prior_digest (es ! i) = Some (ae_resulting_digest (es ! Suc i))) \<and>
    (unat (pf_generation s) < limit \<longrightarrow> ae_prior_digest (last es) = None)"
proof -
  have ok: "profile_store_ok blake3 codec db" using profile_steps_ok [OF assms(2,1) empty_profiles_ok] by blast
  from audit_reads [OF this assms(3,4)] obtain es where wf: "\<forall>e \<in> set es. record_wf e" "wf_digest (pf_state_digest s)"
    and n: "length es = unat (pf_generation s) + 1" and h: "audit_history (digest_to_string (pf_state_digest s)) (map audit_row_of es)"
    and r: "read_role_profile_audit db k limit = Ok (take limit (rev es))" by blast
  have ne: "es \<noteq> []" using n by auto
  note l = audit_history_links [OF h]
  have res: "digest_to_string (ae_resulting_digest e) = au_resulting_digest (audit_row_of e)"
    "map_option digest_to_string (ae_prior_digest e) = au_prior_digest (audit_row_of e)" for e by (simp_all add: audit_row_of_def)
  have "digest_to_string (ae_resulting_digest (last es)) = digest_to_string (pf_state_digest s)"
    using l ne by (simp add: res last_map)
  then have last: "ae_resulting_digest (last es) = pf_state_digest s"
    using to_string_inj wf ne by (auto simp: record_wf_def)
  have "ae_prior_digest (hd es) = None" using l ne res(2) [of "hd es"] by (simp add: hd_map)
  moreover have link: "ae_prior_digest (es ! Suc i) = Some (ae_resulting_digest (es ! i))" if i: "Suc i < length es" for i
  proof -
    have "map_option digest_to_string (ae_prior_digest (es ! Suc i)) = Some (digest_to_string (ae_resulting_digest (es ! i)))"
      using l i by (simp add: res)
    moreover have "record_wf (es ! Suc i)" "record_wf (es ! i)" using wf(1) i by simp_all
    ultimately show ?thesis by (auto simp: record_wf_def to_string_inj)
  qed
  moreover have "take limit (rev es) ! i = es ! (length es - Suc i)" if "i < length (take limit (rev es))" for i
    using that by (simp add: rev_nth)
  moreover have "hd (take limit (rev es)) = last es" if "limit \<noteq> 0" using that ne by (simp add: hd_take hd_rev)
  moreover have "last (take limit (rev es)) = hd es" if "unat (pf_generation s) < limit" using that n ne by (simp add: last_rev)
  moreover have "length es - Suc i = Suc (length es - Suc (Suc i))" if "Suc i < length es" for i using that by simp
  ultimately show ?thesis using r last n ne
    by (intro exI [of _ "take limit (rev es)"]) (auto simp: min.commute)
qed

section \<open>Optimistic locking\<close>

definition state_parts :: "profile_state \<Rightarrow> u8 list list" where
  "state_parts s = [as_bytes (pf_id s), u64_le (pf_latest s), dg_bytes (pf_latest_digest s)] @
     (case (pf_active s, pf_active_digest s) of (Some n, Some d) \<Rightarrow> [[1], u64_le n, dg_bytes d] | (None, None) \<Rightarrow> [[0]] | _ \<Rightarrow> [[255]]) @
     [u64_le (pf_generation s)]"

definition state_preimage :: "profile_state \<Rightarrow> u8 list" where
  "state_preimage s = fold field_bytes (state_parts s) (hasher_new ''needle-codex-role-profile-state-v1'')"

lemma state_digest_preimage:
  assumes "load_state blake3 codec db k = Ok s"
  shows "pf_state_digest s = blake3 (state_preimage s)" "pf_id s = k" "length k \<le> 64"
proof -
  show "pf_state_digest s = blake3 (state_preimage s)"
    using assms by (auto simp: load_state_Ok compute_state_digest_def state_preimage_def state_parts_def hasher_finish_def field_str_def
      field_digest_def field_u8_def Let_def split: option.splits)
  show "pf_id s = k" "length k \<le> 64"
    using assms by (auto simp: load_state_Ok role_profile_id_new_def split: if_splits)
qed

lemma parse_hex_pairs_length: "parse_hex_pairs t = Ok bs \<Longrightarrow> length bs = length t div 2"
  by (induction t arbitrary: bs rule: parse_hex_pairs.induct) auto

lemma digest_parse_wf: "digest_parse t = Ok d \<Longrightarrow> wf_digest d"
  by (auto simp: digest_parse_def wf_digest_def Let_def dest!: parse_hex_pairs_length split: if_splits)

lemma loaded_digest_wf: "load_revision blake3 codec db k n = Ok (d, c, a) \<Longrightarrow> wf_digest (rd_definition_digest d)"
  by (auto simp: load_revision_Ok parse_definition_Ok intro: digest_parse_wf)

lemma state_digests_wf:
  assumes "load_state blake3 codec db k = Ok s"
  shows "wf_digest (pf_latest_digest s)" "\<forall>d \<in> set_option (pf_active_digest s). wf_digest d"
proof -
  from load_state_latest [OF assms] show "wf_digest (pf_latest_digest s)" using loaded_digest_wf by metis
  show "\<forall>d \<in> set_option (pf_active_digest s). wf_digest d"
  proof (cases "pf_active s")
    case None
    with assms show ?thesis by (auto simp: load_state_Ok load_active_def)
  next
    case (Some n)
    from active_loaded [OF assms this] show ?thesis by (auto dest: loaded_digest_wf)
  qed
qed






section \<open>Activation takes effect\<close>

lemma fold_max_bound: "(\<forall>x \<in> set (n # ns). x \<le> fold max ns (n::u64))"
proof (induction ns arbitrary: n)
  case (Cons y ns)
  from Cons [of "max y n"] show ?case by auto
qed simp

lemma max_revision_bound: "max_revision db k = Some m \<Longrightarrow> r \<in> set (revisions_of db k) \<Longrightarrow> pr_revision r \<le> m"
proof -
  assume m: "max_revision db k = Some m" and r: "r \<in> set (revisions_of db k)"
  show "pr_revision r \<le> m"
  proof (cases "map pr_revision (revisions_of db k)")
    case Nil
    with r show ?thesis by simp
  next
    case (Cons n ns)
    with m have "m = fold max ns n" by (simp add: max_revision_def revisions_of_def)
    moreover have "pr_revision r \<in> set (n # ns)" using r Cons by (metis image_eqI set_map)
    ultimately show ?thesis using fold_max_bound by blast
  qed
qed

lemma load_revision_activated:
  assumes "identity_of db' k = identity_of db k" "revisions_of db' k = map (activate_row k m now) (revisions_of db k)"
    and "load_revision blake3 codec db k n = Ok (d, c, a)"
  shows "load_revision blake3 codec db' k n = Ok (d, c, if n = m then Some now else a)"
proof -
  have "List.find (\<lambda>r. pr_revision r = n) (revisions_of db' k) = map_option (activate_row k m now) (List.find (\<lambda>r. pr_revision r = n) (revisions_of db k))"
    unfolding assms(2) by (rule find_key_map) simp
  moreover from assms(3) obtain r where "List.find (\<lambda>r. pr_revision r = n) (revisions_of db k) = Some r" by (auto simp: load_revision_Ok)
  moreover from this have "pr_id r = k" "pr_revision r = n" by (auto simp: find_Some_iff revisions_of_def dest!: nth_mem)
  ultimately show ?thesis using assms(1,3) by (auto simp: load_revision_Ok activate_row_def)
qed

lemma filter_distinct_key: "distinct (map f xs) \<Longrightarrow> x \<in> set xs \<Longrightarrow> filter (\<lambda>y. f y = f x \<and> P y) xs = (if P x then [x] else [])"
proof (induction xs)
  case (Cons y xs)
  show ?case
  proof (cases "x = y")
    case True
    with Cons.prems(1) have "filter (\<lambda>z. f z = f x \<and> P z) xs = []" by (auto simp: filter_empty_conv) (metis imageI)
    with True show ?thesis by simp
  next
    case False
    with Cons show ?thesis by auto
  qed
qed simp

text \<open>Writing a row of the state table succeeds when it is the profile's row and points at stored revisions.\<close>

lemma update_state_succeeds:
  assumes keys: "profile_keys_ok db" and t: "state_of db k = Some t" and ok: "state_row_checks db (f t)"
  shows "\<exists>db'. update_state k (ts_generation t) f db = Ok (db', 1)"
proof -
  have m: "t \<in> set (px_states db)" "ts_id t = k" using t by (auto simp: state_of_def find_Some_iff)
  have "distinct (map ts_id (px_states db))" using keys by (simp add: profile_keys_ok_def)
  from filter_distinct_key [OF this m(1), of "\<lambda>r. ts_generation r = ts_generation t"] m(2)
  have one: "filter (\<lambda>r. ts_id r = k \<and> ts_generation r = ts_generation t) (px_states db) = [t]" by simp
  show ?thesis unfolding update_state_def Let_def one using ok by simp
qed

lemma insert_audit_succeeds:
  assumes "identity_of db (ai_profile i) \<noteq> None" "ai_revision i \<noteq> 0" "ai_revision i < 0x8000000000000000" "ai_now i < 0x8000000000000000"
    and "record_wf (record_of_input 0 i)" "ai_prior_active i \<noteq> Some 0" "pf_active (ai_resulting i) \<noteq> Some 0"
  shows "\<exists>db'. insert_audit i db = Ok db'"
  using assms identity_iff [of db "ai_profile i"]
  by (auto simp: insert_audit_def Let_def bind_u64_def sql_u64_def record_wf_def record_of_input_def text_size_wf option.set_map)

lemma activation_succeeds:
  assumes codec: "profile_codec_ok codec" and ok: "profile_store_ok blake3 codec db" and hash: "\<forall>b. wf_digest (blake3 b)"
    and load: "load_state blake3 codec db k = Ok s" and l: "load_revision blake3 codec db k n = Ok (d, c, a)"
    and bounds: "unat (pf_generation s) + 1 < 2 ^ 63" "now < 0x8000000000000000"
  shows "\<exists>v db'. activate_role_profile blake3 codec now k n (pf_state_digest s) db = Ok (Ok v, db') \<and>
    read_active_role_profile blake3 codec db' k = Ok (Some v) \<and> rv_revision v = n \<and> rv_definition v = d"
proof (cases "pf_active s = Some n")
  case True
  have a: "a \<noteq> None" "pf_active_digest s = Some (rd_definition_digest d)" using active_loaded [OF load True] l by auto
  then have r: "read_active_role_profile blake3 codec db k =
      Ok (Some \<lparr>rv_profile_id = k, rv_revision = n, rv_definition = d, rv_state = RevisionActive, rv_created = c, rv_activated = a\<rparr>)"
    unfolding read_active_Some [OF ok] using load True l by blast
  then have "revision_with_state blake3 k n d RevisionActive c a =
      Ok \<lparr>rv_profile_id = k, rv_revision = n, rv_definition = d, rv_state = RevisionActive, rv_created = c, rv_activated = a\<rparr>"
    using load l True by (auto simp: read_active_role_profile_def split: if_splits)
  with r load l True a(1) show ?thesis
    by (simp add: activate_role_profile_def activate_role_profile_inner_def compare_state_def del: rbind_Ok_iff)
next
  case False
  obtain p where p: "identity_of db k = Some p" and old: "\<forall>r \<in> set (revisions_of db k). revision_ok blake3 codec k (pi_role p) r"
    by (rule loaded_profile [OF ok load])
  from load obtain t d0 c0 a0 where t: "state_of db k = Some t" and role: "is_ok (parse_role (pi_role p))" and mx: "max_revision db k = Some (ts_latest t)"
    and gen: "unat (ts_latest t) - 1 \<le> unat (ts_generation t)" and l0: "load_revision blake3 codec db k (ts_latest t) = Ok (d0, c0, a0)"
    and k: "role_profile_id_new k = Ok k" using p by (auto simp: load_state_Ok)
  note s = load_state_row [OF load t]
  have keys: "profile_keys_ok db" using ok by (simp add: profile_store_ok_def)
  have row: "m \<noteq> 0 \<and> m < 0x8000000000000000 \<and> has_revision db k m \<and> m \<le> ts_latest t" if "load_revision blake3 codec db k m = Ok (e, x, y)" for m e x y
  proof -
    from loaded_row [OF that] obtain r where "r \<in> set (revisions_of db k)" "pr_revision r = m" by (auto simp: revisions_of_def)
    with old max_revision_bound [OF mx] show ?thesis by (auto simp: revision_ok_def has_revision_def revisions_of_def)
  qed
  let ?g = "ts_generation t + 1"
  have g: "checked_add (pf_generation s) 1 = Some ?g" "unat ?g = unat (ts_generation t) + 1" "?g < 0x8000000000000000"
    using bounds(1) s(3) by (simp_all add: checked_add_def unat_word_ariths word_less_nat_alt)
  let ?db1 = "db\<lparr>px_revisions := map (activate_row k n now) (px_revisions db)\<rparr>"
  let ?f = "\<lambda>r. r\<lparr>ts_active := Some n, ts_generation := ?g, ts_updated := now\<rparr>"
  have w: "update_activated k n now db = Ok ?db1"
    using row [OF l] bounds(2) by (simp add: update_activated_def activate_row_def [abs_def] bind_u64_def sql_u64_def)
  note w' = update_activated_Ok [OF w]
  have keys1: "profile_keys_ok ?db1" using keys by (simp add: profile_keys_ok_def comp_def)
  have "has_revision ?db1 k m \<longleftrightarrow> has_revision db k m" for m by (simp add: has_revision_def)
  then have "state_row_checks ?db1 (?f t)"
    using row [OF l] row [OF l0] state_of_id [OF t] by (simp add: state_row_checks_def word_gt_0)
  moreover have t1: "state_of ?db1 k = Some t" using t by simp
  ultimately obtain db2 where u: "update_state k (ts_generation t) ?f ?db1 = Ok (db2, 1)"
    using update_state_succeeds [OF keys1, of k t ?f] by blast
  obtain ss where db2: "db2 = ?db1\<lparr>px_states := ss\<rparr>" and t2: "state_of db2 k = Some (?f t)"
    by (rule update_state_Ok [OF u refl keys1]) (use t1 in auto)
  have id: "identity_of db2 k = identity_of db k" and rs: "revisions_of db2 k = map (activate_row k n now) (revisions_of db k)"
    using w'(2) by (simp_all add: db2)
  note la = load_revision_activated [OF id rs]
  have mx2: "max_revision db2 k = Some (ts_latest t)" using mx rs by (simp add: max_revision_def revisions_of_def [symmetric] comp_def)
  let ?s = "\<lparr>pf_id = k, pf_latest = ts_latest t, pf_latest_digest = rd_definition_digest d0, pf_active = Some n,
         pf_active_digest = Some (rd_definition_digest d), pf_generation = ?g, pf_updated = now,
         pf_state_digest = compute_state_digest blake3 k (ts_latest t) (rd_definition_digest d0) (Some n) (Some (rd_definition_digest d)) ?g\<rparr>"
  have "load_active blake3 codec db2 k (Some n) = Ok (Some (rd_definition_digest d))" using la [OF l] by (simp add: load_active_def)
  then have load2: "load_state blake3 codec db2 k = Ok ?s"
    unfolding load_state_Ok using id p role t2 mx2 la [OF l0] k gen g(2) row [OF l] by simp
  let ?i = "\<lparr>ai_profile = k, ai_revision = n, ai_digest = rd_definition_digest d, ai_operation = AuditActivate,
      ai_prior_state = Some (derived_revision_state s n), ai_resulting_state = RevisionActive, ai_prior_digest = Some (pf_state_digest s),
      ai_resulting = ?s, ai_prior_active = pf_active s, ai_prior_active_digest = pf_active_digest s, ai_now = now\<rparr>"
  have act: "m \<noteq> 0" if "pf_active s = Some m" for m
  proof -
    from active_loaded [OF load that] obtain e x y where "load_revision blake3 codec db k m = Ok (e, x, y)" by blast
    from row [OF this] show ?thesis by blast
  qed
  have "\<forall>e \<in> set_option (pf_active_digest s). wf_digest e"
    using state_digests_wf [OF load] by blast
  moreover have "wf_digest (pf_state_digest s)" using hash state_digest_preimage(1) [OF load] by simp
  ultimately have "record_wf (record_of_input 0 ?i)"
    using loaded_digest_wf [OF l] hash by (auto simp: record_wf_def record_of_input_def compute_state_digest_def hasher_finish_def Let_def)
  then obtain db' where ins: "insert_audit ?i db2 = Ok db'"
    using insert_audit_succeeds [of db2 ?i] id p row [OF l] bounds(2) act by auto
  let ?v = "\<lparr>rv_profile_id = k, rv_revision = n, rv_definition = d, rv_state = RevisionActive, rv_created = c, rv_activated = Some now\<rparr>"
  have "definition_validate blake3 d = Ok ()" "rd_profile_id d = k" using l by (auto simp: load_revision_Ok parse_definition_Ok)
  then have v: "revision_with_state blake3 k n d RevisionActive c (Some now) = Ok ?v" using row [OF l] by (simp add: revision_with_state_Ok)
  have com: "activate_role_profile blake3 codec now k n (pf_state_digest s) db = Ok (Ok ?v, db')"
    using False g(3) by (simp add: activate_role_profile_def activate_role_profile_inner_def compare_state_def load l w g(1) u load2 ins v s(3) [symmetric]
      bind_u64_def sql_u64_def del: rbind_Ok_iff) (simp add: s(3) u load2 ins v del: rbind_Ok_iff)
  then have ok': "profile_store_ok blake3 codec db'" using activate_profile_ok [OF _ ok] by (auto simp: activate_role_profile_def)
  have "identity_of db' k = identity_of db2 k" "state_of db' k = state_of db2 k" "revisions_of db' k = revisions_of db2 k"
    using insert_audit_Ok(1) [OF ins] by simp_all
  note fr = load_frame [OF this]
  have "read_active_role_profile blake3 codec db' k = Ok (Some ?v)"
    unfolding read_active_Some [OF ok'] fr using load2 la [OF l] by auto
  with com show ?thesis by (intro exI [of _ ?v] exI [of _ db']) simp
qed

text \<open>
  C14. Activating a stored revision takes effect: with the current state digest, a hash of 32 bytes and counters and clock
  within the database's integers, the activation commits, and the revision it returns is the one that reading the
  active profile gives from then on.
\<close>

theorem activation_takes_effect:
  assumes "profile_codec_ok codec" "profile_store_ok blake3 codec db" "\<forall>b. wf_digest (blake3 b)"
    and "load_state blake3 codec db k = Ok s" "load_revision blake3 codec db k n = Ok (d, c, a)"
    and "unat (pf_generation s) + 1 < 2 ^ 63" "now < 0x8000000000000000"
  shows "\<exists>v db'. activate_role_profile blake3 codec now k n (pf_state_digest s) db = Ok (Ok v, db') \<and>
    read_active_role_profile blake3 codec db' k = Ok (Some v) \<and> rv_revision v = n \<and> rv_definition v = d"
  using assms by (rule activation_succeeds)

text \<open>The created profile, and its activation.\<close>

lemma team_created: "\<exists>db. (profile_step wide_hash plain_codec)\<^sup>*\<^sup>* empty_profiles db \<and> profile_store_ok wide_hash plain_codec db \<and>
    load_state wide_hash plain_codec db ''explorer'' = Ok team_state \<and> load_revision wide_hash plain_codec db ''explorer'' 1 = Ok (team_definition, 5, None)"
proof -
  from team_create obtain v a where c: "create_role_profile wide_hash plain_codec 5 team_definition empty_profiles = Ok (Ok v, team_db\<lparr>px_audit := [a]\<rparr>)"
    by blast
  then have step: "(profile_step wide_hash plain_codec)\<^sup>*\<^sup>* empty_profiles (team_db\<lparr>px_audit := [a]\<rparr>)" by (blast intro: profile_step.create)
  have "load_state wide_hash plain_codec (team_db\<lparr>px_audit := [a]\<rparr>) ''explorer'' = Ok team_state"
    using load_frame(2) [of "team_db\<lparr>px_audit := [a]\<rparr>" "''explorer''" team_db] team_load by simp
  moreover have "load_revision wide_hash plain_codec (team_db\<lparr>px_audit := [a]\<rparr>) ''explorer'' 1 = Ok (team_definition, 5, None)"
    unfolding load_revision_Ok using team_parse by (simp add: team_db_def revisions_of_def identity_of_def team_fields)
  ultimately show ?thesis using step profile_steps_ok [OF step plain_codec_ok empty_profiles_ok] by blast
qed

theorem activation_takes_effect_witness:
  "\<exists>db v db'. (profile_step wide_hash plain_codec)\<^sup>*\<^sup>* empty_profiles db \<and>
     activate_role_profile wide_hash plain_codec 6 ''explorer'' 1 (pf_state_digest team_state) db = Ok (Ok v, db') \<and>
     read_active_role_profile wide_hash plain_codec db' ''explorer'' = Ok (Some v)"
proof -
  from team_created obtain db where db: "(profile_step wide_hash plain_codec)\<^sup>*\<^sup>* empty_profiles db" "profile_store_ok wide_hash plain_codec db"
    "load_state wide_hash plain_codec db ''explorer'' = Ok team_state" "load_revision wide_hash plain_codec db ''explorer'' 1 = Ok (team_definition, 5, None)" by blast
  have "unat (pf_generation team_state) + 1 < 2 ^ 63" by (simp add: team_state_def)
  from activation_takes_effect [OF plain_codec_ok db(2) _ db(3,4) this, of 6] wide_hash_wf db(1) show ?thesis by auto
qed

lemma team_activated: "\<exists>db v db'. (profile_step wide_hash plain_codec)\<^sup>*\<^sup>* empty_profiles db \<and> profile_store_ok wide_hash plain_codec db \<and>
    load_state wide_hash plain_codec db ''explorer'' = Ok team_state \<and>
    activate_role_profile wide_hash plain_codec 6 ''explorer'' 1 (pf_state_digest team_state) db = Ok (Ok v, db') \<and>
    (profile_step wide_hash plain_codec)\<^sup>*\<^sup>* empty_profiles db' \<and>
    read_active_role_profile wide_hash plain_codec db' ''explorer'' = Ok (Some v) \<and> rv_revision v = 1 \<and> rv_definition v = team_definition"
proof -
  from team_created obtain db where db: "(profile_step wide_hash plain_codec)\<^sup>*\<^sup>* empty_profiles db" "profile_store_ok wide_hash plain_codec db"
    "load_state wide_hash plain_codec db ''explorer'' = Ok team_state" "load_revision wide_hash plain_codec db ''explorer'' 1 = Ok (team_definition, 5, None)" by blast
  have "unat (pf_generation team_state) + 1 < 2 ^ 63" by (simp add: team_state_def)
  from activation_succeeds [OF plain_codec_ok db(2) _ db(3,4) this, of 6] wide_hash_wf obtain v db' where
    a: "activate_role_profile wide_hash plain_codec 6 ''explorer'' 1 (pf_state_digest team_state) db = Ok (Ok v, db')"
    and r: "read_active_role_profile wide_hash plain_codec db' ''explorer'' = Ok (Some v)" "rv_revision v = 1" "rv_definition v = team_definition" by auto
  from a have "profile_step wide_hash plain_codec db db'" by (auto simp: activate_role_profile_def intro: profile_step.activate)
  with db(1) have "(profile_step wide_hash plain_codec)\<^sup>*\<^sup>* empty_profiles db'" by simp
  with db a r show ?thesis by blast
qed

section \<open>The lifecycle store's view of profiles\<close>

text \<open>The columns of the profile tables that \<^verbatim>\<open>store/lifecycles.rs\<close> reads.\<close>

definition profile_view :: "'p profile_db \<Rightarrow> 'j store_db \<Rightarrow> 'j store_db" where
  "profile_view pdb db = db\<lparr>
     db_profiles := map (\<lambda>p. \<lparr>pw_id = pi_id p, pw_role = pi_role p\<rparr>) (px_profiles pdb),
     db_profile_states := map (\<lambda>r. \<lparr>sw_id = ts_id r, sw_active = ts_active r\<rparr>) (px_states pdb),
     db_profile_revisions := map (\<lambda>r. \<lparr>vw_id = pr_id r, vw_revision = pr_revision r, vw_digest = pr_digest r, vw_activated = pr_activated r\<rparr>) (px_revisions pdb)\<rparr>"

text \<open>A join on a key that is unique in the joined table contributes the matching row, if any.\<close>

lemma concat_key:
  assumes "distinct (map f xs)" "\<And>x. x \<in> set xs \<Longrightarrow> f x \<noteq> k \<Longrightarrow> g x = []"
  shows "concat (map g xs) = (case List.find (\<lambda>x. f x = k) xs of None \<Rightarrow> [] | Some x \<Rightarrow> g x)"
  using assms
proof (induction xs)
  case (Cons x xs)
  show ?case
  proof (cases "f x = k")
    case True
    have "g y = []" if "y \<in> set xs" for y
    proof -
      have "f y \<in> f ` set xs" using that by blast
      with Cons.prems(1) True have "f y \<noteq> k" by auto
      with Cons.prems(2) that show ?thesis by simp
    qed
    then have "concat (map g xs) = []" by simp
    with True show ?thesis by simp
  next
    case False
    then have "concat (map g xs) = (case List.find (\<lambda>x. f x = k) xs of None \<Rightarrow> [] | Some x \<Rightarrow> g x)"
      using Cons by simp
    with False Cons.prems(2) show ?thesis by simp
  qed
qed simp

text \<open>
  C12. The lifecycle store accepts a worker profile exactly when it is the active one: its count over the joined tables is
  one if and only if reading the active revision of that profile gives the revision, the definition digest and the
  role that the lifecycle froze.
\<close>

theorem profile_bound_iff_active:
  assumes "profile_codec_ok codec" "(profile_step blake3 codec)\<^sup>*\<^sup>* empty_profiles pdb" "wf_digest (pv_definition_digest v)"
  shows "profile_bound (profile_view pdb db) v role \<longleftrightarrow>
    (\<exists>r. read_active_role_profile blake3 codec pdb (pv_profile_id v) = Ok (Some r) \<and> rv_revision r = pv_revision v \<and>
      rd_definition_digest (rv_definition r) = pv_definition_digest v \<and> rd_role (rv_definition r) = role)"
proof -
  have ok: "profile_store_ok blake3 codec pdb" using profile_steps_ok [OF assms(2,1) empty_profiles_ok] by blast
  then have keys: "profile_keys_ok pdb" and pok: "profile_ok blake3 codec pdb (pv_profile_id v)" by (simp_all add: profile_store_ok_def)
  let ?k = "pv_profile_id v" and ?n = "pv_revision v" and ?d = "digest_to_string (pv_definition_digest v)"
  have bound: "profile_bound (profile_view pdb db) v role \<longleftrightarrow>
    (\<exists>p t r. identity_of pdb ?k = Some p \<and> state_of pdb ?k = Some t \<and> find_revision pdb ?k ?n = Some r \<and> pi_role p = codex_role_str role \<and>
      ts_active t = Some ?n \<and> pr_digest r = ?d \<and> pr_activated r \<noteq> None)"
  proof -
    define g where "g p t r = (if ts_id t = pi_id p \<and> pr_id r = pi_id p \<and> ts_active t = Some (pr_revision r) \<and> pi_id p = ?k \<and>
       pi_role p = codex_role_str role \<and> ts_active t = Some ?n \<and> pr_digest r = ?d \<and> pr_activated r \<noteq> None then [()] else [])"
      for p :: identity_row and t :: state_row and r :: "'a revision_row"
    have "profile_bound (profile_view pdb db) v role \<longleftrightarrow>
      length (concat (map (\<lambda>p. concat (map (\<lambda>t. concat (map (g p t) (px_revisions pdb))) (px_states pdb))) (px_profiles pdb))) = 1"
      unfolding profile_bound_def profile_view_def g_def by (simp add: comp_def)
    also have "\<dots> \<longleftrightarrow> (case identity_of pdb ?k of None \<Rightarrow> False | Some p \<Rightarrow> (case state_of pdb ?k of None \<Rightarrow> False | Some t \<Rightarrow>
      (case find_revision pdb ?k ?n of None \<Rightarrow> False | Some r \<Rightarrow> g p t r = [()])))"
    proof -
      have r: "concat (map (g p t) (px_revisions pdb)) = (case find_revision pdb ?k ?n of None \<Rightarrow> [] | Some r \<Rightarrow> g p t r)" for p t
        unfolding find_revision_def first_row_find prod.inject [symmetric] by (rule concat_key) (use keys in \<open>auto simp: profile_keys_ok_def g_def\<close>)
      have t: "concat (map (\<lambda>t. concat (map (g p t) (px_revisions pdb))) (px_states pdb)) =
          (case state_of pdb ?k of None \<Rightarrow> [] | Some t \<Rightarrow> concat (map (g p t) (px_revisions pdb)))" for p
        unfolding state_of_def by (rule concat_key) (use keys in \<open>auto simp: profile_keys_ok_def g_def\<close>)
      have p: "concat (map (\<lambda>p. concat (map (\<lambda>t. concat (map (g p t) (px_revisions pdb))) (px_states pdb))) (px_profiles pdb)) =
          (case identity_of pdb ?k of None \<Rightarrow> [] | Some p \<Rightarrow> concat (map (\<lambda>t. concat (map (g p t) (px_revisions pdb))) (px_states pdb)))"
        unfolding identity_of_def by (rule concat_key) (use keys in \<open>auto simp: profile_keys_ok_def g_def\<close>)
      have one: "length (g p t r) = 1 \<longleftrightarrow> g p t r = [()]" for p t r by (simp add: g_def)
      show ?thesis unfolding p unfolding t unfolding r by (simp add: one [simplified] split: option.split)
    qed
    finally have "profile_bound (profile_view pdb db) v role \<longleftrightarrow> (\<exists>p t r. identity_of pdb ?k = Some p \<and> state_of pdb ?k = Some t \<and>
      find_revision pdb ?k ?n = Some r \<and> g p t r = [()])" by (simp split: option.split)
    moreover have "g p t r = [()] \<longleftrightarrow> pi_role p = codex_role_str role \<and> ts_active t = Some ?n \<and> pr_digest r = ?d \<and> pr_activated r \<noteq> None"
      if "identity_of pdb ?k = Some p" "state_of pdb ?k = Some t" "find_revision pdb ?k ?n = Some r" for p t r
    proof -
      have "pi_id p = ?k" using that(1) by (auto simp: identity_of_def find_Some_iff)
      moreover have "pr_id r = ?k \<and> pr_revision r = ?n" using find_revision_iff [OF keys] that(3) by blast
      moreover have "ts_id t = ?k" using that(2) by (rule state_of_id)
      ultimately show ?thesis by (auto simp: g_def)
    qed
    ultimately show ?thesis by blast
  qed
  have role: "codex_role_str a = codex_role_str b \<longleftrightarrow> a = b" for a b by (cases a; cases b) simp_all
  have row: "find_revision pdb ?k n = Some r \<Longrightarrow> load_revision blake3 codec pdb ?k n = Ok (d, c, a) \<Longrightarrow>
      pr_digest r = digest_to_string (rd_definition_digest d) \<and> a = pr_activated r" for n r d c a
    using revision_row_loads [OF ok, of r] find_revision_iff [OF keys, of ?k n r] by auto
  show ?thesis
  proof
    assume "profile_bound (profile_view pdb db) v role"
    then obtain p t r where p: "identity_of pdb ?k = Some p" "pi_role p = codex_role_str role" and t: "state_of pdb ?k = Some t" "ts_active t = Some ?n"
      and r: "find_revision pdb ?k ?n = Some r" "pr_digest r = ?d" unfolding bound by blast
    from pok p(1) obtain s where s: "load_state blake3 codec pdb ?k = Ok s" by (auto simp: profile_ok_def)
    have act: "pf_active s = Some ?n" using load_state_row(2) [OF s t(1)] t(2) by simp
    from active_loaded [OF s this] obtain d c a where
      l: "load_revision blake3 codec pdb ?k ?n = Ok (d, c, a)" "a \<noteq> None" "pf_active_digest s = Some (rd_definition_digest d)" by blast
    have "rd_definition_digest d = pv_definition_digest v"
      using row [OF r(1) l(1)] r(2) to_string_inj [OF loaded_digest_wf [OF l(1)] assms(3)] by simp
    moreover have "rd_role d = role" using l(1) p role by (auto simp: load_revision_Ok)
    ultimately show "\<exists>r. read_active_role_profile blake3 codec pdb ?k = Ok (Some r) \<and> rv_revision r = ?n \<and>
      rd_definition_digest (rv_definition r) = pv_definition_digest v \<and> rd_role (rv_definition r) = role"
      using s act l unfolding read_active_Some [OF ok] by fastforce
  next
    assume "\<exists>r. read_active_role_profile blake3 codec pdb ?k = Ok (Some r) \<and> rv_revision r = ?n \<and>
      rd_definition_digest (rv_definition r) = pv_definition_digest v \<and> rd_role (rv_definition r) = role"
    then obtain s d c a where s: "load_state blake3 codec pdb ?k = Ok s" "pf_active s = Some ?n" and l: "load_revision blake3 codec pdb ?k ?n = Ok (d, c, a)"
      "a \<noteq> None" and d: "rd_definition_digest d = pv_definition_digest v" "rd_role d = role" unfolding read_active_Some [OF ok] by auto
    from loaded_row [OF l(1)] obtain r where r: "find_revision pdb ?k ?n = Some r" using find_revision_iff [OF keys] by blast
    moreover obtain p t where p: "identity_of pdb ?k = Some p" "state_of pdb ?k = Some t" "ts_active t = Some ?n" using s by (auto simp: load_state_Ok)
    moreover have "pi_role p = codex_role_str role" using l(1) p(1) d(2) by (auto simp: load_revision_Ok)
    moreover have "pr_digest r = ?d" "pr_activated r \<noteq> None" using row [OF r l(1)] l(2) d(1) by auto
    ultimately show "profile_bound (profile_view pdb db) v role" unfolding bound by blast
  qed
qed

theorem profile_bound_iff_active_witness:
  "\<exists>pdb :: role_profile_definition profile_db. \<forall>db :: unit store_db. profile_bound (profile_view pdb db)
     \<lparr>pv_profile_id = ''explorer'', pv_revision = 1, pv_definition_digest = rd_definition_digest team_definition\<rparr> Explorer"
proof -
  from team_activated obtain v db' where db': "(profile_step wide_hash plain_codec)\<^sup>*\<^sup>* empty_profiles db'"
    "read_active_role_profile wide_hash plain_codec db' ''explorer'' = Ok (Some v)" "rv_revision v = 1" "rv_definition v = team_definition" by blast
  let ?p = "\<lparr>pv_profile_id = ''explorer'', pv_revision = 1, pv_definition_digest = rd_definition_digest team_definition\<rparr>"
  have "profile_bound (profile_view db' db) ?p Explorer" for db :: "unit store_db"
    using profile_bound_iff_active [OF plain_codec_ok db'(1), of ?p db Explorer] db'(2-4) team_fields by simp
  then show ?thesis by blast
qed

theorem profiles_readable_witness:
  "\<exists>db s. load_state wide_hash plain_codec db ''explorer'' = Ok s \<and> (\<exists>v. read_active_role_profile wide_hash plain_codec db ''explorer'' = Ok (Some v))"
proof -
  from team_activated obtain v db' where db': "(profile_step wide_hash plain_codec)\<^sup>*\<^sup>* empty_profiles db'"
    "read_active_role_profile wide_hash plain_codec db' ''explorer'' = Ok (Some v)" by blast
  from profiles_readable [OF plain_codec_ok db'(1), of "''explorer''"] db'(2) show ?thesis
    by (auto simp: read_active_role_profile_def)
qed

theorem audit_chained_witness:
  "\<exists>db es. (profile_step wide_hash plain_codec)\<^sup>*\<^sup>* empty_profiles db \<and> read_role_profile_audit db ''explorer'' 7 = Ok es \<and>
     length es = 1 \<and> ae_resulting_digest (hd es) = pf_state_digest team_state"
proof -
  from team_created obtain db where db: "(profile_step wide_hash plain_codec)\<^sup>*\<^sup>* empty_profiles db"
    "load_state wide_hash plain_codec db ''explorer'' = Ok team_state" by blast
  from audit_chained [OF plain_codec_ok db, of 7] db(1) show ?thesis by (auto simp: team_state_def)
qed


end
