(* ===== verification/Spec2Isabelle.thy ===== *)
theory Spec2Isabelle
  imports Planner_Proofs Lifecycle_Theorems Approval_Theorems Claim_Theorems Claim_Advisory Multi_Need Routing Parser_Theorems Envelope_Theorems
    Lifecycle_Store_Theorems Profile_Store_Theorems
begin

text \<open>
  A verification library for the core of Needle: a Rust system that answers a coding agent's
  information needs from validated artifacts, plans which artifacts to reuse, and drives code changes
  through a reviewed development lifecycle. The sources are the crates under \<^verbatim>\<open>src/crates\<close>; the
  product's own decision logic is in \<^verbatim>\<open>needle-core\<close> and in \<^verbatim>\<open>needle-runtime\<close> (\<^verbatim>\<open>proof.rs\<close>, \<^verbatim>\<open>approval.rs\<close>, \<^verbatim>\<open>store\<close>).

  \<^bold>\<open>How the parts interact.\<close> An agent message is parsed into a need (\<^verbatim>\<open>lib.rs\<close>, \<^verbatim>\<open>semantic.rs\<close>). A parsed need (\<open>NeedIr\<close>) is compiled against a route contract into a need
  with typed obligations (\<^verbatim>\<open>semantic.rs\<close>). The proof planner (\<^verbatim>\<open>proof.rs\<close>) selects reusable artifacts
  that cover the obligations, issues a sufficiency certificate and can replay it. Workers run under
  role profiles (\<^verbatim>\<open>role_profile.rs\<close>); route plans and test plans (\<^verbatim>\<open>artifact.rs\<close>) bound what they
  execute. A change request leads to a patch and a verification artifact (\<^verbatim>\<open>change.rs\<close>), and the
  development lifecycle (\<^verbatim>\<open>lifecycle.rs\<close>, \<^verbatim>\<open>lifecycle/model.rs\<close>) moves them through explore, implement,
  test, review, verify and apply with an event journal, which the store (\<^verbatim>\<open>store/lifecycles.rs\<close>) persists and guards. Validated artifacts also yield claims
  (\<^verbatim>\<open>claim.rs\<close>) that answer single obligations while their evidence is unchanged (\<^verbatim>\<open>claim_proof.rs\<close>). The commands a worker wants to run pass the
  approval broker (\<^verbatim>\<open>needle-core/src/approval.rs\<close>, \<^verbatim>\<open>needle-runtime/src/approval.rs\<close>). Every identity is a BLAKE3 digest of a
  length-framed preimage built by \<open>CanonicalHasher\<close> (\<^verbatim>\<open>semantic.rs\<close>).

  \<^bold>\<open>Theories.\<close>
  \<^item> \<open>Prelude\<close>: machine integers, Rust results, strings as bytes, slices, ordered maps (with the
    locale \<open>ordered_map\<close>, interpreted on the association lists that model \<open>BTreeMap\<close>).
  \<^item> \<open>Digests\<close>: \<open>Digest\<close> and its text form (\<^verbatim>\<open>lib.rs\<close>), the canonical hasher; round trip, injective
    framing, and the line-ending encoder against its reference.
  \<^item> \<open>Text_Ops\<close>: the operations of \<open>str\<close> on UTF-8 bytes that the parsers share.
  \<^item> \<open>Need_Parser\<close>: the legacy marker parser of \<^verbatim>\<open>lib.rs\<close>, the typed parser of \<^verbatim>\<open>semantic.rs\<close> and the interrupt that
    combines them. \<open>Parser_Lemmas\<close>: lines, markers and names. \<open>Need_Text\<close>: a reference printer and how its lines
    are read. \<open>Parser_Theorems\<close>: what parsed needs satisfy, and the round trips.
  \<^item> \<open>Semantic\<close>, \<open>Need_Compiler\<close>: the data of \<^verbatim>\<open>semantic.rs\<close>, and \<open>compile_need\<close> with its merge, bounds,
    identities and fragments; soundness of a compiled need, exact conflict detection.
  \<^item> \<open>Planner_DP\<close>: locales for a dynamic program over bit masks (\<open>mask_dp\<close> and its extensions), with the
    invariants and the optimality of the table. \<open>Planner\<close>: the definitions of \<^verbatim>\<open>proof.rs\<close>.
    \<open>Planner_Proofs\<close>: the validity table and the economics table interpret the locales; soundness,
    optimality, cheapest cost, replay of certificates, and when planning panics.
  \<^item> \<open>Commands\<close>: route plans, test commands and test plans of \<^verbatim>\<open>artifact.rs\<close>.
  \<^item> \<open>Role_Profile\<close>: \<^verbatim>\<open>role_profile.rs\<close> and the worker configuration of \<^verbatim>\<open>domain.rs\<close>.
  \<^item> \<open>Change\<close>: \<^verbatim>\<open>change.rs\<close>; identity of patches, order of requests, what a canonical verified artifact shows.
  \<^item> \<open>Lifecycle\<close>: every operation of \<^verbatim>\<open>lifecycle.rs\<close> and \<^verbatim>\<open>lifecycle/model.rs\<close>. \<open>Lifecycle_Machine\<close>: an
    abstract stage machine, the simulation, reachability, the locale \<open>ranked_machine\<close> (interpreted on the
    stage machine and on the code's transitions), accounting, replay. \<open>Lifecycle_Theorems\<close>: a concrete
    lifecycle and the properties.
  \<^item> \<open>Paths\<close>: Unix paths and the file-system parameter. \<open>Approval\<close>: the approval requests, policies and the
    broker with all its parsers and path checks. \<open>Approval_Proofs\<close>: the outcomes of a classification as a
    relation, sessions of broker calls, the locale \<open>metered_service\<close> (interpreted on the broker: budgets),
    the order of verifier plans. \<open>Command_Text\<close>: the command parsers on ASCII text. \<open>Approval_Theorems\<close>: what
    automatic approvals and accepted evidence imply, and three gaps of the path checks.
  \<^item> \<open>Claims\<close>: claims, relations and the two kinds of claim certificates with their identities (\<^verbatim>\<open>claim.rs\<close>).
    \<open>Claim_Proof\<close>: \<^verbatim>\<open>claim_proof.rs\<close>, the selection of fresh claims for the obligations of a need, and the freshness
    check of \<^verbatim>\<open>semantic_validation.rs\<close>. \<open>Flow_Chain\<close>: the degree and walk check on flow steps accepts exactly
    the single paths. \<open>Claim_Lemmas\<close>, \<open>Claim_Theorems\<close>: what a claim-set certificate proves, its replay, two
    ambiguous identities. \<open>Claim_Advisory\<close>: the claim advisory of \<^verbatim>\<open>proof.rs\<close> and its replay.
  \<^item> \<open>Multi_Need\<close>: \<^verbatim>\<open>multi_need.rs\<close>, the relation between two needs of a task read as the existence of shared answers.
  \<^item> \<open>Routing\<close>: routes and presets of \<^verbatim>\<open>domain.rs\<close>, \<^verbatim>\<open>router.rs\<close> and \<^verbatim>\<open>model_ladder.rs\<close>; selection does not depend on
    the order of the configuration, and the ladder's record is what its executor saw.
  \<^item> \<open>Envelope\<close>: what the agent is shown, the prompt profiles, continuation and fallback envelopes of \<^verbatim>\<open>lib.rs\<close> and the
    evidence briefs and cache identities of \<^verbatim>\<open>domain.rs\<close>. \<open>Envelope_Theorems\<close>: envelopes are delimited and bounded, and
    what the identities pin down.
  \<^item> \<open>Semantic_Artifact\<close>: artifact contracts, requests, manifests and worker artifacts with their identities
    (\<^verbatim>\<open>artifact.rs\<close>), validation certificates (\<^verbatim>\<open>semantic.rs\<close>, \<^verbatim>\<open>semantic_validation.rs\<close>).
  \<^item> \<open>Lifecycle_Store\<close>: the operations of \<^verbatim>\<open>store/lifecycles.rs\<close> as transactions on the tables they read and write, with
    the constraints and triggers of the schema in \<^verbatim>\<open>store.rs\<close>. \<open>Lifecycle_Store_Proofs\<close>: the locale \<open>event_sourced\<close>,
    interpreted on the lifecycle's own replay; consistent stores and that every operation keeps them so.
    \<open>Lifecycle_Store_Demo\<close>: a concrete database. \<open>Lifecycle_Store_Theorems\<close>: the journal always replays to the
    stored state, no update is lost, results are backed by stored artifacts, approvals bind.
  \<^item> \<open>Profile_Store\<close>: the operations of \<^verbatim>\<open>store/role_profiles.rs\<close> and its modules on the four profile tables.
    \<open>Profile_Store_Proofs\<close>: consistent stores, with the audit trail as a second interpretation of \<open>event_sourced\<close>; every
    operation keeps them. \<open>Profile_Store_Demo\<close>: a created profile. \<open>Profile_Store_Theorems\<close>: profiles are always
    readable, definitions frozen, the audit trail chained, activation takes effect, no update is lost, and the
    lifecycle store's check of a profile agrees with the active revision.
  \<^item> this theory: properties that span components.

  \<^bold>\<open>Conventions.\<close> A Rust \<open>struct\<close> is a record, an \<open>enum\<close> a datatype, \<open>Result\<close> the type \<open>result\<close>; a
  function that may panic returns an \<open>outcome\<close>. Integers keep their width; \<open>usize\<close> lengths are
  natural numbers. \<open>&mut self\<close> is state passing. A \<open>str\<close> is its UTF-8 bytes. BLAKE3, \<open>serde_json\<close> and the
  clock are parameters; theorems on identities hold up to a collision of the two preimages compared.
  Paths follow the Unix rules of \<open>std::path\<close>. No definition uses fuel: all loops of the modelled code
  recurse on lists or have a measure.

  The database is a record of tables; a transaction is a function that returns the new database or an error that
  leaves the old one, and SQLite runs transactions one after the other.

  \<^bold>\<open>Not modelled.\<close> The other tables and queries of the SQLite store, the asynchronous orchestrator and executor,
  sandbox, snapshot and git effects, the semantic resolver over repository contents, the Codex adapter, the
  application servers and the benchmark harnesses: they are input and output around the logic above. Still open:
  the projection of claims into artifacts and the artifact cache.
\<close>

section \<open>From a compiled need to a replayable plan\<close>

text \<open>
  C24. Needs that come out of the compiler are planned safely: with the default proof budget and
  candidates whose costs do not overflow together, \<open>plan\<close> does not panic on a compiled need, and every
  certificate it issues for such a need is accepted by \<open>replay\<close> (for candidates in which an artifact and
  its validation determine the coverage).
\<close>

theorem compiled_need_plans:
  assumes "compile_need blake3 ir lineage route = Ok n" and "total_cost cs < 2 ^ 64"
    and "\<forall>c \<in> set cs. \<forall>d \<in> set cs. cd_artifact c = cd_artifact d \<and> cd_validation c = cd_validation d \<longrightarrow>
      cd_coverage c = cd_coverage d"
  shows "fst (plan blake3 p n cs overhead fresh default_proof_budget) \<noteq> Panic \<and>
    (\<forall>pl cert. fst (plan blake3 p n cs overhead fresh default_proof_budget) = Return (Ok pl) \<longrightarrow>
       pn_certificate pl = Some cert \<longrightarrow> replay blake3 (pp_engine p) n cert cs)"
proof -
  have "length (nd_required n) \<le> 3" "sorted_wrt (<) (map ob_id (nd_required n))"
    using compile_need_sound_raw [OF assms(1)] by blast+
  then have "length (nd_required n) \<le> unat (pb_max_artifacts default_proof_budget)" "distinct (map ob_id (nd_required n))"
    by (simp_all add: default_proof_budget_def strict_sorted_iff)
  with plan_no_panic_raw [OF _ assms(2)] plan_certificate_replays_raw [OF _ _ _ assms(3)] show ?thesis by blast
qed

theorem compiled_need_plans_witness:
  "\<exists>n. compile_need length_hash (sample_ir [tests_expression] []) (Digest []) (locate_route length_hash) = Ok n \<and>
     fst (plan length_hash (planner_new length_hash) n [single_candidate] 0 None default_proof_budget) \<noteq> Panic"
proof -
  obtain n where n: "compile_need length_hash (sample_ir [tests_expression] []) (Digest []) (locate_route length_hash) = Ok n"
    by (rule sample_required_compiles)
  have "total_cost [single_candidate] < 2 ^ 64" by (simp add: total_cost_def single_candidate_def sample_candidate_def)
  with compiled_need_plans [OF n this] n show ?thesis by simp
qed

section \<open>What the test phase of a lifecycle can run\<close>




end
